(* ===== verification/Prelude.thy ===== *)
theory Prelude
  imports Main "HOL-Library.List_Lexorder" "HOL-Library.Char_ord"
begin

text \<open>
  Shared vocabulary of the development.

  The generated C of the program specialises every higher-order list function it calls into a
  loop of its own (a \<open>goto _start\<close> loop with an accumulator).  The locales below state, once,
  what such a loop computes: each fixes the loop and assumes its two equations (the empty list,
  one iteration), and concludes which function of the HOL list library it is.  Every component
  interprets them on its own loops.

  \<^item> \<open>exists_loop\<close> / \<open>all_loop\<close>: a scan that stops at the first hit (miss);
  \<^item> \<open>find_loop\<close>: a scan that returns the first hit;
  \<^item> \<open>filter_loop\<close> / \<open>map_loop\<close>: an accumulator loop whose accumulator is reversed at the end;
  \<^item> \<open>fold_loop\<close>: a left fold.

  Strings are HOL strings (lists of characters, the bytes of the UTF-8 encoding) and their order
  is the lexicographic one of \<open>List_Lexorder\<close>.
\<close>

named_theorems loop_simps \<open>loops of the generated code as functions of the list library\<close>
named_theorems decide_simps \<open>generated decision procedures as the relations they decide\<close>
named_theorems inv_intros \<open>operations that keep an invariant\<close>

type_synonym key = string

section \<open>Scanning loops\<close>

locale exists_loop =
  fixes p :: "'a \<Rightarrow> bool" and loop :: "'a list \<Rightarrow> bool"
  assumes loop_Nil: "loop [] = False"
    and loop_Cons: "loop (x # xs) = (if p x then True else loop xs)"
begin

lemma loop_eq: "loop xs = (\<exists>x \<in> set xs. p x)"
  by (induction xs) (auto simp: loop_Nil loop_Cons)

lemma loop_append: "loop (xs @ ys) = (loop xs \<or> loop ys)"
  by (auto simp: loop_eq)

end

locale all_loop =
  fixes p :: "'a \<Rightarrow> bool" and loop :: "'a list \<Rightarrow> bool"
  assumes loop_Nil: "loop [] = True"
    and loop_Cons: "loop (x # xs) = (if p x then loop xs else False)"
begin

lemma loop_eq: "loop xs = (\<forall>x \<in> set xs. p x)"
  by (induction xs) (auto simp: loop_Nil loop_Cons)

lemma loop_list_all: "loop xs = list_all p xs"
  by (simp add: loop_eq list_all_iff)

end

locale find_loop =
  fixes p :: "'a \<Rightarrow> bool" and loop :: "'a list \<Rightarrow> 'a option"
  assumes loop_Nil: "loop [] = None"
    and loop_Cons: "loop (x # xs) = (if p x then Some x else loop xs)"
begin

lemma loop_find: "loop xs = List.find p xs"
  by (induction xs) (simp_all add: loop_Nil loop_Cons)

lemma loop_None: "loop xs = None \<longleftrightarrow> (\<forall>x \<in> set xs. \<not> p x)"
  by (induction xs) (auto simp: loop_Nil loop_Cons)

lemma loop_SomeD: "loop xs = Some x \<Longrightarrow> x \<in> set xs \<and> p x"
  by (induction xs) (auto simp: loop_Nil loop_Cons split: if_splits)

lemma loop_Some_split:
  "loop xs = Some x \<Longrightarrow> \<exists>ys zs. xs = ys @ x # zs \<and> p x \<and> (\<forall>y \<in> set ys. \<not> p y)"
proof (induction xs)
  case Nil
  then show ?case by (simp add: loop_Nil)
next
  case (Cons y xs)
  show ?case
  proof (cases "p y")
    case True
    with Cons.prems have "x = y" by (simp add: loop_Cons)
    with True have "y # xs = [] @ x # xs \<and> p x \<and> (\<forall>y \<in> set []. \<not> p y)" by simp
    then show ?thesis by blast
  next
    case False
    with Cons.prems have "loop xs = Some x" by (simp add: loop_Cons)
    then obtain ys zs where "xs = ys @ x # zs" "p x" "\<forall>y \<in> set ys. \<not> p y"
      using Cons.IH by blast
    with False have "y # xs = (y # ys) @ x # zs \<and> p x \<and> (\<forall>y \<in> set (y # ys). \<not> p y)" by simp
    then show ?thesis by blast
  qed
qed

end

section \<open>Accumulating loops\<close>

locale filter_loop =
  fixes p :: "'a \<Rightarrow> bool" and loop :: "'a list \<Rightarrow> 'a list \<Rightarrow> 'a list"
  assumes loop_Nil: "loop [] acc = rev acc"
    and loop_Cons: "loop (x # xs) acc = (if p x then loop xs (x # acc) else loop xs acc)"
begin

lemma loop_acc: "loop xs acc = rev acc @ filter p xs"
  by (induction xs arbitrary: acc) (simp_all add: loop_Nil loop_Cons)

lemma loop_filter: "loop xs [] = filter p xs"
  by (simp add: loop_acc)

end

locale map_loop =
  fixes f :: "'a \<Rightarrow> 'b" and loop :: "'a list \<Rightarrow> 'b list \<Rightarrow> 'b list"
  assumes loop_Nil: "loop [] acc = rev acc"
    and loop_Cons: "loop (x # xs) acc = loop xs (f x # acc)"
begin

lemma loop_acc: "loop xs acc = rev acc @ map f xs"
  by (induction xs arbitrary: acc) (simp_all add: loop_Nil loop_Cons)

lemma loop_map: "loop xs [] = map f xs"
  by (simp add: loop_acc)

end

locale fold_loop =
  fixes f :: "'s \<Rightarrow> 'a \<Rightarrow> 's" and loop :: "'s \<Rightarrow> 'a list \<Rightarrow> 's"
  assumes loop_Nil: "loop s [] = s"
    and loop_Cons: "loop s (x # xs) = loop (f s x) xs"
begin

lemma loop_foldl: "loop s xs = foldl f s xs"
  by (induction xs arbitrary: s) (simp_all add: loop_Nil loop_Cons)

lemma loop_append: "loop s (xs @ ys) = loop (loop s xs) ys"
  by (simp add: loop_foldl)

end

section \<open>List facts the components share\<close>

lemma find_filter_hd: "List.find p xs = (case filter p xs of [] \<Rightarrow> None | x # _ \<Rightarrow> Some x)"
  by (induction xs) auto

lemma find_map_of: "map_option snd (List.find (\<lambda>q. fst q = k) xs) = map_of xs k"
  by (induction xs) auto

lemma map_of_eq_None_keys: "map_of xs k = None \<longleftrightarrow> k \<notin> fst ` set xs"
  by (induction xs) auto

lemma distinct_map_filter: "distinct (map f xs) \<Longrightarrow> distinct (map f (filter p xs))"
  by (induction xs) auto

lemma filter_length_less: "x \<in> set xs \<Longrightarrow> \<not> p x \<Longrightarrow> length (filter p xs) < length xs"
  by (simp add: length_filter_less)

end
