(* ===== verification/LeanList.thy ===== *)
theory LeanList
  imports Prelude
begin

text \<open>
  The list, pair and option functions of Lean's core library that the program contains in
  compiled form (\<open>Init-Prelude.c\<close>, \<open>Init-Data-List-Basic.c\<close>, \<open>Init-Core.c\<close>,
  \<open>Init-Data-Option-Basic.c\<close> and the summation in
  \<open>Lean-Data-Iterators-Producers-PersistentHashMap.c\<close>).  Each is translated as it is written,
  tail-recursive loops with their accumulators included, and then shown equal to the function of
  the HOL library it implements; those equations are simp rules, so the components reason about
  HOL lists.
\<close>

section \<open>Reversal, append, length\<close>

fun List_reverseAux :: "'a list \<Rightarrow> 'a list \<Rightarrow> 'a list" where
  "List_reverseAux [] acc = acc"
| "List_reverseAux (x # xs) acc = List_reverseAux xs (x # acc)"

definition List_reverse :: "'a list \<Rightarrow> 'a list" where
  "List_reverse xs = List_reverseAux xs []"

definition List_appendTR :: "'a list \<Rightarrow> 'a list \<Rightarrow> 'a list" where
  "List_appendTR xs ys = List_reverseAux (List_reverse xs) ys"

fun List_lengthTRAux :: "'a list \<Rightarrow> nat \<Rightarrow> nat" where
  "List_lengthTRAux [] n = n"
| "List_lengthTRAux (_ # xs) n = List_lengthTRAux xs (n + 1)"

definition List_lengthTR :: "'a list \<Rightarrow> nat" where
  "List_lengthTR xs = List_lengthTRAux xs 0"

lemma List_reverseAux_eq: "List_reverseAux xs acc = rev xs @ acc"
  by (induction xs arbitrary: acc) simp_all

lemma List_reverse_eq [simp]: "List_reverse xs = rev xs"
  by (simp add: List_reverse_def List_reverseAux_eq)

lemma List_appendTR_eq [simp]: "List_appendTR xs ys = xs @ ys"
  by (simp add: List_appendTR_def List_reverseAux_eq)

lemma List_lengthTRAux_eq: "List_lengthTRAux xs n = length xs + n"
  by (induction xs arbitrary: n) simp_all

lemma List_lengthTR_eq [simp]: "List_lengthTR xs = length xs"
  by (simp add: List_lengthTR_def List_lengthTRAux_eq)

section \<open>Selection\<close>

fun List_drop :: "nat \<Rightarrow> 'a list \<Rightarrow> 'a list" where
  "List_drop n xs =
     (if n = 0 then xs
      else case xs of [] \<Rightarrow> xs | _ # ys \<Rightarrow> List_drop (n - 1) ys)"

declare List_drop.simps [simp del]

lemma List_drop_eq [simp]: "List_drop n xs = drop n xs"
proof (induction n xs rule: List_drop.induct)
  case (1 n xs)
  then show ?case
    by (subst List_drop.simps) (auto simp: drop_Cons' split: list.splits)
qed

definition List_head :: "'a list \<Rightarrow> 'a option" where
  "List_head xs = (case xs of [] \<Rightarrow> None | x # _ \<Rightarrow> Some x)"

lemma List_head_simps [simp]: "List_head [] = None" "List_head (x # xs) = Some x"
  by (simp_all add: List_head_def)

lemma List_head_Some: "List_head xs = Some x \<Longrightarrow> x \<in> set xs"
  by (cases xs) auto

fun List_range_loop :: "nat \<Rightarrow> nat list \<Rightarrow> nat list" where
  "List_range_loop n acc =
     (if n = 0 then acc else List_range_loop (n - 1) ((n - 1) # acc))"

declare List_range_loop.simps [simp del]

definition List_range :: "nat \<Rightarrow> nat list" where
  "List_range n = List_range_loop n []"

lemma List_range_loop_eq: "List_range_loop n acc = [0..<n] @ acc"
proof (induction n arbitrary: acc)
  case 0
  then show ?case by (simp add: List_range_loop.simps)
next
  case (Suc n)
  then show ?case by (simp add: List_range_loop.simps [of "Suc n"])
qed

lemma List_range_eq [simp]: "List_range n = [0..<n]"
  by (simp add: List_range_def List_range_loop_eq)

section \<open>Sums\<close>

fun List_foldr_add :: "nat \<Rightarrow> nat list \<Rightarrow> nat" where
  "List_foldr_add z [] = z"
| "List_foldr_add z (x # xs) = x + List_foldr_add z xs"

definition List_sum :: "nat list \<Rightarrow> nat" where
  "List_sum xs = List_foldr_add 0 xs"

lemma List_sum_eq [simp]: "List_sum xs = sum_list xs"
  by (induction xs) (simp_all add: List_sum_def)

section \<open>Decision procedures\<close>

fun List_decidableBAll :: "('a \<Rightarrow> bool) \<Rightarrow> 'a list \<Rightarrow> bool" where
  "List_decidableBAll p [] = True"
| "List_decidableBAll p (x # xs) = (if p x then List_decidableBAll p xs else False)"

fun List_instDecidablePairwise :: "('a \<Rightarrow> 'a \<Rightarrow> bool) \<Rightarrow> 'a list \<Rightarrow> bool" where
  "List_instDecidablePairwise r [] = True"
| "List_instDecidablePairwise r (x # xs) =
     (if List_instDecidablePairwise r xs then List_decidableBAll (r x) xs else False)"

definition List_instDecidableEqNil :: "'a list \<Rightarrow> bool" where
  "List_instDecidableEqNil xs = (case xs of [] \<Rightarrow> True | _ # _ \<Rightarrow> False)"

fun List_hasDecEq :: "('a \<Rightarrow> 'b \<Rightarrow> bool) \<Rightarrow> 'a list \<Rightarrow> 'b list \<Rightarrow> bool" where
  "List_hasDecEq eq [] [] = True"
| "List_hasDecEq eq [] (_ # _) = False"
| "List_hasDecEq eq (_ # _) [] = False"
| "List_hasDecEq eq (x # xs) (y # ys) =
     (let tails = List_hasDecEq eq xs ys
      in if eq x y then (if tails then tails else False) else False)"

definition instDecidableEqList :: "('a \<Rightarrow> 'b \<Rightarrow> bool) \<Rightarrow> 'a list \<Rightarrow> 'b list \<Rightarrow> bool" where
  "instDecidableEqList eq xs ys =
     (case xs of
        [] \<Rightarrow> (case ys of [] \<Rightarrow> True | _ # _ \<Rightarrow> False)
      | x # xs' \<Rightarrow>
          (case ys of
             [] \<Rightarrow> False
           | y # ys' \<Rightarrow> (if eq x y then List_hasDecEq eq xs' ys' else False)))"

definition instDecidableEqProd ::
  "('a \<Rightarrow> 'c \<Rightarrow> bool) \<Rightarrow> ('b \<Rightarrow> 'd \<Rightarrow> bool) \<Rightarrow> 'a \<times> 'b \<Rightarrow> 'c \<times> 'd \<Rightarrow> bool" where
  "instDecidableEqProd eqa eqb p q =
     (if eqa (fst p) (fst q) then eqb (snd p) (snd q) else False)"

definition Option_instDecidableEq ::
  "('a \<Rightarrow> 'b \<Rightarrow> bool) \<Rightarrow> 'a option \<Rightarrow> 'b option \<Rightarrow> bool" where
  "Option_instDecidableEq eq x y =
     (case x of
        None \<Rightarrow> (case y of None \<Rightarrow> True | Some _ \<Rightarrow> False)
      | Some a \<Rightarrow> (case y of None \<Rightarrow> False | Some b \<Rightarrow> eq a b))"

lemma List_decidableBAll_eq [simp]: "List_decidableBAll p xs = (\<forall>x \<in> set xs. p x)"
  by (induction xs) auto

lemma List_instDecidablePairwise_eq [simp]:
  "List_instDecidablePairwise r xs = sorted_wrt r xs"
  by (induction xs) auto

lemma List_instDecidableEqNil_eq [simp]: "List_instDecidableEqNil xs = (xs = [])"
  by (simp add: List_instDecidableEqNil_def split: list.splits)

lemma List_hasDecEq_eq: "List_hasDecEq eq xs ys = list_all2 eq xs ys"
  by (induction eq xs ys rule: List_hasDecEq.induct) (simp_all add: Let_def)

lemma instDecidableEqList_all2: "instDecidableEqList eq xs ys = list_all2 eq xs ys"
  by (auto simp: instDecidableEqList_def List_hasDecEq_eq split: list.splits)

lemma instDecidableEqList_eq [simp]: "instDecidableEqList (=) xs ys = (xs = ys)"
  by (simp add: instDecidableEqList_all2 list.rel_eq)

lemma instDecidableEqProd_eq [simp]: "instDecidableEqProd (=) (=) p q = (p = q)"
  by (auto simp: instDecidableEqProd_def prod_eq_iff)

lemma instDecidableEqProd_fun_eq [simp]: "instDecidableEqProd (=) (=) = (=)"
  by (simp add: fun_eq_iff)

lemma Option_instDecidableEq_eq [simp]: "Option_instDecidableEq (=) x y = (x = y)"
  by (simp add: Option_instDecidableEq_def split: option.splits)

end
