(* ===== verification/Pools.thy ===== *)
theory Pools
  imports LeanList
begin

text \<open>
  Concurrency pools and their queue (\<open>CapDAG-Bifaci-Pools.c\<close>).  A call runs in a chain of named
  pools: its cap's own pool, the pools it shares with others and the pool of all calls.  A
  \<open>State\<close> holds the pools (capacity zero is no limit), the queue of the calls that wait, in order of
  arrival, and the next ticket.  A call is admitted when every pool of its chain has room; a release
  makes room, and \<open>State_settle\<close> then admits everything that fits.
\<close>

section \<open>Data\<close>

record Pool =
  pool_name :: string
  capacity :: nat
  active :: nat

record Waiter =
  ticket :: nat
  waiter_chain :: "string list"

record State =
  pools :: "Pool list"
  queue :: "Waiter list"
  next_ticket :: nat

datatype PoolArrival =
    Arrival_admitted State
  | Arrival_queued State nat nat
  | Arrival_unknownPool string

datatype Patience =
    Patience_unbounded
  | Patience_atMost nat
  | Patience_exhausted

fun PoolArrival_ctorIdx :: "PoolArrival \<Rightarrow> nat" where
  "PoolArrival_ctorIdx (Arrival_admitted _) = 0"
| "PoolArrival_ctorIdx (Arrival_queued _ _ _) = 1"
| "PoolArrival_ctorIdx (Arrival_unknownPool _) = 2"

fun Patience_ctorIdx :: "Patience \<Rightarrow> nat" where
  "Patience_ctorIdx Patience_unbounded = 0"
| "Patience_ctorIdx (Patience_atMost _) = 1"
| "Patience_ctorIdx Patience_exhausted = 2"

section \<open>Pools and room\<close>

fun name_elem :: "string \<Rightarrow> string list \<Rightarrow> bool" where
  "name_elem a [] = False"
| "name_elem a (x # xs) = (if a = x then True else name_elem a xs)"

definition Pool_hasRoom :: "Pool \<Rightarrow> bool" where
  "Pool_hasRoom p = (if capacity p = 0 then True else active p < capacity p)"

fun hasRoom_all :: "string list \<Rightarrow> Pool list \<Rightarrow> bool" where
  "hasRoom_all c [] = True"
| "hasRoom_all c (p # ps) =
     (if name_elem (pool_name p) c then (if Pool_hasRoom p then hasRoom_all c ps else False)
      else hasRoom_all c ps)"

definition State_hasRoom :: "State \<Rightarrow> string list \<Rightarrow> bool" where
  "State_hasRoom s c = hasRoom_all c (pools s)"

fun pool_find :: "string \<Rightarrow> Pool list \<Rightarrow> Pool option" where
  "pool_find n [] = None"
| "pool_find n (p # ps) = (if pool_name p = n then Some p else pool_find n ps)"

definition State_pool :: "State \<Rightarrow> string \<Rightarrow> Pool option" where
  "State_pool s n = pool_find n (pools s)"

fun unknown_find :: "State \<Rightarrow> string list \<Rightarrow> string option" where
  "unknown_find s [] = None"
| "unknown_find s (n # ns) =
     (case State_pool s n of None \<Rightarrow> Some n | Some _ \<Rightarrow> unknown_find s ns)"

definition State_unknown :: "State \<Rightarrow> string list \<Rightarrow> string option" where
  "State_unknown s c = unknown_find s c"

fun take_loop :: "string list \<Rightarrow> Pool list \<Rightarrow> Pool list \<Rightarrow> Pool list" where
  "take_loop c [] acc = List_reverse acc"
| "take_loop c (p # ps) acc =
     take_loop c ps
       ((if name_elem (pool_name p) c then p\<lparr>active := active p + 1\<rparr> else p) # acc)"

definition State_take :: "State \<Rightarrow> string list \<Rightarrow> State" where
  "State_take s c = s\<lparr>pools := take_loop c (pools s) []\<rparr>"

fun release_loop :: "string list \<Rightarrow> Pool list \<Rightarrow> Pool list \<Rightarrow> Pool list" where
  "release_loop c [] acc = List_reverse acc"
| "release_loop c (p # ps) acc =
     release_loop c ps
       ((if name_elem (pool_name p) c then p\<lparr>active := active p - 1\<rparr> else p) # acc)"

definition State_release :: "State \<Rightarrow> string list \<Rightarrow> State" where
  "State_release s c = s\<lparr>pools := release_loop c (pools s) []\<rparr>"

fun setCapacity_loop :: "string \<Rightarrow> nat \<Rightarrow> Pool list \<Rightarrow> Pool list \<Rightarrow> Pool list" where
  "setCapacity_loop n cap [] acc = List_reverse acc"
| "setCapacity_loop n cap (p # ps) acc =
     setCapacity_loop n cap ps ((if pool_name p = n then p\<lparr>capacity := cap\<rparr> else p) # acc)"

definition State_setCapacity :: "State \<Rightarrow> string \<Rightarrow> nat \<Rightarrow> State" where
  "State_setCapacity s n cap =
     (case State_pool s n of
        None \<Rightarrow>
          s\<lparr>pools := List_appendTR (pools s) [\<lparr>pool_name = n, capacity = cap, active = 0\<rparr>]\<rparr>
      | Some _ \<Rightarrow> s\<lparr>pools := setCapacity_loop n cap (pools s) []\<rparr>)"

section \<open>The queue\<close>

definition State_empty :: State where
  "State_empty = \<lparr>pools = [], queue = [], next_ticket = 0\<rparr>"

definition State_enqueue :: "State \<Rightarrow> string list \<Rightarrow> State \<times> nat" where
  "State_enqueue s c =
     (s\<lparr>queue := List_appendTR (queue s) [\<lparr>ticket = next_ticket s, waiter_chain = c\<rparr>],
        next_ticket := next_ticket s + 1\<rparr>,
      next_ticket s)"

fun leave_loop :: "nat \<Rightarrow> Waiter list \<Rightarrow> Waiter list \<Rightarrow> Waiter list" where
  "leave_loop t [] acc = List_reverse acc"
| "leave_loop t (w # ws) acc =
     (if ticket w = t then leave_loop t ws acc else leave_loop t ws (w # acc))"

definition State_leave :: "State \<Rightarrow> nat \<Rightarrow> State" where
  "State_leave s t = s\<lparr>queue := leave_loop t (queue s) []\<rparr>"

fun nextUp_find :: "State \<Rightarrow> Waiter list \<Rightarrow> Waiter option" where
  "nextUp_find s [] = None"
| "nextUp_find s (w # ws) =
     (if State_hasRoom s (waiter_chain w) then Some w else nextUp_find s ws)"

definition State_nextUp :: "State \<Rightarrow> Waiter option" where
  "State_nextUp s = nextUp_find s (queue s)"

fun admitted_loop :: "Waiter \<Rightarrow> Waiter list \<Rightarrow> Waiter list \<Rightarrow> Waiter list" where
  "admitted_loop v [] acc = List_reverse acc"
| "admitted_loop v (w # ws) acc =
     (if ticket w = ticket v then admitted_loop v ws acc else admitted_loop v ws (w # acc))"

definition State_admitted :: "State \<Rightarrow> Waiter \<Rightarrow> State" where
  "State_admitted s w =
     State_take (s\<lparr>queue := admitted_loop w (queue s) []\<rparr>) (waiter_chain w)"

definition State_admit :: "State \<Rightarrow> nat \<Rightarrow> State option" where
  "State_admit s t =
     (case State_nextUp s of
        None \<Rightarrow> None
      | Some w \<Rightarrow> (if ticket w = t then Some (State_admitted s w) else None))"

definition State_admitNext :: "State \<Rightarrow> (Waiter \<times> State) option" where
  "State_admitNext s =
     (case State_nextUp s of
        None \<Rightarrow> None
      | Some w \<Rightarrow> Some (w, State_admitted s w))"

definition head_beq :: "string option \<Rightarrow> string option \<Rightarrow> bool" where
  "head_beq x y =
     (case x of
        None \<Rightarrow> (case y of None \<Rightarrow> True | Some _ \<Rightarrow> False)
      | Some a \<Rightarrow> (case y of None \<Rightarrow> False | Some b \<Rightarrow> a = b))"

fun ticket_find :: "nat \<Rightarrow> Waiter list \<Rightarrow> Waiter option" where
  "ticket_find t [] = None"
| "ticket_find t (w # ws) = (if ticket w = t then Some w else ticket_find t ws)"

text \<open>The waiters ahead of a ticket: the accumulator is the generated code's array, whose \<open>push\<close>
  appends; a scan that meets no such ticket returns the whole list it was started on.\<close>

fun ahead_go :: "nat \<Rightarrow> Waiter list \<Rightarrow> Waiter list \<Rightarrow> Waiter list \<Rightarrow> Waiter list" where
  "ahead_go t whole [] acc = whole"
| "ahead_go t whole (w # ws) acc =
     (if ticket w = t then acc else ahead_go t whole ws (acc @ [w]))"

fun samePool_loop :: "Waiter \<Rightarrow> Waiter list \<Rightarrow> Waiter list \<Rightarrow> Waiter list" where
  "samePool_loop v [] acc = List_reverse acc"
| "samePool_loop v (w # ws) acc =
     (if head_beq (List_head (waiter_chain w)) (List_head (waiter_chain v))
      then samePool_loop v ws (w # acc) else samePool_loop v ws acc)"

definition State_position :: "State \<Rightarrow> nat \<Rightarrow> nat" where
  "State_position s t =
     (case ticket_find t (queue s) of
        None \<Rightarrow> 0
      | Some w \<Rightarrow> List_lengthTR (samePool_loop w (ahead_go t (queue s) (queue s) []) []) + 1)"

fun heldBack_loop :: "string \<Rightarrow> State \<Rightarrow> Waiter list \<Rightarrow> Waiter list \<Rightarrow> Waiter list" where
  "heldBack_loop n s [] acc = List_reverse acc"
| "heldBack_loop n s (w # ws) acc =
     (let keep =
        (if head_beq (List_head (waiter_chain w)) (Some n) then True
         else if name_elem n (waiter_chain w) then
           (case State_pool s n of
              None \<Rightarrow> False
            | Some p \<Rightarrow> (if Pool_hasRoom p then False else True))
         else False)
      in if keep then heldBack_loop n s ws (w # acc) else heldBack_loop n s ws acc)"

definition State_heldBack :: "State \<Rightarrow> string \<Rightarrow> nat" where
  "State_heldBack s n = List_lengthTR (heldBack_loop n s (queue s) [])"

section \<open>Arrivals and settling\<close>

definition State_join :: "State \<Rightarrow> string list \<Rightarrow> PoolArrival" where
  "State_join s c =
     (case unknown_find s c of
        None \<Rightarrow>
          (case State_enqueue s c of (s', t) \<Rightarrow> Arrival_queued s' t (State_position s' t))
      | Some n \<Rightarrow> Arrival_unknownPool n)"

definition State_arrive :: "State \<Rightarrow> string list \<Rightarrow> PoolArrival" where
  "State_arrive s c =
     (case State_join s c of
        Arrival_queued s' t p \<Rightarrow>
          (case State_admit s' t of
             None \<Rightarrow> Arrival_queued s' t p
           | Some s'' \<Rightarrow> Arrival_admitted s'')
      | r \<Rightarrow> r)"

fun State_settleWithin :: "nat \<Rightarrow> State \<Rightarrow> State \<times> nat list" where
  "State_settleWithin k s =
     (if k = 0 then (s, [])
      else case State_admitNext s of
        None \<Rightarrow> (s, [])
      | Some (w, s') \<Rightarrow>
          (case State_settleWithin (k - 1) s' of (s'', ts) \<Rightarrow> (s'', ticket w # ts)))"

declare State_settleWithin.simps [simp del]

definition State_settle :: "State \<Rightarrow> State \<times> nat list" where
  "State_settle s = State_settleWithin (List_lengthTR (queue s)) s"

section \<open>Chains, limits, patience\<close>

definition pools_all :: string where
  "pools_all = ''all''"

fun shared_loop ::
  "string \<Rightarrow> (string \<times> string list) list \<Rightarrow> (string \<times> string list) list
    \<Rightarrow> (string \<times> string list) list" where
  "shared_loop cap [] acc = List_reverse acc"
| "shared_loop cap (g # gs) acc =
     (if name_elem cap (snd g) then shared_loop cap gs (g # acc) else shared_loop cap gs acc)"

fun names_loop :: "(string \<times> string list) list \<Rightarrow> string list \<Rightarrow> string list" where
  "names_loop [] acc = List_reverse acc"
| "names_loop (g # gs) acc = names_loop gs (fst g # acc)"

definition pools_chain :: "string \<Rightarrow> (string \<times> string list) list \<Rightarrow> string list" where
  "pools_chain cap shared =
     cap # List_appendTR (names_loop (shared_loop cap shared []) []) [pools_all]"

definition effective :: "nat \<Rightarrow> nat option \<Rightarrow> nat" where
  "effective configured available =
     (case available of
        None \<Rightarrow> configured
      | Some room \<Rightarrow>
          (if room = 0 then configured
           else if configured = 0 then room
           else if configured \<le> room then configured else room))"

definition advertised :: "bool \<Rightarrow> string \<Rightarrow> nat \<Rightarrow> nat option \<Rightarrow> nat" where
  "advertised running pool configured available =
     (if running then effective configured available
      else if pool = pools_all then 1
      else effective configured available)"

definition patience :: "nat option \<Rightarrow> nat \<Rightarrow> Patience" where
  "patience elapsed grace =
     (case elapsed of
        None \<Rightarrow> Patience_unbounded
      | Some e \<Rightarrow> (if e < grace then Patience_atMost (grace - e) else Patience_exhausted))"

section \<open>Equality tests\<close>

definition instDecidableEqPool :: "Pool \<Rightarrow> Pool \<Rightarrow> bool" where
  "instDecidableEqPool x y =
     (if pool_name x = pool_name y
      then (if capacity x = capacity y then active x = active y else False) else False)"

definition instDecidableEqWaiter :: "Waiter \<Rightarrow> Waiter \<Rightarrow> bool" where
  "instDecidableEqWaiter x y =
     (if ticket x = ticket y then instDecidableEqList (=) (waiter_chain x) (waiter_chain y)
      else False)"

definition instDecidableEqState :: "State \<Rightarrow> State \<Rightarrow> bool" where
  "instDecidableEqState x y =
     (if instDecidableEqList instDecidableEqPool (pools x) (pools y)
      then (if instDecidableEqList instDecidableEqWaiter (queue x) (queue y)
            then next_ticket x = next_ticket y else False)
      else False)"

definition instDecidableEqPoolArrival :: "PoolArrival \<Rightarrow> PoolArrival \<Rightarrow> bool" where
  "instDecidableEqPoolArrival x y =
     (case x of
        Arrival_admitted s \<Rightarrow>
          (case y of Arrival_admitted s' \<Rightarrow> instDecidableEqState s s' | _ \<Rightarrow> False)
      | Arrival_queued s t p \<Rightarrow>
          (case y of
             Arrival_queued s' t' p' \<Rightarrow>
               (if instDecidableEqState s s' then (if t = t' then p = p' else False) else False)
           | _ \<Rightarrow> False)
      | Arrival_unknownPool n \<Rightarrow>
          (case y of Arrival_unknownPool n' \<Rightarrow> n = n' | _ \<Rightarrow> False))"

definition instDecidableEqPatience :: "Patience \<Rightarrow> Patience \<Rightarrow> bool" where
  "instDecidableEqPatience x y =
     (case x of
        Patience_unbounded \<Rightarrow> (case y of Patience_unbounded \<Rightarrow> True | _ \<Rightarrow> False)
      | Patience_atMost m \<Rightarrow> (case y of Patience_atMost n \<Rightarrow> m = n | _ \<Rightarrow> False)
      | Patience_exhausted \<Rightarrow> (case y of Patience_exhausted \<Rightarrow> True | _ \<Rightarrow> False))"

section \<open>Lemmas: the loops\<close>

interpretation names_scan: exists_loop "\<lambda>x. a = x" "name_elem a" for a
  by unfold_locales simp_all

lemma name_elem_eq [simp, loop_simps]: "name_elem a xs = (a \<in> set xs)"
  by (auto simp: names_scan.loop_eq)

interpretation room_scan: all_loop "\<lambda>p. pool_name p \<in> set c \<longrightarrow> Pool_hasRoom p" "hasRoom_all c" for c
  by unfold_locales simp_all

interpretation pool_scan: find_loop "\<lambda>p. pool_name p = n" "pool_find n" for n
  by unfold_locales simp_all

interpretation unknown_scan: find_loop "\<lambda>n. State_pool s n = None" "unknown_find s" for s
  by unfold_locales (auto split: option.splits)

interpretation take_map: map_loop
  "\<lambda>p. if pool_name p \<in> set c then p\<lparr>active := active p + 1\<rparr> else p" "take_loop c" for c
  by unfold_locales simp_all

interpretation release_map: map_loop
  "\<lambda>p. if pool_name p \<in> set c then p\<lparr>active := active p - 1\<rparr> else p" "release_loop c" for c
  by unfold_locales simp_all

interpretation capacity_map: map_loop
  "\<lambda>p. if pool_name p = n then p\<lparr>capacity := cap\<rparr> else p" "setCapacity_loop n cap" for n cap
  by unfold_locales simp_all

interpretation leave_filter: filter_loop "\<lambda>w. ticket w \<noteq> t" "leave_loop t" for t
  by unfold_locales simp_all

interpretation next_scan: find_loop "\<lambda>w. State_hasRoom s (waiter_chain w)" "nextUp_find s" for s
  by unfold_locales simp_all

interpretation admitted_filter: filter_loop "\<lambda>w. ticket w \<noteq> ticket v" "admitted_loop v" for v
  by unfold_locales simp_all

interpretation ticket_scan: find_loop "\<lambda>w. ticket w = t" "ticket_find t" for t
  by unfold_locales simp_all

lemma head_beq_eq [simp, loop_simps]: "head_beq x y = (x = y)"
  by (simp add: head_beq_def split: option.splits)

interpretation same_filter: filter_loop
  "\<lambda>w. List_head (waiter_chain w) = List_head (waiter_chain v)" "samePool_loop v" for v
  by unfold_locales simp_all

definition is_held_back :: "string \<Rightarrow> State \<Rightarrow> Waiter \<Rightarrow> bool" where
  "is_held_back n s w \<longleftrightarrow>
     List_head (waiter_chain w) = Some n \<or>
     n \<in> set (waiter_chain w) \<and> (\<exists>p. State_pool s n = Some p \<and> \<not> Pool_hasRoom p)"

interpretation held_filter: filter_loop "is_held_back n s" "heldBack_loop n s" for n s
  by unfold_locales (auto simp: is_held_back_def Let_def split: option.splits)

interpretation shared_filter: filter_loop "\<lambda>g. cap \<in> set (snd g)" "shared_loop cap" for cap
  by unfold_locales simp_all

interpretation names_map: map_loop fst names_loop
  by unfold_locales simp_all

lemma ahead_go_eq:
  "ahead_go t whole ws acc =
     (if t \<in> ticket ` set ws then acc @ takeWhile (\<lambda>w. ticket w \<noteq> t) ws else whole)"
  by (induction ws arbitrary: acc) auto

section \<open>Lemmas: equality tests\<close>

lemma instDecidableEqPool_eq [decide_simps]: "instDecidableEqPool x y = (x = y)"
  by (cases x; cases y) (simp add: instDecidableEqPool_def)

lemma instDecidableEqWaiter_eq [decide_simps]: "instDecidableEqWaiter x y = (x = y)"
  by (cases x; cases y) (simp add: instDecidableEqWaiter_def)

lemma instDecidableEqState_eq [decide_simps]: "instDecidableEqState x y = (x = y)"
proof -
  have "instDecidableEqPool = (=)" "instDecidableEqWaiter = (=)"
    by (simp_all add: fun_eq_iff decide_simps)
  then show ?thesis by (cases x; cases y) (simp add: instDecidableEqState_def)
qed

lemma instDecidableEqPoolArrival_eq [decide_simps]: "instDecidableEqPoolArrival x y = (x = y)"
  by (cases x; cases y) (simp_all add: instDecidableEqPoolArrival_def decide_simps)

lemma instDecidableEqPatience_eq [decide_simps]: "instDecidableEqPatience x y = (x = y)"
  by (cases x; cases y) (simp_all add: instDecidableEqPatience_def)

section \<open>Lemmas: the operations over HOL lists\<close>

lemma State_hasRoom_iff [loop_simps]:
  "State_hasRoom s c \<longleftrightarrow> (\<forall>p \<in> set (pools s). pool_name p \<in> set c \<longrightarrow> Pool_hasRoom p)"
  by (simp add: State_hasRoom_def room_scan.loop_eq)

lemma State_hasRoom_pools: "pools s = pools s' \<Longrightarrow> State_hasRoom s = State_hasRoom s'"
  by (simp add: State_hasRoom_def fun_eq_iff)

lemma State_pool_None [loop_simps]: "State_pool s n = None \<longleftrightarrow> n \<notin> pool_name ` set (pools s)"
  by (auto simp: State_pool_def pool_scan.loop_None)

lemma State_pool_SomeD: "State_pool s n = Some p \<Longrightarrow> p \<in> set (pools s) \<and> pool_name p = n"
  by (auto simp: State_pool_def dest: pool_scan.loop_SomeD)

lemma unknown_find_None [loop_simps]:
  "unknown_find s c = None \<longleftrightarrow> set c \<subseteq> pool_name ` set (pools s)"
  by (auto simp: unknown_scan.loop_None loop_simps)

lemma State_take_fields [simp]:
  "pools (State_take s c) =
     map (\<lambda>p. if pool_name p \<in> set c then p\<lparr>active := active p + 1\<rparr> else p) (pools s)"
  "queue (State_take s c) = queue s"
  "next_ticket (State_take s c) = next_ticket s"
  by (simp_all add: State_take_def take_map.loop_map)

lemma State_release_fields [simp]:
  "pools (State_release s c) =
     map (\<lambda>p. if pool_name p \<in> set c then p\<lparr>active := active p - 1\<rparr> else p) (pools s)"
  "queue (State_release s c) = queue s"
  "next_ticket (State_release s c) = next_ticket s"
  by (simp_all add: State_release_def release_map.loop_map)

lemma State_leave_fields [simp]:
  "pools (State_leave s t) = pools s"
  "queue (State_leave s t) = filter (\<lambda>w. ticket w \<noteq> t) (queue s)"
  "next_ticket (State_leave s t) = next_ticket s"
  by (simp_all add: State_leave_def leave_filter.loop_filter)

lemma State_setCapacity_fields [simp]:
  "pools (State_setCapacity s n cap) =
     (if n \<in> pool_name ` set (pools s)
      then map (\<lambda>p. if pool_name p = n then p\<lparr>capacity := cap\<rparr> else p) (pools s)
      else pools s @ [\<lparr>pool_name = n, capacity = cap, active = 0\<rparr>])"
  "queue (State_setCapacity s n cap) = queue s"
  "next_ticket (State_setCapacity s n cap) = next_ticket s"
  using State_pool_None [of s n]
  by (auto simp: State_setCapacity_def capacity_map.loop_map split: option.splits)

lemma State_admitted_fields [simp]:
  "pools (State_admitted s w) =
     map (\<lambda>p. if pool_name p \<in> set (waiter_chain w) then p\<lparr>active := active p + 1\<rparr> else p) (pools s)"
  "queue (State_admitted s w) = filter (\<lambda>v. ticket v \<noteq> ticket w) (queue s)"
  "next_ticket (State_admitted s w) = next_ticket s"
  by (simp_all add: State_admitted_def admitted_filter.loop_filter)

lemma State_enqueue_eq:
  "State_enqueue s c =
     (s\<lparr>queue := queue s @ [\<lparr>ticket = next_ticket s, waiter_chain = c\<rparr>],
        next_ticket := Suc (next_ticket s)\<rparr>, next_ticket s)"
  by (simp add: State_enqueue_def)

lemma State_nextUp_Some:
  "State_nextUp s = Some w \<Longrightarrow> w \<in> set (queue s) \<and> State_hasRoom s (waiter_chain w)"
  by (auto simp: State_nextUp_def dest: next_scan.loop_SomeD)

lemma State_nextUp_None:
  "State_nextUp s = None \<longleftrightarrow> (\<forall>w \<in> set (queue s). \<not> State_hasRoom s (waiter_chain w))"
  by (simp add: State_nextUp_def next_scan.loop_None)

lemma State_admit_Some:
  "State_admit s t = Some s' \<longleftrightarrow>
     (\<exists>w. State_nextUp s = Some w \<and> ticket w = t \<and> s' = State_admitted s w)"
  by (auto simp: State_admit_def split: option.splits)

lemma State_position_eq:
  "State_position s t =
     (case ticket_find t (queue s) of
        None \<Rightarrow> 0
      | Some w \<Rightarrow>
          length (filter (\<lambda>v. List_head (waiter_chain v) = List_head (waiter_chain w))
            (takeWhile (\<lambda>v. ticket v \<noteq> t) (queue s))) + 1)"
  by (auto simp: State_position_def same_filter.loop_filter ahead_go_eq
      dest!: ticket_scan.loop_SomeD split: option.splits)

lemma State_heldBack_eq: "State_heldBack s n = length (filter (is_held_back n s) (queue s))"
  by (simp add: State_heldBack_def held_filter.loop_filter)

lemma pools_chain_eq:
  "pools_chain cap shared = cap # map fst (filter (\<lambda>g. cap \<in> set (snd g)) shared) @ [pools_all]"
  by (simp add: pools_chain_def names_map.loop_map shared_filter.loop_filter)

section \<open>Settling\<close>

text \<open>A loop that admits one waiter after another, with fuel: when each admission makes the queue
  shorter, fuel for the whole queue is enough, and the loop stops only when nobody can be
  admitted.\<close>

locale draining =
  fixes up :: "'s \<Rightarrow> 'w option" and adm :: "'s \<Rightarrow> 'w \<Rightarrow> 's" and size_of :: "'s \<Rightarrow> nat"
    and settle :: "nat \<Rightarrow> 's \<Rightarrow> 's \<times> 'i list" and key_of :: "'w \<Rightarrow> 'i"
  assumes adm_size: "up s = Some w \<Longrightarrow> size_of (adm s w) < size_of s"
    and settle_0: "settle 0 s = (s, [])"
    and settle_None: "up s = None \<Longrightarrow> settle k s = (s, [])"
    and settle_Some: "up s = Some w \<Longrightarrow> settle (Suc k) s =
      (fst (settle k (adm s w)), key_of w # snd (settle k (adm s w)))"
begin

lemma settle_done: "size_of s \<le> k \<Longrightarrow> up (fst (settle k s)) = None"
proof (induction k arbitrary: s)
  case 0
  then have "up s = None" using adm_size [of s] by (cases "up s") auto
  then show ?case by (simp add: settle_0)
next
  case (Suc k)
  show ?case
  proof (cases "up s")
    case None
    then show ?thesis by (simp add: settle_None)
  next
    case (Some w)
    then have "size_of (adm s w) \<le> k" using adm_size [OF Some] Suc.prems by simp
    then show ?thesis using Suc.IH Some by (simp add: settle_Some)
  qed
qed

lemma settle_fuel: "size_of s \<le> k \<Longrightarrow> size_of s \<le> l \<Longrightarrow> settle k s = settle l s"
proof (induction k arbitrary: s l)
  case 0
  then have "up s = None" using adm_size [of s] by (cases "up s") auto
  then show ?case by (simp add: settle_None)
next
  case (Suc k)
  show ?case
  proof (cases "up s")
    case None
    then show ?thesis by (simp add: settle_None)
  next
    case (Some w)
    note less = adm_size [OF Some]
    then obtain l' where l': "l = Suc l'" using Suc.prems(2) by (cases l) auto
    have "settle k (adm s w) = settle l' (adm s w)"
      using less Suc.prems l' by (intro Suc.IH) simp_all
    then show ?thesis by (simp add: settle_Some [OF Some] l')
  qed
qed

lemma settle_invariant:
  assumes "\<And>s w. P s \<Longrightarrow> up s = Some w \<Longrightarrow> P (adm s w)" and "P s"
  shows "P (fst (settle k s))"
  using assms(2)
proof (induction k arbitrary: s)
  case 0
  then show ?case by (simp add: settle_0)
next
  case (Suc k)
  then show ?case
    by (cases "up s") (simp_all add: settle_None settle_Some assms(1))
qed

lemma settle_trace:
  assumes step: "\<And>s ws w. Q s ws \<Longrightarrow> up s = Some w \<Longrightarrow> Q (adm s w) (ws @ [w])" and "Q s ws"
  shows "\<exists>vs. snd (settle k s) = map key_of vs \<and> Q (fst (settle k s)) (ws @ vs)"
  using assms(2)
proof (induction k arbitrary: s ws)
  case 0
  then show ?case by (simp add: settle_0)
next
  case (Suc k)
  show ?case
  proof (cases "up s")
    case None
    with Suc.prems show ?thesis by (simp add: settle_None)
  next
    case (Some w)
    obtain vs where "snd (settle k (adm s w)) = map key_of vs"
        "Q (fst (settle k (adm s w))) ((ws @ [w]) @ vs)"
      using Suc.IH [OF step [OF Suc.prems Some]] by blast
    then have "snd (settle (Suc k) s) = map key_of (w # vs) \<and>
        Q (fst (settle (Suc k) s)) (ws @ w # vs)"
      by (simp add: settle_Some [OF Some])
    then show ?thesis by blast
  qed
qed

end

lemma State_admitNext_eq: "State_admitNext s = map_option (\<lambda>w. (w, State_admitted s w)) (State_nextUp s)"
  by (simp add: State_admitNext_def split: option.splits)

interpretation settling: draining State_nextUp State_admitted "\<lambda>s. length (queue s)"
  State_settleWithin ticket
proof unfold_locales
  show "State_nextUp s = Some w \<Longrightarrow> length (queue (State_admitted s w)) < length (queue s)" for s w
    using filter_length_less [of w "queue s" "\<lambda>v. ticket v \<noteq> ticket w"] State_nextUp_Some [of s w]
    by simp
  show "State_settleWithin 0 s = (s, [])" for s by (simp add: State_settleWithin.simps)
  show "State_nextUp s = None \<Longrightarrow> State_settleWithin k s = (s, [])" for k s
    by (simp add: State_settleWithin.simps [of k s] State_admitNext_def)
  show "State_nextUp s = Some w \<Longrightarrow> State_settleWithin (Suc k) s =
      (fst (State_settleWithin k (State_admitted s w)),
       ticket w # snd (State_settleWithin k (State_admitted s w)))" for s w k
    by (simp add: State_settleWithin.simps [of "Suc k" s] State_admitNext_def split: prod.splits)
qed

lemma State_settle_done: "State_nextUp (fst (State_settle s)) = None"
  by (simp add: State_settle_def settling.settle_done)

end
