(* ===== verification/PoolsSystem.thy ===== *)
theory PoolsSystem
  imports Pools "HOL-Library.Extended_Nat"
begin

text \<open>
  The pools in use: the pool state together with the calls that run, each with its ticket and its
  chain.  A step is one call of the operations of \<open>Pools\<close>: an arrival that is admitted or queued, a
  waiter that gives up, a running call that ends and releases its chain, a settling, and a change
  of a pool's capacity.  The operations do not know the running calls; the pools' counters stand
  for them, and the first property says that they do so exactly.
\<close>

section \<open>Steps\<close>

definition chain_of :: "State \<Rightarrow> nat \<Rightarrow> string list" where
  "chain_of s t = (case ticket_find t (queue s) of None \<Rightarrow> [] | Some w \<Rightarrow> waiter_chain w)"

type_synonym running = "(nat \<times> string list) list"

inductive pool_step :: "State \<times> running \<Rightarrow> State \<times> running \<Rightarrow> bool" where
  admit: "State_arrive s c = Arrival_admitted s' \<Longrightarrow>
     pool_step (s, run) (s', run @ [(next_ticket s, c)])"
| wait: "State_arrive s c = Arrival_queued s' t p \<Longrightarrow> pool_step (s, run) (s', run)"
| give_up: "pool_step (s, run) (State_leave s t, run)"
| finish: "pool_step (s, xs @ (t, c) # ys) (State_release s c, xs @ ys)"
| settle: "State_settle s = (s', ts) \<Longrightarrow>
     pool_step (s, run) (s', run @ map (\<lambda>t. (t, chain_of s t)) ts)"
| configure: "pool_step (s, run) (State_setCapacity s n cap, run)"

definition pool_reachable :: "State \<times> running \<Rightarrow> bool" where
  "pool_reachable = pool_step\<^sup>*\<^sup>* (State_empty, [])"

section \<open>What every reachable state keeps\<close>

definition names_of :: "State \<Rightarrow> string set" where
  "names_of s = set (map pool_name (pools s))"

definition pool_inv :: "State \<times> running \<Rightarrow> bool" where
  "pool_inv x = (case x of (s, run) \<Rightarrow>
     distinct (map pool_name (pools s)) \<and>
     (\<forall>p \<in> set (pools s). active p = length (filter (\<lambda>r. pool_name p \<in> set (snd r)) run)) \<and>
     (\<forall>w \<in> set (queue s). set (waiter_chain w) \<subseteq> names_of s) \<and>
     (\<forall>r \<in> set run. set (snd r) \<subseteq> names_of s) \<and>
     distinct (map ticket (queue s) @ map fst run) \<and>
     (\<forall>t \<in> set (map ticket (queue s) @ map fst run). t < next_ticket s))"

lemma map_pool_name_upd:
  "map pool_name (map (\<lambda>p. if P p then p\<lparr>active := f p\<rparr> else p) ps) = map pool_name ps"
  "map pool_name (map (\<lambda>p. if P p then p\<lparr>capacity := g p\<rparr> else p) ps) = map pool_name ps"
  by (induction ps) simp_all

lemma pool_name_comp_upd [simp]:
  "pool_name \<circ> (\<lambda>p. if P p then p\<lparr>active := f p\<rparr> else p) = pool_name"
  "pool_name \<circ> (\<lambda>p. if P p then p\<lparr>capacity := g p\<rparr> else p) = pool_name"
  by (simp_all add: fun_eq_iff)

lemma names_of_take [simp]: "names_of (State_take s c) = names_of s"
  unfolding names_of_def State_take_fields map_pool_name_upd ..

lemma names_of_release [simp]: "names_of (State_release s c) = names_of s"
  unfolding names_of_def State_release_fields map_pool_name_upd ..

lemma names_of_admitted [simp]: "names_of (State_admitted s w) = names_of s"
  unfolding names_of_def State_admitted_fields map_pool_name_upd ..

lemma names_of_leave [simp]: "names_of (State_leave s t) = names_of s"
  by (simp add: names_of_def)

lemma names_of_setCapacity [simp]: "names_of (State_setCapacity s n cap) = insert n (names_of s)"
proof (cases "n \<in> pool_name ` set (pools s)")
  case True
  then have "names_of (State_setCapacity s n cap) = names_of s"
    unfolding names_of_def State_setCapacity_fields by (simp only: if_True map_pool_name_upd)
  with True show ?thesis by (auto simp: names_of_def)
next
  case False
  then show ?thesis by (simp add: names_of_def)
qed

lemma pool_inv_empty: "pool_inv (State_empty, [])"
  by (simp add: pool_inv_def State_empty_def)

definition enqueued :: "State \<Rightarrow> string list \<Rightarrow> State" where
  "enqueued s c = fst (State_enqueue s c)"

lemma enqueued_fields [simp]:
  "pools (enqueued s c) = pools s"
  "queue (enqueued s c) = queue s @ [\<lparr>ticket = next_ticket s, waiter_chain = c\<rparr>]"
  "next_ticket (enqueued s c) = Suc (next_ticket s)"
  "names_of (enqueued s c) = names_of s"
  by (simp_all add: enqueued_def State_enqueue_eq names_of_def)

lemma State_join_eq:
  "State_join s c =
     (case unknown_find s c of
        None \<Rightarrow> Arrival_queued (enqueued s c) (next_ticket s)
                  (State_position (enqueued s c) (next_ticket s))
      | Some n \<Rightarrow> Arrival_unknownPool n)"
  by (simp add: State_join_def enqueued_def State_enqueue_eq split: option.splits)

lemma State_arrive_eq:
  "State_arrive s c =
     (case unknown_find s c of
        None \<Rightarrow>
          (case State_admit (enqueued s c) (next_ticket s) of
             None \<Rightarrow> Arrival_queued (enqueued s c) (next_ticket s)
                       (State_position (enqueued s c) (next_ticket s))
           | Some s' \<Rightarrow> Arrival_admitted s')
      | Some n \<Rightarrow> Arrival_unknownPool n)"
  by (simp add: State_arrive_def State_join_eq split: option.splits)

lemma pool_inv_enqueued:
  "pool_inv (s, run) \<Longrightarrow> set c \<subseteq> names_of s \<Longrightarrow> pool_inv (enqueued s c, run)"
  by (auto simp: pool_inv_def less_Suc_eq)

lemma pool_inv_admitted:
  assumes "pool_inv (s, run)" and "State_nextUp s = Some w"
  shows "pool_inv (State_admitted s w, run @ [(ticket w, waiter_chain w)])"
proof -
  have w: "w \<in> set (queue s)" using State_nextUp_Some [OF assms(2)] by simp
  show ?thesis
    using assms(1) w unfolding pool_inv_def
    by (auto simp: map_pool_name_upd distinct_map_filter)
qed

lemma pool_inv_release:
  assumes "pool_inv (s, xs @ (t, c) # ys)"
  shows "pool_inv (State_release s c, xs @ ys)"
  using assms unfolding pool_inv_def by (auto simp: map_pool_name_upd)

lemma pool_inv_leave: "pool_inv (s, run) \<Longrightarrow> pool_inv (State_leave s t, run)"
  unfolding pool_inv_def by (auto simp: distinct_map_filter)

lemma filter_empty_length: "(\<forall>r \<in> set run. \<not> P r) \<Longrightarrow> length (filter P run) = 0"
  by (simp add: filter_empty_conv)

lemma pool_inv_configure:
  assumes "pool_inv (s, run)"
  shows "pool_inv (State_setCapacity s n cap, run)"
proof (cases "n \<in> names_of s")
  case True
  with assms show ?thesis
    unfolding pool_inv_def names_of_setCapacity
    by (auto simp: map_pool_name_upd names_of_def [of s])
next
  case False
  with assms have "\<forall>r \<in> set run. \<not> n \<in> set (snd r)" by (auto simp: pool_inv_def)
  from filter_empty_length [OF this] False assms show ?thesis
    unfolding pool_inv_def names_of_setCapacity
    by (auto simp: names_of_def [of s])
qed

lemma ticket_find_distinct:
  "distinct (map ticket ws) \<Longrightarrow> w \<in> set ws \<Longrightarrow> ticket_find (ticket w) ws = Some w"
  by (induction ws) (auto simp: image_iff)

lemma State_settle_trace:
  assumes "pool_inv (s, run)"
  shows "\<exists>ws. snd (State_settle s) = map ticket ws \<and> set ws \<subseteq> set (queue s) \<and>
    queue (fst (State_settle s)) = filter (\<lambda>w. ticket w \<notin> ticket ` set ws) (queue s) \<and>
    pool_inv (fst (State_settle s), run @ map (\<lambda>w. (ticket w, waiter_chain w)) ws)"
proof -
  define Q where "Q s' ws \<longleftrightarrow> set ws \<subseteq> set (queue s) \<and>
      queue s' = filter (\<lambda>w. ticket w \<notin> ticket ` set ws) (queue s) \<and>
      pool_inv (s', run @ map (\<lambda>w. (ticket w, waiter_chain w)) ws)" for s' ws
  have "Q (State_admitted s' w) (ws @ [w])" if q: "Q s' ws" and up: "State_nextUp s' = Some w" for s' ws w
  proof -
    have "w \<in> set (queue s')" using State_nextUp_Some [OF up] by simp
    then have "set (ws @ [w]) \<subseteq> set (queue s)" using q by (simp add: Q_def)
    moreover have "queue (State_admitted s' w)
        = filter (\<lambda>v. ticket v \<notin> ticket ` set (ws @ [w])) (queue s)"
      using q by (simp add: Q_def conj_commute)
    moreover have "pool_inv (State_admitted s' w,
        run @ map (\<lambda>w. (ticket w, waiter_chain w)) (ws @ [w]))"
      using pool_inv_admitted [of s' "run @ map (\<lambda>w. (ticket w, waiter_chain w)) ws" w] q up
      by (simp add: Q_def)
    ultimately show ?thesis by (simp add: Q_def)
  qed
  moreover have "Q s []" using assms by (simp add: Q_def)
  ultimately obtain ws where "snd (State_settle s) = map ticket ws" "Q (fst (State_settle s)) ws"
    using settling.settle_trace [of Q s "[]" "length (queue s)"]
    unfolding State_settle_def List_lengthTR_eq append_Nil by blast
  then show ?thesis unfolding Q_def by blast
qed

lemma chain_of_waiters:
  assumes "pool_inv (s, run)" and "set ws \<subseteq> set (queue s)"
  shows "map (\<lambda>t. (t, chain_of s t)) (map ticket ws) = map (\<lambda>w. (ticket w, waiter_chain w)) ws"
proof -
  have "distinct (map ticket (queue s))" using assms(1) by (simp add: pool_inv_def)
  then have "chain_of s (ticket w) = waiter_chain w" if "w \<in> set ws" for w
    using that assms(2) ticket_find_distinct [of "queue s" w] by (auto simp: chain_of_def)
  then show ?thesis by simp
qed

lemma pool_inv_settle:
  assumes "pool_inv (s, run)" and "State_settle s = (s', ts)"
  shows "pool_inv (s', run @ map (\<lambda>t. (t, chain_of s t)) ts)"
proof -
  obtain ws where ws: "ts = map ticket ws" "set ws \<subseteq> set (queue s)"
      "pool_inv (s', run @ map (\<lambda>w. (ticket w, waiter_chain w)) ws)"
    using State_settle_trace [OF assms(1)] assms(2) by auto
  show ?thesis unfolding ws(1) chain_of_waiters [OF assms(1) ws(2)] by (rule ws(3))
qed

lemma pool_step_inv: "pool_step x y \<Longrightarrow> pool_inv x \<Longrightarrow> pool_inv y"
proof (induction rule: pool_step.induct)
  case (admit s c s' run)
  then have known: "set c \<subseteq> names_of s"
    and up: "State_admit (enqueued s c) (next_ticket s) = Some s'"
    by (auto simp: State_arrive_eq loop_simps names_of_def split: option.splits)
  obtain w where w: "State_nextUp (enqueued s c) = Some w" "ticket w = next_ticket s"
      "s' = State_admitted (enqueued s c) w"
    using up by (auto simp: State_admit_Some)
  have "w \<in> set (queue s) \<or> waiter_chain w = c"
    using State_nextUp_Some [OF w(1)] by auto
  moreover have "ticket w \<notin> ticket ` set (queue s)"
    using admit.prems unfolding w(2) by (auto simp: pool_inv_def)
  ultimately have "waiter_chain w = c" using w(2) by force
  then show ?case
    using pool_inv_admitted [OF pool_inv_enqueued [OF admit.prems known] w(1)] w by simp
next
  case (wait s c s' t p run)
  then have "set c \<subseteq> names_of s" "s' = enqueued s c"
    by (auto simp: State_arrive_eq loop_simps names_of_def split: option.splits)
  with pool_inv_enqueued [OF wait.prems] show ?case by simp
next
  case give_up
  then show ?case by (rule pool_inv_leave)
next
  case finish
  then show ?case by (rule pool_inv_release)
next
  case settle
  then show ?case by (simp add: pool_inv_settle)
next
  case configure
  then show ?case by (rule pool_inv_configure)
qed

lemma pool_reachable_inv: "pool_reachable x \<Longrightarrow> pool_inv x"
  unfolding pool_reachable_def
  by (induction rule: rtranclp_induct) (auto intro: pool_inv_empty pool_step_inv)

section \<open>Limits\<close>

definition within_limits :: "State \<Rightarrow> bool" where
  "within_limits s \<longleftrightarrow> (\<forall>p \<in> set (pools s). capacity p = 0 \<or> active p \<le> capacity p)"

lemma within_admitted [inv_intros]:
  "within_limits s \<Longrightarrow> State_hasRoom s (waiter_chain w) \<Longrightarrow> within_limits (State_admitted s w)"
  by (fastforce simp: within_limits_def State_hasRoom_iff Pool_hasRoom_def split: if_splits)

lemma within_enqueued [inv_intros]: "within_limits s \<Longrightarrow> within_limits (enqueued s c)"
  by (simp add: within_limits_def)

lemma within_settle [inv_intros]: "within_limits s \<Longrightarrow> within_limits (fst (State_settle s))"
  unfolding State_settle_def List_lengthTR_eq
  by (rule settling.settle_invariant) (auto intro: inv_intros dest: State_nextUp_Some)

lemma within_arrive [inv_intros]:
  "within_limits s \<Longrightarrow> State_arrive s c = Arrival_admitted s' \<Longrightarrow> within_limits s'"
  by (auto simp: State_arrive_eq State_admit_Some split: option.splits
      intro!: within_admitted within_enqueued dest: State_nextUp_Some)

lemma within_release [inv_intros]: "within_limits s \<Longrightarrow> within_limits (State_release s c)"
  by (fastforce simp: within_limits_def)

lemma within_leave [inv_intros]: "within_limits s \<Longrightarrow> within_limits (State_leave s t)"
  by (simp add: within_limits_def)

section \<open>Arrivals at a settled queue\<close>

lemma ticket_find_append:
  "ticket_find t (ws @ vs) = (case ticket_find t ws of None \<Rightarrow> ticket_find t vs | Some w \<Rightarrow> Some w)"
  by (induction ws) auto

lemma nextUp_enqueued:
  assumes "State_nextUp s = None"
  shows "State_nextUp (enqueued s c) =
    (if State_hasRoom s c then Some \<lparr>ticket = next_ticket s, waiter_chain = c\<rparr> else None)"
proof -
  have room: "State_hasRoom (enqueued s c) = State_hasRoom s"
    by (rule State_hasRoom_pools) simp
  have "nextUp_find (enqueued s c) (ws @ vs) = nextUp_find (enqueued s c) vs"
    if "\<forall>w \<in> set ws. \<not> State_hasRoom s (waiter_chain w)" for ws vs
    using that by (induction ws) (simp_all add: room)
  then show ?thesis
    using assms by (simp add: State_nextUp_None) (simp add: State_nextUp_def room)
qed

lemma position_fresh:
  assumes "t \<notin> ticket ` set ws" and "queue s = ws @ [\<lparr>ticket = t, waiter_chain = c\<rparr>]"
  shows "State_position s t =
    length (filter (\<lambda>v. List_head (waiter_chain v) = List_head c) ws) + 1"
proof -
  have "ticket_find t ws = None" using assms(1) by (auto simp: ticket_scan.loop_None)
  moreover have "takeWhile (\<lambda>v. ticket v \<noteq> t) (ws @ [\<lparr>ticket = t, waiter_chain = c\<rparr>]) = ws"
    using assms(1) by (subst takeWhile_append2) auto
  ultimately show ?thesis by (simp add: State_position_eq assms(2) ticket_find_append)
qed

section \<open>Properties\<close>

text \<open>C32: The pools' counters are exact.  In every state the calls' arrivals, admissions,
  departures, settlings and changes of capacity can reach, the active count of each pool is the
  number of running calls whose chain names it, the tickets of running and waiting calls are all
  different and older than the next ticket, and every pool a running or waiting call names
  exists.\<close>

theorem pools_accounting:
  assumes "pool_reachable (s, run)"
  shows "(\<forall>p \<in> set (pools s). active p = length (filter (\<lambda>r. pool_name p \<in> set (snd r)) run)) \<and>
    distinct (map ticket (queue s) @ map fst run) \<and>
    (\<forall>t \<in> set (map ticket (queue s) @ map fst run). t < next_ticket s) \<and>
    (\<forall>c \<in> set (map waiter_chain (queue s) @ map snd run). set c \<subseteq> pool_name ` set (pools s))"
  using pool_reachable_inv [OF assms] by (auto simp: pool_inv_def names_of_def)

definition sample_pools :: State where
  "sample_pools =
     \<lparr>pools = [\<lparr>pool_name = ''all'', capacity = 1, active = 1\<rparr>],
      queue = [\<lparr>ticket = 1, waiter_chain = [''all'']\<rparr>], next_ticket = 2\<rparr>"

lemmas pool_evals = State_arrive_def State_join_def State_enqueue_def State_position_def
  State_admit_def State_nextUp_def State_hasRoom_def State_admitted_def State_take_def
  State_pool_def Pool_hasRoom_def State_setCapacity_def

lemma sample_pools_reachable: "pool_reachable (sample_pools, [(0, [''all''])])"
proof -
  let ?a = "State_setCapacity State_empty ''all'' 1"
  let ?b = "?a\<lparr>pools := [\<lparr>pool_name = ''all'', capacity = 1, active = 1\<rparr>], next_ticket := 1\<rparr>"
  have "pool_step (State_empty, []) (?a, [])" by (rule pool_step.configure)
  moreover have "State_arrive ?a [''all''] = Arrival_admitted ?b"
    by (simp add: pool_evals State_empty_def)
  from pool_step.admit [OF this, of "[]"] have "pool_step (?a, []) (?b, [(0, [''all''])])"
    by (simp add: State_empty_def)
  moreover have "State_arrive ?b [''all''] = Arrival_queued sample_pools 1 1"
    by (simp add: pool_evals State_empty_def sample_pools_def)
  from pool_step.wait [OF this]
  have "pool_step (?b, [(0, [''all''])]) (sample_pools, [(0, [''all''])])" .
  ultimately show ?thesis
    unfolding pool_reachable_def by (meson rtranclp.rtrancl_into_rtrancl rtranclp.rtrancl_refl)
qed

lemma pools_accounting_witness:
  "map active (pools sample_pools) =
     map (\<lambda>p. length (filter (\<lambda>r. pool_name p \<in> set (snd r)) [(0 :: nat, [''all''])]))
       (pools sample_pools)"
  using pools_accounting [OF sample_pools_reachable] by auto

text \<open>No limit is exceeded by admitting: when every limited pool is within its capacity, it
  still is after an arrival that is admitted, after settling, after a release and after a waiter
  leaves.\<close>

theorem pools_within_limits:
  assumes "within_limits s"
  shows "(\<forall>c s'. State_arrive s c = Arrival_admitted s' \<longrightarrow> within_limits s') \<and>
    within_limits (fst (State_settle s)) \<and>
    within_limits (State_release s c) \<and> within_limits (State_leave s t)"
  using assms by (auto intro: inv_intros)

lemma pools_within_limits_witness:
  "within_limits (fst (State_settle (State_release sample_pools [''all''])))"
proof -
  have "within_limits (State_release sample_pools [''all''])"
    using pools_within_limits [of sample_pools] by (simp add: within_limits_def sample_pools_def)
  from pools_within_limits [OF this] show ?thesis by blast
qed

text \<open>C36: Settling admits everybody it can and loses nobody: afterwards no waiter has room in all
  its pools (the fuel it runs on is always enough); the tickets it reports are tickets of waiters,
  each once, and exactly those waiters have left the queue, the others keeping their order.\<close>

theorem State_settle_complete:
  assumes "distinct (map ticket (queue s))"
  shows "case State_settle s of
    (s', ts) \<Rightarrow>
      State_nextUp s' = None \<and> distinct ts \<and> set ts \<subseteq> ticket ` set (queue s) \<and>
      queue s' = filter (\<lambda>w. ticket w \<notin> set ts) (queue s)"
proof -
  define Q where "Q s' ws \<longleftrightarrow> distinct (map ticket ws) \<and> set ws \<subseteq> set (queue s) \<and>
      queue s' = filter (\<lambda>w. ticket w \<notin> ticket ` set ws) (queue s)" for s' :: State and ws
  have "Q (State_admitted s' w) (ws @ [w])" if q: "Q s' ws" and up: "State_nextUp s' = Some w"
    for s' ws w
    using q State_nextUp_Some [OF up] by (auto simp: Q_def conj_commute)
  moreover have "Q s []" by (simp add: Q_def)
  ultimately obtain ws where ws: "snd (State_settle s) = map ticket ws" "Q (fst (State_settle s)) ws"
    using settling.settle_trace [of Q s "[]" "length (queue s)"]
    unfolding State_settle_def List_lengthTR_eq append_Nil by blast
  then show ?thesis
    using State_settle_done [of s] by (auto simp: Q_def image_subset_iff subset_iff split: prod.splits)
qed

lemma State_settle_complete_witness:
  "State_nextUp (fst (State_settle (State_release sample_pools [''all'']))) = None"
  using State_settle_complete [of "State_release sample_pools [''all'']"]
  by (auto simp: sample_pools_def split: prod.splits)

text \<open>Arrivals, on every branch, at a queue where nobody can be admitted: a chain with an unknown
  pool is refused with the first such name; a chain whose pools all have room is admitted at once,
  its pools counted; any other call is queued last with the next ticket, told its position among
  the waiters of its own pool, and nobody can be admitted still.\<close>

theorem State_arrive_settled:
  assumes "State_nextUp s = None" and "\<forall>w \<in> set (queue s). ticket w < next_ticket s"
  shows "State_arrive s c =
    (case List.find (\<lambda>n. n \<notin> pool_name ` set (pools s)) c of
       Some n \<Rightarrow> Arrival_unknownPool n
     | None \<Rightarrow>
         (if \<forall>p \<in> set (pools s). pool_name p \<in> set c \<longrightarrow> Pool_hasRoom p
          then Arrival_admitted (State_take (s\<lparr>next_ticket := next_ticket s + 1\<rparr>) c)
          else Arrival_queued
            (s\<lparr>queue := queue s @ [\<lparr>ticket = next_ticket s, waiter_chain = c\<rparr>],
               next_ticket := next_ticket s + 1\<rparr>)
            (next_ticket s)
            (length (filter (\<lambda>w. List_head (waiter_chain w) = List_head c) (queue s)) + 1)))"
proof -
  have find: "unknown_find s c = List.find (\<lambda>n. n \<notin> pool_name ` set (pools s)) c"
    by (simp add: unknown_scan.loop_find State_pool_None)
  have fresh: "next_ticket s \<notin> ticket ` set (queue s)" using assms(2) by auto
  then have drop_new: "filter (\<lambda>w. ticket w \<noteq> next_ticket s) (queue s) = queue s"
    using assms(2) by (intro filter_True) auto
  have taken: "State_admitted (enqueued s c) \<lparr>ticket = next_ticket s, waiter_chain = c\<rparr> =
      State_take (s\<lparr>next_ticket := next_ticket s + 1\<rparr>) c"
    by (simp add: State_admitted_def State_take_def admitted_filter.loop_filter drop_new
        enqueued_def State_enqueue_eq)
  have pos: "State_position (enqueued s c) (next_ticket s) =
      length (filter (\<lambda>w. List_head (waiter_chain w) = List_head c) (queue s)) + 1"
    using position_fresh [OF fresh enqueued_fields(2)] .
  have enq: "enqueued s c = s\<lparr>queue := queue s @ [\<lparr>ticket = next_ticket s, waiter_chain = c\<rparr>],
      next_ticket := next_ticket s + 1\<rparr>"
    by (simp add: enqueued_def State_enqueue_eq)
  have admit: "State_admit (enqueued s c) (next_ticket s) =
      (if State_hasRoom s c then Some (State_take (s\<lparr>next_ticket := next_ticket s + 1\<rparr>) c) else None)"
    by (simp add: State_admit_def nextUp_enqueued [OF assms(1)] taken)
  show ?thesis
    unfolding State_arrive_eq find admit pos State_hasRoom_iff enq [symmetric]
    by (simp split: option.splits)
qed

lemma State_arrive_settled_witness:
  "State_arrive sample_pools [''all''] =
     Arrival_queued
       (sample_pools\<lparr>queue := queue sample_pools @ [\<lparr>ticket = 2, waiter_chain = [''all'']\<rparr>],
          next_ticket := 3\<rparr>) 2 2"
  using State_arrive_settled [of sample_pools "[''all'']"]
  by (simp add: sample_pools_def pool_evals)

text \<open>The queue is fair: the waiter admitted next is the first in order of arrival with room in
  all its pools, so that nobody overtakes a waiter except when some pool of that waiter's chain is
  full.\<close>

theorem State_nextUp_first:
  "State_nextUp s = Some w \<longleftrightarrow>
     (\<exists>ahead behind. queue s = ahead @ w # behind \<and> State_hasRoom s (waiter_chain w) \<and>
        (\<forall>v \<in> set ahead. \<exists>p \<in> set (pools s). pool_name p \<in> set (waiter_chain v) \<and> \<not> Pool_hasRoom p))"
proof
  assume "State_nextUp s = Some w"
  then show "\<exists>ahead behind. queue s = ahead @ w # behind \<and> State_hasRoom s (waiter_chain w) \<and>
      (\<forall>v \<in> set ahead. \<exists>p \<in> set (pools s). pool_name p \<in> set (waiter_chain v) \<and> \<not> Pool_hasRoom p)"
    using next_scan.loop_Some_split [of s "queue s" w]
    by (auto simp: State_nextUp_def State_hasRoom_iff)
next
  assume "\<exists>ahead behind. queue s = ahead @ w # behind \<and> State_hasRoom s (waiter_chain w) \<and>
      (\<forall>v \<in> set ahead. \<exists>p \<in> set (pools s). pool_name p \<in> set (waiter_chain v) \<and> \<not> Pool_hasRoom p)"
  then obtain ahead behind where q: "queue s = ahead @ w # behind"
      and room: "State_hasRoom s (waiter_chain w)"
      and full: "\<forall>v \<in> set ahead. \<not> State_hasRoom s (waiter_chain v)"
    by (auto simp: State_hasRoom_iff)
  have "nextUp_find s (ahead @ w # behind) = Some w"
    using full by (induction ahead) (simp_all add: room)
  then show "State_nextUp s = Some w" by (simp add: State_nextUp_def q)
qed

lemma State_nextUp_first_witness:
  "State_nextUp
     \<lparr>pools = [\<lparr>pool_name = ''all'', capacity = 1, active = 1\<rparr>, \<lparr>pool_name = ''gpu'', capacity = 1, active = 0\<rparr>],
      queue = [\<lparr>ticket = 1, waiter_chain = [''all'']\<rparr>, \<lparr>ticket = 2, waiter_chain = [''gpu'']\<rparr>],
      next_ticket = 3\<rparr> = Some \<lparr>ticket = 2, waiter_chain = [''gpu'']\<rparr>"
proof (subst State_nextUp_first, intro exI conjI)
  show "queue \<lparr>pools = [\<lparr>pool_name = ''all'', capacity = 1, active = 1\<rparr>, \<lparr>pool_name = ''gpu'', capacity = 1, active = 0\<rparr>],
      queue = [\<lparr>ticket = 1, waiter_chain = [''all'']\<rparr>, \<lparr>ticket = 2, waiter_chain = [''gpu'']\<rparr>],
      next_ticket = 3\<rparr> = [\<lparr>ticket = 1, waiter_chain = [''all'']\<rparr>] @ \<lparr>ticket = 2, waiter_chain = [''gpu'']\<rparr> # []"
    by simp
qed (simp_all add: pool_evals)

text \<open>C39: The pools never deadlock: in a reachable state where nothing runs and nobody can be
  admitted, nobody waits.\<close>

theorem pools_no_deadlock:
  assumes "pool_reachable (s, [])" and "State_nextUp s = None"
  shows "queue s = []"
proof -
  have "\<forall>p \<in> set (pools s). Pool_hasRoom p"
    using pool_reachable_inv [OF assms(1)] by (auto simp: pool_inv_def Pool_hasRoom_def)
  then have "State_hasRoom s c" for c by (simp add: State_hasRoom_iff)
  then show ?thesis using assms(2) by (cases "queue s") (auto simp: State_nextUp_None)
qed

lemma pools_no_deadlock_witness:
  "queue (State_setCapacity State_empty ''all'' 1) = []"
proof (rule pools_no_deadlock)
  show "pool_reachable (State_setCapacity State_empty ''all'' 1, [])"
    unfolding pool_reachable_def by (intro r_into_rtranclp pool_step.configure)
  show "State_nextUp (State_setCapacity State_empty ''all'' 1) = None"
    by (simp add: State_nextUp_None State_empty_def)
qed

definition limit_of :: "nat \<Rightarrow> enat" where
  "limit_of n = (if n = 0 then \<infinity> else enat n)"

text \<open>Limits combine as limits do, with zero read as no limit: the capacity in effect is the
  lower of the configured limit and the room available, and the configured one when nothing is
  known of the room; while the registry is not running the pool of all calls is advertised as one
  slot.\<close>
lemma advertised_limit:
  "limit_of (advertised running pool configured available) =
     (if \<not> running \<and> pool = pools_all then 1
      else case available of
        None \<Rightarrow> limit_of configured
      | Some room \<Rightarrow> min (limit_of configured) (limit_of room))"
  by (auto simp: advertised_def effective_def limit_of_def one_enat_def min_def
      split: option.splits)

end
