(* ===== verification/Constraint.thy ===== *)
theory Constraint
  imports LeanList
begin

text \<open>
  The constraint a tagged URN puts on one key (\<open>TaggedUrn-Constraint.c\<close>), and the two tables the
  program compares constraints with: \<open>tagMatch\<close> (what the instance allows, the pattern allows) and
  \<open>tagMeets\<close> (something is allowed by both).  The lemmas give the tables their meaning: a constraint
  allows a set of states of its key, the key being unset or set to a value, and the tables decide
  inclusion and intersection of these sets.
\<close>

datatype Constraint =
    Constraint_missing
  | Constraint_unconstrained
  | Constraint_optionalNot string
  | Constraint_present
  | Constraint_presentNot string
  | Constraint_exact string
  | Constraint_absent

definition Constraint_closed :: "Constraint \<Rightarrow> Constraint" where
  "Constraint_closed c = (case c of Constraint_missing \<Rightarrow> Constraint_absent | _ \<Rightarrow> c)"

definition tagMatch :: "Constraint \<Rightarrow> Constraint \<Rightarrow> bool" where
  "tagMatch inst pat =
     (case pat of
        Constraint_optionalNot q \<Rightarrow>
          (case inst of
             Constraint_optionalNot p \<Rightarrow> p = q
           | Constraint_presentNot p \<Rightarrow> p = q
           | Constraint_exact v \<Rightarrow> (if v = q then False else True)
           | Constraint_absent \<Rightarrow> True
           | _ \<Rightarrow> False)
      | Constraint_present \<Rightarrow>
          (case inst of
             Constraint_present \<Rightarrow> True
           | Constraint_presentNot _ \<Rightarrow> True
           | Constraint_exact _ \<Rightarrow> True
           | _ \<Rightarrow> False)
      | Constraint_presentNot q \<Rightarrow>
          (case inst of
             Constraint_presentNot p \<Rightarrow> p = q
           | Constraint_exact v \<Rightarrow> (if v = q then False else True)
           | _ \<Rightarrow> False)
      | Constraint_exact q \<Rightarrow> (case inst of Constraint_exact v \<Rightarrow> v = q | _ \<Rightarrow> False)
      | Constraint_absent \<Rightarrow> (case inst of Constraint_absent \<Rightarrow> True | _ \<Rightarrow> False)
      | _ \<Rightarrow> True)"

definition tagMeets :: "Constraint \<Rightarrow> Constraint \<Rightarrow> bool" where
  "tagMeets a b =
     (case a of
        Constraint_missing \<Rightarrow> True
      | Constraint_unconstrained \<Rightarrow> True
      | Constraint_absent \<Rightarrow>
          (case b of
             Constraint_missing \<Rightarrow> True
           | Constraint_unconstrained \<Rightarrow> True
           | Constraint_absent \<Rightarrow> True
           | Constraint_optionalNot _ \<Rightarrow> True
           | _ \<Rightarrow> False)
      | Constraint_optionalNot p \<Rightarrow>
          (case b of
             Constraint_missing \<Rightarrow> True
           | Constraint_unconstrained \<Rightarrow> True
           | Constraint_absent \<Rightarrow> True
           | Constraint_exact q \<Rightarrow> (if q = p then False else True)
           | _ \<Rightarrow> True)
      | Constraint_exact v \<Rightarrow>
          (case b of
             Constraint_missing \<Rightarrow> True
           | Constraint_unconstrained \<Rightarrow> True
           | Constraint_absent \<Rightarrow> False
           | Constraint_exact w \<Rightarrow> v = w
           | Constraint_presentNot w \<Rightarrow> (if v = w then False else True)
           | Constraint_optionalNot w \<Rightarrow> (if v = w then False else True)
           | _ \<Rightarrow> True)
      | Constraint_presentNot p \<Rightarrow>
          (case b of
             Constraint_missing \<Rightarrow> True
           | Constraint_unconstrained \<Rightarrow> True
           | Constraint_absent \<Rightarrow> False
           | Constraint_exact q \<Rightarrow> (if q = p then False else True)
           | _ \<Rightarrow> True)
      | _ \<Rightarrow>
          (case b of
             Constraint_missing \<Rightarrow> True
           | Constraint_unconstrained \<Rightarrow> True
           | Constraint_absent \<Rightarrow> False
           | _ \<Rightarrow> True))"

definition instDecidableEqConstraint :: "Constraint \<Rightarrow> Constraint \<Rightarrow> bool" where
  "instDecidableEqConstraint x y =
     (case x of
        Constraint_missing \<Rightarrow> (case y of Constraint_missing \<Rightarrow> True | _ \<Rightarrow> False)
      | Constraint_unconstrained \<Rightarrow> (case y of Constraint_unconstrained \<Rightarrow> True | _ \<Rightarrow> False)
      | Constraint_optionalNot p \<Rightarrow> (case y of Constraint_optionalNot q \<Rightarrow> p = q | _ \<Rightarrow> False)
      | Constraint_present \<Rightarrow> (case y of Constraint_present \<Rightarrow> True | _ \<Rightarrow> False)
      | Constraint_presentNot p \<Rightarrow> (case y of Constraint_presentNot q \<Rightarrow> p = q | _ \<Rightarrow> False)
      | Constraint_exact p \<Rightarrow> (case y of Constraint_exact q \<Rightarrow> p = q | _ \<Rightarrow> False)
      | Constraint_absent \<Rightarrow> (case y of Constraint_absent \<Rightarrow> True | _ \<Rightarrow> False))"

definition tagScore :: "Constraint \<Rightarrow> nat" where
  "tagScore c =
     (case c of
        Constraint_optionalNot _ \<Rightarrow> 1
      | Constraint_present \<Rightarrow> 2
      | Constraint_presentNot _ \<Rightarrow> 3
      | Constraint_exact _ \<Rightarrow> 4
      | Constraint_absent \<Rightarrow> 5
      | _ \<Rightarrow> 0)"

section \<open>What a constraint allows\<close>

text \<open>The state of a key: unset (\<open>None\<close>) or set to a value.\<close>

fun allows :: "Constraint \<Rightarrow> string option \<Rightarrow> bool" where
  "allows Constraint_missing s = True"
| "allows Constraint_unconstrained s = True"
| "allows (Constraint_optionalNot p) s = (s \<noteq> Some p)"
| "allows Constraint_present s = (s \<noteq> None)"
| "allows (Constraint_presentNot p) s = (s \<noteq> None \<and> s \<noteq> Some p)"
| "allows (Constraint_exact p) s = (s = Some p)"
| "allows Constraint_absent s = (s = None)"


lemma instDecidableEqConstraint_eq [decide_simps]: "instDecidableEqConstraint x y = (x = y)"
  by (cases x; cases y) (simp_all add: instDecidableEqConstraint_def)

lemma other_string: "\<exists>r::string. r \<noteq> p \<and> r \<noteq> q"
proof -
  have "length (CHR ''x'' # p @ q) \<noteq> length p" "length (CHR ''x'' # p @ q) \<noteq> length q" by simp_all
  then show ?thesis by metis
qed

lemma tagMatch_allows: "tagMatch a b \<longleftrightarrow> (\<forall>s. allows a s \<longrightarrow> allows b s)"
proof -
  have fresh: "\<exists>s::string. s \<noteq> p \<and> s \<noteq> q" for p q by (rule other_string)
  have same: "(\<forall>s::string. s \<noteq> p \<longrightarrow> s \<noteq> q) \<longleftrightarrow> p = q" for p q by auto
  show ?thesis
    by (cases a; cases b) (use fresh in \<open>auto simp: tagMatch_def split_option_all same\<close>)
qed

lemma tagMeets_allows: "tagMeets a b \<longleftrightarrow> (\<exists>s. allows a s \<and> allows b s)"
proof -
  have fresh: "\<exists>s::string. s \<noteq> p \<and> s \<noteq> q" for p q by (rule other_string)
  show ?thesis
    by (cases a; cases b) (use fresh in \<open>auto simp: tagMeets_def split_option_ex\<close>)
qed

lemma allows_some: "\<exists>s. allows c s"
  using tagMeets_allows [of c Constraint_missing] by (cases c) (auto simp: tagMeets_def)

lemma tagMatch_refl [simp]: "tagMatch c c"
  by (simp add: tagMatch_allows)

lemma tagMatch_trans: "tagMatch a b \<Longrightarrow> tagMatch b c \<Longrightarrow> tagMatch a c"
  by (simp add: tagMatch_allows)

lemma tagMeets_sym: "tagMeets a b = tagMeets b a"
  by (auto simp: tagMeets_allows)

lemma tagMatch_meets: "tagMatch a b \<Longrightarrow> tagMeets a b"
  using allows_some [of a] by (auto simp: tagMatch_allows tagMeets_allows)

lemma tagMatch_missing [simp]: "tagMatch c Constraint_missing"
  by (simp add: tagMatch_allows)

lemma tagMeets_missing [simp]: "tagMeets c Constraint_missing" "tagMeets Constraint_missing c"
  using allows_some [of c] by (simp_all add: tagMeets_allows)

lemma Constraint_closed_allows:
  "allows (Constraint_closed c) s \<longleftrightarrow> allows c s \<and> (c = Constraint_missing \<longrightarrow> s = None)"
  by (cases c) (auto simp: Constraint_closed_def)

section \<open>Specificity\<close>

lemma tagScore_mono: "tagMatch a b \<Longrightarrow> tagScore b \<le> tagScore a"
  by (cases a; cases b) (auto simp: tagMatch_def tagScore_def split: if_splits)

lemma tagScore_strict: "tagMatch a b \<Longrightarrow> tagScore b = tagScore a \<Longrightarrow> tagMatch b a"
  by (cases a; cases b) (auto simp: tagMatch_def tagScore_def split: if_splits)

section \<open>Properties\<close>

text \<open>The two comparison tables decide the sets of key states: \<open>tagMatch\<close> answers yes exactly
  when every state the instance allows is allowed by the pattern, \<open>tagMeets\<close> exactly when some state
  is allowed by both.  Both tables are right on every pair of constraints.\<close>

lemma tag_tables_decide:
  "tagMatch inst pat = ({s. allows inst s} \<subseteq> {s. allows pat s}) \<and>
   tagMeets inst pat = ({s. allows inst s} \<inter> {s. allows pat s} \<noteq> {})"
  by (auto simp: tagMatch_allows tagMeets_allows)

end
