(* ===== verification/Urn.thy ===== *)
theory Urn
  imports Constraint
begin

text \<open>
  Tagged URNs (\<open>TaggedUrn-Urn.c\<close>): a scheme and a list of tags, each a key and a constraint.  The
  relations between two URNs are decided here by going over the keys of both and looking each up in
  both; \<open>UrnMerge\<close> holds the single pass over sorted tags the program runs.  A key a URN does not
  name is missing, which constrains nothing; the closed relations read the instance's missing
  keys as absent.
\<close>

record Urn =
  scheme :: string
  tags :: "(string \<times> Constraint) list"

section \<open>Keys and tags\<close>

fun keys_loop :: "(string \<times> Constraint) list \<Rightarrow> string list \<Rightarrow> string list" where
  "keys_loop [] acc = List_reverse acc"
| "keys_loop (x # xs) acc = keys_loop xs (fst x # acc)"

definition Urn_keys :: "Urn \<Rightarrow> string list" where
  "Urn_keys u = keys_loop (tags u) []"

fun tag_find :: "string \<Rightarrow> (string \<times> Constraint) list \<Rightarrow> (string \<times> Constraint) option" where
  "tag_find k [] = None"
| "tag_find k (x # xs) = (if fst x = k then Some x else tag_find k xs)"

definition Urn_tag :: "Urn \<Rightarrow> string \<Rightarrow> Constraint" where
  "Urn_tag u k = (case tag_find k (tags u) of None \<Rightarrow> Constraint_missing | Some x \<Rightarrow> snd x)"

section \<open>The relations\<close>

definition instDecidableRefines :: "Urn \<Rightarrow> Urn \<Rightarrow> bool" where
  "instDecidableRefines a b =
     (if scheme a = scheme b
      then List_decidableBAll (\<lambda>k. tagMatch (Urn_tag a k) (Urn_tag b k))
        (List_appendTR (Urn_keys a) (Urn_keys b))
      else False)"

definition instDecidableRefinesClosed :: "Urn \<Rightarrow> Urn \<Rightarrow> bool" where
  "instDecidableRefinesClosed a b =
     (if scheme a = scheme b
      then List_decidableBAll (\<lambda>k. tagMatch (Constraint_closed (Urn_tag a k)) (Urn_tag b k))
        (List_appendTR (Urn_keys a) (Urn_keys b))
      else False)"

definition instDecidableMeets :: "Urn \<Rightarrow> Urn \<Rightarrow> bool" where
  "instDecidableMeets a b =
     (if scheme a = scheme b
      then List_decidableBAll (\<lambda>k. tagMeets (Urn_tag a k) (Urn_tag b k))
        (List_appendTR (Urn_keys a) (Urn_keys b))
      else False)"

definition instDecidableMeetsClosed :: "Urn \<Rightarrow> Urn \<Rightarrow> bool" where
  "instDecidableMeetsClosed a b =
     (if scheme a = scheme b
      then List_decidableBAll (\<lambda>k. tagMeets (Constraint_closed (Urn_tag a k)) (Urn_tag b k))
        (List_appendTR (Urn_keys a) (Urn_keys b))
      else False)"

fun scores_loop :: "(string \<times> Constraint) list \<Rightarrow> nat list \<Rightarrow> nat list" where
  "scores_loop [] acc = List_reverse acc"
| "scores_loop (x # xs) acc = scores_loop xs (tagScore (snd x) # acc)"

definition urnScore :: "Urn \<Rightarrow> nat" where
  "urnScore u = List_sum (scores_loop (tags u) [])"

definition instDecidableEqUrn :: "Urn \<Rightarrow> Urn \<Rightarrow> bool" where
  "instDecidableEqUrn x y =
     (if scheme x = scheme y
      then instDecidableEqList (instDecidableEqProd (=) instDecidableEqConstraint) (tags x) (tags y)
      else False)"

section \<open>Lemmas: keys and tags\<close>

interpretation keys_map: map_loop fst keys_loop
  by unfold_locales simp_all

interpretation scores_map: map_loop "\<lambda>x. tagScore (snd x)" scores_loop
  by unfold_locales simp_all

interpretation tag_scan: find_loop "\<lambda>x. fst x = k" "tag_find k" for k
  by unfold_locales simp_all

lemma instDecidableEqUrn_eq [decide_simps]: "instDecidableEqUrn x y = (x = y)"
proof -
  have "instDecidableEqConstraint = (=)" by (simp add: fun_eq_iff decide_simps)
  then show ?thesis by (cases x; cases y) (simp add: instDecidableEqUrn_def)
qed

lemma Urn_keys_eq [loop_simps]: "Urn_keys u = map fst (tags u)"
  by (simp add: Urn_keys_def keys_map.loop_map)

lemma urnScore_eq [loop_simps]: "urnScore u = (\<Sum>x \<leftarrow> tags u. tagScore (snd x))"
  by (simp add: urnScore_def scores_map.loop_map)

text \<open>Looking a key up in a list of tags.\<close>

definition tag_of :: "(string \<times> Constraint) list \<Rightarrow> string \<Rightarrow> Constraint" where
  "tag_of xs k = (case map_of xs k of None \<Rightarrow> Constraint_missing | Some c \<Rightarrow> c)"

lemma Urn_tag_eq [loop_simps]: "Urn_tag u k = tag_of (tags u) k"
proof -
  have "map_of xs k = map_option snd (tag_find k xs)" for xs by (induction xs) auto
  then show ?thesis by (simp add: Urn_tag_def tag_of_def split: option.splits)
qed

lemma tag_of_Nil [simp]: "tag_of [] k = Constraint_missing"
  by (simp add: tag_of_def)

lemma tag_of_Cons: "tag_of (x # xs) k = (if fst x = k then snd x else tag_of xs k)"
  by (simp add: tag_of_def)

lemma tag_of_notin [simp]: "k \<notin> fst ` set xs \<Longrightarrow> tag_of xs k = Constraint_missing"
  by (simp add: tag_of_def map_of_eq_None_iff [THEN iffD2])

text \<open>A relation that holds of two missing constraints holds of all keys as soon as it holds of the
  keys of both lists.\<close>

lemma all_keys:
  assumes "f Constraint_missing Constraint_missing"
  shows "(\<forall>k \<in> fst ` set xs \<union> fst ` set ys. f (tag_of xs k) (tag_of ys k)) \<longleftrightarrow>
    (\<forall>k. f (tag_of xs k) (tag_of ys k))"
  using assms by (metis UnCI tag_of_notin)

lemma Refines_iff:
  "instDecidableRefines a b \<longleftrightarrow>
     scheme a = scheme b \<and> (\<forall>k. tagMatch (tag_of (tags a) k) (tag_of (tags b) k))"
  using all_keys [of tagMatch "tags a" "tags b"]
  by (auto simp: instDecidableRefines_def loop_simps)

lemma Meets_iff:
  "instDecidableMeets a b \<longleftrightarrow>
     scheme a = scheme b \<and> (\<forall>k. tagMeets (tag_of (tags a) k) (tag_of (tags b) k))"
  using all_keys [of tagMeets "tags a" "tags b"]
  by (auto simp: instDecidableMeets_def loop_simps)

lemma RefinesClosed_iff:
  "instDecidableRefinesClosed a b \<longleftrightarrow>
     scheme a = scheme b \<and>
     (\<forall>k. tagMatch (Constraint_closed (tag_of (tags a) k)) (tag_of (tags b) k))"
  using all_keys [of "\<lambda>c d. tagMatch (Constraint_closed c) d" "tags a" "tags b"]
  by (auto simp: instDecidableRefinesClosed_def loop_simps)

lemma MeetsClosed_iff:
  "instDecidableMeetsClosed a b \<longleftrightarrow>
     scheme a = scheme b \<and>
     (\<forall>k. tagMeets (Constraint_closed (tag_of (tags a) k)) (tag_of (tags b) k))"
  using all_keys [of "\<lambda>c d. tagMeets (Constraint_closed c) d" "tags a" "tags b"]
  by (auto simp: instDecidableMeetsClosed_def loop_simps)

lemma Refines_refl [simp]: "instDecidableRefines u u"
  by (simp add: Refines_iff)

lemma Refines_trans:
  "instDecidableRefines a b \<Longrightarrow> instDecidableRefines b c \<Longrightarrow> instDecidableRefines a c"
  by (auto simp: Refines_iff intro: tagMatch_trans)

lemma Refines_Meets: "instDecidableRefines a b \<Longrightarrow> instDecidableMeets a b"
  by (simp add: Refines_iff Meets_iff tagMatch_meets)

lemma Meets_sym: "instDecidableMeets a b = instDecidableMeets b a"
  by (auto simp: Meets_iff tagMeets_sym)

lemma Refines_Meets_back: "instDecidableRefines a b \<Longrightarrow> instDecidableMeets b a"
  by (simp add: Meets_sym [of b] Refines_Meets)

lemma Refines_Meets_trans:
  "instDecidableRefines a b \<Longrightarrow> instDecidableMeets a c \<Longrightarrow> instDecidableMeets b c"
  by (auto simp: Refines_iff Meets_iff tagMatch_allows tagMeets_allows) blast

lemma RefinesClosed_MeetsClosed:
  "instDecidableRefinesClosed a b \<Longrightarrow> instDecidableMeetsClosed a b"
  by (simp add: RefinesClosed_iff MeetsClosed_iff tagMatch_meets)

lemma Refines_RefinesClosed: "instDecidableRefines a b \<Longrightarrow> instDecidableRefinesClosed a b"
  by (auto simp: Refines_iff RefinesClosed_iff tagMatch_allows Constraint_closed_allows)

lemma RefinesClosed_Refines_trans:
  "instDecidableRefinesClosed a b \<Longrightarrow> instDecidableRefines b c \<Longrightarrow> instDecidableRefinesClosed a c"
  by (auto simp: Refines_iff RefinesClosed_iff intro: tagMatch_trans)

section \<open>The states a URN describes\<close>

definition described :: "Urn \<Rightarrow> (string \<Rightarrow> string option) set" where
  "described u = {\<sigma>. \<forall>k. allows (Urn_tag u k) (\<sigma> k)}"

text \<open>The closed reading: a key the URN does not name is unset.\<close>

definition described_closed :: "Urn \<Rightarrow> (string \<Rightarrow> string option) set" where
  "described_closed u =
     {\<sigma>. \<forall>k. allows (Urn_tag u k) (\<sigma> k) \<and> (Urn_tag u k = Constraint_missing \<longrightarrow> \<sigma> k = None)}"

lemma product_subset:
  assumes "\<And>k. \<exists>s. P k s"
  shows "{\<sigma>. \<forall>k. P k (\<sigma> k)} \<subseteq> {\<sigma>. \<forall>k. Q k (\<sigma> k)} \<longleftrightarrow> (\<forall>k s. P k s \<longrightarrow> Q k s)"
proof
  assume sub: "{\<sigma>. \<forall>k. P k (\<sigma> k)} \<subseteq> {\<sigma>. \<forall>k. Q k (\<sigma> k)}"
  obtain \<sigma> where \<sigma>: "\<And>k. P k (\<sigma> k)" using assms by metis
  have "Q k s" if "P k s" for k s
  proof -
    have "\<sigma>(k := s) \<in> {\<sigma>. \<forall>k. P k (\<sigma> k)}" using \<sigma> that by simp
    then have "\<sigma>(k := s) \<in> {\<sigma>. \<forall>k. Q k (\<sigma> k)}" using sub by blast
    then show ?thesis by (auto dest: spec [of _ k])
  qed
  then show "\<forall>k s. P k s \<longrightarrow> Q k s" by blast
qed auto

lemma product_inter:
  "{\<sigma>. \<forall>k. P k (\<sigma> k)} \<inter> {\<sigma>. \<forall>k. Q k (\<sigma> k)} \<noteq> {} \<longleftrightarrow> (\<forall>k. \<exists>s. P k s \<and> Q k s)"
proof
  assume "\<forall>k. \<exists>s. P k s \<and> Q k s"
  then obtain \<sigma> where "\<And>k. P k (\<sigma> k) \<and> Q k (\<sigma> k)" by metis
  then show "{\<sigma>. \<forall>k. P k (\<sigma> k)} \<inter> {\<sigma>. \<forall>k. Q k (\<sigma> k)} \<noteq> {}" by blast
qed blast

lemma described_closed_eq:
  "described_closed u = {\<sigma>. \<forall>k. allows (Constraint_closed (Urn_tag u k)) (\<sigma> k)}"
  by (simp add: described_closed_def Constraint_closed_allows)

section \<open>Specificity\<close>

lemma score_over_keys:
  assumes "distinct (map fst xs)" and "finite K" and "fst ` set xs \<subseteq> K"
  shows "(\<Sum>x \<leftarrow> xs. tagScore (snd x)) = (\<Sum>k \<in> K. tagScore (tag_of xs k))"
proof -
  have "(\<Sum>x \<leftarrow> xs. tagScore (snd x)) = (\<Sum>x \<leftarrow> xs. tagScore (tag_of xs (fst x)))"
    using assms(1) by (intro arg_cong [where f = sum_list] map_cong) (auto simp: tag_of_def)
  also have "\<dots> = (\<Sum>k \<leftarrow> map fst xs. tagScore (tag_of xs k))" by (simp add: comp_def)
  also have "\<dots> = (\<Sum>k \<in> fst ` set xs. tagScore (tag_of xs k))"
    by (simp only: sum_list_distinct_conv_sum_set [OF assms(1)] set_map)
  also have "\<dots> = (\<Sum>k \<in> K. tagScore (tag_of xs k))"
    using assms(2,3) by (intro sum.mono_neutral_left) (auto simp: tagScore_def)
  finally show ?thesis .
qed

section \<open>Properties\<close>

text \<open>C6: Comparing URNs compares what they describe.  \<open>Refines a b\<close> holds exactly when the schemes are
  equal and every assignment of values to keys that \<open>a\<close> describes is described by \<open>b\<close>; \<open>Meets a b\<close>
  exactly when the schemes are equal and some assignment is described by both; the closed variants
  do the same with the keys \<open>a\<close> does not name unset.\<close>

theorem Urn_relations_decide:
  "instDecidableRefines a b = (scheme a = scheme b \<and> described a \<subseteq> described b) \<and>
   instDecidableMeets a b = (scheme a = scheme b \<and> described a \<inter> described b \<noteq> {}) \<and>
   instDecidableRefinesClosed a b = (scheme a = scheme b \<and> described_closed a \<subseteq> described b) \<and>
   instDecidableMeetsClosed a b = (scheme a = scheme b \<and> described_closed a \<inter> described b \<noteq> {})"
proof -
  have d: "described u = {\<sigma>. \<forall>k. allows (tag_of (tags u) k) (\<sigma> k)}" for u
    by (simp add: described_def Urn_tag_eq)
  have c: "described_closed u = {\<sigma>. \<forall>k. allows (Constraint_closed (tag_of (tags u) k)) (\<sigma> k)}" for u
    by (simp add: described_closed_eq Urn_tag_eq)
  have "described a \<subseteq> described b \<longleftrightarrow> (\<forall>k. tagMatch (tag_of (tags a) k) (tag_of (tags b) k))"
    unfolding d tagMatch_allows by (rule product_subset) (rule allows_some)
  moreover have "described_closed a \<subseteq> described b \<longleftrightarrow>
      (\<forall>k. tagMatch (Constraint_closed (tag_of (tags a) k)) (tag_of (tags b) k))"
    unfolding c d tagMatch_allows by (rule product_subset) (rule allows_some)
  moreover have "described a \<inter> described b \<noteq> {} \<longleftrightarrow>
      (\<forall>k. tagMeets (tag_of (tags a) k) (tag_of (tags b) k))"
    unfolding d tagMeets_allows by (rule product_inter)
  moreover have "described_closed a \<inter> described b \<noteq> {} \<longleftrightarrow>
      (\<forall>k. tagMeets (Constraint_closed (tag_of (tags a) k)) (tag_of (tags b) k))"
    unfolding c d tagMeets_allows by (rule product_inter)
  ultimately show ?thesis
    by (simp only: Refines_iff Meets_iff RefinesClosed_iff MeetsClosed_iff)
qed

text \<open>Specificity ranks refinement: for URNs that name no key twice, a URN that refines another
  scores at least as high, and it scores the same only when the two refine each other.\<close>

theorem urnScore_ranks_refinement:
  assumes "distinct (map fst (tags a))" and "distinct (map fst (tags b))"
    and "instDecidableRefines a b"
  shows "urnScore b \<le> urnScore a \<and> (urnScore b = urnScore a \<longrightarrow> instDecidableRefines b a)"
proof -
  let ?K = "fst ` set (tags a) \<union> fst ` set (tags b)"
  let ?a = "\<lambda>k. tagScore (tag_of (tags a) k)" and ?b = "\<lambda>k. tagScore (tag_of (tags b) k)"
  have scores: "urnScore a = sum ?a ?K" "urnScore b = sum ?b ?K"
    using assms(1,2) by (simp_all add: urnScore_eq score_over_keys)
  have match: "tagMatch (tag_of (tags a) k) (tag_of (tags b) k)" for k
    using assms(3) by (simp add: Refines_iff)
  have le: "?b k \<le> ?a k" for k by (rule tagScore_mono [OF match])
  have "instDecidableRefines b a" if "urnScore b = urnScore a"
  proof -
    have eq: "sum ?b ?K = sum ?a ?K" using that unfolding scores .
    have "?b k = ?a k" if "k \<in> ?K" for k
      by (rule sum_mono_inv [OF eq le that]) simp
    then have "\<forall>k \<in> ?K. tagMatch (tag_of (tags b) k) (tag_of (tags a) k)"
      using tagScore_strict [OF match] by simp
    then have "\<forall>k. tagMatch (tag_of (tags b) k) (tag_of (tags a) k)"
      using all_keys [of tagMatch "tags b" "tags a"] by (simp add: Un_commute)
    then show ?thesis using assms(3) by (simp add: Refines_iff)
  qed
  moreover have "sum ?b ?K \<le> sum ?a ?K" using le by (intro sum_mono)
  ultimately show ?thesis unfolding scores by simp
qed

lemma urnScore_ranks_refinement_witness:
  "urnScore \<lparr>scheme = ''media'', tags = []\<rparr> \<le>
     urnScore \<lparr>scheme = ''media'', tags = [(''pdf'', Constraint_present)]\<rparr> \<and>
   urnScore \<lparr>scheme = ''media'', tags = [(''pdf'', Constraint_present)]\<rparr> = 2"
  using urnScore_ranks_refinement [of "\<lparr>scheme = ''media'', tags = [(''pdf'', Constraint_present)]\<rparr>"
      "\<lparr>scheme = ''media'', tags = []\<rparr>"]
  by (simp add: Refines_iff urnScore_eq tagScore_def)

end
