(* ===== verification/UrnMerge.thy ===== *)
theory UrnMerge
  imports Urn
begin

text \<open>
  The relations between URNs as the program runs them (\<open>TaggedUrn-Sorted.c\<close>, \<open>TaggedUrn-Exec.c\<close>): tags
  are kept sorted by key, which \<open>Exec_make\<close> enforces, and two URNs are compared in one pass over
  both lists, as in a merge.  The lemmas show that on sorted tags the pass decides the relations
  of \<open>Urn\<close>.
\<close>

section \<open>Sorted tags\<close>

definition instDecidableSorted :: "(string \<times> Constraint) list \<Rightarrow> bool" where
  "instDecidableSorted xs = List_instDecidablePairwise (\<lambda>x y. fst x < fst y) xs"

section \<open>The pass over both lists\<close>

fun mergeTags_all_left :: "(string \<times> Constraint) list \<Rightarrow> bool" where
  "mergeTags_all_left [] = True"
| "mergeTags_all_left (y # ys) =
     (if tagMatch Constraint_missing (snd y) then mergeTags_all_left ys else False)"

fun mergeTags_all_right :: "(string \<times> Constraint) list \<Rightarrow> bool" where
  "mergeTags_all_right [] = True"
| "mergeTags_all_right (x # xs) =
     (if tagMatch (snd x) Constraint_missing then mergeTags_all_right xs else False)"

fun mergeTags :: "(string \<times> Constraint) list \<Rightarrow> (string \<times> Constraint) list \<Rightarrow> bool" where
  "mergeTags [] ys = mergeTags_all_left ys"
| "mergeTags (x # xs) [] = mergeTags_all_right (x # xs)"
| "mergeTags (x # xs) (y # ys) =
     (if fst x < fst y then
        (if tagMatch (snd x) Constraint_missing then mergeTags xs (y # ys) else False)
      else if fst y < fst x then
        (if tagMatch Constraint_missing (snd y) then mergeTags (x # xs) ys else False)
      else
        (if tagMatch (snd x) (snd y) then mergeTags xs ys else False))"

fun mergeWith_all_left ::
  "(Constraint \<Rightarrow> Constraint \<Rightarrow> bool) \<Rightarrow> (string \<times> Constraint) list \<Rightarrow> bool" where
  "mergeWith_all_left f [] = True"
| "mergeWith_all_left f (y # ys) =
     (if f Constraint_missing (snd y) then mergeWith_all_left f ys else False)"

fun mergeWith_all_right ::
  "(Constraint \<Rightarrow> Constraint \<Rightarrow> bool) \<Rightarrow> (string \<times> Constraint) list \<Rightarrow> bool" where
  "mergeWith_all_right f [] = True"
| "mergeWith_all_right f (x # xs) =
     (if f (snd x) Constraint_missing then mergeWith_all_right f xs else False)"

fun mergeWith ::
  "(Constraint \<Rightarrow> Constraint \<Rightarrow> bool) \<Rightarrow> (string \<times> Constraint) list
    \<Rightarrow> (string \<times> Constraint) list \<Rightarrow> bool" where
  "mergeWith f [] ys = mergeWith_all_left f ys"
| "mergeWith f (x # xs) [] = mergeWith_all_right f (x # xs)"
| "mergeWith f (x # xs) (y # ys) =
     (if fst x < fst y then
        (if f (snd x) Constraint_missing then mergeWith f xs (y # ys) else False)
      else if fst y < fst x then
        (if f Constraint_missing (snd y) then mergeWith f (x # xs) ys else False)
      else
        (if f (snd x) (snd y) then mergeWith f xs ys else False))"

definition tagMatchClosed :: "Constraint \<Rightarrow> Constraint \<Rightarrow> bool" where
  "tagMatchClosed inst pat = tagMatch (Constraint_closed inst) pat"

definition tagMeetsClosed :: "Constraint \<Rightarrow> Constraint \<Rightarrow> bool" where
  "tagMeetsClosed a b = tagMeets (Constraint_closed a) b"

section \<open>The relations on well-formed URNs\<close>

definition Exec_make :: "string \<Rightarrow> (string \<times> Constraint) list \<Rightarrow> Urn option" where
  "Exec_make s ts = (if instDecidableSorted ts then Some \<lparr>scheme = s, tags = ts\<rparr> else None)"

definition Exec_refines :: "Urn \<Rightarrow> Urn \<Rightarrow> bool" where
  "Exec_refines a b = (if scheme a = scheme b then mergeTags (tags a) (tags b) else False)"

definition Exec_refinesClosed :: "Urn \<Rightarrow> Urn \<Rightarrow> bool" where
  "Exec_refinesClosed a b =
     (if scheme a = scheme b then mergeWith tagMatchClosed (tags a) (tags b) else False)"

definition Exec_meets :: "Urn \<Rightarrow> Urn \<Rightarrow> bool" where
  "Exec_meets a b = (if scheme a = scheme b then mergeWith tagMeets (tags a) (tags b) else False)"

definition Exec_meetsClosed :: "Urn \<Rightarrow> Urn \<Rightarrow> bool" where
  "Exec_meetsClosed a b =
     (if scheme a = scheme b then mergeWith tagMeetsClosed (tags a) (tags b) else False)"

section \<open>What a pass computes\<close>

definition sorted_tags :: "(string \<times> Constraint) list \<Rightarrow> bool" where
  "sorted_tags xs \<longleftrightarrow> sorted_wrt (\<lambda>x y. fst x < fst y) xs"

lemma instDecidableSorted_eq [decide_simps]: "instDecidableSorted xs = sorted_tags xs"
  by (simp add: instDecidableSorted_def sorted_tags_def)

lemma sorted_tags_Cons [simp]:
  "sorted_tags (x # xs) \<longleftrightarrow> (\<forall>k \<in> fst ` set xs. fst x < k) \<and> sorted_tags xs"
  by (auto simp: sorted_tags_def)

lemma sorted_tags_Nil [simp]: "sorted_tags []"
  by (simp add: sorted_tags_def)

lemma sorted_tags_distinct: "sorted_tags xs \<Longrightarrow> distinct (map fst xs)"
  by (induction xs) force+

text \<open>The contract of a pass: it is a merge of two lists of tags that asks \<open>f\<close> about each key once,
  with the missing constraint for the list that does not have the key.\<close>

locale tag_pass =
  fixes f :: "Constraint \<Rightarrow> Constraint \<Rightarrow> bool"
    and pass :: "(string \<times> Constraint) list \<Rightarrow> (string \<times> Constraint) list \<Rightarrow> bool"
  assumes pass_Nil: "pass [] ys \<longleftrightarrow> (\<forall>y \<in> set ys. f Constraint_missing (snd y))"
    and pass_Cons_Nil: "pass (x # xs) [] \<longleftrightarrow> (\<forall>z \<in> set (x # xs). f (snd z) Constraint_missing)"
    and pass_less: "fst x < fst y \<Longrightarrow>
      pass (x # xs) (y # ys) \<longleftrightarrow> f (snd x) Constraint_missing \<and> pass xs (y # ys)"
    and pass_greater: "fst y < fst x \<Longrightarrow>
      pass (x # xs) (y # ys) \<longleftrightarrow> f Constraint_missing (snd y) \<and> pass (x # xs) ys"
    and pass_same: "fst x = fst y \<Longrightarrow>
      pass (x # xs) (y # ys) \<longleftrightarrow> f (snd x) (snd y) \<and> pass xs ys"
begin

definition on_keys :: "(string \<times> Constraint) list \<Rightarrow> (string \<times> Constraint) list \<Rightarrow> bool" where
  "on_keys xs ys \<longleftrightarrow> (\<forall>k \<in> fst ` set xs \<union> fst ` set ys. f (tag_of xs k) (tag_of ys k))"

lemma on_keys_step:
  assumes "fst ` set xs \<union> fst ` set ys = insert k (fst ` set xs' \<union> fst ` set ys')"
    and "\<And>j. j \<in> fst ` set xs' \<union> fst ` set ys' \<Longrightarrow>
      tag_of xs j = tag_of xs' j \<and> tag_of ys j = tag_of ys' j"
  shows "on_keys xs ys \<longleftrightarrow> f (tag_of xs k) (tag_of ys k) \<and> on_keys xs' ys'"
  unfolding on_keys_def assms(1) using assms(2) by simp

lemma on_keys_less:
  assumes "sorted_tags (x # xs)" and "sorted_tags (y # ys)" and "fst x < fst y"
  shows "on_keys (x # xs) (y # ys) \<longleftrightarrow> f (snd x) Constraint_missing \<and> on_keys xs (y # ys)"
proof -
  have less: "\<forall>j \<in> fst ` set xs \<union> fst ` set (y # ys). fst x < j" using assms by auto
  then have "fst x \<notin> fst ` set (y # ys)" by blast
  moreover have "on_keys (x # xs) (y # ys) \<longleftrightarrow>
      f (tag_of (x # xs) (fst x)) (tag_of (y # ys) (fst x)) \<and> on_keys xs (y # ys)"
    using less by (intro on_keys_step) (auto simp: tag_of_Cons)
  ultimately show ?thesis by (auto simp: tag_of_Cons)
qed

lemma on_keys_greater:
  assumes "sorted_tags (x # xs)" and "sorted_tags (y # ys)" and "fst y < fst x"
  shows "on_keys (x # xs) (y # ys) \<longleftrightarrow> f Constraint_missing (snd y) \<and> on_keys (x # xs) ys"
proof -
  have less: "\<forall>j \<in> fst ` set (x # xs) \<union> fst ` set ys. fst y < j" using assms by auto
  then have "fst y \<notin> fst ` set (x # xs)" by blast
  moreover have "on_keys (x # xs) (y # ys) \<longleftrightarrow>
      f (tag_of (x # xs) (fst y)) (tag_of (y # ys) (fst y)) \<and> on_keys (x # xs) ys"
    using less by (intro on_keys_step) (auto simp: tag_of_Cons)
  ultimately show ?thesis by (auto simp: tag_of_Cons)
qed

lemma on_keys_same:
  assumes "sorted_tags (x # xs)" and "sorted_tags (y # ys)" and "fst x = fst y"
  shows "on_keys (x # xs) (y # ys) \<longleftrightarrow> f (snd x) (snd y) \<and> on_keys xs ys"
proof -
  have less: "\<forall>j \<in> fst ` set xs \<union> fst ` set ys. fst x < j" using assms by auto
  have "on_keys (x # xs) (y # ys) \<longleftrightarrow>
      f (tag_of (x # xs) (fst x)) (tag_of (y # ys) (fst x)) \<and> on_keys xs ys"
    using less assms(3) by (intro on_keys_step) (auto simp: tag_of_Cons)
  then show ?thesis using assms(3) by (simp add: tag_of_Cons)
qed

lemma on_keys_Nil:
  "sorted_tags ys \<Longrightarrow> on_keys [] ys \<longleftrightarrow> (\<forall>y \<in> set ys. f Constraint_missing (snd y))"
  "sorted_tags xs \<Longrightarrow> on_keys xs [] \<longleftrightarrow> (\<forall>x \<in> set xs. f (snd x) Constraint_missing)"
  by (auto simp: on_keys_def tag_of_def dest!: sorted_tags_distinct)

lemma pass_on_keys: "sorted_tags xs \<Longrightarrow> sorted_tags ys \<Longrightarrow> pass xs ys \<longleftrightarrow> on_keys xs ys"
proof (induction "length xs + length ys" arbitrary: xs ys rule: less_induct)
  case less
  show ?case
  proof (cases xs)
    case Nil
    then show ?thesis using less.prems by (simp add: pass_Nil on_keys_Nil)
  next
    case x: (Cons x xs')
    show ?thesis
    proof (cases ys)
      case Nil
      then show ?thesis using less.prems x by (simp only: pass_Cons_Nil on_keys_Nil)
    next
      case y: (Cons y ys')
      have tails: "sorted_tags xs'" "sorted_tags ys'" using less.prems x y by simp_all
      consider "fst x < fst y" | "fst y < fst x" | "fst x = fst y" by (rule linorder_cases)
      then show ?thesis
      proof cases
        case 1
        then show ?thesis
          using less.hyps [of xs' ys] less.prems tails x y by (simp only: pass_less on_keys_less) simp
      next
        case 2
        then show ?thesis
          using less.hyps [of xs ys'] less.prems tails x y by (simp only: pass_greater on_keys_greater) simp
      next
        case 3
        then show ?thesis
          using less.hyps [of xs' ys'] less.prems tails x y by (simp only: pass_same on_keys_same) simp
      qed
    qed
  qed
qed

lemma pass_all_keys:
  assumes "f Constraint_missing Constraint_missing" and "sorted_tags xs" and "sorted_tags ys"
  shows "pass xs ys \<longleftrightarrow> (\<forall>k. f (tag_of xs k) (tag_of ys k))"
  using pass_on_keys [OF assms(2,3)] all_keys [of f xs ys] assms(1) by (simp add: on_keys_def)

end

section \<open>The program's passes\<close>

interpretation match_left: all_loop "\<lambda>y. tagMatch Constraint_missing (snd y)" mergeTags_all_left
  by unfold_locales simp_all

interpretation match_right: all_loop "\<lambda>x. tagMatch (snd x) Constraint_missing" mergeTags_all_right
  by unfold_locales simp_all

interpretation with_left: all_loop "\<lambda>y. f Constraint_missing (snd y)" "mergeWith_all_left f" for f
  by unfold_locales simp_all

interpretation with_right: all_loop "\<lambda>x. f (snd x) Constraint_missing" "mergeWith_all_right f" for f
  by unfold_locales simp_all

interpretation match_pass: tag_pass tagMatch mergeTags
  by unfold_locales (auto simp: match_left.loop_eq match_right.loop_eq)

interpretation with_pass: tag_pass f "mergeWith f" for f
  by unfold_locales (auto simp: with_left.loop_eq with_right.loop_eq)

definition Urn_wf :: "Urn \<Rightarrow> bool" where
  "Urn_wf u \<longleftrightarrow> sorted_tags (tags u)"

lemma Exec_make_Some: "Exec_make s ts = Some u \<longleftrightarrow> u = \<lparr>scheme = s, tags = ts\<rparr> \<and> Urn_wf u"
  by (auto simp: Exec_make_def decide_simps Urn_wf_def)

lemma Urn_wf_distinct: "Urn_wf u \<Longrightarrow> distinct (map fst (tags u))"
  by (simp add: Urn_wf_def sorted_tags_distinct)

lemma closed_missing [simp]:
  "tagMatchClosed Constraint_missing Constraint_missing"
  "tagMeetsClosed Constraint_missing Constraint_missing"
  by (simp_all add: tagMatchClosed_def tagMeetsClosed_def)

lemma Exec_refines_spec: "Urn_wf a \<Longrightarrow> Urn_wf b \<Longrightarrow> Exec_refines a b = instDecidableRefines a b"
  by (simp add: Exec_refines_def Urn_wf_def match_pass.pass_all_keys Refines_iff)

lemma Exec_refinesClosed_spec:
  "Urn_wf a \<Longrightarrow> Urn_wf b \<Longrightarrow> Exec_refinesClosed a b = instDecidableRefinesClosed a b"
  by (simp add: Exec_refinesClosed_def Urn_wf_def with_pass.pass_all_keys RefinesClosed_iff)
    (simp add: tagMatchClosed_def)

lemma Exec_meets_spec: "Urn_wf a \<Longrightarrow> Urn_wf b \<Longrightarrow> Exec_meets a b = instDecidableMeets a b"
  by (simp add: Exec_meets_def Urn_wf_def with_pass.pass_all_keys Meets_iff)

lemma Exec_meetsClosed_spec:
  "Urn_wf a \<Longrightarrow> Urn_wf b \<Longrightarrow> Exec_meetsClosed a b = instDecidableMeetsClosed a b"
  by (simp add: Exec_meetsClosed_def Urn_wf_def with_pass.pass_all_keys MeetsClosed_iff)
    (simp add: tagMeetsClosed_def)

lemmas Exec_specs = Exec_refines_spec Exec_refinesClosed_spec Exec_meets_spec Exec_meetsClosed_spec

lemma Exec_make_iff:
  "Exec_make s ts = (if sorted_wrt (<) (map fst ts) then Some \<lparr>scheme = s, tags = ts\<rparr> else None)"
  by (simp add: Exec_make_def decide_simps sorted_tags_def sorted_wrt_map)

section \<open>Properties\<close>

text \<open>C5: The single pass decides the relation: for URNs that \<open>Exec_make\<close> accepts (tags strictly
  ascending by key), comparing both lists in one pass gives, for each of the four relations, the
  answer of going over the keys of both and looking each one up.\<close>

theorem Exec_relations_equivalent:
  assumes "Exec_make s xs = Some a" and "Exec_make t ys = Some b"
  shows "Exec_refines a b = instDecidableRefines a b \<and>
    Exec_refinesClosed a b = instDecidableRefinesClosed a b \<and>
    Exec_meets a b = instDecidableMeets a b \<and>
    Exec_meetsClosed a b = instDecidableMeetsClosed a b"
proof -
  have "Urn_wf a" "Urn_wf b" using assms by (auto simp: Exec_make_Some)
  then show ?thesis by (simp add: Exec_specs)
qed

lemma Exec_relations_equivalent_witness:
  "Exec_refines \<lparr>scheme = ''cap'', tags = [(''op'', Constraint_exact ''a''), (''x'', Constraint_absent)]\<rparr>
      \<lparr>scheme = ''cap'', tags = [(''op'', Constraint_present)]\<rparr> =
   instDecidableRefines \<lparr>scheme = ''cap'', tags = [(''op'', Constraint_exact ''a''), (''x'', Constraint_absent)]\<rparr>
      \<lparr>scheme = ''cap'', tags = [(''op'', Constraint_present)]\<rparr>"
  using Exec_relations_equivalent [of "''cap''" "[(''op'', Constraint_exact ''a''), (''x'', Constraint_absent)]"
      "\<lparr>scheme = ''cap'', tags = [(''op'', Constraint_exact ''a''), (''x'', Constraint_absent)]\<rparr>"
      "''cap''" "[(''op'', Constraint_present)]" "\<lparr>scheme = ''cap'', tags = [(''op'', Constraint_present)]\<rparr>"]
  by (simp add: Exec_make_Some Urn_wf_def less_char_def)

end
