(* ===== verification/Cap.thy ===== *)
theory Cap
  imports UrnMerge
begin

text \<open>
  Caps (\<open>CapDAG-Cap.c\<close>): what a capability takes, what it gives, its other tags and its effect, the
  kind this makes it, and the comparisons of two caps.  Inputs are contravariant and outputs
  covariant: a cap that takes more and gives something more specific can stand in for another.
\<close>

section \<open>Data\<close>

datatype Effect = Effect_unspecified | Effect_declared | Effect_none | Effect_patch

datatype CapKind =
    CapKind_identity
  | CapKind_source
  | CapKind_sink
  | CapKind_effect
  | CapKind_transform

record Cap =
  cap_input :: Urn
  cap_output :: Urn
  cap_other :: Urn
  cap_effect :: Effect

fun Effect_ctorIdx :: "Effect \<Rightarrow> nat" where
  "Effect_ctorIdx Effect_unspecified = 0"
| "Effect_ctorIdx Effect_declared = 1"
| "Effect_ctorIdx Effect_none = 2"
| "Effect_ctorIdx Effect_patch = 3"

definition Effect_ofNat :: "nat \<Rightarrow> Effect" where
  "Effect_ofNat n =
     (if n \<le> 1 then (if n \<le> 0 then Effect_unspecified else Effect_declared)
      else if n \<le> 2 then Effect_none else Effect_patch)"

fun CapKind_ctorIdx :: "CapKind \<Rightarrow> nat" where
  "CapKind_ctorIdx CapKind_identity = 0"
| "CapKind_ctorIdx CapKind_source = 1"
| "CapKind_ctorIdx CapKind_sink = 2"
| "CapKind_ctorIdx CapKind_effect = 3"
| "CapKind_ctorIdx CapKind_transform = 4"

definition CapKind_ofNat :: "nat \<Rightarrow> CapKind" where
  "CapKind_ofNat n =
     (if n \<le> 1 then (if n \<le> 0 then CapKind_identity else CapKind_source)
      else if n \<le> 2 then CapKind_sink
      else if n \<le> 3 then CapKind_effect else CapKind_transform)"

definition instDecidableEqEffect :: "Effect \<Rightarrow> Effect \<Rightarrow> bool" where
  "instDecidableEqEffect x y = (Effect_ctorIdx x = Effect_ctorIdx y)"

definition instDecidableEqCapKind :: "CapKind \<Rightarrow> CapKind \<Rightarrow> bool" where
  "instDecidableEqCapKind x y = (CapKind_ctorIdx x = CapKind_ctorIdx y)"

definition instDecidableEqCap :: "Cap \<Rightarrow> Cap \<Rightarrow> bool" where
  "instDecidableEqCap x y =
     (if instDecidableEqUrn (cap_input x) (cap_input y)
      then (if instDecidableEqUrn (cap_output x) (cap_output y)
            then (if instDecidableEqUrn (cap_other x) (cap_other y)
                  then instDecidableEqEffect (cap_effect x) (cap_effect y) else False)
            else False)
      else False)"

section \<open>Media, kinds and comparisons\<close>

definition mediaTop :: Urn where
  "mediaTop = \<lparr>scheme = ''media'', tags = []\<rparr>"

definition mediaVoid :: Urn where
  "mediaVoid = \<lparr>scheme = ''media'', tags = [(''void'', Constraint_present)]\<rparr>"

definition instDecidableUnconstrainedMedia :: "Urn \<Rightarrow> bool" where
  "instDecidableUnconstrainedMedia u = instDecidableRefines mediaTop u"

definition Cap_kind :: "Cap \<Rightarrow> CapKind" where
  "Cap_kind c =
     (if instDecidableEqUrn (cap_input c) mediaTop \<and> instDecidableEqUrn (cap_output c) mediaTop \<and>
         List_instDecidableEqNil (tags (cap_other c)) \<and>
         instDecidableEqEffect (cap_effect c) Effect_none
      then CapKind_identity
      else
        (let void_in = instDecidableEqUrn (cap_input c) mediaVoid
         in if void_in \<and> \<not> instDecidableEqUrn (cap_output c) mediaVoid then CapKind_source
            else if \<not> void_in
              then (if instDecidableEqUrn (cap_output c) mediaVoid then CapKind_sink
                    else CapKind_transform)
            else (if instDecidableEqUrn (cap_output c) mediaVoid then CapKind_effect
                  else CapKind_transform)))"

definition instDecidableEffectOk :: "Effect \<Rightarrow> Effect \<Rightarrow> bool" where
  "instDecidableEffectOk cand req =
     (let same = instDecidableEqEffect cand req
      in if instDecidableEqEffect req Effect_unspecified then True else same)"

definition instDecidableCapAccepts :: "Cap \<Rightarrow> Cap \<Rightarrow> bool" where
  "instDecidableCapAccepts p r =
     (if instDecidableRefines (cap_input r) (cap_input p)
      then (if instDecidableRefines (cap_output p) (cap_output r)
            then (if instDecidableEqEffect (cap_effect p) Effect_unspecified
                  then instDecidableRefines (cap_other r) (cap_other p)
                  else (if instDecidableEqEffect (cap_effect p) (cap_effect r)
                        then instDecidableRefines (cap_other r) (cap_other p) else False))
            else False)
      else False)"

definition instDecidableCapRefines :: "Cap \<Rightarrow> Cap \<Rightarrow> bool" where
  "instDecidableCapRefines a b =
     (if instDecidableRefines (cap_input b) (cap_input a)
      then (if instDecidableRefines (cap_output a) (cap_output b)
            then (if instDecidableEffectOk (cap_effect a) (cap_effect b)
                  then instDecidableRefines (cap_other a) (cap_other b) else False)
            else False)
      else False)"

section \<open>Lemmas\<close>

lemma Effect_ofNat_ctorIdx [simp]: "Effect_ofNat (Effect_ctorIdx x) = x"
  by (cases x) (simp_all add: Effect_ofNat_def)

lemma CapKind_ofNat_ctorIdx [simp]: "CapKind_ofNat (CapKind_ctorIdx x) = x"
  by (cases x) (simp_all add: CapKind_ofNat_def)

lemma instDecidableEqEffect_eq [decide_simps]: "instDecidableEqEffect x y = (x = y)"
  unfolding instDecidableEqEffect_def by (metis Effect_ofNat_ctorIdx)

lemma instDecidableEqCapKind_eq [decide_simps]: "instDecidableEqCapKind x y = (x = y)"
  unfolding instDecidableEqCapKind_def by (metis CapKind_ofNat_ctorIdx)

lemma instDecidableEqCap_eq [decide_simps]: "instDecidableEqCap x y = (x = y)"
  by (cases x; cases y) (simp add: instDecidableEqCap_def decide_simps)

lemma EffectOk_iff [decide_simps]:
  "instDecidableEffectOk cand req \<longleftrightarrow> req = Effect_unspecified \<or> cand = req"
  by (simp add: instDecidableEffectOk_def decide_simps Let_def)

lemma CapAccepts_iff:
  "instDecidableCapAccepts p r \<longleftrightarrow>
     instDecidableRefines (cap_input r) (cap_input p) \<and>
     instDecidableRefines (cap_output p) (cap_output r) \<and>
     (cap_effect p = Effect_unspecified \<or> cap_effect p = cap_effect r) \<and>
     instDecidableRefines (cap_other r) (cap_other p)"
  by (simp add: instDecidableCapAccepts_def decide_simps)

lemma CapRefines_iff:
  "instDecidableCapRefines a b \<longleftrightarrow>
     instDecidableRefines (cap_input b) (cap_input a) \<and>
     instDecidableRefines (cap_output a) (cap_output b) \<and>
     (cap_effect b = Effect_unspecified \<or> cap_effect a = cap_effect b) \<and>
     instDecidableRefines (cap_other a) (cap_other b)"
  by (simp add: instDecidableCapRefines_def decide_simps)

lemma mediaTop_wf [simp]: "Urn_wf mediaTop"
  by (simp add: Urn_wf_def mediaTop_def)

text \<open>The interface of a comparison: reflexive and transitive.\<close>

locale comparison =
  fixes below :: "'a \<Rightarrow> 'a \<Rightarrow> bool"
  assumes below_refl: "below a a"
    and below_trans: "below a b \<Longrightarrow> below b c \<Longrightarrow> below a c"
begin

definition same :: "'a \<Rightarrow> 'a \<Rightarrow> bool" where
  "same a b \<longleftrightarrow> below a b \<and> below b a"

lemma same_equivalence: "equivp same"
  by (rule equivpI) (auto simp: same_def reflp_def symp_def transp_def intro: below_refl below_trans)

lemma below_same: "same a b \<Longrightarrow> same c d \<Longrightarrow> below a c = below b d"
  by (auto simp: same_def intro: below_trans)

end

interpretation urns: comparison instDecidableRefines
  by unfold_locales (auto intro: Refines_trans)

interpretation accepting: comparison "\<lambda>r p. instDecidableCapAccepts p r"
  by unfold_locales (auto simp: CapAccepts_iff intro: Refines_trans)

interpretation refining: comparison instDecidableCapRefines
  by unfold_locales (auto simp: CapRefines_iff intro: Refines_trans)

section \<open>Properties\<close>

text \<open>Comparing caps is a preorder, in both senses the program compares them in: every cap accepts
  and refines itself, acceptance and refinement compose along chains of caps, and caps that accept
  each other accept and are accepted by the same caps.\<close>

theorem cap_comparisons_preorder:
  "reflp instDecidableCapAccepts \<and> transp instDecidableCapAccepts \<and>
   reflp instDecidableCapRefines \<and> transp instDecidableCapRefines \<and>
   equivp (\<lambda>a b. instDecidableCapAccepts a b \<and> instDecidableCapAccepts b a)"
proof -
  have "equivp (\<lambda>a b. instDecidableCapAccepts a b \<and> instDecidableCapAccepts b a)"
    using accepting.same_equivalence by (simp add: accepting.same_def [abs_def] conj_commute)
  moreover have "transp instDecidableCapAccepts"
    by (rule transpI) (rule accepting.below_trans)
  moreover have "transp instDecidableCapRefines"
    by (rule transpI) (rule refining.below_trans)
  ultimately show ?thesis
    by (simp add: reflp_def accepting.below_refl refining.below_refl)
qed

text \<open>The kind of a cap, case by case: identity exactly when both sides are the unconstrained
  medium, no other tag is there and the effect is none; otherwise a source takes void and gives
  something, a sink takes something and gives void, an effect takes and gives void, and a transform
  does neither.\<close>

lemma Cap_kind_iff:
  "(Cap_kind c = CapKind_identity \<longleftrightarrow>
      cap_input c = mediaTop \<and> cap_output c = mediaTop \<and> tags (cap_other c) = [] \<and>
      cap_effect c = Effect_none) \<and>
   (Cap_kind c = CapKind_source \<longleftrightarrow> cap_input c = mediaVoid \<and> cap_output c \<noteq> mediaVoid) \<and>
   (Cap_kind c = CapKind_sink \<longleftrightarrow> cap_input c \<noteq> mediaVoid \<and> cap_output c = mediaVoid) \<and>
   (Cap_kind c = CapKind_effect \<longleftrightarrow> cap_input c = mediaVoid \<and> cap_output c = mediaVoid)"
  by (auto simp: Cap_kind_def decide_simps Let_def mediaTop_def mediaVoid_def)

end
