(* ===== verification/Query.thy ===== *)
theory Query
  imports Cap
begin

text \<open>
  Queries over caps (\<open>CapDAG-Query.c\<close>): what is asked of a cap's input and output (anything, something
  within a URN, something that covers it, or the same), its other tags and its effect; whether a
  cap is admitted for certain, possibly, or exactly, and the grade this gives; and the queries a
  call, a pattern and a request stand for.
\<close>

section \<open>Data\<close>

datatype Ask = Ask_unknown | Ask_within Urn | Ask_covers Urn | Ask_same Urn

datatype Grade = Grade_exact | Grade_guaranteed | Grade_possible | Grade_none

record Query =
  query_input :: Ask
  query_output :: Ask
  query_tags :: Urn
  query_effect :: Effect

fun Ask_ctorIdx :: "Ask \<Rightarrow> nat" where
  "Ask_ctorIdx Ask_unknown = 0"
| "Ask_ctorIdx (Ask_within _) = 1"
| "Ask_ctorIdx (Ask_covers _) = 2"
| "Ask_ctorIdx (Ask_same _) = 3"

fun Grade_ctorIdx :: "Grade \<Rightarrow> nat" where
  "Grade_ctorIdx Grade_exact = 0"
| "Grade_ctorIdx Grade_guaranteed = 1"
| "Grade_ctorIdx Grade_possible = 2"
| "Grade_ctorIdx Grade_none = 3"

definition Grade_ofNat :: "nat \<Rightarrow> Grade" where
  "Grade_ofNat n =
     (if n \<le> 1 then (if n \<le> 0 then Grade_exact else Grade_guaranteed)
      else if n \<le> 2 then Grade_possible else Grade_none)"

definition instDecidableEqGrade :: "Grade \<Rightarrow> Grade \<Rightarrow> bool" where
  "instDecidableEqGrade x y = (Grade_ctorIdx x = Grade_ctorIdx y)"

definition instDecidableEqAsk :: "Ask \<Rightarrow> Ask \<Rightarrow> bool" where
  "instDecidableEqAsk x y =
     (case x of
        Ask_unknown \<Rightarrow> (case y of Ask_unknown \<Rightarrow> True | _ \<Rightarrow> False)
      | Ask_within u \<Rightarrow> (case y of Ask_within v \<Rightarrow> instDecidableEqUrn u v | _ \<Rightarrow> False)
      | Ask_covers u \<Rightarrow> (case y of Ask_covers v \<Rightarrow> instDecidableEqUrn u v | _ \<Rightarrow> False)
      | Ask_same u \<Rightarrow> (case y of Ask_same v \<Rightarrow> instDecidableEqUrn u v | _ \<Rightarrow> False))"

definition instDecidableEqQuery :: "Query \<Rightarrow> Query \<Rightarrow> bool" where
  "instDecidableEqQuery x y =
     (if instDecidableEqAsk (query_input x) (query_input y)
      then (if instDecidableEqAsk (query_output x) (query_output y)
            then (if instDecidableEqUrn (query_tags x) (query_tags y)
                  then instDecidableEqEffect (query_effect x) (query_effect y) else False)
            else False)
      else False)"

section \<open>Making queries\<close>

definition Ask_exactly :: "Ask \<Rightarrow> Ask" where
  "Ask_exactly a =
     (case a of Ask_within u \<Rightarrow> Ask_same u | Ask_covers u \<Rightarrow> Ask_same u | _ \<Rightarrow> a)"

definition Query_exactly :: "Query \<Rightarrow> Query" where
  "Query_exactly q =
     q\<lparr>query_input := Ask_exactly (query_input q), query_output := Ask_exactly (query_output q)\<rparr>"

definition Query_consuming :: "Urn \<Rightarrow> Urn \<Rightarrow> Query" where
  "Query_consuming i t =
     \<lparr>query_input = Ask_covers i, query_output = Ask_unknown, query_tags = t,
      query_effect = Effect_unspecified\<rparr>"

definition Query_producing :: "Urn \<Rightarrow> Urn \<Rightarrow> Query" where
  "Query_producing i t =
     \<lparr>query_input = Ask_unknown, query_output = Ask_within i, query_tags = t,
      query_effect = Effect_unspecified\<rparr>"

definition Query_ofCall :: "Cap \<Rightarrow> Query" where
  "Query_ofCall r =
     \<lparr>query_input = Ask_covers (cap_input r), query_output = Ask_within (cap_output r),
      query_tags = cap_other r, query_effect = cap_effect r\<rparr>"

definition Query_ofPattern :: "Cap \<Rightarrow> Query" where
  "Query_ofPattern p =
     \<lparr>query_input = Ask_within (cap_input p),
      query_output =
        (if instDecidableUnconstrainedMedia (cap_output p) then Ask_unknown
         else Ask_covers (cap_output p)),
      query_tags = cap_other p, query_effect = cap_effect p\<rparr>"

definition Query_ofRequest :: "Cap \<Rightarrow> Query" where
  "Query_ofRequest r =
     \<lparr>query_input =
        (if instDecidableUnconstrainedMedia (cap_input r) then Ask_unknown
         else Ask_covers (cap_input r)),
      query_output = Ask_within (cap_output r),
      query_tags = cap_other r, query_effect = cap_effect r\<rparr>"

section \<open>Answering queries\<close>

definition instDecidableAdmits :: "Ask \<Rightarrow> Urn \<Rightarrow> bool" where
  "instDecidableAdmits a u =
     (case a of
        Ask_unknown \<Rightarrow> True
      | Ask_within v \<Rightarrow> instDecidableRefines u v
      | Ask_covers v \<Rightarrow> instDecidableRefines v u
      | Ask_same v \<Rightarrow>
          (let covers = instDecidableRefines v u
           in if instDecidableRefines u v then covers else False))"

definition instDecidableAdmits_1 :: "Query \<Rightarrow> Cap \<Rightarrow> bool" where
  "instDecidableAdmits_1 q c =
     (if instDecidableAdmits (query_input q) (cap_input c)
      then (if instDecidableAdmits (query_output q) (cap_output c)
            then (if instDecidableEffectOk (cap_effect c) (query_effect q)
                  then instDecidableRefinesClosed (cap_other c) (query_tags q) else False)
            else False)
      else False)"

definition instDecidableMayAdmit :: "Ask \<Rightarrow> Urn \<Rightarrow> bool" where
  "instDecidableMayAdmit a u =
     (case a of
        Ask_unknown \<Rightarrow> True
      | Ask_within v \<Rightarrow> instDecidableMeets u v
      | Ask_covers v \<Rightarrow> instDecidableMeets u v
      | Ask_same v \<Rightarrow> instDecidableMeets u v)"

definition instDecidableMayAdmit_1 :: "Query \<Rightarrow> Cap \<Rightarrow> bool" where
  "instDecidableMayAdmit_1 q c =
     (if instDecidableMayAdmit (query_input q) (cap_input c)
      then (if instDecidableMayAdmit (query_output q) (cap_output c)
            then (if instDecidableEffectOk (cap_effect c) (query_effect q)
                  then instDecidableMeetsClosed (cap_other c) (query_tags q) else False)
            else False)
      else False)"

definition Query_grade :: "Query \<Rightarrow> Cap \<Rightarrow> Grade" where
  "Query_grade q c =
     (if instDecidableAdmits_1 (Query_exactly q) c then Grade_exact
      else if instDecidableAdmits_1 q c then Grade_guaranteed
      else if instDecidableMayAdmit_1 q c then Grade_possible
      else Grade_none)"

definition instDecidableFits :: "Cap \<Rightarrow> Cap \<Rightarrow> bool" where
  "instDecidableFits p c = instDecidableAdmits_1 (Query_ofPattern p) c"

definition instDecidableServes :: "Cap \<Rightarrow> Cap \<Rightarrow> bool" where
  "instDecidableServes c r = instDecidableAdmits_1 (Query_ofRequest r) c"

definition instDecidableMayServe :: "Cap \<Rightarrow> Cap \<Rightarrow> bool" where
  "instDecidableMayServe c r = instDecidableMayAdmit_1 (Query_ofRequest r) c"

definition instDecidableFlows :: "Cap \<Rightarrow> Cap \<Rightarrow> bool" where
  "instDecidableFlows a b = instDecidableRefines (cap_output a) (cap_input b)"

definition instDecidableMayFlow :: "Cap \<Rightarrow> Cap \<Rightarrow> bool" where
  "instDecidableMayFlow a b = instDecidableMeets (cap_output a) (cap_input b)"

section \<open>Lemmas\<close>

lemma Grade_ofNat_ctorIdx [simp]: "Grade_ofNat (Grade_ctorIdx x) = x"
  by (cases x) (simp_all add: Grade_ofNat_def)

lemma instDecidableEqGrade_eq [decide_simps]: "instDecidableEqGrade x y = (x = y)"
  unfolding instDecidableEqGrade_def by (metis Grade_ofNat_ctorIdx)

lemma instDecidableEqAsk_eq [decide_simps]: "instDecidableEqAsk x y = (x = y)"
  by (cases x; cases y) (simp_all add: instDecidableEqAsk_def decide_simps)

lemma instDecidableEqQuery_eq [decide_simps]: "instDecidableEqQuery x y = (x = y)"
  by (cases x; cases y) (simp add: instDecidableEqQuery_def decide_simps)

lemma Admits_1_iff:
  "instDecidableAdmits_1 q c \<longleftrightarrow>
     instDecidableAdmits (query_input q) (cap_input c) \<and>
     instDecidableAdmits (query_output q) (cap_output c) \<and>
     instDecidableEffectOk (cap_effect c) (query_effect q) \<and>
     instDecidableRefinesClosed (cap_other c) (query_tags q)"
  by (simp add: instDecidableAdmits_1_def)

lemma MayAdmit_1_iff:
  "instDecidableMayAdmit_1 q c \<longleftrightarrow>
     instDecidableMayAdmit (query_input q) (cap_input c) \<and>
     instDecidableMayAdmit (query_output q) (cap_output c) \<and>
     instDecidableEffectOk (cap_effect c) (query_effect q) \<and>
     instDecidableMeetsClosed (cap_other c) (query_tags q)"
  by (simp add: instDecidableMayAdmit_1_def)

lemma Admits_exactly: "instDecidableAdmits (Ask_exactly a) u \<Longrightarrow> instDecidableAdmits a u"
  by (cases a) (auto simp: instDecidableAdmits_def Ask_exactly_def Let_def split: if_splits)

lemma Admits_MayAdmit: "instDecidableAdmits a u \<Longrightarrow> instDecidableMayAdmit a u"
  by (cases a)
    (auto simp: instDecidableAdmits_def instDecidableMayAdmit_def Let_def
      intro: Refines_Meets Refines_Meets_back split: if_splits)

lemma Query_exactly_fields [simp]:
  "query_input (Query_exactly q) = Ask_exactly (query_input q)"
  "query_output (Query_exactly q) = Ask_exactly (query_output q)"
  "query_tags (Query_exactly q) = query_tags q"
  "query_effect (Query_exactly q) = query_effect q"
  by (simp_all add: Query_exactly_def)

lemma Admits_1_exactly: "instDecidableAdmits_1 (Query_exactly q) c \<Longrightarrow> instDecidableAdmits_1 q c"
  by (simp add: Admits_1_iff Admits_exactly)

lemma Admits_1_MayAdmit_1: "instDecidableAdmits_1 q c \<Longrightarrow> instDecidableMayAdmit_1 q c"
  by (simp add: Admits_1_iff MayAdmit_1_iff Admits_MayAdmit RefinesClosed_MeetsClosed)

lemma Serves_iff:
  "instDecidableServes c r \<longleftrightarrow>
     (instDecidableUnconstrainedMedia (cap_input r) \<or>
      instDecidableRefines (cap_input r) (cap_input c)) \<and>
     instDecidableRefines (cap_output c) (cap_output r) \<and>
     (cap_effect r = Effect_unspecified \<or> cap_effect c = cap_effect r) \<and>
     instDecidableRefinesClosed (cap_other c) (cap_other r)"
  by (simp add: instDecidableServes_def Admits_1_iff Query_ofRequest_def instDecidableAdmits_def
      decide_simps)

lemma Fits_iff:
  "instDecidableFits p c \<longleftrightarrow>
     instDecidableRefines (cap_input c) (cap_input p) \<and>
     (instDecidableUnconstrainedMedia (cap_output p) \<or>
      instDecidableRefines (cap_output p) (cap_output c)) \<and>
     (cap_effect p = Effect_unspecified \<or> cap_effect c = cap_effect p) \<and>
     instDecidableRefinesClosed (cap_other c) (cap_other p)"
  by (simp add: instDecidableFits_def Admits_1_iff Query_ofPattern_def instDecidableAdmits_def
      decide_simps)

section \<open>Properties\<close>

text \<open>Grades are ordered by strength and lose nothing: the grade is exact exactly when the exact
  query admits the cap, exact or guaranteed exactly when the query admits it, and none exactly when
  the cap cannot even possibly be admitted; an exact answer is always a guaranteed one and a
  guaranteed answer always a possible one.\<close>

theorem Query_grade_levels:
  "(Query_grade q c = Grade_exact \<longleftrightarrow> instDecidableAdmits_1 (Query_exactly q) c) \<and>
   (Query_grade q c \<in> {Grade_exact, Grade_guaranteed} \<longleftrightarrow> instDecidableAdmits_1 q c) \<and>
   (Query_grade q c \<noteq> Grade_none \<longleftrightarrow> instDecidableMayAdmit_1 q c)"
  using Admits_1_exactly [of q c] Admits_1_MayAdmit_1 [of q c] by (auto simp: Query_grade_def)

text \<open>Substitution: a cap that takes everything another cap takes, gives something at least as
  specific, and has the other's tags and effect, serves every request the other serves; and a cap
  serves every request that asks for less, with a more specific input and a less specific output,
  effect and tags.\<close>

theorem Serves_substitution:
  assumes "instDecidableServes c r"
    and "instDecidableRefines (cap_input c) (cap_input c')"
    and "instDecidableRefines (cap_output c') (cap_output c)"
    and "cap_effect c' = cap_effect c" and "cap_other c' = cap_other c"
    and "instDecidableRefines (cap_input r') (cap_input r)"
    and "\<not> instDecidableUnconstrainedMedia (cap_input r)"
    and "instDecidableRefines (cap_output r) (cap_output r')"
    and "cap_effect r' \<in> {Effect_unspecified, cap_effect r}"
    and "instDecidableRefines (cap_other r) (cap_other r')"
  shows "instDecidableServes c' r'"
  using assms
  by (auto simp: Serves_iff intro: Refines_trans RefinesClosed_Refines_trans)

definition pdf_to_text :: Cap where
  "pdf_to_text =
     \<lparr>cap_input = \<lparr>scheme = ''media'', tags = [(''pdf'', Constraint_present)]\<rparr>,
      cap_output = \<lparr>scheme = ''media'', tags = [(''lang'', Constraint_exact ''en''), (''text'', Constraint_present)]\<rparr>,
      cap_other = \<lparr>scheme = ''cap'', tags = [(''op'', Constraint_exact ''extract'')]\<rparr>,
      cap_effect = Effect_declared\<rparr>"

definition any_text :: Cap where
  "any_text =
     pdf_to_text\<lparr>cap_output := \<lparr>scheme = ''media'', tags = [(''text'', Constraint_present)]\<rparr>,
       cap_effect := Effect_unspecified\<rparr>"

lemma Serves_substitution_witness: "instDecidableServes pdf_to_text any_text"
proof (rule Serves_substitution)
  show "instDecidableServes pdf_to_text pdf_to_text"
    by (simp add: Serves_iff pdf_to_text_def Refines_RefinesClosed)
  show "\<not> instDecidableUnconstrainedMedia (cap_input pdf_to_text)"
    by (simp add: pdf_to_text_def instDecidableUnconstrainedMedia_def mediaTop_def
        instDecidableRefines_def Urn_keys_def Urn_tag_def tagMatch_def)
  show "instDecidableRefines (cap_output pdf_to_text) (cap_output any_text)"
    by (simp add: pdf_to_text_def any_text_def instDecidableRefines_def Urn_keys_def Urn_tag_def
        tagMatch_def)
qed (simp_all add: any_text_def pdf_to_text_def)

end
