(* ===== verification/Ranking.thy ===== *)
theory Ranking
  imports Query
begin

text \<open>
  Choosing a cap for a request (\<open>CapDAG-Ranking.c\<close>): a cap's specificity is a weighted sum of the
  scores of its output, input and other tags; candidates at least as specific as the request come
  before the others, and among each the closer one wins.  \<open>select\<close> folds over the candidates.
\<close>

definition capScore :: "Cap \<Rightarrow> nat" where
  "capScore c =
     10000 * urnScore (cap_output c) + 100 * urnScore (cap_input c) + urnScore (cap_other c)"

definition rankingKey :: "Cap \<Rightarrow> Cap \<Rightarrow> nat \<times> nat" where
  "rankingKey cand req =
     (let p = capScore cand; r = capScore req
      in if r \<le> p then (0, p - r) else (1, r - p))"

definition betterKey :: "nat \<times> nat \<Rightarrow> nat \<times> nat \<Rightarrow> bool" where
  "betterKey x y =
     (if fst x < fst y then True
      else if fst x = fst y then snd x < snd y else False)"

definition selectStep :: "Cap \<Rightarrow> Cap option \<Rightarrow> Cap \<Rightarrow> Cap option" where
  "selectStep req best c =
     (if instDecidableServes c req then
        (case best of
           None \<Rightarrow> Some c
         | Some b \<Rightarrow>
             (if betterKey (rankingKey c req) (rankingKey b req) then Some c else best))
      else best)"

fun select_loop :: "Cap \<Rightarrow> Cap option \<Rightarrow> Cap list \<Rightarrow> Cap option" where
  "select_loop req best [] = best"
| "select_loop req best (c # cs) = select_loop req (selectStep req best c) cs"

definition select :: "Cap list \<Rightarrow> Cap \<Rightarrow> Cap option" where
  "select cands req = select_loop req None cands"

section \<open>Selection in general\<close>

text \<open>A fold that keeps the best admissible element, the first of several equally good ones.\<close>

locale selection =
  fixes ok :: "'a \<Rightarrow> bool" and better :: "'a \<Rightarrow> 'a \<Rightarrow> bool"
    and step :: "'a option \<Rightarrow> 'a \<Rightarrow> 'a option" and loop :: "'a option \<Rightarrow> 'a list \<Rightarrow> 'a option"
  assumes loop_Nil: "loop best [] = best"
    and loop_Cons: "loop best (x # xs) = loop (step best x) xs"
    and step_None: "step None x = (if ok x then Some x else None)"
    and step_Some: "step (Some b) x = (if ok x \<and> better x b then Some x else Some b)"
    and better_irrefl: "\<not> better x x"
    and better_trans: "better x y \<Longrightarrow> better y z \<Longrightarrow> better x z"
    and better_co_trans: "better x z \<Longrightarrow> better x y \<or> better y z"
begin

definition best_of :: "'a list \<Rightarrow> 'a option \<Rightarrow> bool" where
  "best_of xs best \<longleftrightarrow>
     (case best of
        None \<Rightarrow> \<forall>x \<in> set xs. \<not> ok x
      | Some b \<Rightarrow>
          \<exists>ys zs. xs = ys @ b # zs \<and> ok b \<and> (\<forall>x \<in> set xs. ok x \<longrightarrow> \<not> better x b) \<and>
            (\<forall>y \<in> set ys. ok y \<longrightarrow> better b y))"

lemma best_of_step: "best_of xs best \<Longrightarrow> best_of (xs @ [x]) (step best x)"
proof (cases best)
  case None
  assume best: "best_of xs best"
  show ?thesis
  proof (cases "ok x")
    case True
    with best None have "xs @ [x] = xs @ x # [] \<and> ok x \<and>
        (\<forall>y \<in> set (xs @ [x]). ok y \<longrightarrow> \<not> better y x) \<and> (\<forall>y \<in> set xs. ok y \<longrightarrow> better x y)"
      using better_irrefl by (auto simp: best_of_def)
    then show ?thesis unfolding best_of_def None step_None using True by auto
  next
    case False
    then show ?thesis using best None by (simp add: best_of_def step_None)
  qed
next
  case (Some b)
  assume best: "best_of xs best"
  then obtain ys zs where b: "xs = ys @ b # zs" "ok b" "\<forall>x \<in> set xs. ok x \<longrightarrow> \<not> better x b"
      "\<forall>y \<in> set ys. ok y \<longrightarrow> better b y"
    using Some by (auto simp: best_of_def)
  show ?thesis
  proof (cases "ok x \<and> better x b")
    case True
    have "better x y" if "y \<in> set xs" "ok y" for y
      using better_co_trans [of x b y] True b(3) that by blast
    moreover have "\<not> better y x" if "y \<in> set xs" "ok y" for y
      using better_trans [of y x b] True b(3) that by blast
    ultimately have "xs @ [x] = xs @ x # [] \<and> ok x \<and>
        (\<forall>y \<in> set (xs @ [x]). ok y \<longrightarrow> \<not> better y x) \<and> (\<forall>y \<in> set xs. ok y \<longrightarrow> better x y)"
      using True better_irrefl by auto
    then show ?thesis unfolding best_of_def Some step_Some using True by auto
  next
    case False
    have "xs @ [x] = ys @ b # (zs @ [x])" using b(1) by simp
    moreover have "\<forall>y \<in> set (xs @ [x]). ok y \<longrightarrow> \<not> better y b" using b(3) False by auto
    ultimately show ?thesis
      unfolding best_of_def Some step_Some using False b(2,4) by auto
  qed
qed

lemma best_of_loop: "best_of xs best \<Longrightarrow> best_of (xs @ ys) (loop best ys)"
proof (induction ys arbitrary: xs best)
  case Nil
  then show ?case by (simp add: loop_Nil)
next
  case (Cons y ys)
  from Cons.IH [OF best_of_step [OF Cons.prems]] show ?case by (simp add: loop_Cons)
qed

lemma loop_best: "best_of xs (loop None xs)"
  using best_of_loop [of "[]" None xs] by (simp add: best_of_def)

end

lemma betterKey_iff: "betterKey x y \<longleftrightarrow> fst x < fst y \<or> fst x = fst y \<and> snd x < snd y"
  by (auto simp: betterKey_def)

interpretation selecting: selection "\<lambda>c. instDecidableServes c req"
  "\<lambda>c b. betterKey (rankingKey c req) (rankingKey b req)" "selectStep req" "select_loop req" for req
  by unfold_locales (auto simp: selectStep_def betterKey_iff)

section \<open>Properties\<close>

text \<open>C7: Selection is sound, complete and stable: no cap is selected exactly when no candidate serves
  the request; the selected one is a candidate that serves it, no candidate that serves it ranks
  better, and every candidate before it that serves it ranks strictly worse.\<close>

theorem select_best:
  "case select cands req of
     None \<Rightarrow> \<forall>c \<in> set cands. \<not> instDecidableServes c req
   | Some b \<Rightarrow>
       \<exists>before after. cands = before @ b # after \<and> instDecidableServes b req \<and>
         (\<forall>c \<in> set cands. instDecidableServes c req \<longrightarrow>
            \<not> betterKey (rankingKey c req) (rankingKey b req)) \<and>
         (\<forall>c \<in> set before. instDecidableServes c req \<longrightarrow>
            betterKey (rankingKey b req) (rankingKey c req))"
  using selecting.loop_best [of req cands] by (simp add: select_def selecting.best_of_def)

lemma select_best_witness: "select [any_text, pdf_to_text] pdf_to_text = Some pdf_to_text"
proof -
  have serves: "instDecidableServes pdf_to_text pdf_to_text"
    by (simp add: Serves_iff pdf_to_text_def Refines_RefinesClosed)
  have "\<not> instDecidableServes any_text pdf_to_text"
    by (simp add: Serves_iff any_text_def pdf_to_text_def)
  then show ?thesis
    using select_best [of "[any_text, pdf_to_text]" pdf_to_text] serves
    by (auto split: option.splits simp: append_eq_Cons_conv Cons_eq_append_conv)
qed

end
