(* ===== verification/Exec.thy ===== *)
theory Exec
  imports Ranking
begin

text \<open>
  The functions the program exports over caps and queries (\<open>CapDAG-Exec.c\<close>).  They take well-formed
  values, whose URNs \<open>Exec_make\<close> made, and compare URNs in one pass; \<open>Query\<close> and \<open>Ranking\<close> are the
  reference they are held to.  The lemmas show that reading the well-formed values as plain ones
  (\<open>toCap\<close>, \<open>toAsk\<close>, \<open>toQuery\<close>) turns each function into its reference.
\<close>

section \<open>Data\<close>

record WfCap =
  wf_input :: Urn
  wf_output :: Urn
  wf_other :: Urn
  wf_effect :: Effect

datatype WfAsk = WfAsk_unknown | WfAsk_within Urn | WfAsk_covers Urn | WfAsk_same Urn

record WfQuery =
  wfq_input :: WfAsk
  wfq_output :: WfAsk
  wfq_tags :: Urn
  wfq_effect :: Effect

fun WfAsk_ctorIdx :: "WfAsk \<Rightarrow> nat" where
  "WfAsk_ctorIdx WfAsk_unknown = 0"
| "WfAsk_ctorIdx (WfAsk_within _) = 1"
| "WfAsk_ctorIdx (WfAsk_covers _) = 2"
| "WfAsk_ctorIdx (WfAsk_same _) = 3"

definition WfCap_toCap :: "WfCap \<Rightarrow> Cap" where
  "WfCap_toCap c =
     \<lparr>cap_input = wf_input c, cap_output = wf_output c, cap_other = wf_other c,
      cap_effect = wf_effect c\<rparr>"

definition WfAsk_toAsk :: "WfAsk \<Rightarrow> Ask" where
  "WfAsk_toAsk a =
     (case a of
        WfAsk_unknown \<Rightarrow> Ask_unknown
      | WfAsk_within u \<Rightarrow> Ask_within u
      | WfAsk_covers u \<Rightarrow> Ask_covers u
      | WfAsk_same u \<Rightarrow> Ask_same u)"

definition WfQuery_toQuery :: "WfQuery \<Rightarrow> Query" where
  "WfQuery_toQuery q =
     \<lparr>query_input = WfAsk_toAsk (wfq_input q), query_output = WfAsk_toAsk (wfq_output q),
      query_tags = wfq_tags q, query_effect = wfq_effect q\<rparr>"

section \<open>Making queries\<close>

definition topWf :: Urn where
  "topWf = mediaTop"

definition Exec_unconstrained :: "Urn \<Rightarrow> bool" where
  "Exec_unconstrained u = Exec_refines mediaTop u"

definition WfAsk_exactly :: "WfAsk \<Rightarrow> WfAsk" where
  "WfAsk_exactly a =
     (case a of WfAsk_within u \<Rightarrow> WfAsk_same u | WfAsk_covers u \<Rightarrow> WfAsk_same u | _ \<Rightarrow> a)"

definition WfQuery_exactly :: "WfQuery \<Rightarrow> WfQuery" where
  "WfQuery_exactly q =
     q\<lparr>wfq_input := WfAsk_exactly (wfq_input q), wfq_output := WfAsk_exactly (wfq_output q)\<rparr>"

definition queryBetween :: "Urn \<Rightarrow> Urn \<Rightarrow> Urn \<Rightarrow> WfQuery" where
  "queryBetween i out t =
     \<lparr>wfq_input = WfAsk_covers i, wfq_output = WfAsk_within out, wfq_tags = t,
      wfq_effect = Effect_unspecified\<rparr>"

definition queryConsuming :: "Urn \<Rightarrow> Urn \<Rightarrow> WfQuery" where
  "queryConsuming i t =
     \<lparr>wfq_input = WfAsk_covers i, wfq_output = WfAsk_unknown, wfq_tags = t,
      wfq_effect = Effect_unspecified\<rparr>"

definition queryProducing :: "Urn \<Rightarrow> Urn \<Rightarrow> WfQuery" where
  "queryProducing out t =
     \<lparr>wfq_input = WfAsk_unknown, wfq_output = WfAsk_within out, wfq_tags = t,
      wfq_effect = Effect_unspecified\<rparr>"

definition queryOfPattern :: "WfCap \<Rightarrow> WfQuery" where
  "queryOfPattern p =
     \<lparr>wfq_input = WfAsk_within (wf_input p),
      wfq_output =
        (if Exec_unconstrained (wf_output p) then WfAsk_unknown else WfAsk_covers (wf_output p)),
      wfq_tags = wf_other p, wfq_effect = wf_effect p\<rparr>"

definition queryOfRequest :: "WfCap \<Rightarrow> WfQuery" where
  "queryOfRequest r =
     \<lparr>wfq_input =
        (if Exec_unconstrained (wf_input r) then WfAsk_unknown else WfAsk_covers (wf_input r)),
      wfq_output = WfAsk_within (wf_output r),
      wfq_tags = wf_other r, wfq_effect = wf_effect r\<rparr>"

section \<open>Answering queries\<close>

definition Exec_effectOk :: "Effect \<Rightarrow> Effect \<Rightarrow> bool" where
  "Exec_effectOk cand req =
     (if instDecidableEqEffect req Effect_unspecified then True
      else instDecidableEqEffect cand req)"

definition askAdmits :: "WfAsk \<Rightarrow> Urn \<Rightarrow> bool" where
  "askAdmits a u =
     (case a of
        WfAsk_unknown \<Rightarrow> True
      | WfAsk_within v \<Rightarrow> Exec_refines u v
      | WfAsk_covers v \<Rightarrow> Exec_refines v u
      | WfAsk_same v \<Rightarrow> (if Exec_refines u v then Exec_refines v u else False))"

definition askMayAdmit :: "WfAsk \<Rightarrow> Urn \<Rightarrow> bool" where
  "askMayAdmit a u =
     (case a of
        WfAsk_unknown \<Rightarrow> True
      | WfAsk_within v \<Rightarrow> Exec_meets u v
      | WfAsk_covers v \<Rightarrow> Exec_meets u v
      | WfAsk_same v \<Rightarrow> Exec_meets u v)"

definition queryAdmits :: "WfQuery \<Rightarrow> WfCap \<Rightarrow> bool" where
  "queryAdmits q c =
     (let sides =
        (if askAdmits (wfq_input q) (wf_input c) then askAdmits (wfq_output q) (wf_output c)
         else False)
      in if sides then
           (if Exec_effectOk (wf_effect c) (wfq_effect q)
            then Exec_refinesClosed (wf_other c) (wfq_tags q) else False)
         else False)"

definition queryMayAdmit :: "WfQuery \<Rightarrow> WfCap \<Rightarrow> bool" where
  "queryMayAdmit q c =
     (let sides =
        (if askMayAdmit (wfq_input q) (wf_input c) then askMayAdmit (wfq_output q) (wf_output c)
         else False)
      in if sides then
           (if Exec_effectOk (wf_effect c) (wfq_effect q)
            then Exec_meetsClosed (wf_other c) (wfq_tags q) else False)
         else False)"

definition queryGrade :: "WfQuery \<Rightarrow> WfCap \<Rightarrow> Grade" where
  "queryGrade q c =
     (if queryAdmits (WfQuery_exactly q) c then Grade_exact
      else if queryAdmits q c then Grade_guaranteed
      else if queryMayAdmit q c then Grade_possible
      else Grade_none)"

section \<open>Comparing, dispatching, ranking\<close>

definition Exec_accepts :: "WfCap \<Rightarrow> WfCap \<Rightarrow> bool" where
  "Exec_accepts p c = queryAdmits (queryOfPattern p) c"

definition Exec_dispatch :: "WfCap \<Rightarrow> WfCap \<Rightarrow> bool" where
  "Exec_dispatch c r = queryAdmits (queryOfRequest r) c"

definition Exec_mayDispatch :: "WfCap \<Rightarrow> WfCap \<Rightarrow> bool" where
  "Exec_mayDispatch c r = queryMayAdmit (queryOfRequest r) c"

definition Exec_flows :: "WfCap \<Rightarrow> WfCap \<Rightarrow> bool" where
  "Exec_flows a b = Exec_refines (wf_output a) (wf_input b)"

definition Exec_mayFlow :: "WfCap \<Rightarrow> WfCap \<Rightarrow> bool" where
  "Exec_mayFlow a b = Exec_meets (wf_output a) (wf_input b)"

definition sameSides :: "WfCap \<Rightarrow> WfCap \<Rightarrow> bool" where
  "sameSides p r =
     (let sides =
        (if Exec_refines (wf_input r) (wf_input p)
         then Exec_refines (wf_output p) (wf_output r) else False)
      in if sides then
           (let effects =
              (if instDecidableEqEffect (wf_effect p) Effect_unspecified then True
               else instDecidableEqEffect (wf_effect p) (wf_effect r))
            in if effects then Exec_refines (wf_other r) (wf_other p) else False)
         else False)"

definition Exec_comparable :: "WfCap \<Rightarrow> WfCap \<Rightarrow> bool" where
  "Exec_comparable a b = (if sameSides a b then True else sameSides b a)"

definition Exec_equivalent :: "WfCap \<Rightarrow> WfCap \<Rightarrow> bool" where
  "Exec_equivalent a b = (if sameSides a b then sameSides b a else False)"

definition Exec_specificity :: "WfCap \<Rightarrow> nat" where
  "Exec_specificity c = capScore (WfCap_toCap c)"

definition Exec_rankingKey :: "WfCap \<Rightarrow> WfCap \<Rightarrow> nat \<times> nat" where
  "Exec_rankingKey cand req = rankingKey (WfCap_toCap cand) (WfCap_toCap req)"

fun Exec_select_loop :: "WfCap \<Rightarrow> WfCap option \<Rightarrow> WfCap list \<Rightarrow> WfCap option" where
  "Exec_select_loop req best [] = best"
| "Exec_select_loop req best (c # cs) =
     (if Exec_dispatch c req then
        (case best of
           None \<Rightarrow> Exec_select_loop req (Some c) cs
         | Some b \<Rightarrow>
             (if betterKey (Exec_rankingKey c req) (Exec_rankingKey b req)
              then Exec_select_loop req (Some c) cs
              else Exec_select_loop req best cs))
      else Exec_select_loop req best cs)"

definition Exec_select :: "WfCap list \<Rightarrow> WfCap \<Rightarrow> WfCap option" where
  "Exec_select cands req = Exec_select_loop req None cands"

section \<open>Well-formed values\<close>

definition WfCap_ok :: "WfCap \<Rightarrow> bool" where
  "WfCap_ok c \<longleftrightarrow> Urn_wf (wf_input c) \<and> Urn_wf (wf_output c) \<and> Urn_wf (wf_other c)"

fun WfAsk_ok :: "WfAsk \<Rightarrow> bool" where
  "WfAsk_ok WfAsk_unknown = True"
| "WfAsk_ok (WfAsk_within u) = Urn_wf u"
| "WfAsk_ok (WfAsk_covers u) = Urn_wf u"
| "WfAsk_ok (WfAsk_same u) = Urn_wf u"

definition WfQuery_ok :: "WfQuery \<Rightarrow> bool" where
  "WfQuery_ok q \<longleftrightarrow> WfAsk_ok (wfq_input q) \<and> WfAsk_ok (wfq_output q) \<and> Urn_wf (wfq_tags q)"

lemma queryOfPattern_ok [inv_intros]: "WfCap_ok p \<Longrightarrow> WfQuery_ok (queryOfPattern p)"
  by (simp add: WfCap_ok_def WfQuery_ok_def queryOfPattern_def)

lemma queryOfRequest_ok [inv_intros]: "WfCap_ok p \<Longrightarrow> WfQuery_ok (queryOfRequest p)"
  by (simp add: WfCap_ok_def WfQuery_ok_def queryOfRequest_def)

lemma WfQuery_exactly_ok [inv_intros]: "WfQuery_ok q \<Longrightarrow> WfQuery_ok (WfQuery_exactly q)"
  by (auto simp: WfQuery_ok_def WfQuery_exactly_def WfAsk_exactly_def split: WfAsk.splits)

section \<open>Lemmas: each function is its reference\<close>

lemma WfCap_toCap_fields [simp]:
  "cap_input (WfCap_toCap c) = wf_input c" "cap_output (WfCap_toCap c) = wf_output c"
  "cap_other (WfCap_toCap c) = wf_other c" "cap_effect (WfCap_toCap c) = wf_effect c"
  by (simp_all add: WfCap_toCap_def)

lemma WfQuery_toQuery_fields [simp]:
  "query_input (WfQuery_toQuery q) = WfAsk_toAsk (wfq_input q)"
  "query_output (WfQuery_toQuery q) = WfAsk_toAsk (wfq_output q)"
  "query_tags (WfQuery_toQuery q) = wfq_tags q"
  "query_effect (WfQuery_toQuery q) = wfq_effect q"
  by (simp_all add: WfQuery_toQuery_def)

lemma unconstrained_spec: "Urn_wf u \<Longrightarrow> Exec_unconstrained u = instDecidableUnconstrainedMedia u"
  by (simp add: Exec_unconstrained_def instDecidableUnconstrainedMedia_def Exec_specs)

lemma effectOk_spec: "Exec_effectOk cand req = instDecidableEffectOk cand req"
  by (simp add: Exec_effectOk_def decide_simps)

lemma askAdmits_spec:
  "WfAsk_ok a \<Longrightarrow> Urn_wf u \<Longrightarrow> askAdmits a u = instDecidableAdmits (WfAsk_toAsk a) u"
  by (cases a) (auto simp: askAdmits_def instDecidableAdmits_def WfAsk_toAsk_def Exec_specs Let_def)

lemma askMayAdmit_spec:
  "WfAsk_ok a \<Longrightarrow> Urn_wf u \<Longrightarrow> askMayAdmit a u = instDecidableMayAdmit (WfAsk_toAsk a) u"
  by (cases a) (simp_all add: askMayAdmit_def instDecidableMayAdmit_def WfAsk_toAsk_def Exec_specs)

lemma queryAdmits_spec:
  "WfQuery_ok q \<Longrightarrow> WfCap_ok c \<Longrightarrow>
     queryAdmits q c = instDecidableAdmits_1 (WfQuery_toQuery q) (WfCap_toCap c)"
  by (simp add: queryAdmits_def Admits_1_iff WfQuery_ok_def WfCap_ok_def askAdmits_spec
      effectOk_spec Exec_specs Let_def)

lemma queryMayAdmit_spec:
  "WfQuery_ok q \<Longrightarrow> WfCap_ok c \<Longrightarrow>
     queryMayAdmit q c = instDecidableMayAdmit_1 (WfQuery_toQuery q) (WfCap_toCap c)"
  by (simp add: queryMayAdmit_def MayAdmit_1_iff WfQuery_ok_def WfCap_ok_def askMayAdmit_spec
      effectOk_spec Exec_specs Let_def)

lemma WfAsk_exactly_spec: "WfAsk_toAsk (WfAsk_exactly a) = Ask_exactly (WfAsk_toAsk a)"
  by (cases a) (simp_all add: WfAsk_toAsk_def WfAsk_exactly_def Ask_exactly_def)

lemma WfQuery_exactly_spec: "WfQuery_toQuery (WfQuery_exactly q) = Query_exactly (WfQuery_toQuery q)"
  by (simp add: WfQuery_toQuery_def WfQuery_exactly_def Query_exactly_def WfAsk_exactly_spec)

lemma queryOfPattern_spec:
  "WfCap_ok p \<Longrightarrow> WfQuery_toQuery (queryOfPattern p) = Query_ofPattern (WfCap_toCap p)"
  by (simp add: WfQuery_toQuery_def queryOfPattern_def Query_ofPattern_def WfAsk_toAsk_def
      unconstrained_spec WfCap_ok_def)

lemma queryOfRequest_spec:
  "WfCap_ok p \<Longrightarrow> WfQuery_toQuery (queryOfRequest p) = Query_ofRequest (WfCap_toCap p)"
  by (simp add: WfQuery_toQuery_def queryOfRequest_def Query_ofRequest_def WfAsk_toAsk_def
      unconstrained_spec WfCap_ok_def)

lemmas query_specs = queryAdmits_spec queryMayAdmit_spec queryOfPattern_spec queryOfRequest_spec
  WfQuery_exactly_spec queryOfPattern_ok queryOfRequest_ok WfQuery_exactly_ok

lemma dispatch_spec:
  "WfCap_ok c \<Longrightarrow> WfCap_ok r \<Longrightarrow>
     Exec_dispatch c r = instDecidableServes (WfCap_toCap c) (WfCap_toCap r)"
  by (simp add: Exec_dispatch_def instDecidableServes_def query_specs)

lemma sameSides_spec:
  "WfCap_ok p \<Longrightarrow> WfCap_ok r \<Longrightarrow>
     sameSides p r = instDecidableCapAccepts (WfCap_toCap p) (WfCap_toCap r)"
  by (simp add: sameSides_def CapAccepts_iff WfCap_ok_def Exec_specs decide_simps Let_def)

lemma select_loop_spec:
  assumes "WfCap_ok req" and "\<forall>c \<in> set cands. WfCap_ok c"
  shows "map_option WfCap_toCap (Exec_select_loop req best cands) =
    select_loop (WfCap_toCap req) (map_option WfCap_toCap best) (map WfCap_toCap cands)"
  using assms(2)
  by (induction cands arbitrary: best)
    (auto simp: dispatch_spec [OF _ assms(1)] selectStep_def Exec_rankingKey_def split: option.splits)

section \<open>Properties\<close>

text \<open>C3: Every function the program exports over well-formed caps and queries answers as its
  reference does: admission, possible admission and grading of a query; acceptance and dispatch,
  certain and possible; comparability and equivalence; and the flow from one cap to the next.\<close>

theorem Exec_agrees:
  assumes "WfQuery_ok q" and "WfCap_ok c" and "WfCap_ok r"
  shows "queryAdmits q c = instDecidableAdmits_1 (WfQuery_toQuery q) (WfCap_toCap c) \<and>
    queryMayAdmit q c = instDecidableMayAdmit_1 (WfQuery_toQuery q) (WfCap_toCap c) \<and>
    queryGrade q c = Query_grade (WfQuery_toQuery q) (WfCap_toCap c) \<and>
    Exec_accepts r c = instDecidableFits (WfCap_toCap r) (WfCap_toCap c) \<and>
    Exec_dispatch c r = instDecidableServes (WfCap_toCap c) (WfCap_toCap r) \<and>
    Exec_mayDispatch c r = instDecidableMayServe (WfCap_toCap c) (WfCap_toCap r) \<and>
    Exec_comparable c r =
      (instDecidableCapAccepts (WfCap_toCap c) (WfCap_toCap r) \<or>
       instDecidableCapAccepts (WfCap_toCap r) (WfCap_toCap c)) \<and>
    Exec_equivalent c r =
      (instDecidableCapAccepts (WfCap_toCap c) (WfCap_toCap r) \<and>
       instDecidableCapAccepts (WfCap_toCap r) (WfCap_toCap c)) \<and>
    Exec_flows c r = instDecidableFlows (WfCap_toCap c) (WfCap_toCap r) \<and>
    Exec_mayFlow c r = instDecidableMayFlow (WfCap_toCap c) (WfCap_toCap r)"
proof -
  have "Exec_flows c r = instDecidableFlows (WfCap_toCap c) (WfCap_toCap r)"
    and "Exec_mayFlow c r = instDecidableMayFlow (WfCap_toCap c) (WfCap_toCap r)"
    using assms(2,3)
    by (simp_all add: Exec_flows_def instDecidableFlows_def Exec_mayFlow_def
        instDecidableMayFlow_def WfCap_ok_def Exec_specs)
  with assms show ?thesis
    by (simp add: query_specs queryGrade_def Query_grade_def Exec_accepts_def instDecidableFits_def
        dispatch_spec Exec_mayDispatch_def instDecidableMayServe_def Exec_comparable_def
        Exec_equivalent_def sameSides_spec)
qed

definition wf_pdf_to_text :: WfCap where
  "wf_pdf_to_text =
     \<lparr>wf_input = \<lparr>scheme = ''media'', tags = [(''pdf'', Constraint_present)]\<rparr>,
      wf_output = \<lparr>scheme = ''media'', tags = [(''lang'', Constraint_exact ''en''), (''text'', Constraint_present)]\<rparr>,
      wf_other = \<lparr>scheme = ''cap'', tags = [(''op'', Constraint_exact ''extract'')]\<rparr>,
      wf_effect = Effect_declared\<rparr>"

lemma wf_pdf_to_text_ok: "WfCap_ok wf_pdf_to_text"
  by (simp add: WfCap_ok_def wf_pdf_to_text_def Urn_wf_def less_char_def)

lemma Exec_agrees_witness:
  "Exec_dispatch wf_pdf_to_text wf_pdf_to_text \<and> Exec_equivalent wf_pdf_to_text wf_pdf_to_text"
  using Exec_agrees [OF queryOfRequest_ok [OF wf_pdf_to_text_ok] wf_pdf_to_text_ok wf_pdf_to_text_ok]
  by (simp add: Serves_iff accepting.below_refl Refines_RefinesClosed)

text \<open>The exported selection selects what the reference selects: the same candidate, read as a
  plain cap, from candidates that are all well-formed.\<close>

theorem Exec_select_agrees:
  assumes "WfCap_ok req" and "\<forall>c \<in> set cands. WfCap_ok c"
  shows "map_option WfCap_toCap (Exec_select cands req) =
    select (map WfCap_toCap cands) (WfCap_toCap req)"
  using select_loop_spec [OF assms, of None] by (simp add: Exec_select_def select_def)

lemma Exec_select_agrees_witness:
  "map_option WfCap_toCap (Exec_select [wf_pdf_to_text] wf_pdf_to_text) =
     Some (WfCap_toCap wf_pdf_to_text)"
  using Exec_select_agrees [of wf_pdf_to_text "[wf_pdf_to_text]"] wf_pdf_to_text_ok
  by (simp add: select_def selectStep_def Serves_iff Refines_RefinesClosed)

end
