(* ===== verification/Flow.thy ===== *)
theory Flow
  imports LeanList
begin

text \<open>
  Frame types, and the reordering of the frames of one flow (\<open>CapDAG-Bifaci-Flow.c\<close>).  A flow
  numbers its frames from zero; \<open>Reorder\<close> keeps the number expected next and the numbers of the
  frames held back because they came early, in ascending order.  \<open>Reorder_accept\<close> says of one
  arriving frame whether it is delivered (and which held frames with it), held, stale, a
  duplicate, or one too many for the buffer's limit.
\<close>

section \<open>Frame types\<close>

datatype FrameType =
    FrameType_hello
  | FrameType_req
  | FrameType_chunk
  | FrameType_fin
  | FrameType_log
  | FrameType_err
  | FrameType_heartbeat
  | FrameType_streamStart
  | FrameType_streamEnd
  | FrameType_relayNotify
  | FrameType_relayState
  | FrameType_cancel
  | FrameType_credit
  | FrameType_closeStream
  | FrameType_policy

fun FrameType_ctorIdx :: "FrameType \<Rightarrow> nat" where
  "FrameType_ctorIdx FrameType_hello = 0"
| "FrameType_ctorIdx FrameType_req = 1"
| "FrameType_ctorIdx FrameType_chunk = 2"
| "FrameType_ctorIdx FrameType_fin = 3"
| "FrameType_ctorIdx FrameType_log = 4"
| "FrameType_ctorIdx FrameType_err = 5"
| "FrameType_ctorIdx FrameType_heartbeat = 6"
| "FrameType_ctorIdx FrameType_streamStart = 7"
| "FrameType_ctorIdx FrameType_streamEnd = 8"
| "FrameType_ctorIdx FrameType_relayNotify = 9"
| "FrameType_ctorIdx FrameType_relayState = 10"
| "FrameType_ctorIdx FrameType_cancel = 11"
| "FrameType_ctorIdx FrameType_credit = 12"
| "FrameType_ctorIdx FrameType_closeStream = 13"
| "FrameType_ctorIdx FrameType_policy = 14"

text \<open>The tag a number stands for: a search tree over the tags, numbers beyond the last included.\<close>

definition FrameType_ofNat :: "nat \<Rightarrow> FrameType" where
  "FrameType_ofNat n =
     (if n \<le> 6 then
        (if n \<le> 2 then
           (if n \<le> 0 then FrameType_hello
            else (if n \<le> 1 then FrameType_req else FrameType_chunk))
         else
           (if n \<le> 4 then (if n \<le> 3 then FrameType_fin else FrameType_log)
            else (if n \<le> 5 then FrameType_err else FrameType_heartbeat)))
      else
        (if n \<le> 10 then
           (if n \<le> 8 then (if n \<le> 7 then FrameType_streamStart else FrameType_streamEnd)
            else (if n \<le> 9 then FrameType_relayNotify else FrameType_relayState))
         else
           (if n \<le> 12 then (if n \<le> 11 then FrameType_cancel else FrameType_credit)
            else (if n \<le> 13 then FrameType_closeStream else FrameType_policy))))"

text \<open>The code of a frame type on the wire; 2 was retired and is no frame's code.\<close>

fun FrameType_code :: "FrameType \<Rightarrow> nat" where
  "FrameType_code FrameType_hello = 0"
| "FrameType_code FrameType_req = 1"
| "FrameType_code FrameType_chunk = 3"
| "FrameType_code FrameType_fin = 4"
| "FrameType_code FrameType_log = 5"
| "FrameType_code FrameType_err = 6"
| "FrameType_code FrameType_heartbeat = 7"
| "FrameType_code FrameType_streamStart = 8"
| "FrameType_code FrameType_streamEnd = 9"
| "FrameType_code FrameType_relayNotify = 10"
| "FrameType_code FrameType_relayState = 11"
| "FrameType_code FrameType_cancel = 12"
| "FrameType_code FrameType_credit = 13"
| "FrameType_code FrameType_closeStream = 14"
| "FrameType_code FrameType_policy = 15"

definition FrameType_ofCode :: "nat \<Rightarrow> FrameType option" where
  "FrameType_ofCode n =
     (if n = 0 then Some FrameType_hello
      else if n = 1 then Some FrameType_req
      else if n = 3 then Some FrameType_chunk
      else if n = 4 then Some FrameType_fin
      else if n = 5 then Some FrameType_log
      else if n = 6 then Some FrameType_err
      else if n = 7 then Some FrameType_heartbeat
      else if n = 8 then Some FrameType_streamStart
      else if n = 9 then Some FrameType_streamEnd
      else if n = 10 then Some FrameType_relayNotify
      else if n = 11 then Some FrameType_relayState
      else if n = 12 then Some FrameType_cancel
      else if n = 13 then Some FrameType_credit
      else if n = 14 then Some FrameType_closeStream
      else if n = 15 then Some FrameType_policy
      else None)"

definition FrameType_isFlow :: "FrameType \<Rightarrow> bool" where
  "FrameType_isFlow f =
     (case f of
        FrameType_hello \<Rightarrow> False
      | FrameType_heartbeat \<Rightarrow> False
      | FrameType_relayNotify \<Rightarrow> False
      | FrameType_relayState \<Rightarrow> False
      | FrameType_cancel \<Rightarrow> False
      | FrameType_credit \<Rightarrow> False
      | FrameType_closeStream \<Rightarrow> False
      | FrameType_policy \<Rightarrow> False
      | _ \<Rightarrow> True)"

definition FrameType_isTerminal :: "FrameType \<Rightarrow> bool" where
  "FrameType_isTerminal f =
     (case f of FrameType_fin \<Rightarrow> True | FrameType_err \<Rightarrow> True | _ \<Rightarrow> False)"

definition instDecidableEqFrameType :: "FrameType \<Rightarrow> FrameType \<Rightarrow> bool" where
  "instDecidableEqFrameType x y = (FrameType_ctorIdx x = FrameType_ctorIdx y)"

section \<open>The reorder buffer\<close>

record Reorder =
  expected :: nat
  held :: "nat list"

datatype Accepted =
    Accepted_deliver Reorder "nat list"
  | Accepted_hold Reorder
  | Accepted_stale
  | Accepted_duplicate
  | Accepted_overflow

fun Accepted_ctorIdx :: "Accepted \<Rightarrow> nat" where
  "Accepted_ctorIdx (Accepted_deliver _ _) = 0"
| "Accepted_ctorIdx (Accepted_hold _) = 1"
| "Accepted_ctorIdx Accepted_stale = 2"
| "Accepted_ctorIdx Accepted_duplicate = 3"
| "Accepted_ctorIdx Accepted_overflow = 4"

definition Reorder_start :: Reorder where
  "Reorder_start = \<lparr>expected = 0, held = []\<rparr>"

fun insertAscending :: "nat \<Rightarrow> nat list \<Rightarrow> nat list" where
  "insertAscending n [] = [n]"
| "insertAscending n (x # xs) =
     (if n \<le> x then n # x # xs else x # insertAscending n xs)"

fun takeRun :: "nat \<Rightarrow> nat list \<Rightarrow> nat list \<times> nat list" where
  "takeRun n [] = ([], [])"
| "takeRun n (x # xs) =
     (if x = n then (case takeRun (n + 1) xs of (run, rest) \<Rightarrow> (x # run, rest))
      else ([], x # xs))"

fun seq_elem :: "nat \<Rightarrow> nat list \<Rightarrow> bool" where
  "seq_elem n [] = False"
| "seq_elem n (x # xs) = (if n = x then True else seq_elem n xs)"

definition Reorder_accept :: "Reorder \<Rightarrow> nat \<Rightarrow> nat \<Rightarrow> Accepted" where
  "Reorder_accept r seq limit =
     (if seq < expected r then Accepted_stale
      else if seq = expected r then
        (case takeRun (seq + 1) (held r) of
           (run, rest) \<Rightarrow>
             Accepted_deliver \<lparr>expected = seq + 1 + List_lengthTR run, held = rest\<rparr> (seq # run))
      else if seq_elem seq (held r) then Accepted_duplicate
      else if limit \<le> List_lengthTR (held r) then Accepted_overflow
      else Accepted_hold (r\<lparr>held := insertAscending seq (held r)\<rparr>))"

definition instDecidableEqReorder :: "Reorder \<Rightarrow> Reorder \<Rightarrow> bool" where
  "instDecidableEqReorder x y =
     (if expected x = expected y then instDecidableEqList (=) (held x) (held y) else False)"

definition instDecidableEqAccepted :: "Accepted \<Rightarrow> Accepted \<Rightarrow> bool" where
  "instDecidableEqAccepted x y =
     (case x of
        Accepted_deliver r xs \<Rightarrow>
          (case y of
             Accepted_deliver s ys \<Rightarrow>
               (if instDecidableEqReorder r s then instDecidableEqList (=) xs ys else False)
           | _ \<Rightarrow> False)
      | Accepted_hold r \<Rightarrow> (case y of Accepted_hold s \<Rightarrow> instDecidableEqReorder r s | _ \<Rightarrow> False)
      | Accepted_stale \<Rightarrow> (case y of Accepted_stale \<Rightarrow> True | _ \<Rightarrow> False)
      | Accepted_duplicate \<Rightarrow> (case y of Accepted_duplicate \<Rightarrow> True | _ \<Rightarrow> False)
      | Accepted_overflow \<Rightarrow> (case y of Accepted_overflow \<Rightarrow> True | _ \<Rightarrow> False))"

section \<open>Lemmas: frame types\<close>

lemma FrameType_ofNat_ctorIdx [simp]: "FrameType_ofNat (FrameType_ctorIdx f) = f"
  by (cases f) (simp_all add: FrameType_ofNat_def)

lemma FrameType_ctorIdx_inject: "FrameType_ctorIdx f = FrameType_ctorIdx g \<longleftrightarrow> f = g"
  by (metis FrameType_ofNat_ctorIdx)

lemma instDecidableEqFrameType_eq [decide_simps]: "instDecidableEqFrameType x y = (x = y)"
  by (simp add: instDecidableEqFrameType_def FrameType_ctorIdx_inject)

lemma FrameType_ofCode_code [simp]: "FrameType_ofCode (FrameType_code f) = Some f"
  by (cases f) (simp_all add: FrameType_ofCode_def)

lemma FrameType_code_ofCode: "FrameType_ofCode n = Some f \<Longrightarrow> FrameType_code f = n"
  by (auto simp: FrameType_ofCode_def split: if_splits)

lemma FrameType_isFlow_iff:
  "FrameType_isFlow f \<longleftrightarrow>
     f \<in> {FrameType_req, FrameType_chunk, FrameType_fin, FrameType_log, FrameType_err,
          FrameType_streamStart, FrameType_streamEnd}"
  by (cases f) (simp_all add: FrameType_isFlow_def)

lemma FrameType_isTerminal_iff:
  "FrameType_isTerminal f \<longleftrightarrow> f = FrameType_fin \<or> f = FrameType_err"
  by (cases f) (simp_all add: FrameType_isTerminal_def)

lemma FrameType_terminal_flow: "FrameType_isTerminal f \<Longrightarrow> FrameType_isFlow f"
  by (auto simp: FrameType_isTerminal_iff FrameType_isFlow_iff)

section \<open>Lemmas: the reorder buffer\<close>

lemma instDecidableEqReorder_eq [decide_simps]: "instDecidableEqReorder x y = (x = y)"
  by (cases x; cases y) (simp add: instDecidableEqReorder_def)

lemma instDecidableEqAccepted_eq [decide_simps]: "instDecidableEqAccepted x y = (x = y)"
  by (cases x; cases y) (simp_all add: instDecidableEqAccepted_def decide_simps)

interpretation seq_scan: exists_loop "\<lambda>x. n = x" "seq_elem n" for n
  by unfold_locales simp_all

lemma seq_elem_eq [loop_simps]: "seq_elem n xs = (n \<in> set xs)"
  by (auto simp: seq_scan.loop_eq)

lemma insertAscending_insort: "insertAscending n xs = insort n xs"
  by (induction xs) auto

lemma insertAscending_strict:
  "sorted_wrt (<) xs \<Longrightarrow> n \<notin> set xs \<Longrightarrow> sorted_wrt (<) (insertAscending n xs)"
  by (simp add: insertAscending_insort strict_sorted_iff sorted_insort distinct_insort)

lemma insertAscending_set [simp]: "set (insertAscending n xs) = insert n (set xs)"
  by (simp add: insertAscending_insort set_insort_key)

lemma insertAscending_length [simp]: "length (insertAscending n xs) = Suc (length xs)"
  by (simp add: insertAscending_insort)

text \<open>The run taken from an ascending list starts at the number asked for, has no gap, and is the
  longest one: the next number is not in what is left.\<close>

lemma takeRun_run:
  "takeRun n xs = (run, rest) \<Longrightarrow> run = [n..<n + length run] \<and> xs = run @ rest"
proof (induction n xs arbitrary: run rest rule: takeRun.induct)
  case (1 n)
  then show ?case by simp
next
  case (2 n x xs)
  show ?case
  proof (cases "x = n")
    case True
    obtain run' where run': "takeRun (n + 1) xs = (run', rest)" "run = n # run'"
      using 2(2) True by (auto split: prod.splits)
    then show ?thesis
      using 2(1) [OF True run'(1)] True upt_conv_Cons [of n "Suc (n + length run')"]
      by (simp del: upt_Suc)
  qed (use 2(2) in simp)
qed

lemma takeRun_maximal:
  "takeRun n xs = (run, rest) \<Longrightarrow> sorted_wrt (<) xs \<Longrightarrow> \<forall>x \<in> set xs. n \<le> x \<Longrightarrow>
     \<forall>x \<in> set rest. n + length run < x"
proof (induction n xs arbitrary: run rest rule: takeRun.induct)
  case (1 n)
  then show ?case by simp
next
  case (2 n x xs)
  show ?case
  proof (cases "x = n")
    case True
    obtain run' where run': "takeRun (n + 1) xs = (run', rest)" "run = n # run'"
      using 2(2) True by (auto split: prod.splits)
    have "\<forall>x \<in> set xs. n + 1 \<le> x" using 2(3) True by auto
    then show ?thesis
      using 2(1) [OF True run'(1)] 2(3) run'(2) by simp
  next
    case False
    then show ?thesis using 2(2-4) by fastforce
  qed
qed

section \<open>A flow's arrivals\<close>

text \<open>The receiving side: every arriving number is given to \<open>Reorder_accept\<close>; what it delivers goes
  out, and the three refusals leave the buffer as it was.\<close>

definition Reorder_feed :: "nat \<Rightarrow> Reorder \<times> nat list \<Rightarrow> nat \<Rightarrow> Reorder \<times> nat list" where
  "Reorder_feed limit s seq =
     (case Reorder_accept (fst s) seq limit of
        Accepted_deliver r out \<Rightarrow> (r, snd s @ out)
      | Accepted_hold r \<Rightarrow> (r, snd s)
      | _ \<Rightarrow> s)"

fun Reorder_run :: "nat \<Rightarrow> Reorder \<times> nat list \<Rightarrow> nat list \<Rightarrow> Reorder \<times> nat list" where
  "Reorder_run limit s [] = s"
| "Reorder_run limit s (seq # seqs) = Reorder_run limit (Reorder_feed limit s seq) seqs"

interpretation feeding: fold_loop "Reorder_feed limit" "Reorder_run limit" for limit
  by unfold_locales simp_all

definition Reorder_ok :: "nat \<Rightarrow> Reorder \<Rightarrow> bool" where
  "Reorder_ok limit r \<longleftrightarrow>
     sorted_wrt (<) (held r) \<and> (\<forall>x \<in> set (held r). expected r < x) \<and> length (held r) \<le> limit"

lemma Reorder_ok_start [inv_intros]: "Reorder_ok limit Reorder_start"
  by (simp add: Reorder_ok_def Reorder_start_def)

lemma Reorder_accept_deliver:
  assumes "Reorder_ok limit r" and "Reorder_accept r seq limit = Accepted_deliver r' out"
  shows "seq = expected r \<and> out = [expected r..<expected r'] \<and> expected r < expected r' \<and>
    held r = tl out @ held r' \<and> Reorder_ok limit r'"
proof -
  obtain run rest where run: "takeRun (seq + 1) (held r) = (run, rest)" "seq = expected r"
      "r' = \<lparr>expected = seq + 1 + length run, held = rest\<rparr>" "out = seq # run"
    using assms(2) by (auto simp: Reorder_accept_def split: if_splits prod.splits)
  have above: "\<forall>x \<in> set (held r). seq + 1 \<le> x" using assms(1) run(2) by (auto simp: Reorder_ok_def)
  note split_run = takeRun_run [OF run(1)]
  have "seq # run = [seq..<seq + 1 + length run]"
    using split_run upt_conv_Cons [of seq "seq + 1 + length run"] by (simp del: upt_Suc)
  moreover have "held r = tl (seq # run) @ rest" using split_run by simp
  moreover have "\<forall>x \<in> set rest. seq + 1 + length run < x"
    using takeRun_maximal [OF run(1) _ above] assms(1) by (auto simp: Reorder_ok_def)
  ultimately show ?thesis
    using run split_run assms(1)
    by (auto simp: Reorder_ok_def sorted_wrt_append simp del: upt_Suc)
qed

lemma Reorder_accept_hold:
  assumes "Reorder_ok limit r" and "Reorder_accept r seq limit = Accepted_hold r'"
  shows "expected r' = expected r \<and> expected r < seq \<and> seq \<notin> set (held r) \<and>
    set (held r') = insert seq (set (held r)) \<and> Reorder_ok limit r'"
  using assms insertAscending_strict [of "held r" seq]
  by (auto simp: Reorder_accept_def Reorder_ok_def loop_simps split: if_splits prod.splits)

lemma Reorder_accept_refused:
  "Reorder_accept r seq limit = Accepted_stale \<longleftrightarrow> seq < expected r"
  "Reorder_accept r seq limit = Accepted_duplicate \<longleftrightarrow> expected r < seq \<and> seq \<in> set (held r)"
  "Reorder_accept r seq limit = Accepted_overflow \<longleftrightarrow>
     expected r < seq \<and> seq \<notin> set (held r) \<and> limit \<le> length (held r)"
  by (auto simp: Reorder_accept_def loop_simps split: prod.splits)

text \<open>What holds after any arrivals: the buffer is in order and what went out is the initial segment
  of the flow below the number expected next.\<close>

definition delivered_ok :: "nat \<Rightarrow> Reorder \<times> nat list \<Rightarrow> bool" where
  "delivered_ok limit s \<longleftrightarrow> Reorder_ok limit (fst s) \<and> snd s = [0..<expected (fst s)]"

lemma delivered_ok_start [inv_intros]: "delivered_ok limit (Reorder_start, [])"
  by (simp add: delivered_ok_def Reorder_ok_start) (simp add: Reorder_start_def)

lemma delivered_ok_feed [inv_intros]: "delivered_ok limit s \<Longrightarrow> delivered_ok limit (Reorder_feed limit s seq)"
proof (cases "Reorder_accept (fst s) seq limit")
  case (Accepted_deliver r out)
  assume "delivered_ok limit s"
  then show ?thesis
    using Reorder_accept_deliver [OF _ Accepted_deliver] Accepted_deliver
      upt_add_eq_append [of 0 "expected (fst s)" "expected r - expected (fst s)"]
    by (auto simp: delivered_ok_def Reorder_feed_def)
next
  case (Accepted_hold r)
  assume "delivered_ok limit s"
  then show ?thesis
    using Reorder_accept_hold [OF _ Accepted_hold] Accepted_hold
    by (auto simp: delivered_ok_def Reorder_feed_def)
qed (simp_all add: delivered_ok_def Reorder_feed_def)

lemma delivered_ok_run: "delivered_ok limit s \<Longrightarrow> delivered_ok limit (Reorder_run limit s seqs)"
  by (induction seqs arbitrary: s) (simp_all only: Reorder_run.simps delivered_ok_feed)

text \<open>With room for every number that arrives, the buffer knows exactly what arrived: everything
  below the number expected next, which did not arrive, and the numbers it holds.\<close>

definition complete_for :: "nat set \<Rightarrow> Reorder \<Rightarrow> bool" where
  "complete_for S r \<longleftrightarrow>
     {..<expected r} \<subseteq> S \<and> expected r \<notin> S \<and> set (held r) = {x \<in> S. expected r < x}"

lemma Reorder_room:
  assumes "Reorder_ok limit r" and "complete_for S r" and "finite S"
    and "seq \<notin> S" and "card (insert seq S) \<le> limit"
  shows "length (held r) < limit"
proof -
  have "length (held r) = card (set (held r))"
    using assms(1) by (simp add: Reorder_ok_def strict_sorted_iff distinct_card)
  also have "\<dots> \<le> card S"
    using assms(2,3) by (auto simp: complete_for_def intro: card_mono)
  also have "\<dots> < card (insert seq S)" using assms(3,4) by simp
  finally show ?thesis using assms(5) by simp
qed

lemma complete_for_feed:
  assumes "Reorder_ok limit (fst s)" and "complete_for S (fst s)" and "finite S"
    and "card (insert seq S) \<le> limit"
  shows "complete_for (insert seq S) (fst (Reorder_feed limit s seq))"
proof (cases "Reorder_accept (fst s) seq limit")
  case (Accepted_deliver r out)
  from Reorder_accept_deliver [OF assms(1) this]
  have out: "seq = expected (fst s)" "out = [expected (fst s)..<expected r]"
      "expected (fst s) < expected r" "held (fst s) = tl out @ held r" "Reorder_ok limit r"
    by simp_all
  have tl_out: "set (tl out) = {expected (fst s)<..<expected r}"
    using out(2,3) by (auto simp: upt_conv_Cons)
  have above: "\<forall>x \<in> set (held r). expected r < x" using out(5) by (simp add: Reorder_ok_def)
  have later: "{x \<in> S. expected (fst s) < x} = {expected (fst s)<..<expected r} \<union> set (held r)"
    using assms(2) out(4) tl_out by (simp add: complete_for_def)
  have "x \<in> insert seq S" if "x < expected r" for x
  proof (cases "x \<le> expected (fst s)")
    case True
    then show ?thesis using assms(2) out(1) by (auto simp: complete_for_def le_less)
  next
    case False
    with that later have "x \<in> {x \<in> S. expected (fst s) < x}" by simp
    then show ?thesis by simp
  qed
  then have "{..<expected r} \<subseteq> insert seq S" by blast
  moreover have "expected r \<notin> insert seq S"
  proof -
    have "expected r \<notin> {x \<in> S. expected (fst s) < x}" unfolding later using above by auto
    then show ?thesis using out(1,3) by auto
  qed
  moreover have "set (held r) = {x \<in> insert seq S. expected r < x}"
  proof -
    have "{x \<in> insert seq S. expected r < x}
        = {x \<in> {x \<in> S. expected (fst s) < x}. expected r < x}"
      using out(1,3) by auto
    also have "\<dots> = set (held r)" unfolding later using above by auto
    finally show ?thesis by simp
  qed
  ultimately show ?thesis
    using Accepted_deliver by (simp add: complete_for_def Reorder_feed_def)
next
  case (Accepted_hold r)
  then show ?thesis
    using Reorder_accept_hold [OF assms(1) Accepted_hold] assms(2)
    by (auto simp: complete_for_def Reorder_feed_def)
next
  case Accepted_stale
  then have "seq < expected (fst s)" by (simp add: Reorder_accept_refused)
  with assms(2) have "insert seq S = S" by (auto simp: complete_for_def)
  with Accepted_stale assms(2) show ?thesis by (simp add: Reorder_feed_def)
next
  case Accepted_duplicate
  then have "seq \<in> set (held (fst s))" by (simp add: Reorder_accept_refused)
  with assms(2) have "insert seq S = S" by (auto simp: complete_for_def)
  with Accepted_duplicate assms(2) show ?thesis by (simp add: Reorder_feed_def)
next
  case Accepted_overflow
  then have full: "expected (fst s) < seq" "seq \<notin> set (held (fst s))" "limit \<le> length (held (fst s))"
    by (simp_all add: Reorder_accept_refused)
  with assms(2) have "seq \<notin> S" by (auto simp: complete_for_def)
  with Reorder_room [OF assms(1-3) _ assms(4)] full(3) show ?thesis by simp
qed

lemma complete_for_run:
  assumes "delivered_ok limit s" and "complete_for S (fst s)" and "finite S"
    and "card (S \<union> set seqs) \<le> limit"
  shows "complete_for (S \<union> set seqs) (fst (Reorder_run limit s seqs))"
  using assms
proof (induction seqs arbitrary: s S)
  case Nil
  then show ?case by simp
next
  case (Cons seq seqs)
  have "card (insert seq S) \<le> card (S \<union> set (seq # seqs))"
    using Cons.prems(3) by (intro card_mono) auto
  then have "complete_for (insert seq S) (fst (Reorder_feed limit s seq))"
    using Cons.prems by (intro complete_for_feed) (auto simp: delivered_ok_def)
  then have "complete_for (insert seq S \<union> set seqs)
      (fst (Reorder_run limit (Reorder_feed limit s seq) seqs))"
    using Cons.prems by (intro Cons.IH) (auto intro: delivered_ok_feed)
  then show ?case by simp
qed

lemma complete_for_start: "complete_for {} Reorder_start"
  by (simp add: complete_for_def Reorder_start_def)

text \<open>Nothing is in the buffer or out of it that did not arrive, whatever the limit.\<close>

definition only_arrived :: "nat set \<Rightarrow> Reorder \<Rightarrow> bool" where
  "only_arrived S r \<longleftrightarrow> {..<expected r} \<union> set (held r) \<subseteq> S"

lemma only_arrived_feed:
  assumes "Reorder_ok limit (fst s)" and "only_arrived S (fst s)"
  shows "only_arrived (insert seq S) (fst (Reorder_feed limit s seq))"
proof (cases "Reorder_accept (fst s) seq limit")
  case (Accepted_deliver r out)
  from Reorder_accept_deliver [OF assms(1) this]
  have out: "seq = expected (fst s)" "out = [expected (fst s)..<expected r]"
      "expected (fst s) < expected r" "held (fst s) = tl out @ held r"
    by simp_all
  have "{..<expected r} = insert seq ({..<expected (fst s)} \<union> set (tl out))"
    using out(1-3) by (auto simp: upt_conv_Cons)
  then show ?thesis
    using assms(2) out(4) Accepted_deliver
    by (auto simp: only_arrived_def Reorder_feed_def)
next
  case (Accepted_hold r)
  then show ?thesis
    using Reorder_accept_hold [OF assms(1) Accepted_hold] assms(2)
    by (auto simp: only_arrived_def Reorder_feed_def)
qed (use assms(2) in \<open>auto simp: only_arrived_def Reorder_feed_def\<close>)

lemma only_arrived_run:
  assumes "delivered_ok limit s" and "only_arrived S (fst s)"
  shows "only_arrived (S \<union> set seqs) (fst (Reorder_run limit s seqs))"
  using assms
proof (induction seqs arbitrary: s S)
  case Nil
  then show ?case by simp
next
  case (Cons seq seqs)
  have "only_arrived (insert seq S) (fst (Reorder_feed limit s seq))"
    using Cons.prems by (intro only_arrived_feed) (auto simp: delivered_ok_def)
  then have "only_arrived (insert seq S \<union> set seqs)
      (fst (Reorder_run limit (Reorder_feed limit s seq) seqs))"
    using Cons.prems by (intro Cons.IH) (auto intro: delivered_ok_feed)
  then show ?case by simp
qed

section \<open>Properties\<close>

text \<open>C31: Whatever numbers arrive at a fresh reorder buffer, in any order and with repeats, what it
  delivers is an initial segment \<open>0, 1, ..., n - 1\<close> of the flow, in order and once each, where
  \<open>n\<close> is the number it expects next; every number it delivered or holds did arrive; and it holds at
  most \<open>limit\<close> numbers, all later than \<open>n\<close> and in ascending order.\<close>

theorem Reorder_delivers_in_order:
  "case Reorder_run limit (Reorder_start, []) seqs of
     (r, out) \<Rightarrow>
       out = [0..<expected r] \<and> set out \<union> set (held r) \<subseteq> set seqs \<and>
       length (held r) \<le> limit \<and> sorted_wrt (<) (expected r # held r)"
proof -
  have "only_arrived {} Reorder_start" by (simp add: only_arrived_def Reorder_start_def)
  then show ?thesis
    using delivered_ok_run [OF delivered_ok_start [of limit], of seqs]
      only_arrived_run [OF delivered_ok_start [of limit], of "{}" seqs]
    by (auto simp: delivered_ok_def Reorder_ok_def only_arrived_def split: prod.splits)
qed

text \<open>When the limit has room for all the numbers that arrive, nothing is lost: the numbers
  delivered are the longest initial segment of the flow that arrived (the next number did not
  arrive), and the buffer holds, sorted, exactly the others.  In particular a flow whose frames all
  arrive, in any order, is delivered completely and leaves the buffer empty.\<close>

theorem Reorder_delivers_all:
  assumes "card (set seqs) \<le> limit"
  shows "case Reorder_run limit (Reorder_start, []) seqs of
     (r, out) \<Rightarrow>
       out = [0..<expected r] \<and> (\<forall>k < expected r. k \<in> set seqs) \<and> expected r \<notin> set seqs \<and>
       held r = sorted_list_of_set {x \<in> set seqs. expected r < x}"
proof -
  obtain r out where run: "Reorder_run limit (Reorder_start, []) seqs = (r, out)" by fastforce
  have "complete_for (set seqs) r"
    using complete_for_run [OF delivered_ok_start [of limit], of "{}" seqs] assms run
    by (simp add: complete_for_start)
  moreover have "delivered_ok limit (r, out)"
    using delivered_ok_run [OF delivered_ok_start [of limit], of seqs] run by simp
  moreover from calculation have "held r = sorted_list_of_set (set (held r))"
    by (simp add: delivered_ok_def Reorder_ok_def strict_sorted_iff
        sorted_list_of_set.idem_if_sorted_distinct)
  ultimately show ?thesis
    using run by (auto simp: complete_for_def delivered_ok_def)
qed

lemma Reorder_delivers_all_witness:
  "case Reorder_run 4 (Reorder_start, []) [2, 0, 5, 1, 2] of
     (r, out) \<Rightarrow>
       out = [0..<expected r] \<and> (\<forall>k < expected r. k \<in> set [2, 0, 5, 1, 2]) \<and>
       expected r \<notin> set [2, 0, 5, 1, 2] \<and>
       held r = sorted_list_of_set {x \<in> set [2, 0, 5, 1, 2]. expected r < x}"
  by (rule Reorder_delivers_all) (simp add: card_insert_if)

text \<open>Frame types and their codes on the wire are in bijection on the codes in use: decoding a
  number gives a frame type exactly when the number is that type's code, so that every frame type
  survives encoding and decoding and every other number is refused.\<close>

lemma FrameType_ofCode_iff: "FrameType_ofCode n = Some f \<longleftrightarrow> n = FrameType_code f"
  using FrameType_code_ofCode [of n f] FrameType_ofCode_code [of f] by blast

end
