(* ===== verification/Request.thy ===== *)
theory Request
  imports Flow
begin

text \<open>
  The life of a request (\<open>CapDAG-Bifaci-Request.c\<close>): the phase of a request, the grammar of the
  frames a plugin emits (\<open>Emission\<close>, one step per frame, and \<open>check\<close> over a whole sequence), the
  table of the requests that are live and of those that ended lately, what to do with a frame of
  a request, and what a writer may still write once the request is over.  Stream, request and
  exchange identifiers are strings.
\<close>

section \<open>Data\<close>

datatype Phase = Phase_created | Phase_streaming

datatype Disposition = Disposition_route | Disposition_straggler | Disposition_noRoute

datatype Terminal = Terminal_finished | Terminal_failed | Terminal_cancelled | Terminal_masterDied

datatype Emitted =
    Emitted_streamStart string
  | Emitted_chunk string nat
  | Emitted_streamEnd string "nat option"
  | Emitted_fin
  | Emitted_err
  | Emitted_other

datatype Violation =
    Violation_afterEnd
  | Violation_streamRestarted string
  | Violation_streamNotOpen string
  | Violation_chunkOutOfPlace string nat nat
  | Violation_chunkCountWrong string nat nat
  | Violation_endWithOpenStream string

datatype Write = Write_send bool | Write_suppress

record Emission =
  open_streams :: "(string \<times> nat) list"
  closed_streams :: "string list"
  over :: bool

record Table =
  live :: "(string \<times> string) list"
  ended :: "string list"
  registered :: nat

fun Phase_ctorIdx :: "Phase \<Rightarrow> nat" where
  "Phase_ctorIdx Phase_created = 0"
| "Phase_ctorIdx Phase_streaming = 1"

definition Phase_ofNat :: "nat \<Rightarrow> Phase" where
  "Phase_ofNat n = (if n \<le> 0 then Phase_created else Phase_streaming)"

fun Disposition_ctorIdx :: "Disposition \<Rightarrow> nat" where
  "Disposition_ctorIdx Disposition_route = 0"
| "Disposition_ctorIdx Disposition_straggler = 1"
| "Disposition_ctorIdx Disposition_noRoute = 2"

definition Disposition_ofNat :: "nat \<Rightarrow> Disposition" where
  "Disposition_ofNat n =
     (if n \<le> 0 then Disposition_route
      else if n \<le> 1 then Disposition_straggler else Disposition_noRoute)"

fun Terminal_ctorIdx :: "Terminal \<Rightarrow> nat" where
  "Terminal_ctorIdx Terminal_finished = 0"
| "Terminal_ctorIdx Terminal_failed = 1"
| "Terminal_ctorIdx Terminal_cancelled = 2"
| "Terminal_ctorIdx Terminal_masterDied = 3"

definition Terminal_ofNat :: "nat \<Rightarrow> Terminal" where
  "Terminal_ofNat n =
     (if n \<le> 1 then (if n \<le> 0 then Terminal_finished else Terminal_failed)
      else if n \<le> 2 then Terminal_cancelled else Terminal_masterDied)"

fun Emitted_ctorIdx :: "Emitted \<Rightarrow> nat" where
  "Emitted_ctorIdx (Emitted_streamStart _) = 0"
| "Emitted_ctorIdx (Emitted_chunk _ _) = 1"
| "Emitted_ctorIdx (Emitted_streamEnd _ _) = 2"
| "Emitted_ctorIdx Emitted_fin = 3"
| "Emitted_ctorIdx Emitted_err = 4"
| "Emitted_ctorIdx Emitted_other = 5"

fun Violation_ctorIdx :: "Violation \<Rightarrow> nat" where
  "Violation_ctorIdx Violation_afterEnd = 0"
| "Violation_ctorIdx (Violation_streamRestarted _) = 1"
| "Violation_ctorIdx (Violation_streamNotOpen _) = 2"
| "Violation_ctorIdx (Violation_chunkOutOfPlace _ _ _) = 3"
| "Violation_ctorIdx (Violation_chunkCountWrong _ _ _) = 4"
| "Violation_ctorIdx (Violation_endWithOpenStream _) = 5"

fun Write_ctorIdx :: "Write \<Rightarrow> nat" where
  "Write_ctorIdx (Write_send _) = 0"
| "Write_ctorIdx Write_suppress = 1"

section \<open>The grammar of what is emitted\<close>

definition Emission_start :: Emission where
  "Emission_start = \<lparr>open_streams = [], closed_streams = [], over = False\<rparr>"

fun stream_lookup :: "string \<Rightarrow> (string \<times> nat) list \<Rightarrow> nat option" where
  "stream_lookup s [] = None"
| "stream_lookup s (x # xs) = (if s = fst x then Some (snd x) else stream_lookup s xs)"

fun id_elem :: "string \<Rightarrow> string list \<Rightarrow> bool" where
  "id_elem a [] = False"
| "id_elem a (x # xs) = (if a = x then True else id_elem a xs)"

fun count_loop :: "string \<Rightarrow> nat \<Rightarrow> (string \<times> nat) list \<Rightarrow> (string \<times> nat) list
    \<Rightarrow> (string \<times> nat) list" where
  "count_loop s n [] acc = List_reverse acc"
| "count_loop s n (x # xs) acc =
     count_loop s n xs ((if fst x = s then (fst x, n + 1) else x) # acc)"

text \<open>The second argument is the emission's \<open>over\<close>, which is false wherever the loop is called.\<close>

fun close_loop :: "string \<Rightarrow> bool \<Rightarrow> (string \<times> nat) list \<Rightarrow> (string \<times> nat) list
    \<Rightarrow> (string \<times> nat) list" where
  "close_loop s b [] acc = List_reverse acc"
| "close_loop s b (x # xs) acc =
     (if fst x = s then (if b then close_loop s b xs (x # acc) else close_loop s b xs acc)
      else close_loop s b xs (x # acc))"

definition Emission_streamStart :: "Emission \<Rightarrow> string \<Rightarrow> Violation + Emission" where
  "Emission_streamStart e s =
     (case stream_lookup s (open_streams e) of
        None \<Rightarrow>
          (if id_elem s (closed_streams e) then Inl (Violation_streamRestarted s)
           else Inr (e\<lparr>open_streams := List_appendTR (open_streams e) [(s, 0)]\<rparr>))
      | Some _ \<Rightarrow> Inl (Violation_streamRestarted s))"

definition Emission_chunk :: "Emission \<Rightarrow> string \<Rightarrow> nat \<Rightarrow> Violation + Emission" where
  "Emission_chunk e s i =
     (case stream_lookup s (open_streams e) of
        None \<Rightarrow> Inl (Violation_streamNotOpen s)
      | Some n \<Rightarrow>
          (if i = n
           then Inr (e\<lparr>open_streams := count_loop s n (open_streams e) []\<rparr>)
           else Inl (Violation_chunkOutOfPlace s n i)))"

definition Emission_streamEnd :: "Emission \<Rightarrow> string \<Rightarrow> nat option \<Rightarrow> Violation + Emission" where
  "Emission_streamEnd e s c =
     (case stream_lookup s (open_streams e) of
        None \<Rightarrow> Inl (Violation_streamNotOpen s)
      | Some n \<Rightarrow>
          (case c of
             None \<Rightarrow>
               Inr (e\<lparr>open_streams := close_loop s (over e) (open_streams e) [],
                      closed_streams := List_appendTR (closed_streams e) [s]\<rparr>)
           | Some k \<Rightarrow>
               (if k = n
                then Inr (e\<lparr>open_streams := close_loop s (over e) (open_streams e) [],
                            closed_streams := List_appendTR (closed_streams e) [s]\<rparr>)
                else Inl (Violation_chunkCountWrong s n k))))"

definition Emission_fin :: "Emission \<Rightarrow> Violation + Emission" where
  "Emission_fin e =
     (case open_streams e of
        [] \<Rightarrow> Inr (e\<lparr>over := True\<rparr>)
      | x # _ \<Rightarrow> Inl (Violation_endWithOpenStream (fst x)))"

definition Emission_step :: "Emission \<Rightarrow> Emitted \<Rightarrow> Violation + Emission" where
  "Emission_step e f =
     (if over e then Inl Violation_afterEnd
      else case f of
        Emitted_streamStart s \<Rightarrow> Emission_streamStart e s
      | Emitted_chunk s i \<Rightarrow> Emission_chunk e s i
      | Emitted_streamEnd s c \<Rightarrow> Emission_streamEnd e s c
      | Emitted_fin \<Rightarrow> Emission_fin e
      | Emitted_err \<Rightarrow> Inr (e\<lparr>over := True\<rparr>)
      | Emitted_other \<Rightarrow> Inr e)"

lemmas Emission_step_defs =
  Emission_step_def Emission_streamStart_def Emission_chunk_def Emission_streamEnd_def
  Emission_fin_def

fun check_go :: "Emission \<Rightarrow> Emitted list \<Rightarrow> Violation option" where
  "check_go e [] = None"
| "check_go e (f # fs) =
     (case Emission_step e f of Inl v \<Rightarrow> Some v | Inr e' \<Rightarrow> check_go e' fs)"

definition check :: "Emitted list \<Rightarrow> Violation option" where
  "check fs = check_go Emission_start fs"

section \<open>Phase, disposition, terminal, ledger, writing\<close>

definition Phase_after :: "Phase \<Rightarrow> FrameType \<Rightarrow> Phase" where
  "Phase_after p f = (if FrameType_isFlow f then Phase_streaming else p)"

definition dispose :: "bool \<Rightarrow> bool \<Rightarrow> Disposition" where
  "dispose is_live endedLately =
     (if is_live then Disposition_route
      else if endedLately then Disposition_straggler else Disposition_noRoute)"

definition terminalOf :: "FrameType \<Rightarrow> Terminal option" where
  "terminalOf f =
     (case f of
        FrameType_fin \<Rightarrow> Some Terminal_finished
      | FrameType_err \<Rightarrow> Some Terminal_failed
      | _ \<Rightarrow> None)"

definition ledger :: "int \<Rightarrow> FrameType \<Rightarrow> nat \<Rightarrow> int" where
  "ledger left f granted =
     (case f of
        FrameType_chunk \<Rightarrow> left - 1
      | FrameType_credit \<Rightarrow> left + int granted
      | _ \<Rightarrow> left)"

definition Request_write :: "bool \<Rightarrow> FrameType \<Rightarrow> Write" where
  "Request_write is_over f =
     (let flow = FrameType_isFlow f;
          late = (if flow then is_over else flow)
      in if late then Write_suppress
         else if flow then Write_send (FrameType_isTerminal f) else Write_send flow)"

section \<open>The table of requests\<close>

definition Table_empty :: Table where
  "Table_empty = \<lparr>live = [], ended = [], registered = 0\<rparr>"

fun live_elem :: "string \<times> string \<Rightarrow> (string \<times> string) list \<Rightarrow> bool" where
  "live_elem a [] = False"
| "live_elem a (x # xs) =
     (let same = (if fst a = fst x then snd a = snd x else False)
      in if same then True else live_elem a xs)"

fun rid_find :: "string \<Rightarrow> (string \<times> string) list \<Rightarrow> (string \<times> string) option" where
  "rid_find r [] = None"
| "rid_find r (x # xs) = (if snd x = r then Some x else rid_find r xs)"

text \<open>The first argument is the answer of \<open>Table_isLive\<close>, which is true wherever the loop is
  called.\<close>

fun terminate_loop :: "bool \<Rightarrow> string \<Rightarrow> string \<Rightarrow> (string \<times> string) list
    \<Rightarrow> (string \<times> string) list \<Rightarrow> (string \<times> string) list" where
  "terminate_loop b xid rid [] acc = List_reverse acc"
| "terminate_loop b xid rid (x # xs) acc =
     (let same = (if fst x = xid then snd x = rid else False)
      in if same then terminate_loop b xid rid xs acc
         else if b then terminate_loop b xid rid xs (x # acc)
         else terminate_loop b xid rid xs acc)"

definition Table_isLive :: "Table \<Rightarrow> string \<Rightarrow> string \<Rightarrow> bool" where
  "Table_isLive t xid rid = live_elem (xid, rid) (live t)"

definition Table_xidOf :: "Table \<Rightarrow> string \<Rightarrow> string option" where
  "Table_xidOf t rid = (case rid_find rid (live t) of None \<Rightarrow> None | Some x \<Rightarrow> Some (fst x))"

definition Table_disposition :: "Table \<Rightarrow> string \<Rightarrow> Disposition" where
  "Table_disposition t rid =
     dispose (case Table_xidOf t rid of None \<Rightarrow> False | Some _ \<Rightarrow> True) (id_elem rid (ended t))"

definition Table_register :: "Table \<Rightarrow> string \<Rightarrow> string \<Rightarrow> Table option" where
  "Table_register t xid rid =
     (case Table_xidOf t rid of
        None \<Rightarrow>
          Some (t\<lparr>live := List_appendTR (live t) [(xid, rid)], registered := registered t + 1\<rparr>)
      | Some _ \<Rightarrow> None)"

definition Table_terminate :: "Table \<Rightarrow> string \<Rightarrow> string \<Rightarrow> nat \<Rightarrow> Table option" where
  "Table_terminate t xid rid limit =
     (let b = Table_isLive t xid rid
      in if b then
           (let ended' = List_appendTR (ended t) [rid]
            in Some (t\<lparr>live := terminate_loop b xid rid (live t) [],
                       ended := List_drop (List_lengthTR ended' - limit) ended'\<rparr>))
         else None)"

section \<open>Equality tests\<close>

definition instDecidableEqPhase :: "Phase \<Rightarrow> Phase \<Rightarrow> bool" where
  "instDecidableEqPhase x y = (Phase_ctorIdx x = Phase_ctorIdx y)"

definition instDecidableEqDisposition :: "Disposition \<Rightarrow> Disposition \<Rightarrow> bool" where
  "instDecidableEqDisposition x y = (Disposition_ctorIdx x = Disposition_ctorIdx y)"

definition instDecidableEqTerminal :: "Terminal \<Rightarrow> Terminal \<Rightarrow> bool" where
  "instDecidableEqTerminal x y = (Terminal_ctorIdx x = Terminal_ctorIdx y)"

definition instDecidableEqEmission :: "Emission \<Rightarrow> Emission \<Rightarrow> bool" where
  "instDecidableEqEmission x y =
     (if instDecidableEqList (instDecidableEqProd (=) (=)) (open_streams x) (open_streams y)
      then (if instDecidableEqList (=) (closed_streams x) (closed_streams y)
            then (if over x then over y else (if over y then False else True))
            else False)
      else False)"

definition instDecidableEqTable :: "Table \<Rightarrow> Table \<Rightarrow> bool" where
  "instDecidableEqTable x y =
     (if instDecidableEqList (instDecidableEqProd (=) (=)) (live x) (live y)
      then (if instDecidableEqList (=) (ended x) (ended y)
            then registered x = registered y else False)
      else False)"

definition instDecidableEqEmitted :: "Emitted \<Rightarrow> Emitted \<Rightarrow> bool" where
  "instDecidableEqEmitted x y =
     (case x of
        Emitted_streamStart s \<Rightarrow> (case y of Emitted_streamStart s' \<Rightarrow> s = s' | _ \<Rightarrow> False)
      | Emitted_chunk s i \<Rightarrow>
          (case y of Emitted_chunk s' i' \<Rightarrow> (if s = s' then i = i' else False) | _ \<Rightarrow> False)
      | Emitted_streamEnd s c \<Rightarrow>
          (case y of
             Emitted_streamEnd s' c' \<Rightarrow>
               (if s = s' then Option_instDecidableEq (=) c c' else False)
           | _ \<Rightarrow> False)
      | Emitted_fin \<Rightarrow> (case y of Emitted_fin \<Rightarrow> True | _ \<Rightarrow> False)
      | Emitted_err \<Rightarrow> (case y of Emitted_err \<Rightarrow> True | _ \<Rightarrow> False)
      | Emitted_other \<Rightarrow> (case y of Emitted_other \<Rightarrow> True | _ \<Rightarrow> False))"

definition instDecidableEqViolation :: "Violation \<Rightarrow> Violation \<Rightarrow> bool" where
  "instDecidableEqViolation x y =
     (case x of
        Violation_afterEnd \<Rightarrow> (case y of Violation_afterEnd \<Rightarrow> True | _ \<Rightarrow> False)
      | Violation_streamRestarted s \<Rightarrow>
          (case y of Violation_streamRestarted s' \<Rightarrow> s = s' | _ \<Rightarrow> False)
      | Violation_streamNotOpen s \<Rightarrow>
          (case y of Violation_streamNotOpen s' \<Rightarrow> s = s' | _ \<Rightarrow> False)
      | Violation_chunkOutOfPlace s m n \<Rightarrow>
          (case y of
             Violation_chunkOutOfPlace s' m' n' \<Rightarrow>
               (if s = s' then (if m = m' then n = n' else False) else False)
           | _ \<Rightarrow> False)
      | Violation_chunkCountWrong s m n \<Rightarrow>
          (case y of
             Violation_chunkCountWrong s' m' n' \<Rightarrow>
               (if s = s' then (if m = m' then n = n' else False) else False)
           | _ \<Rightarrow> False)
      | Violation_endWithOpenStream s \<Rightarrow>
          (case y of Violation_endWithOpenStream s' \<Rightarrow> s = s' | _ \<Rightarrow> False))"

definition instDecidableEqWrite :: "Write \<Rightarrow> Write \<Rightarrow> bool" where
  "instDecidableEqWrite x y =
     (case x of
        Write_send a \<Rightarrow>
          (case y of
             Write_send b \<Rightarrow> (if a then (if b then True else False) else (if b then False else True))
           | Write_suppress \<Rightarrow> False)
      | Write_suppress \<Rightarrow> (case y of Write_send _ \<Rightarrow> False | Write_suppress \<Rightarrow> True))"

section \<open>Lemmas: tags and equality tests\<close>

lemma Phase_ofNat_ctorIdx [simp]: "Phase_ofNat (Phase_ctorIdx x) = x"
  by (cases x) (simp_all add: Phase_ofNat_def)

lemma Disposition_ofNat_ctorIdx [simp]: "Disposition_ofNat (Disposition_ctorIdx x) = x"
  by (cases x) (simp_all add: Disposition_ofNat_def)

lemma Terminal_ofNat_ctorIdx [simp]: "Terminal_ofNat (Terminal_ctorIdx x) = x"
  by (cases x) (simp_all add: Terminal_ofNat_def)

lemma instDecidableEqPhase_eq [decide_simps]: "instDecidableEqPhase x y = (x = y)"
  unfolding instDecidableEqPhase_def by (metis Phase_ofNat_ctorIdx)

lemma instDecidableEqDisposition_eq [decide_simps]: "instDecidableEqDisposition x y = (x = y)"
  unfolding instDecidableEqDisposition_def by (metis Disposition_ofNat_ctorIdx)

lemma instDecidableEqTerminal_eq [decide_simps]: "instDecidableEqTerminal x y = (x = y)"
  unfolding instDecidableEqTerminal_def by (metis Terminal_ofNat_ctorIdx)

lemma instDecidableEqEmission_eq [decide_simps]: "instDecidableEqEmission x y = (x = y)"
  by (cases x; cases y) (simp add: instDecidableEqEmission_def)

lemma instDecidableEqTable_eq [decide_simps]: "instDecidableEqTable x y = (x = y)"
  by (cases x; cases y) (simp add: instDecidableEqTable_def)

lemma instDecidableEqEmitted_eq [decide_simps]: "instDecidableEqEmitted x y = (x = y)"
  by (cases x; cases y) (simp_all add: instDecidableEqEmitted_def)

lemma instDecidableEqViolation_eq [decide_simps]: "instDecidableEqViolation x y = (x = y)"
  by (cases x; cases y) (simp_all add: instDecidableEqViolation_def)

lemma instDecidableEqWrite_eq [decide_simps]: "instDecidableEqWrite x y = (x = y)"
  by (cases x; cases y) (simp_all add: instDecidableEqWrite_def)

section \<open>Lemmas: the loops\<close>

lemma stream_lookup_map_of [simp, loop_simps]: "stream_lookup s xs = map_of xs s"
  by (induction xs) auto

interpretation id_scan: exists_loop "\<lambda>x. a = x" "id_elem a" for a
  by unfold_locales simp_all

lemma id_elem_eq [simp, loop_simps]: "id_elem a xs = (a \<in> set xs)"
  by (auto simp: id_scan.loop_eq)

interpretation count_map: map_loop "\<lambda>x. if fst x = s then (fst x, n + 1) else x" "count_loop s n"
  for s n
  by unfold_locales simp_all

interpretation close_filter: filter_loop "\<lambda>x. fst x \<noteq> s \<or> b" "close_loop s b" for s b
  by unfold_locales simp_all

interpretation live_scan: exists_loop "\<lambda>x. a = x" "live_elem a" for a
  by unfold_locales (auto simp: Let_def prod_eq_iff)

interpretation rid_scan: find_loop "\<lambda>x. snd x = r" "rid_find r" for r
  by unfold_locales simp_all

interpretation terminate_filter: filter_loop "\<lambda>x. x \<noteq> (xid, rid) \<and> b" "terminate_loop b xid rid"
  for b xid rid
  by unfold_locales (auto simp: Let_def)

lemma Table_isLive_iff [loop_simps]: "Table_isLive t xid rid \<longleftrightarrow> (xid, rid) \<in> set (live t)"
  by (auto simp: Table_isLive_def live_scan.loop_eq)

lemma Table_xidOf_None [loop_simps]: "Table_xidOf t rid = None \<longleftrightarrow> rid \<notin> snd ` set (live t)"
  by (force simp: Table_xidOf_def rid_scan.loop_None dest: rid_scan.loop_SomeD split: option.splits)

lemma map_of_count:
  "map_of (map (\<lambda>x. if fst x = s then (fst x, k) else x) xs) =
     (\<lambda>r. if r = s then map_option (\<lambda>_. k) (map_of xs s) else map_of xs r)"
  by (induction xs) (auto simp: fun_eq_iff)

lemma map_of_close:
  "map_of (filter (\<lambda>x. fst x \<noteq> s) xs) = (\<lambda>r. if r = s then None else map_of xs r)"
  by (induction xs) (auto simp: fun_eq_iff)

end
