(* ===== verification/RequestLife.thy ===== *)
theory RequestLife
  imports Request
begin

text \<open>
  What \<open>Request\<close> promises.  The frames a plugin may emit are stated as a grammar, independently of
  the checker's state: \<open>well_emitted\<close> says what the frames of each stream look like and what ends a
  sequence; \<open>check\<close> is shown to decide it and to name what is wrong otherwise.  The table's and the
  writer's properties follow.
\<close>

section \<open>The grammar\<close>

fun of_stream :: "string \<Rightarrow> Emitted \<Rightarrow> bool" where
  "of_stream s (Emitted_streamStart r) = (r = s)"
| "of_stream s (Emitted_chunk r _) = (r = s)"
| "of_stream s (Emitted_streamEnd r _) = (r = s)"
| "of_stream s _ = False"

definition frames_of :: "string \<Rightarrow> Emitted list \<Rightarrow> Emitted list" where
  "frames_of s fs = filter (of_stream s) fs"

text \<open>A stream that is open after \<open>n\<close> chunks: its start, then its chunks numbered from zero.\<close>

definition opened :: "string \<Rightarrow> nat \<Rightarrow> Emitted list" where
  "opened s n = Emitted_streamStart s # map (Emitted_chunk s) [0..<n]"

definition stream_ok :: "string \<Rightarrow> Emitted list \<Rightarrow> bool" where
  "stream_ok s xs \<longleftrightarrow>
     xs = [] \<or> (\<exists>n. xs = opened s n) \<or>
     (\<exists>n c. xs = opened s n @ [Emitted_streamEnd s c] \<and> (c = None \<or> c = Some n))"

definition ends_all :: "Emitted \<Rightarrow> bool" where
  "ends_all f \<longleftrightarrow> f = Emitted_fin \<or> f = Emitted_err"

text \<open>The whole sequence: every stream is well-formed, nothing follows the frame that ends the
  sequence, and a FIN leaves no stream open (an ERR may).\<close>

definition well_emitted :: "Emitted list \<Rightarrow> bool" where
  "well_emitted fs \<longleftrightarrow>
     (\<forall>s. stream_ok s (frames_of s fs)) \<and>
     (\<forall>f \<in> set (butlast fs). \<not> ends_all f) \<and>
     (fs \<noteq> [] \<and> last fs = Emitted_fin \<longrightarrow> (\<forall>s n. frames_of s fs \<noteq> opened s n))"

section \<open>Lemmas: shapes of streams\<close>

lemma opened_length [simp]: "length (opened s n) = Suc n"
  by (simp add: opened_def)

lemma opened_inject [simp]: "opened s m = opened s n \<longleftrightarrow> m = n"
  by (metis opened_length old.nat.inject)

lemma opened_not_Nil [simp]: "opened s n \<noteq> []" "[] \<noteq> opened s n"
  by (simp_all add: opened_def)

lemma opened_Suc: "opened s (Suc n) = opened s n @ [Emitted_chunk s n]"
  by (simp add: opened_def)

lemma opened_0: "opened s 0 = [Emitted_streamStart s]"
  by (simp add: opened_def)

lemma opened_no_end [simp]:
  "opened s m \<noteq> xs @ [Emitted_streamEnd r c]" "xs @ [Emitted_streamEnd r c] \<noteq> opened s m"
  by (cases m; auto simp: opened_0 opened_Suc)+

lemma opened_snoc:
  "xs @ [x] = opened s m \<longleftrightarrow>
     xs = [] \<and> x = Emitted_streamStart s \<and> m = 0 \<or>
     (\<exists>n. m = Suc n \<and> xs = opened s n \<and> x = Emitted_chunk s n)"
  by (cases m) (auto simp: opened_0 opened_Suc)

lemma stream_ok_snoc:
  "stream_ok s (xs @ [x]) \<longleftrightarrow>
     xs = [] \<and> x = Emitted_streamStart s \<or>
     (\<exists>n. xs = opened s n \<and>
        (x = Emitted_chunk s n \<or> x = Emitted_streamEnd s None \<or> x = Emitted_streamEnd s (Some n)))"
  by (auto simp: stream_ok_def opened_snoc)

lemma stream_ok_prefix: "stream_ok s (xs @ [x]) \<Longrightarrow> stream_ok s xs"
  unfolding stream_ok_snoc by (auto simp: stream_ok_def)

lemma frames_of_snoc [simp]:
  "frames_of s (fs @ [f]) = (if of_stream s f then frames_of s fs @ [f] else frames_of s fs)"
  by (simp add: frames_of_def)

lemma frames_of_Nil [simp]: "frames_of s [] = []"
  by (simp add: frames_of_def)

lemma well_emitted_Nil: "well_emitted []"
  by (simp add: well_emitted_def stream_ok_def)

lemma well_emitted_snoc:
  "well_emitted (fs @ [f]) \<longleftrightarrow>
     well_emitted fs \<and> (\<forall>g \<in> set fs. \<not> ends_all g) \<and>
     (\<forall>s. of_stream s f \<longrightarrow> stream_ok s (frames_of s fs @ [f])) \<and>
     (f = Emitted_fin \<longrightarrow> (\<forall>s n. frames_of s fs \<noteq> opened s n))"
proof -
  have "(\<forall>s. stream_ok s (frames_of s (fs @ [f]))) \<longleftrightarrow>
      (\<forall>s. stream_ok s (frames_of s fs)) \<and>
      (\<forall>s. of_stream s f \<longrightarrow> stream_ok s (frames_of s fs @ [f]))"
    using stream_ok_prefix by auto
  moreover have "(\<forall>g \<in> set fs. \<not> ends_all g) \<Longrightarrow> fs \<noteq> [] \<Longrightarrow> last fs \<noteq> Emitted_fin"
    using last_in_set by (force simp: ends_all_def)
  moreover have "(\<forall>g \<in> set fs. \<not> ends_all g) \<Longrightarrow> (\<forall>g \<in> set (butlast fs). \<not> ends_all g)"
    using in_set_butlastD by fast
  ultimately show ?thesis
    by (cases "f = Emitted_fin") (auto simp: well_emitted_def)
qed

section \<open>The checker's state stands for the frames so far\<close>

definition stands_for :: "Emission \<Rightarrow> Emitted list \<Rightarrow> bool" where
  "stands_for e fs \<longleftrightarrow>
     well_emitted fs \<and> (over e \<longleftrightarrow> (\<exists>f \<in> set fs. ends_all f)) \<and>
     (\<forall>s n. map_of (open_streams e) s = Some n \<longleftrightarrow> frames_of s fs = opened s n) \<and>
     (\<forall>s. s \<in> set (closed_streams e) \<longleftrightarrow>
        (\<exists>n c. frames_of s fs = opened s n @ [Emitted_streamEnd s c]))"

lemma stands_for_start: "stands_for Emission_start []"
  by (simp add: stands_for_def Emission_start_def well_emitted_Nil)

lemma stands_for_closed_not_open:
  "stands_for e fs \<Longrightarrow> s \<in> set (closed_streams e) \<Longrightarrow> map_of (open_streams e) s = None"
  by (cases "map_of (open_streams e) s") (auto simp: stands_for_def opened_no_end)

lemma stands_for_unseen:
  "stands_for e fs \<Longrightarrow> frames_of s fs = [] \<longleftrightarrow>
     map_of (open_streams e) s = None \<and> s \<notin> set (closed_streams e)"
proof -
  assume rel: "stands_for e fs"
  then have "stream_ok s (frames_of s fs)"
    and "\<forall>n. map_of (open_streams e) s = Some n \<longleftrightarrow> frames_of s fs = opened s n"
    and "s \<in> set (closed_streams e) \<longleftrightarrow> (\<exists>n c. frames_of s fs = opened s n @ [Emitted_streamEnd s c])"
    by (auto simp: stands_for_def well_emitted_def)
  then show ?thesis
    by (cases "map_of (open_streams e) s") (auto simp: stream_ok_def)
qed

lemma map_of_snoc:
  "map_of (xs @ [(s, n)]) r = (case map_of xs r of None \<Rightarrow> (if r = s then Some n else None) | Some k \<Rightarrow> Some k)"
  by (auto split: option.splits simp: map_add_def)

lemmas step_simps = Emission_step_defs count_map.loop_map close_filter.loop_filter
  map_of_count map_of_close map_of_snoc

lemma step_ok:
  assumes rel: "stands_for e fs" and ok: "Emission_step e f = Inr e'"
  shows "stands_for e' (fs @ [f])"
proof -
  have live: "\<not> over e" using ok by (auto simp: Emission_step_defs split: if_splits)
  then have none: "\<forall>g \<in> set fs. \<not> ends_all g" using rel by (simp add: stands_for_def)
  show ?thesis
  proof (cases f)
    case (Emitted_streamStart s)
    with ok live have new: "map_of (open_streams e) s = None" "s \<notin> set (closed_streams e)"
        "e' = e\<lparr>open_streams := open_streams e @ [(s, 0)]\<rparr>"
      by (auto simp: Emission_step_defs split: option.splits if_splits)
    then have "frames_of s fs = []" using stands_for_unseen [OF rel] by simp
    then show ?thesis
      using rel new none live Emitted_streamStart
      by (auto simp: stands_for_def well_emitted_snoc stream_ok_snoc map_of_snoc ends_all_def
          opened_0 opened_snoc simp del: map_of_append split: option.splits if_splits)
        (metis option.distinct(1))
  next
    case (Emitted_chunk s n)
    with ok live have "map_of (open_streams e) s = Some n"
        "e' = e\<lparr>open_streams := map (\<lambda>x. if fst x = s then (fst x, n + 1) else x) (open_streams e)\<rparr>"
      by (auto simp: step_simps split: option.splits if_splits)
    then show ?thesis
      using rel none live Emitted_chunk
      by (auto simp: stands_for_def well_emitted_snoc stream_ok_snoc map_of_count ends_all_def
          opened_snoc split: option.splits if_splits)
  next
    case (Emitted_streamEnd s c)
    with ok live obtain n where open_s: "map_of (open_streams e) s = Some n" "c = None \<or> c = Some n"
        "e' = e\<lparr>open_streams := filter (\<lambda>x. fst x \<noteq> s) (open_streams e),
               closed_streams := closed_streams e @ [s]\<rparr>"
      by (auto simp: step_simps split: option.splits if_splits)
    then show ?thesis
      using rel none live Emitted_streamEnd
      by (auto simp: stands_for_def well_emitted_snoc stream_ok_snoc map_of_close ends_all_def
          opened_snoc split: option.splits if_splits)
  next
    case Emitted_fin
    with ok live have "open_streams e = []" "e' = e\<lparr>over := True\<rparr>"
      by (auto simp: Emission_step_defs split: list.splits)
    then show ?thesis
      using rel none live Emitted_fin
      by (auto simp: stands_for_def well_emitted_snoc ends_all_def)
  next
    case Emitted_err
    with ok live have "e' = e\<lparr>over := True\<rparr>" by (simp add: Emission_step_defs)
    then show ?thesis
      using rel none live Emitted_err
      by (auto simp: stands_for_def well_emitted_snoc ends_all_def)
  next
    case Emitted_other
    with ok live have "e' = e" by (simp add: Emission_step_defs)
    then show ?thesis
      using rel none live Emitted_other
      by (auto simp: stands_for_def well_emitted_snoc ends_all_def)
  qed
qed

text \<open>What each violation says of the frames before and of the frame it is raised for.\<close>

definition diagnosis :: "Violation \<Rightarrow> Emitted list \<Rightarrow> Emitted \<Rightarrow> bool" where
  "diagnosis v fs f =
     (case v of
        Violation_afterEnd \<Rightarrow> \<exists>g \<in> set fs. ends_all g
      | Violation_streamRestarted s \<Rightarrow> f = Emitted_streamStart s \<and> frames_of s fs \<noteq> []
      | Violation_streamNotOpen s \<Rightarrow>
          (\<exists>i. f = Emitted_chunk s i) \<and> (\<forall>n. frames_of s fs \<noteq> opened s n) \<or>
          (\<exists>c. f = Emitted_streamEnd s c) \<and> (\<forall>n. frames_of s fs \<noteq> opened s n)
      | Violation_chunkOutOfPlace s n i \<Rightarrow>
          f = Emitted_chunk s i \<and> frames_of s fs = opened s n \<and> i \<noteq> n
      | Violation_chunkCountWrong s n k \<Rightarrow>
          f = Emitted_streamEnd s (Some k) \<and> frames_of s fs = opened s n \<and> k \<noteq> n
      | Violation_endWithOpenStream s \<Rightarrow> f = Emitted_fin \<and> (\<exists>n. frames_of s fs = opened s n))"

lemma step_violation:
  assumes rel: "stands_for e fs" and bad: "Emission_step e f = Inl v"
  shows "diagnosis v fs f"
proof (cases "over e")
  case True
  then have "v = Violation_afterEnd" "\<exists>g \<in> set fs. ends_all g"
    using bad rel by (auto simp: Emission_step_defs stands_for_def)
  then show ?thesis by (simp add: diagnosis_def)
next
  case live: False
  have opens: "map_of (open_streams e) s = Some n \<longleftrightarrow> frames_of s fs = opened s n" for s n
    using rel by (simp add: stands_for_def)
  have closed: "map_of (open_streams e) s = None \<longleftrightarrow> (\<forall>n. frames_of s fs \<noteq> opened s n)" for s
    using opens [of s] by (cases "map_of (open_streams e) s") auto
  show ?thesis
  proof (cases f)
    case (Emitted_streamStart s)
    then show ?thesis
      using bad live stands_for_unseen [OF rel, of s]
      by (auto simp: Emission_step_defs diagnosis_def split: option.splits if_splits)
  next
    case (Emitted_chunk s i)
    then show ?thesis
      using bad live closed [of s]
      by (auto simp: Emission_step_defs diagnosis_def opens split: option.splits if_splits)
  next
    case (Emitted_streamEnd s c)
    then show ?thesis
      using bad live closed [of s]
      by (auto simp: Emission_step_defs diagnosis_def opens split: option.splits if_splits)
  next
    case Emitted_fin
    then obtain s n rest where "open_streams e = (s, n) # rest" "v = Violation_endWithOpenStream s"
      using bad live by (auto simp: Emission_step_defs split: list.splits)
    then show ?thesis using opens [of s n] Emitted_fin by (auto simp: diagnosis_def)
  qed (use bad live in \<open>auto simp: Emission_step_defs\<close>)
qed

text \<open>A diagnosed frame has no place after the frames before it.\<close>

lemma diagnosis_wrong: "diagnosis v fs f \<Longrightarrow> \<not> well_emitted (fs @ [f])"
  by (cases v)
    (auto simp: diagnosis_def well_emitted_snoc stream_ok_snoc opened_not_Nil split: Violation.splits)

lemma well_emitted_append: "well_emitted (fs @ gs) \<Longrightarrow> well_emitted fs"
  by (induction gs rule: rev_induct) (auto simp: well_emitted_snoc simp flip: append_assoc)

lemma check_go_spec:
  assumes "stands_for e fs"
  shows "case check_go e gs of
    None \<Rightarrow> well_emitted (fs @ gs)
  | Some v \<Rightarrow> \<exists>pre f post. gs = pre @ f # post \<and> well_emitted (fs @ pre) \<and> diagnosis v (fs @ pre) f"
  using assms
proof (induction gs arbitrary: e fs)
  case Nil
  then show ?case by (simp add: stands_for_def)
next
  case (Cons g gs)
  show ?case
  proof (cases "Emission_step e g")
    case (Inl v)
    have "well_emitted fs" using Cons.prems by (simp add: stands_for_def)
    with step_violation [OF Cons.prems Inl]
    have "g # gs = [] @ g # gs \<and> well_emitted (fs @ []) \<and> diagnosis v (fs @ []) g" by simp
    then show ?thesis using Inl by (auto intro: exI [of _ "[]"])
  next
    case (Inr e')
    note ih = Cons.IH [OF step_ok [OF Cons.prems Inr]]
    show ?thesis
    proof (cases "check_go e' gs")
      case None
      then show ?thesis using ih Inr by simp
    next
      case (Some v)
      then obtain pre f post where "gs = pre @ f # post" "well_emitted ((fs @ [g]) @ pre)"
          "diagnosis v ((fs @ [g]) @ pre) f"
        using ih by auto
      then have "g # gs = (g # pre) @ f # post \<and> well_emitted (fs @ g # pre) \<and>
          diagnosis v (fs @ g # pre) f" by simp
      then show ?thesis using Some Inr by (auto intro: exI [of _ "g # pre"])
    qed
  qed
qed

lemma check_spec:
  "case check gs of
     None \<Rightarrow> well_emitted gs
   | Some v \<Rightarrow> \<exists>pre f post. gs = pre @ f # post \<and> well_emitted pre \<and> diagnosis v pre f"
  using check_go_spec [OF stands_for_start, of gs] unfolding append_Nil check_def .

lemma check_decides: "check fs = None \<longleftrightarrow> well_emitted fs"
proof
  show "check fs = None \<Longrightarrow> well_emitted fs" using check_spec [of fs] by simp
  assume ok: "well_emitted fs"
  show "check fs = None"
  proof (cases "check fs")
    case (Some v)
    then obtain pre f post where "fs = (pre @ [f]) @ post" "diagnosis v pre f"
      using check_spec [of fs] by auto
    with ok well_emitted_append diagnosis_wrong show ?thesis by blast
  qed
qed

section \<open>The table over a run\<close>

text \<open>A run of the table: registrations and terminations, the refused ones leaving it as it was, with
  the number of terminations that went through.\<close>

datatype table_op = Op_register string string | Op_terminate string string

definition table_apply :: "nat \<Rightarrow> Table \<times> nat \<Rightarrow> table_op \<Rightarrow> Table \<times> nat" where
  "table_apply limit s op =
     (case op of
        Op_register xid rid \<Rightarrow>
          (case Table_register (fst s) xid rid of None \<Rightarrow> s | Some t \<Rightarrow> (t, snd s))
      | Op_terminate xid rid \<Rightarrow>
          (case Table_terminate (fst s) xid rid limit of None \<Rightarrow> s | Some t \<Rightarrow> (t, snd s + 1)))"

fun table_run :: "nat \<Rightarrow> Table \<times> nat \<Rightarrow> table_op list \<Rightarrow> Table \<times> nat" where
  "table_run limit s [] = s"
| "table_run limit s (op # ops) = table_run limit (table_apply limit s op) ops"

interpretation table_fold: fold_loop "table_apply limit" "table_run limit" for limit
  by unfold_locales simp_all

lemma Table_register_eq:
  "Table_register t xid rid =
     (if rid \<in> snd ` set (live t) then None
      else Some (t\<lparr>live := live t @ [(xid, rid)], registered := registered t + 1\<rparr>))"
  using Table_xidOf_None [of t rid] by (auto simp: Table_register_def split: option.splits)

lemma Table_terminate_eq:
  "Table_terminate t xid rid limit =
     (if (xid, rid) \<in> set (live t)
      then Some (t\<lparr>live := filter (\<lambda>x. x \<noteq> (xid, rid)) (live t),
                   ended := drop (Suc (length (ended t)) - limit) (ended t @ [rid])\<rparr>)
      else None)"
  by (simp add: Table_terminate_def loop_simps terminate_filter.loop_filter Let_def)

lemma Table_disposition_eq:
  "Table_disposition t rid =
     (if rid \<in> snd ` set (live t) then Disposition_route
      else if rid \<in> set (ended t) then Disposition_straggler else Disposition_noRoute)"
  using Table_xidOf_None [of t rid]
  by (auto simp: Table_disposition_def dispose_def split: option.splits)

definition table_inv :: "nat \<Rightarrow> Table \<times> nat \<Rightarrow> bool" where
  "table_inv limit s \<longleftrightarrow>
     distinct (map snd (live (fst s))) \<and> length (ended (fst s)) \<le> limit \<and>
     registered (fst s) = length (live (fst s)) + snd s"

lemma length_filter_one:
  "distinct xs \<Longrightarrow> a \<in> set xs \<Longrightarrow> length (filter (\<lambda>x. x \<noteq> a) xs) + 1 = length xs"
  by (induction xs) (auto intro!: arg_cong [where f = length] filter_True)

lemma table_inv_apply [inv_intros]: "table_inv limit s \<Longrightarrow> table_inv limit (table_apply limit s op)"
proof (cases op)
  case (Op_register xid rid)
  assume "table_inv limit s"
  then show ?thesis
    by (auto simp: table_inv_def table_apply_def Op_register Table_register_eq)
next
  case (Op_terminate xid rid)
  assume inv: "table_inv limit s"
  then have "distinct (live (fst s))" by (auto simp: table_inv_def distinct_map)
  from length_filter_one [OF this, of "(xid, rid)"] inv show ?thesis
    by (auto simp: table_inv_def table_apply_def Op_terminate Table_terminate_eq
        distinct_map_filter)
qed

lemma table_inv_run: "table_inv limit s \<Longrightarrow> table_inv limit (table_run limit s ops)"
  by (induction ops arbitrary: s) (simp_all only: table_run.simps table_inv_apply)

lemma table_inv_empty: "table_inv limit (Table_empty, 0)"
  by (simp add: table_inv_def Table_empty_def)

section \<open>A writer over a run\<close>

text \<open>A writer that asks \<open>Request_write\<close> before each frame and remembers that the request is over
  once a frame that ends it went out.\<close>

fun written :: "bool \<Rightarrow> FrameType list \<Rightarrow> FrameType list" where
  "written is_over [] = []"
| "written is_over (f # fs) =
     (case Request_write is_over f of
        Write_send ends \<Rightarrow> f # written (is_over \<or> ends) fs
      | Write_suppress \<Rightarrow> written is_over fs)"

lemma Request_write_eq:
  "Request_write is_over f =
     (if FrameType_isFlow f \<and> is_over then Write_suppress else Write_send (FrameType_isTerminal f))"
  using FrameType_terminal_flow [of f] by (auto simp: Request_write_def Let_def)

definition up_to_terminal :: "FrameType list \<Rightarrow> FrameType list" where
  "up_to_terminal fs =
     takeWhile (\<lambda>f. \<not> FrameType_isTerminal f) fs @
     take 1 (dropWhile (\<lambda>f. \<not> FrameType_isTerminal f) fs)"

lemma written_over_flow: "filter FrameType_isFlow (written True fs) = []"
  by (induction fs) (auto simp: Request_write_eq)

lemma written_flow: "filter FrameType_isFlow (written False fs) = up_to_terminal (filter FrameType_isFlow fs)"
  by (induction fs)
    (auto simp: Request_write_eq up_to_terminal_def written_over_flow
      dest: FrameType_terminal_flow)

lemma written_control:
  "filter (\<lambda>f. \<not> FrameType_isFlow f) (written b fs) = filter (\<lambda>f. \<not> FrameType_isFlow f) fs"
  by (induction fs arbitrary: b) (auto simp: Request_write_eq)

section \<open>Properties\<close>

text \<open>C2: The checker accepts exactly the well-formed emissions: for every stream its frames are a
  start, chunks numbered from zero without gap or repeat, and at most one end, whose count, when it
  carries one, is the number of chunks, with nothing of the stream after it; nothing follows a FIN
  or an ERR; and a FIN leaves no stream open.\<close>

theorem check_iff_well_emitted: "check fs = None \<longleftrightarrow> well_emitted fs"
  by (rule check_decides)

text \<open>C38: The violation reported is the first one and says what is wrong: the frames before the
  offending one are well-formed, and the frame's stream, its expected and actual chunk numbers, or
  the count it claims are those of the frames before it, as \<open>diagnosis\<close> spells out.\<close>

theorem check_diagnosis:
  assumes "check fs = Some v"
  shows "\<exists>pre f post. fs = pre @ f # post \<and> check pre = None \<and> diagnosis v pre f \<and>
    check (pre @ [f]) \<noteq> None"
proof -
  obtain pre f post where split: "fs = pre @ f # post" "well_emitted pre" "diagnosis v pre f"
    using check_spec [of fs] assms by auto
  with diagnosis_wrong have "check (pre @ [f]) \<noteq> None" by (simp only: check_decides) blast
  with split show ?thesis by (auto simp only: check_decides)
qed

lemma check_diagnosis_witness:
  "check [Emitted_streamStart ''a'', Emitted_chunk ''a'' 0, Emitted_chunk ''a'' 2] =
     Some (Violation_chunkOutOfPlace ''a'' 1 2) \<and>
   (\<exists>pre f post. [Emitted_streamStart ''a'', Emitted_chunk ''a'' 0, Emitted_chunk ''a'' 2] =
      pre @ f # post \<and> check pre = None \<and>
      diagnosis (Violation_chunkOutOfPlace ''a'' 1 2) pre f \<and> check (pre @ [f]) \<noteq> None)"
proof (rule conjI)
  show "check [Emitted_streamStart ''a'', Emitted_chunk ''a'' 0, Emitted_chunk ''a'' 2] =
      Some (Violation_chunkOutOfPlace ''a'' 1 2)"
    by (simp add: check_def Emission_step_defs Emission_start_def)
  then show "\<exists>pre f post. [Emitted_streamStart ''a'', Emitted_chunk ''a'' 0, Emitted_chunk ''a'' 2] =
      pre @ f # post \<and> check pre = None \<and>
      diagnosis (Violation_chunkOutOfPlace ''a'' 1 2) pre f \<and> check (pre @ [f]) \<noteq> None"
    by (rule check_diagnosis)
qed

text \<open>Whatever is registered and terminated, in any order and with any identifiers, the table
  holds each live request once, remembers at most \<open>limit\<close> ended ones, and has registered as many
  requests as are live or were terminated.\<close>

theorem table_run_accounts:
  "case table_run limit (Table_empty, 0) ops of
     (t, terminated) \<Rightarrow>
       distinct (map snd (live t)) \<and> length (ended t) \<le> limit \<and>
       registered t = length (live t) + terminated"
  using table_inv_run [OF table_inv_empty [of limit], of ops]
  by (auto simp: table_inv_def split: prod.splits)

text \<open>The life of one request: a request whose identifier is not live is registered, is then
  routed and cannot be registered again under any exchange; it is terminated exactly once, by its
  own exchange identifier only; afterwards the other live requests are as before and its late
  frames are stragglers as long as the table remembers at least one ended request.\<close>

theorem table_lifecycle:
  assumes "rid \<notin> snd ` set (live t)" and "0 < limit"
  shows "\<exists>t1 t2. Table_register t xid rid = Some t1 \<and>
    Table_disposition t1 rid = Disposition_route \<and>
    (\<forall>x. Table_register t1 x rid = None) \<and>
    (\<forall>x. x \<noteq> xid \<longrightarrow> Table_terminate t1 x rid limit = None) \<and>
    Table_terminate t1 xid rid limit = Some t2 \<and> live t2 = live t \<and>
    Table_disposition t2 rid = Disposition_straggler \<and>
    (\<forall>x. Table_terminate t2 x rid limit = None)"
proof -
  have gone: "(x, rid) \<notin> set (live t)" for x using assms(1) by force
  then have same: "filter (\<lambda>x. x \<noteq> (xid, rid)) (live t) = live t" by (intro filter_True) auto
  have kept: "rid \<in> set (drop (Suc (length (ended t)) - limit) (ended t @ [rid]))"
    using assms(2) by (simp add: drop_append)
  show ?thesis
    using assms gone same kept
    by (auto simp: Table_register_eq Table_terminate_eq Table_disposition_eq)
qed

lemma table_lifecycle_witness:
  "\<exists>t1 t2. Table_register Table_empty ''x1'' ''r1'' = Some t1 \<and>
     Table_terminate t1 ''x1'' ''r1'' 8 = Some t2 \<and>
     Table_disposition t2 ''r1'' = Disposition_straggler"
  using table_lifecycle [of "''r1''" Table_empty 8 "''x1''"] by (auto simp: Table_empty_def)

text \<open>A writer that obeys \<open>Request_write\<close> writes every control frame, in order, and of the flow
  frames exactly those up to and including the first FIN or ERR: a request ends once and nothing of
  its flow goes out after it ended.\<close>

theorem written_ends_once:
  "filter (\<lambda>f. \<not> FrameType_isFlow f) (written False fs) = filter (\<lambda>f. \<not> FrameType_isFlow f) fs \<and>
   filter FrameType_isFlow (written False fs) = up_to_terminal (filter FrameType_isFlow fs)"
  by (simp add: written_flow written_control)

end
