(* ===== verification/Credit.thy ===== *)
theory Credit
  imports LeanList
begin

text \<open>
  Credit-based flow control of one stream (\<open>CapDAG-Bifaci-Credit.c\<close>).  One credit is the
  permission to send one CHUNK frame.  The sending end keeps a \<open>Gate\<close>: the credit left and, once
  the stream is over, why it was closed.  The receiving end keeps a \<open>Window\<close>: what the sender may
  still send, what was consumed and not yet granted back, and the batch in which it grants.

  The generated C updates a record in place when it holds the only reference to it and copies it
  otherwise (\<open>lungo_is_exclusive\<close>); both branches build the same value, which is the value the
  definitions return.  Lean's \<open>Nat\<close> is unbounded and its subtraction stops at zero, as \<open>nat\<close>'s.
\<close>

section \<open>Data\<close>

record Gate =
  available :: nat
  closed :: "string option"

datatype Acquire =
    Acquire_acquired Gate
  | Acquire_wait
  | Acquire_closed string

record Window =
  remaining :: nat
  pending :: nat
  batch :: nat

datatype Arrival =
    Arrival_accepted Window
  | Arrival_violation

record Granted =
  granted_window :: Window
  granted_grant :: nat

fun Acquire_ctorIdx :: "Acquire \<Rightarrow> nat" where
  "Acquire_ctorIdx (Acquire_acquired _) = 0"
| "Acquire_ctorIdx Acquire_wait = 1"
| "Acquire_ctorIdx (Acquire_closed _) = 2"

fun Arrival_ctorIdx :: "Arrival \<Rightarrow> nat" where
  "Arrival_ctorIdx (Arrival_accepted _) = 0"
| "Arrival_ctorIdx Arrival_violation = 1"

section \<open>The sender's gate\<close>

definition Gate_opened :: "nat \<Rightarrow> Gate" where
  "Gate_opened window = \<lparr>available = window, closed = None\<rparr>"

definition Gate_acquire :: "Gate \<Rightarrow> nat \<Rightarrow> Acquire" where
  "Gate_acquire g n =
     (case closed g of
        None \<Rightarrow>
          (if n \<le> available g then Acquire_acquired (g\<lparr>available := available g - n\<rparr>)
           else Acquire_wait)
      | Some reason \<Rightarrow> Acquire_closed reason)"

definition Gate_grant :: "Gate \<Rightarrow> nat \<Rightarrow> Gate" where
  "Gate_grant g n =
     (case closed g of
        None \<Rightarrow> g\<lparr>available := available g + n\<rparr>
      | Some _ \<Rightarrow> g)"

definition Gate_close :: "Gate \<Rightarrow> string \<Rightarrow> Gate" where
  "Gate_close g reason =
     (case closed g of
        None \<Rightarrow> g\<lparr>closed := Some reason\<rparr>
      | Some _ \<Rightarrow> g)"

section \<open>The receiver's window\<close>

definition Window_opened :: "nat \<Rightarrow> Window" where
  "Window_opened window =
     (let half = drop_bit 1 window
      in if 1 \<le> half then \<lparr>remaining = window, pending = 0, batch = half\<rparr>
         else \<lparr>remaining = window, pending = 0, batch = 1\<rparr>)"

definition Window_arrive :: "Window \<Rightarrow> Arrival" where
  "Window_arrive w =
     (if remaining w = 0 then Arrival_violation
      else Arrival_accepted (w\<lparr>remaining := remaining w - 1\<rparr>))"

definition Window_flush :: "Window \<Rightarrow> Granted" where
  "Window_flush w =
     \<lparr>granted_window = w\<lparr>remaining := remaining w + pending w, pending := 0\<rparr>,
      granted_grant = pending w\<rparr>"

definition Window_consume :: "Window \<Rightarrow> Granted" where
  "Window_consume w =
     (let w' = w\<lparr>pending := pending w + 1\<rparr>
      in if batch w \<le> pending w + 1 then Window_flush w'
         else \<lparr>granted_window = w', granted_grant = 0\<rparr>)"

definition Window_continued :: "Window \<Rightarrow> Granted" where
  "Window_continued w =
     \<lparr>granted_window = w\<lparr>remaining := remaining w + 1\<rparr>, granted_grant = 1\<rparr>"

section \<open>Negotiation, and the stream a grant is for\<close>

definition negotiate :: "nat \<Rightarrow> nat \<Rightarrow> nat option" where
  "negotiate ours theirs =
     (let window = (if ours \<le> theirs then ours else theirs)
      in if window = 0 then None else Some window)"

definition grantTarget_beq :: "string option \<Rightarrow> string option \<Rightarrow> bool" where
  "grantTarget_beq x y =
     (case x of
        None \<Rightarrow> (case y of None \<Rightarrow> True | Some _ \<Rightarrow> False)
      | Some a \<Rightarrow> (case y of None \<Rightarrow> False | Some b \<Rightarrow> a = b))"

fun grantTarget_elem :: "string option \<Rightarrow> string option list \<Rightarrow> bool" where
  "grantTarget_elem x [] = False"
| "grantTarget_elem x (y # ys) =
     (if grantTarget_beq x y then True else grantTarget_elem x ys)"

definition grantTarget :: "string option list \<Rightarrow> string option \<Rightarrow> string option option" where
  "grantTarget streams named =
     (if grantTarget_elem named streams then Some named
      else case named of
        None \<Rightarrow> (case streams of
                   only # rest \<Rightarrow> (case rest of [] \<Rightarrow> Some only | _ # _ \<Rightarrow> None)
                 | [] \<Rightarrow> None)
      | Some _ \<Rightarrow> None)"

section \<open>Equality tests\<close>

definition instDecidableEqGate :: "Gate \<Rightarrow> Gate \<Rightarrow> bool" where
  "instDecidableEqGate x y =
     (if available x = available y then Option_instDecidableEq (=) (closed x) (closed y)
      else False)"

definition instDecidableEqAcquire :: "Acquire \<Rightarrow> Acquire \<Rightarrow> bool" where
  "instDecidableEqAcquire x y =
     (case x of
        Acquire_acquired g \<Rightarrow>
          (case y of Acquire_acquired h \<Rightarrow> instDecidableEqGate g h | _ \<Rightarrow> False)
      | Acquire_wait \<Rightarrow> (case y of Acquire_wait \<Rightarrow> True | _ \<Rightarrow> False)
      | Acquire_closed r \<Rightarrow> (case y of Acquire_closed s \<Rightarrow> r = s | _ \<Rightarrow> False))"

definition instDecidableEqWindow :: "Window \<Rightarrow> Window \<Rightarrow> bool" where
  "instDecidableEqWindow x y =
     (if remaining x = remaining y
      then (if pending x = pending y then batch x = batch y else False) else False)"

definition instDecidableEqArrival :: "Arrival \<Rightarrow> Arrival \<Rightarrow> bool" where
  "instDecidableEqArrival x y =
     (case x of
        Arrival_accepted v \<Rightarrow>
          (case y of Arrival_accepted w \<Rightarrow> instDecidableEqWindow v w | Arrival_violation \<Rightarrow> False)
      | Arrival_violation \<Rightarrow>
          (case y of Arrival_accepted _ \<Rightarrow> False | Arrival_violation \<Rightarrow> True))"

definition instDecidableEqGranted :: "Granted \<Rightarrow> Granted \<Rightarrow> bool" where
  "instDecidableEqGranted x y =
     (if instDecidableEqWindow (granted_window x) (granted_window y)
      then granted_grant x = granted_grant y else False)"

section \<open>Lemmas: equality tests and the grant's target\<close>

lemma instDecidableEqGate_eq [decide_simps]: "instDecidableEqGate x y = (x = y)"
  by (cases x; cases y) (simp add: instDecidableEqGate_def)

lemma instDecidableEqAcquire_eq [decide_simps]: "instDecidableEqAcquire x y = (x = y)"
  by (cases x; cases y) (simp_all add: instDecidableEqAcquire_def decide_simps)

lemma instDecidableEqWindow_eq [decide_simps]: "instDecidableEqWindow x y = (x = y)"
  by (cases x; cases y) (simp add: instDecidableEqWindow_def)

lemma instDecidableEqArrival_eq [decide_simps]: "instDecidableEqArrival x y = (x = y)"
  by (cases x; cases y) (simp_all add: instDecidableEqArrival_def decide_simps)

lemma instDecidableEqGranted_eq [decide_simps]: "instDecidableEqGranted x y = (x = y)"
  by (cases x; cases y) (simp add: instDecidableEqGranted_def decide_simps)

lemma grantTarget_beq_eq [simp]: "grantTarget_beq x y = (x = y)"
  by (simp add: grantTarget_beq_def split: option.splits)

interpretation grant_scan: exists_loop "\<lambda>y. grantTarget_beq x y" "grantTarget_elem x" for x
  by unfold_locales simp_all

lemma grantTarget_elem_eq [loop_simps]: "grantTarget_elem x xs = (x \<in> set xs)"
  by (auto simp: grant_scan.loop_eq)

section \<open>Lemmas: the gate\<close>

lemmas Gate_defs = Gate_opened_def Gate_acquire_def Gate_grant_def Gate_close_def

lemma Gate_acquire_wait_iff:
  "Gate_acquire g n = Acquire_wait \<longleftrightarrow> closed g = None \<and> available g < n"
  by (auto simp: Gate_acquire_def split: option.splits)

lemma Gate_acquire_acquired_iff:
  "Gate_acquire g n = Acquire_acquired g' \<longleftrightarrow>
     closed g = None \<and> n \<le> available g \<and> g' = g\<lparr>available := available g - n\<rparr>"
  by (auto simp: Gate_acquire_def split: option.splits)

lemma Gate_acquire_closed_iff:
  "Gate_acquire g n = Acquire_closed r \<longleftrightarrow> closed g = Some r"
  by (auto simp: Gate_acquire_def split: option.splits)

lemma Gate_close_closed: "closed (Gate_close g r) \<noteq> None"
  by (simp add: Gate_close_def split: option.splits)

lemma Gate_grant_closed [simp]: "closed (Gate_grant g n) = closed g"
  by (simp add: Gate_grant_def split: option.splits)

section \<open>Lemmas: the window\<close>

definition window_ok :: "Window \<Rightarrow> bool" where
  "window_ok w \<longleftrightarrow> 0 < batch w \<and> pending w < batch w"

lemma window_ok_opened [inv_intros]: "window_ok (Window_opened n)"
  by (simp add: window_ok_def Window_opened_def Let_def)

lemma window_ok_arrive [inv_intros]:
  "window_ok w \<Longrightarrow> Window_arrive w = Arrival_accepted w' \<Longrightarrow> window_ok w'"
  by (auto simp: window_ok_def Window_arrive_def split: if_splits)

lemma window_ok_consume [inv_intros]: "window_ok w \<Longrightarrow> window_ok (granted_window (Window_consume w))"
  by (simp add: window_ok_def Window_consume_def Window_flush_def Let_def)

lemma window_ok_continued [inv_intros]:
  "window_ok w \<Longrightarrow> window_ok (granted_window (Window_continued w))"
  by (simp add: window_ok_def Window_continued_def)

lemma window_ok_flush [inv_intros]: "window_ok w \<Longrightarrow> window_ok (granted_window (Window_flush w))"
  by (simp add: window_ok_def Window_flush_def)

lemma Window_consume_accounts:
  "pending (granted_window (Window_consume w)) + granted_grant (Window_consume w) = pending w + 1"
  "remaining (granted_window (Window_consume w)) = remaining w + granted_grant (Window_consume w)"
  "batch (granted_window (Window_consume w)) = batch w"
  by (simp_all add: Window_consume_def Window_flush_def Let_def)

lemma Window_flush_accounts:
  "granted_grant (Window_flush w) = pending w"
  "pending (granted_window (Window_flush w)) = 0"
  "remaining (granted_window (Window_flush w)) = remaining w + pending w"
  "batch (granted_window (Window_flush w)) = batch w"
  by (simp_all add: Window_flush_def)

lemma Window_continued_accounts:
  "granted_grant (Window_continued w) = 1"
  "pending (granted_window (Window_continued w)) = pending w"
  "remaining (granted_window (Window_continued w)) = remaining w + 1"
  "batch (granted_window (Window_continued w)) = batch w"
  by (simp_all add: Window_continued_def)

lemmas Window_accounts = Window_consume_accounts Window_flush_accounts Window_continued_accounts

lemma Window_arrive_accepted_iff:
  "Window_arrive w = Arrival_accepted w' \<longleftrightarrow>
     0 < remaining w \<and> w' = w\<lparr>remaining := remaining w - 1\<rparr>"
  by (auto simp: Window_arrive_def)

lemma Window_arrive_violation_iff: "Window_arrive w = Arrival_violation \<longleftrightarrow> remaining w = 0"
  by (simp add: Window_arrive_def)

lemma Window_opened_fields [simp]:
  "remaining (Window_opened n) = n" "pending (Window_opened n) = 0"
  "batch (Window_opened n) = max 1 (n div 2)"
  by (auto simp: Window_opened_def Let_def drop_bit_eq_div)

end
