(* ===== verification/CreditLink.thy ===== *)
theory CreditLink
  imports Credit
begin

text \<open>
  One credit-controlled stream with both ends and the wire between them: the sender's \<open>Gate\<close>, the
  receiver's \<open>Window\<close>, the CHUNK frames in flight, the chunks that arrived and are not consumed,
  and the CREDIT frames on their way back.  A step is one call of the operations of \<open>Credit\<close> (the
  calls \<open>Sources/Bifaci/Credit.swift\<close> makes): an \<open>acquire 1\<close> before each chunk, an \<open>arrive\<close> per
  chunk, \<open>consume\<close>, \<open>continued\<close> or \<open>flush\<close> at the receiver, a \<open>grant\<close> per CREDIT frame and a
  \<open>close\<close>.  Any interleaving is allowed, and a grant of zero is not sent.

  The locale states what the argument needs of the two ends; it is interpreted on the code's
  operations below.
\<close>

section \<open>The contract of the two ends\<close>

text \<open>
  The credit in the system: what the sender holds, the chunks in flight and the credits on their
  way back never exceed what the receiver still expects, and while the gate is open they make it up
  exactly (a closed gate drops the grants it gets).
\<close>

definition balanced :: "bool \<Rightarrow> nat \<Rightarrow> nat \<Rightarrow> nat \<Rightarrow> nat \<Rightarrow> bool" where
  "balanced is_open lvl chunks credits left \<longleftrightarrow>
     lvl + chunks + credits \<le> left \<and> (is_open \<longrightarrow> lvl + chunks + credits = left)"

locale credit_ends =
  fixes level :: "'g \<Rightarrow> nat" and is_open :: "'g \<Rightarrow> bool"
    and spend :: "'g \<Rightarrow> 'g option" and refill :: "'g \<Rightarrow> nat \<Rightarrow> 'g"
    and left :: "'w \<Rightarrow> nat" and owed :: "'w \<Rightarrow> nat"
    and take :: "'w \<Rightarrow> 'w option" and give :: "'w \<Rightarrow> 'w \<times> nat"
  assumes spend_level: "spend g = Some g' \<Longrightarrow> level g = level g' + 1 \<and> is_open g'"
    and spend_iff: "spend g \<noteq> None \<longleftrightarrow> is_open g \<and> 0 < level g"
    and refill_open: "is_open (refill g n) = is_open g"
    and refill_level: "level (refill g n) = (if is_open g then level g + n else level g)"
    and take_iff: "take w = None \<longleftrightarrow> left w = 0"
    and take_left: "take w = Some w' \<Longrightarrow> left w = left w' + 1 \<and> owed w' = owed w"
    and give_left: "give w = (w', n) \<Longrightarrow> left w' = left w + n \<and> owed w' + n = owed w + 1"
begin

lemma spend_balanced:
  assumes "spend g = Some g'" and "balanced (is_open g) (level g) chunks credits r"
  shows "balanced (is_open g') (level g') (Suc chunks) credits r"
  using assms spend_level [of g g'] spend_iff [of g] by (auto simp: balanced_def)

lemma take_balanced:
  assumes "take w = Some w'" and "balanced b lvl (Suc chunks) credits (left w)"
  shows "balanced b lvl chunks credits (left w')"
  using assms take_left [of w w'] by (auto simp: balanced_def)

lemma take_never_fails:
  assumes "balanced b lvl (Suc chunks) credits (left w)"
  shows "take w \<noteq> None"
  using assms take_iff [of w] by (auto simp: balanced_def)

lemma give_balanced:
  assumes "give w = (w', n)" and "balanced b lvl chunks credits (left w)"
  shows "balanced b lvl chunks (credits + n) (left w')"
  using assms give_left [of w w' n] by (auto simp: balanced_def)

lemma give_total:
  assumes "give w = (w', n)"
  shows "left w' + a + owed w' = left w + Suc a + owed w"
  using give_left [OF assms] by simp

lemma refill_balanced:
  assumes "balanced (is_open g) (level g) chunks (n + credits) r"
  shows "balanced (is_open (refill g n)) (level (refill g n)) chunks credits r"
  using assms by (auto simp: balanced_def refill_open refill_level)

end

section \<open>The code's operations as the two ends\<close>

definition gate_spend :: "Gate \<Rightarrow> Gate option" where
  "gate_spend g = (case Gate_acquire g 1 of Acquire_acquired g' \<Rightarrow> Some g' | _ \<Rightarrow> None)"

definition window_take :: "Window \<Rightarrow> Window option" where
  "window_take w =
     (case Window_arrive w of Arrival_accepted w' \<Rightarrow> Some w' | Arrival_violation \<Rightarrow> None)"

definition window_give :: "Window \<Rightarrow> Window \<times> nat" where
  "window_give w = (granted_window (Window_consume w), granted_grant (Window_consume w))"

definition window_give_back :: "Window \<Rightarrow> Window \<times> nat" where
  "window_give_back w = (granted_window (Window_continued w), granted_grant (Window_continued w))"

lemma gate_spend_Some: "gate_spend g = Some g' \<longleftrightarrow> Gate_acquire g 1 = Acquire_acquired g'"
  by (simp add: gate_spend_def split: Acquire.splits)

lemma window_take_Some: "window_take w = Some w' \<longleftrightarrow> Window_arrive w = Arrival_accepted w'"
  by (simp add: window_take_def split: Arrival.splits)

lemma gate_spend_iff: "gate_spend g \<noteq> None \<longleftrightarrow> closed g = None \<and> 0 < available g"
  by (auto simp: gate_spend_def Gate_acquire_def split: option.splits)

lemma gate_spend_level:
  "gate_spend g = Some g' \<Longrightarrow> available g = available g' + 1 \<and> closed g' = None"
  by (auto simp: gate_spend_Some Gate_acquire_acquired_iff)

lemma Gate_grant_available:
  "available (Gate_grant g n) = (if closed g = None then available g + n else available g)"
  by (simp add: Gate_grant_def split: option.splits)

lemma window_take_None: "window_take w = None \<longleftrightarrow> remaining w = 0"
  by (simp add: window_take_def Window_arrive_def)

lemma window_take_left:
  "window_take w = Some w' \<Longrightarrow> remaining w = remaining w' + 1 \<and> pending w' = pending w"
  by (auto simp: window_take_Some Window_arrive_accepted_iff)

lemmas ends_facts = gate_spend_level gate_spend_iff Gate_grant_closed Gate_grant_available
  window_take_None window_take_left

interpretation consuming: credit_ends available "\<lambda>g. closed g = None" gate_spend Gate_grant
  remaining pending window_take window_give
proof unfold_locales
  show "window_give w = (w', n) \<Longrightarrow>
      remaining w' = remaining w + n \<and> pending w' + n = pending w + 1" for w w' n
    by (auto simp: window_give_def Window_accounts)
qed (rule ends_facts | simp only: ends_facts | erule ends_facts)+

interpretation continuing: credit_ends available "\<lambda>g. closed g = None" gate_spend Gate_grant
  remaining pending window_take window_give_back
proof unfold_locales
  show "window_give_back w = (w', n) \<Longrightarrow>
      remaining w' = remaining w + n \<and> pending w' + n = pending w + 1" for w w' n
    by (auto simp: window_give_back_def Window_accounts)
qed (rule ends_facts | simp only: ends_facts | erule ends_facts)+

section \<open>The stream\<close>

record link =
  gate :: Gate
  window :: Window
  chunks :: nat
  arrived :: nat
  credits :: "nat list"
  violated :: bool

definition link_opened :: "nat \<Rightarrow> link" where
  "link_opened w =
     \<lparr>gate = Gate_opened w, window = Window_opened w, chunks = 0, arrived = 0, credits = [],
      violated = False\<rparr>"

definition post :: "nat \<Rightarrow> nat list \<Rightarrow> nat list" where
  "post n cs = (if n = 0 then cs else cs @ [n])"

inductive link_step :: "link \<Rightarrow> link \<Rightarrow> bool" where
  send: "Gate_acquire (gate l) 1 = Acquire_acquired g \<Longrightarrow>
     link_step l (l\<lparr>gate := g, chunks := Suc (chunks l)\<rparr>)"
| accept: "chunks l = Suc c \<Longrightarrow> Window_arrive (window l) = Arrival_accepted w \<Longrightarrow>
     link_step l (l\<lparr>window := w, chunks := c, arrived := Suc (arrived l)\<rparr>)"
| refuse: "chunks l = Suc c \<Longrightarrow> Window_arrive (window l) = Arrival_violation \<Longrightarrow>
     link_step l (l\<lparr>chunks := c, violated := True\<rparr>)"
| consume: "arrived l = Suc a \<Longrightarrow> Window_consume (window l) = r \<Longrightarrow>
     link_step l (l\<lparr>window := granted_window r, arrived := a,
       credits := post (granted_grant r) (credits l)\<rparr>)"
| continue: "arrived l = Suc a \<Longrightarrow> Window_continued (window l) = r \<Longrightarrow>
     link_step l (l\<lparr>window := granted_window r, arrived := a,
       credits := post (granted_grant r) (credits l)\<rparr>)"
| flush: "Window_flush (window l) = r \<Longrightarrow>
     link_step l (l\<lparr>window := granted_window r, credits := post (granted_grant r) (credits l)\<rparr>)"
| credit: "credits l = n # cs \<Longrightarrow>
     link_step l (l\<lparr>gate := Gate_grant (gate l) n, credits := cs\<rparr>)"
| close: "link_step l (l\<lparr>gate := Gate_close (gate l) reason\<rparr>)"

inductive link_reachable :: "nat \<Rightarrow> link \<Rightarrow> bool" for w :: nat where
  opened: "link_reachable w (link_opened w)"
| step: "link_reachable w l \<Longrightarrow> link_step l m \<Longrightarrow> link_reachable w m"

section \<open>What every reachable state keeps\<close>

definition link_inv :: "nat \<Rightarrow> link \<Rightarrow> bool" where
  "link_inv w l \<longleftrightarrow>
     balanced (closed (gate l) = None) (available (gate l)) (chunks l) (sum_list (credits l))
       (remaining (window l)) \<and>
     remaining (window l) + arrived l + pending (window l) = w \<and>
     window_ok (window l) \<and> batch (window l) = max 1 (w div 2) \<and> \<not> violated l"

lemma sum_list_post [simp]: "sum_list (post n cs) = sum_list cs + n"
  by (simp add: post_def)

lemma link_inv_opened: "link_inv w (link_opened w)"
  using window_ok_opened [of w]
  by (simp add: link_inv_def link_opened_def Gate_opened_def balanced_def)

lemma Gate_close_balanced:
  "balanced (closed g = None) (available g) c k r \<Longrightarrow>
     balanced (closed (Gate_close g why) = None) (available (Gate_close g why)) c k r"
  by (simp add: balanced_def Gate_close_def split: option.splits)

lemma Window_flush_balanced:
  "balanced b lvl c k (remaining w) \<Longrightarrow>
     balanced b lvl c (k + granted_grant (Window_flush w))
       (remaining (granted_window (Window_flush w)))"
  by (auto simp: balanced_def Window_accounts)

lemma link_step_inv: "link_step l m \<Longrightarrow> link_inv w l \<Longrightarrow> link_inv w m"
proof (induction rule: link_step.induct)
  case (send l g)
  then show ?case
    using consuming.spend_balanced [of "gate l" g] by (simp add: link_inv_def gate_spend_Some)
next
  case (accept l c w')
  then show ?case
    using consuming.take_balanced [of "window l" w'] window_ok_arrive [OF _ accept(2)]
    by (auto simp: link_inv_def window_take_Some Window_arrive_accepted_iff)
next
  case (refuse l c)
  then show ?case
    using consuming.take_never_fails [of _ _ c _ "window l"]
    by (auto simp: link_inv_def window_take_None Window_arrive_violation_iff)
next
  case (consume l a r)
  then show ?case
    using consuming.give_balanced [of "window l" "granted_window r" "granted_grant r"]
      consuming.give_total [of "window l" "granted_window r" "granted_grant r" a]
      window_ok_consume [of "window l"]
      Window_consume_accounts [of "window l"]
    by (auto simp: link_inv_def window_give_def)
next
  case (continue l a r)
  then show ?case
    using continuing.give_balanced [of "window l" "granted_window r" "granted_grant r"]
      continuing.give_total [of "window l" "granted_window r" "granted_grant r" a]
      window_ok_continued [of "window l"]
      Window_continued_accounts [of "window l"]
    by (auto simp: link_inv_def window_give_back_def)
next
  case (flush l r)
  then show ?case
    using Window_flush_balanced [of _ _ _ _ "window l"] window_ok_flush [of "window l"]
    by (auto simp: link_inv_def Window_accounts)
next
  case (credit l n cs)
  then show ?case
    using consuming.refill_balanced [of "gate l" "chunks l" n "sum_list cs"]
    by (simp add: link_inv_def)
next
  case (close l reason)
  then show ?case by (simp add: link_inv_def Gate_close_balanced)
qed

lemma link_reachable_inv: "link_reachable w l \<Longrightarrow> link_inv w l"
  by (induction rule: link_reachable.induct) (auto intro: link_inv_opened link_step_inv)

section \<open>The stream never gets stuck\<close>

lemma link_step_closed:
  "link_step l m \<Longrightarrow> closed (gate m) = None \<Longrightarrow> closed (gate l) = None"
  by (induction rule: link_step.induct)
    (auto simp: Gate_acquire_acquired_iff Gate_close_def split: option.splits)

text \<open>What is left to do before the wire and the receiver are empty.\<close>

definition link_work :: "link \<Rightarrow> nat" where
  "link_work l = 3 * chunks l + 2 * arrived l + length (credits l)"

lemma post_length: "length (post n cs) \<le> Suc (length cs)"
  by (simp add: post_def)

lemma link_drains:
  assumes "link_inv w l" and "closed (gate l) = None" and "0 < link_work l"
  shows "\<exists>m. link_step l m \<and> closed (gate m) = None \<and> link_work m < link_work l"
proof (cases "chunks l")
  case (Suc c)
  have "window_take (window l) \<noteq> None"
    using assms(1) Suc consuming.take_never_fails [of _ _ c _ "window l"]
    by (auto simp: link_inv_def)
  then obtain v where "Window_arrive (window l) = Arrival_accepted v"
    by (auto simp: window_take_Some)
  from link_step.accept [OF Suc this] show ?thesis
    using assms(2) Suc by (intro exI conjI) (assumption, auto simp: link_work_def)
next
  case no_chunks: 0
  show ?thesis
  proof (cases "arrived l")
    case (Suc a)
    from link_step.consume [OF this refl] show ?thesis
      using assms(2) Suc no_chunks post_length [of _ "credits l"]
      by (intro exI conjI) (assumption, auto simp: link_work_def le_imp_less_Suc)
  next
    case no_arrived: 0
    then obtain n cs where cs: "credits l = n # cs"
      using assms(3) no_chunks by (cases "credits l") (auto simp: link_work_def)
    from link_step.credit [OF cs] show ?thesis
      using assms(2) cs by (intro exI conjI) (assumption, auto simp: link_work_def)
  qed
qed

lemma link_idle_sends:
  assumes "link_inv w l" and "closed (gate l) = None" and "0 < w" and "link_work l = 0"
  shows "\<exists>g. Gate_acquire (gate l) 1 = Acquire_acquired g"
proof -
  have "available (gate l) + pending (window l) = w" and "pending (window l) < max 1 (w div 2)"
    using assms by (auto simp: link_inv_def balanced_def window_ok_def link_work_def)
  moreover have "max 1 (w div 2) \<le> w" using assms(3) by simp
  ultimately have "1 \<le> available (gate l)" by linarith
  with assms(2) show ?thesis by (simp add: Gate_acquire_def)
qed

lemma link_reaches_send:
  assumes "link_inv w l" and "closed (gate l) = None" and "0 < w"
  shows "\<exists>m g. link_step\<^sup>*\<^sup>* l m \<and> closed (gate m) = None \<and>
           Gate_acquire (gate m) 1 = Acquire_acquired g"
  using assms
proof (induction "link_work l" arbitrary: l rule: less_induct)
  case less
  show ?case
  proof (cases "link_work l = 0")
    case True
    then show ?thesis using link_idle_sends [OF less.prems] less.prems(2) by blast
  next
    case False
    then obtain m where m: "link_step l m" "closed (gate m) = None" "link_work m < link_work l"
      using link_drains [OF less.prems(1,2)] by auto
    with less.hyps [OF m(3) link_step_inv [OF m(1) less.prems(1)] m(2) less.prems(3)]
    show ?thesis by (meson converse_rtranclp_into_rtranclp)
  qed
qed

section \<open>Properties\<close>

text \<open>C1: Flow control of one stream is safe under every interleaving.  Whatever the sender (which
  sends a chunk only when \<open>acquire 1\<close> succeeds), the receiver and the wire do, no chunk is ever
  counted as a violation, and credit is conserved: what the sender holds, the chunks in flight, the
  credits on their way back, the chunks the receiver has not consumed and the credits it has not
  granted back never exceed the negotiated window, and make it up exactly while the gate is
  open.\<close>

theorem link_conserves_credit:
  assumes "link_reachable w l"
  shows "\<not> violated l \<and>
    available (gate l) + chunks l + sum_list (credits l) + arrived l + pending (window l) \<le> w \<and>
    (closed (gate l) = None \<longrightarrow>
      available (gate l) + chunks l + sum_list (credits l) + arrived l + pending (window l) = w)"
  using link_reachable_inv [OF assms] by (auto simp: link_inv_def balanced_def)

definition sample_link :: link where
  "sample_link =
     \<lparr>gate = \<lparr>available = 1, closed = None\<rparr>, window = \<lparr>remaining = 2, pending = 0, batch = 1\<rparr>,
      chunks = 0, arrived = 0, credits = [1], violated = False\<rparr>"

lemma sample_link_reachable: "link_reachable 2 sample_link"
proof -
  let ?a = "\<lparr>gate = \<lparr>available = 1, closed = None\<rparr>, window = \<lparr>remaining = 2, pending = 0, batch = 1\<rparr>,
      chunks = 1, arrived = 0, credits = [], violated = False\<rparr>"
  let ?b = "\<lparr>gate = \<lparr>available = 1, closed = None\<rparr>, window = \<lparr>remaining = 1, pending = 0, batch = 1\<rparr>,
      chunks = 0, arrived = 1, credits = [], violated = False\<rparr>"
  have "link_step (link_opened 2) ?a"
    using link_step.send [of "link_opened 2" "\<lparr>available = 1, closed = None\<rparr>"]
    by (simp add: link_opened_def Gate_opened_def Gate_acquire_def Window_opened_def Let_def
        drop_bit_eq_div)
  moreover have "link_step ?a ?b"
    using link_step.accept [of ?a 0 "\<lparr>remaining = 1, pending = 0, batch = 1\<rparr>"]
    by (simp add: Window_arrive_def)
  moreover have "link_step ?b sample_link"
    using link_step.consume [of ?b 0 _, OF _ refl]
    by (simp add: Window_consume_def Window_flush_def Let_def post_def sample_link_def
        numeral_2_eq_2)
  ultimately show ?thesis by (meson link_reachable.intros)
qed

lemma link_conserves_credit_witness:
  "\<not> violated sample_link \<and>
   available (gate sample_link) + chunks sample_link + sum_list (credits sample_link)
     + arrived sample_link + pending (window sample_link) = 2"
  using link_conserves_credit [OF sample_link_reachable] by (simp add: sample_link_def)



text \<open>A closed gate stays closed, with the reason of the first close: after it, whatever grants
  and closes follow, every \<open>acquire\<close> answers \<open>closed\<close> with that reason.\<close>

lemma Gate_first_close_wins:
  assumes "closed g = None"
  shows "Gate_acquire
           (foldl (\<lambda>g op. case op of Inl n \<Rightarrow> Gate_grant g n | Inr why \<Rightarrow> Gate_close g why)
              (Gate_close g reason) ops) n
         = Acquire_closed reason"
proof -
  have "closed h = Some reason \<Longrightarrow>
      closed (foldl (\<lambda>g op. case op of Inl n \<Rightarrow> Gate_grant g n | Inr why \<Rightarrow> Gate_close g why) h ops)
        = Some reason" for h
    by (induction ops arbitrary: h) (auto simp: Gate_close_def split: sum.splits)
  then show ?thesis
    using assms by (simp add: Gate_acquire_closed_iff Gate_close_def)
qed

text \<open>A grant goes to exactly the stream it names, when that stream is open; a grant that names
  none goes to the only open stream, and to none when several are open or when the named stream
  is not.\<close>

lemma grantTarget_iff:
  "grantTarget streams named = Some target \<longleftrightarrow>
     named \<in> set streams \<and> target = named \<or>
     named = None \<and> None \<notin> set streams \<and> streams = [target]"
  by (auto simp: grantTarget_def loop_simps split: option.splits list.splits)

end
