(* ===== verification/Foundation.thy ===== *)
theory Foundation
  imports Numerals "HOL-Library.Multiset"
begin

text \<open>
  What the Objective-C classes under \<open>src/Sources/CapDAG\<close> use of Foundation.

  An \<open>NSDictionary\<close> is a map; the order in which \<open>for (key in dictionary)\<close> runs through the keys
  is not documented, so an operation that enumerates a dictionary takes the enumeration as an
  argument (\<open>enumerates ids m\<close>: every key once) and its theorems hold for all of them.  A \<open>nil\<close> key
  finds nothing, a \<open>nil\<close> object is formatted as \<open>(null)\<close>, and \<open>%lu\<close> prints decimal digits.
  \<open>NSUInteger\<close> counters that only index arrays are natural numbers.
\<close>

definition enumerates :: "'k list \<Rightarrow> ('k \<rightharpoonup> 'v) \<Rightarrow> bool" where
  "enumerates ids m \<longleftrightarrow> distinct ids \<and> set ids = dom m"

definition lookup_opt :: "('k \<rightharpoonup> 'v) \<Rightarrow> 'k option \<Rightarrow> 'v option" where
  "lookup_opt m k = (case k of None \<Rightarrow> None | Some k' \<Rightarrow> m k')"

lemma lookup_opt_simps [simp]: "lookup_opt m None = None" "lookup_opt m (Some k) = m k"
  by (simp_all add: lookup_opt_def)

lemma lookup_opt_Some: "lookup_opt m k = Some v \<longleftrightarrow> (\<exists>k'. k = Some k' \<and> m k' = Some v)"
  by (cases k) auto

lemma enumerates_update:
  assumes "enumerates ids m"
  shows "enumerates (if k \<in> set ids then ids else ids @ [k]) (m(k \<mapsto> v))"
  using assms by (auto simp: enumerates_def)

section \<open>Lower case\<close>

text \<open>\<open>lowercaseString\<close> on the letters prefixes and keys are made of.\<close>

definition lowercase_char :: "char \<Rightarrow> char" where
  "lowercase_char c =
     (let n = of_char c :: nat in if 65 \<le> n \<and> n \<le> 90 then char_of (n + 32) else c)"

definition lowercase :: "string \<Rightarrow> string" where
  "lowercase s = map lowercase_char s"

lemma lowercase_char_idem [simp]: "lowercase_char (lowercase_char c) = lowercase_char c"
  by (auto simp: lowercase_char_def Let_def)

lemma lowercase_idem [simp]: "lowercase (lowercase s) = lowercase s"
  by (simp add: lowercase_def)

section \<open>Sorting by a comparator\<close>

text \<open>\<open>sortedArrayUsingComparator:\<close> and \<open>sortUsingComparator:\<close>, as a stable sort.\<close>

datatype NSComparisonResult = NSOrderedAscending | NSOrderedSame | NSOrderedDescending

definition compare_linorder :: "'a::linorder \<Rightarrow> 'a \<Rightarrow> NSComparisonResult" where
  "compare_linorder a b =
     (if a < b then NSOrderedAscending else if a = b then NSOrderedSame else NSOrderedDescending)"

fun insert_by :: "('a \<Rightarrow> 'a \<Rightarrow> NSComparisonResult) \<Rightarrow> 'a \<Rightarrow> 'a list \<Rightarrow> 'a list" where
  "insert_by cmp x [] = [x]"
| "insert_by cmp x (y # ys) =
     (if cmp x y = NSOrderedDescending then y # insert_by cmp x ys else x # y # ys)"

fun sort_by :: "('a \<Rightarrow> 'a \<Rightarrow> NSComparisonResult) \<Rightarrow> 'a list \<Rightarrow> 'a list" where
  "sort_by cmp [] = []"
| "sort_by cmp (x # xs) = insert_by cmp x (sort_by cmp xs)"

text \<open>A comparator that compares keys of a linear order sorts by those keys and loses nothing.\<close>

locale comparator =
  fixes cmp :: "'a \<Rightarrow> 'a \<Rightarrow> NSComparisonResult" and le :: "'a \<Rightarrow> 'a \<Rightarrow> bool"
  assumes cmp_le: "cmp x y \<noteq> NSOrderedDescending \<longleftrightarrow> le x y"
    and le_trans: "le x y \<Longrightarrow> le y z \<Longrightarrow> le x z"
    and le_total: "le x y \<or> le y x"
begin

lemma set_insert_by [simp]: "set (insert_by cmp x xs) = insert x (set xs)"
  by (induction xs) auto

lemma set_sort_by [simp]: "set (sort_by cmp xs) = set xs"
  by (induction xs) auto

lemma length_sort_by [simp]: "length (sort_by cmp xs) = length xs"
proof -
  have "length (insert_by cmp x ys) = Suc (length ys)" for x ys
    by (induction ys) auto
  then show ?thesis by (induction xs) auto
qed

lemma sorted_insert_by: "sorted_wrt le xs \<Longrightarrow> sorted_wrt le (insert_by cmp x xs)"
  using cmp_le le_total by (induction xs) (auto dest: le_trans)

lemma sorted_sort_by: "sorted_wrt le (sort_by cmp xs)"
  by (induction xs) (auto simp: sorted_insert_by)

lemma mset_sort_by [simp]: "mset (sort_by cmp xs) = mset xs"
proof -
  have "mset (insert_by cmp x ys) = add_mset x (mset ys)" for x ys by (induction ys) auto
  then show ?thesis by (induction xs) auto
qed

text \<open>Where equal keys mean equal elements, the order of what is sorted does not matter.\<close>

lemma sorted_unique:
  assumes "sorted_wrt le xs" and "sorted_wrt le ys" and "mset xs = mset ys"
    and "\<And>x y. x \<in> set xs \<Longrightarrow> y \<in> set xs \<Longrightarrow> le x y \<Longrightarrow> le y x \<Longrightarrow> x = y"
  shows "xs = ys"
  using assms
proof (induction xs arbitrary: ys)
  case (Cons x xs)
  obtain y ys' where ys: "ys = y # ys'" using Cons.prems(3) by (cases ys) auto
  have same: "set (x # xs) = set (y # ys')" using Cons.prems(3) ys by (metis mset_eq_setD)
  have "x \<in> set (y # ys')" "y \<in> set (x # xs)" using same by auto
  then have "x = y"
    using Cons.prems(1,2) Cons.prems(4) [of x y] ys by auto
  moreover have "xs = ys'"
    using Cons.prems ys \<open>x = y\<close> by (intro Cons.IH) auto
  ultimately show ?case using ys by simp
qed simp

lemma sort_by_order:
  assumes "mset xs = mset ys"
    and "\<And>x y. x \<in> set xs \<Longrightarrow> y \<in> set xs \<Longrightarrow> le x y \<Longrightarrow> le y x \<Longrightarrow> x = y"
  shows "sort_by cmp xs = sort_by cmp ys"
  using assms by (intro sorted_unique) (auto simp: sorted_sort_by)

end

interpretation natural: comparator "compare_linorder :: 'a::linorder \<Rightarrow> 'a \<Rightarrow> NSComparisonResult" "(\<le>)"
  by unfold_locales (auto simp: compare_linorder_def)

section \<open>Looking into strings\<close>

text \<open>\<open>hasPrefix:\<close>, and \<open>containsString:\<close> as the search for a position the text occurs at.\<close>

definition hasPrefix :: "string \<Rightarrow> string \<Rightarrow> bool" where
  "hasPrefix s t \<longleftrightarrow> take (length t) s = t"

fun containsString :: "string \<Rightarrow> string \<Rightarrow> bool" where
  "containsString [] t = (t = [])"
| "containsString (c # s) t = (if hasPrefix (c # s) t then True else containsString s t)"

lemma hasPrefix_append [simp]: "hasPrefix (t @ s) t"
  by (simp add: hasPrefix_def)

section \<open>Quoted strings\<close>

text \<open>What is between quotes, with a backslash before a quote and before a backslash.\<close>

definition quote_char :: char where "quote_char = CHR 0x22"

definition escape_char :: char where "escape_char = CHR 0x5C"

fun escaped :: "string \<Rightarrow> string" where
  "escaped [] = []"
| "escaped (c # s) =
     (if c = quote_char \<or> c = escape_char then escape_char # c # escaped s else c # escaped s)"

fun unquoted :: "string \<Rightarrow> (string \<times> string) option" where
  "unquoted [] = None"
| "unquoted (c # s) =
     (if c = quote_char then Some ([], s)
      else if c = escape_char then
        (case s of
           [] \<Rightarrow> None
         | d # t \<Rightarrow> (case unquoted t of None \<Rightarrow> None | Some (v, r) \<Rightarrow> Some (d # v, r)))
      else (case unquoted s of None \<Rightarrow> None | Some (v, r) \<Rightarrow> Some (c # v, r)))"

lemma unquoted_shorter: "unquoted s = Some (v, r) \<Longrightarrow> length r < length s"
  by (induction s arbitrary: v r rule: unquoted.induct)
    (fastforce split: if_splits list.splits option.splits prod.splits)+

lemma unquoted_escaped: "unquoted (escaped v @ quote_char # r) = Some (v, r)"
  by (induction v) (simp_all add: quote_char_def escape_char_def)

lemma sort_by_key: "sort_by (\<lambda>a b. compare_linorder (f a) (f b)) xs = sort_key f xs"
proof -
  have "insert_by (\<lambda>a b. compare_linorder (f a) (f b)) x ys = insort_key f x ys" for x ys
    by (induction ys) (auto simp: compare_linorder_def)
  then show ?thesis by (induction xs) auto
qed

end
