(* ===== verification/MediaUrn.thy ===== *)
theory MediaUrn
  imports Foundation Exec
begin

text \<open>
  Media URNs (\<open>Urn/CSMediaUrn.m\<close>): a tagged URN whose prefix is \<open>media\<close>, and whose \<open>void\<close> tag stands
  alone.  Parsing, printing and comparing tagged URNs is the work of the \<open>TaggedUrn\<close> package, which
  is not part of this repository: its functions are the fields of \<open>tagged_urn_api\<close>, an argument of
  every definition that calls them, over a type \<open>'t\<close> of tagged URNs; parsing answers a URN or the
  description of its error.  The package compares two URNs
  of one prefix without an error, so the comparisons of media URNs answer a truth value.

  The media URN and cap URN classes and the graph of caps rest on the same interface; its formal
  value (\<open>tu_formalValue\<close>) is what the generated program of the other theories is given.
\<close>

record 't tagged_urn_api =
  tu_fromString :: "string \<Rightarrow> string + 't"
  tu_prefix :: "'t \<Rightarrow> string"
  tu_tags :: "'t \<Rightarrow> (string \<times> string) list"
  tu_getTag :: "'t \<Rightarrow> string \<Rightarrow> string option"
  tu_toString :: "'t \<Rightarrow> string"
  tu_conformsTo :: "'t \<Rightarrow> 't \<Rightarrow> bool"
  tu_accepts :: "'t \<Rightarrow> 't \<Rightarrow> bool"
  tu_formalValue :: "'t \<Rightarrow> Urn"

datatype 't CSMediaUrn = CSMediaUrn (inner: 't)

datatype media_error =
    CSMediaUrnErrorInvalidPrefix string
  | CSMediaUrnErrorParse
  | CSMediaUrnErrorVoidNotAtomic "string list"

section \<open>Construction\<close>

definition MediaUrn_fromTaggedUrn ::
    "'t tagged_urn_api \<Rightarrow> 't \<Rightarrow> media_error + 't CSMediaUrn" where
  "MediaUrn_fromTaggedUrn api u =
     (if lowercase (tu_prefix api u) \<noteq> ''media'' then Inl (CSMediaUrnErrorInvalidPrefix (tu_prefix api u))
      else if map_of (tu_tags api u) ''void'' \<noteq> None \<and> 1 < length (tu_tags api u) then
        Inl (CSMediaUrnErrorVoidNotAtomic
              (sort (filter (\<lambda>key. key \<noteq> ''void'') (map fst (tu_tags api u)))))
      else Inr (CSMediaUrn u))"

definition MediaUrn_fromString ::
    "'t tagged_urn_api \<Rightarrow> string \<Rightarrow> media_error + 't CSMediaUrn" where
  "MediaUrn_fromString api s =
     (case tu_fromString api s of
        Inl _ \<Rightarrow> Inl CSMediaUrnErrorParse
      | Inr u \<Rightarrow> MediaUrn_fromTaggedUrn api u)"

text \<open>The callers that only look whether there is a URN.\<close>

definition media_of :: "'t tagged_urn_api \<Rightarrow> string \<Rightarrow> 't CSMediaUrn option" where
  "media_of api s = (case MediaUrn_fromString api s of Inl _ \<Rightarrow> None | Inr m \<Rightarrow> Some m)"

section \<open>Reading and comparing\<close>

definition MediaUrn_getTag :: "'t tagged_urn_api \<Rightarrow> 't CSMediaUrn \<Rightarrow> string \<Rightarrow> string option" where
  "MediaUrn_getTag api m key = tu_getTag api (inner m) key"

definition MediaUrn_toString :: "'t tagged_urn_api \<Rightarrow> 't CSMediaUrn \<Rightarrow> string" where
  "MediaUrn_toString api m = tu_toString api (inner m)"

definition MediaUrn_conformsTo :: "'t tagged_urn_api \<Rightarrow> 't CSMediaUrn \<Rightarrow> 't CSMediaUrn \<Rightarrow> bool" where
  "MediaUrn_conformsTo api m pattern = tu_conformsTo api (inner m) (inner pattern)"

definition MediaUrn_accepts :: "'t tagged_urn_api \<Rightarrow> 't CSMediaUrn \<Rightarrow> 't CSMediaUrn \<Rightarrow> bool" where
  "MediaUrn_accepts api m inst = tu_accepts api (inner m) (inner inst)"

definition MediaUrn_isEquivalentTo :: "'t tagged_urn_api \<Rightarrow> 't CSMediaUrn \<Rightarrow> 't CSMediaUrn \<Rightarrow> bool" where
  "MediaUrn_isEquivalentTo api m other =
     (if MediaUrn_accepts api m other then MediaUrn_accepts api other m else False)"

definition MediaUrn_isComparableTo :: "'t tagged_urn_api \<Rightarrow> 't CSMediaUrn \<Rightarrow> 't CSMediaUrn \<Rightarrow> bool" where
  "MediaUrn_isComparableTo api m other =
     (if MediaUrn_accepts api m other then True else MediaUrn_accepts api other m)"

definition MediaUrn_hasMarkerTag :: "'t tagged_urn_api \<Rightarrow> 't CSMediaUrn \<Rightarrow> string \<Rightarrow> bool" where
  "MediaUrn_hasMarkerTag api m tagName =
     (case MediaUrn_getTag api m tagName of None \<Rightarrow> False | Some v \<Rightarrow> v = ''*'')"

definition MediaUrn_isList :: "'t tagged_urn_api \<Rightarrow> 't CSMediaUrn \<Rightarrow> bool" where
  "MediaUrn_isList api m = MediaUrn_hasMarkerTag api m ''list''"

definition MediaUrn_isRecord :: "'t tagged_urn_api \<Rightarrow> 't CSMediaUrn \<Rightarrow> bool" where
  "MediaUrn_isRecord api m = MediaUrn_hasMarkerTag api m ''record''"

definition MediaUrn_isScalar :: "'t tagged_urn_api \<Rightarrow> 't CSMediaUrn \<Rightarrow> bool" where
  "MediaUrn_isScalar api m \<longleftrightarrow> \<not> MediaUrn_hasMarkerTag api m ''list''"

definition MediaUrn_isOpaque :: "'t tagged_urn_api \<Rightarrow> 't CSMediaUrn \<Rightarrow> bool" where
  "MediaUrn_isOpaque api m \<longleftrightarrow> \<not> MediaUrn_hasMarkerTag api m ''record''"

definition MediaUrn_isJson :: "'t tagged_urn_api \<Rightarrow> 't CSMediaUrn \<Rightarrow> bool" where
  "MediaUrn_isJson api m \<longleftrightarrow> MediaUrn_getTag api m ''fmt'' = Some ''json''"

definition MediaUrn_isYaml :: "'t tagged_urn_api \<Rightarrow> 't CSMediaUrn \<Rightarrow> bool" where
  "MediaUrn_isYaml api m \<longleftrightarrow> MediaUrn_getTag api m ''fmt'' = Some ''yaml''"

definition MediaUrn_isCsv :: "'t tagged_urn_api \<Rightarrow> 't CSMediaUrn \<Rightarrow> bool" where
  "MediaUrn_isCsv api m \<longleftrightarrow> MediaUrn_getTag api m ''fmt'' = Some ''csv''"

definition MediaUrn_isImage :: "'t tagged_urn_api \<Rightarrow> 't CSMediaUrn \<Rightarrow> bool" where
  "MediaUrn_isImage api m \<longleftrightarrow> MediaUrn_getTag api m ''image'' \<noteq> None"

definition MediaUrn_isAudio :: "'t tagged_urn_api \<Rightarrow> 't CSMediaUrn \<Rightarrow> bool" where
  "MediaUrn_isAudio api m \<longleftrightarrow> MediaUrn_getTag api m ''audio'' \<noteq> None"

definition MediaUrn_isVideo :: "'t tagged_urn_api \<Rightarrow> 't CSMediaUrn \<Rightarrow> bool" where
  "MediaUrn_isVideo api m \<longleftrightarrow> MediaUrn_getTag api m ''video'' \<noteq> None"

definition MediaUrn_isNumeric :: "'t tagged_urn_api \<Rightarrow> 't CSMediaUrn \<Rightarrow> bool" where
  "MediaUrn_isNumeric api m \<longleftrightarrow> MediaUrn_getTag api m ''numeric'' \<noteq> None"

definition MediaUrn_isBool :: "'t tagged_urn_api \<Rightarrow> 't CSMediaUrn \<Rightarrow> bool" where
  "MediaUrn_isBool api m \<longleftrightarrow> MediaUrn_getTag api m ''bool'' \<noteq> None"

definition MediaUrn_isFilePath :: "'t tagged_urn_api \<Rightarrow> 't CSMediaUrn \<Rightarrow> bool" where
  "MediaUrn_isFilePath api m \<longleftrightarrow> MediaUrn_hasMarkerTag api m ''file-path''"

definition MediaUrn_isVoid :: "'t tagged_urn_api \<Rightarrow> 't CSMediaUrn \<Rightarrow> bool" where
  "MediaUrn_isVoid api m \<longleftrightarrow> MediaUrn_getTag api m ''void'' \<noteq> None"

definition MediaUrn_isTop :: "'t tagged_urn_api \<Rightarrow> 't CSMediaUrn \<Rightarrow> bool" where
  "MediaUrn_isTop api m \<longleftrightarrow> length (tu_tags api (inner m)) = 0"

section \<open>The interface the clients rely on\<close>

text \<open>What the clients of the package rely on: a value conforms to itself, conformance is transitive,
  accepting is conforming the other way round, and the canonical string identifies a value.\<close>

locale tagged_urns =
  fixes api :: "'t tagged_urn_api"
  assumes accepts_conforms: "tu_accepts api u v = tu_conformsTo api v u"
    and conforms_refl: "tu_conformsTo api u u"
    and conforms_trans: "tu_conformsTo api u v \<Longrightarrow> tu_conformsTo api v w \<Longrightarrow> tu_conformsTo api u w"
begin

lemma equivalent_iff:
  "MediaUrn_isEquivalentTo api m n \<longleftrightarrow>
     MediaUrn_conformsTo api m n \<and> MediaUrn_conformsTo api n m"
  by (auto simp: MediaUrn_isEquivalentTo_def MediaUrn_accepts_def MediaUrn_conformsTo_def
      accepts_conforms)

lemma equivalent_refl: "MediaUrn_isEquivalentTo api m m"
  by (simp add: equivalent_iff MediaUrn_conformsTo_def conforms_refl)

lemma equivalent_sym: "MediaUrn_isEquivalentTo api m n \<Longrightarrow> MediaUrn_isEquivalentTo api n m"
  by (simp add: equivalent_iff)

lemma comparable_iff:
  "MediaUrn_isComparableTo api m n \<longleftrightarrow>
     MediaUrn_conformsTo api m n \<or> MediaUrn_conformsTo api n m"
  by (auto simp: MediaUrn_isComparableTo_def MediaUrn_accepts_def MediaUrn_conformsTo_def
      accepts_conforms)

end

lemma MediaUrn_void_atomic:
  assumes "MediaUrn_fromString api s = Inr m" and "map_of (tu_tags api (inner m)) ''void'' = Some v"
  shows "tu_tags api (inner m) = [(''void'', v)]"
  using assms
  by (cases "tu_tags api (inner m)")
    (auto simp: MediaUrn_fromString_def MediaUrn_fromTaggedUrn_def split: sum.splits if_splits)

section \<open>The generated program's URNs\<close>

text \<open>The URNs of the generated program meet the interface: a tag's value is written as the ladder of
  the specificity comment in \<open>CSCapUrn.m\<close> lists it.\<close>

definition constraint_text :: "Constraint \<Rightarrow> string" where
  "constraint_text c =
     (case c of
        Constraint_missing \<Rightarrow> ''?''
      | Constraint_unconstrained \<Rightarrow> ''?''
      | Constraint_optionalNot v \<Rightarrow> ''?='' @ v
      | Constraint_present \<Rightarrow> ''*''
      | Constraint_presentNot v \<Rightarrow> ''!='' @ v
      | Constraint_exact v \<Rightarrow> v
      | Constraint_absent \<Rightarrow> ''!'')"

definition formal_urns :: "(string \<Rightarrow> string + Urn) \<Rightarrow> (Urn \<Rightarrow> string) \<Rightarrow> Urn tagged_urn_api" where
  "formal_urns parse show_urn =
     \<lparr>tu_fromString = parse, tu_prefix = scheme,
      tu_tags = (\<lambda>u. map (\<lambda>(k, c). (k, constraint_text c)) (tags u)),
      tu_getTag = (\<lambda>u k. map_option constraint_text (map_of (tags u) k)),
      tu_toString = show_urn, tu_conformsTo = instDecidableRefines,
      tu_accepts = (\<lambda>u v. instDecidableRefines v u), tu_formalValue = (\<lambda>u. u)\<rparr>"

interpretation formal: tagged_urns "formal_urns parse show_urn" for parse show_urn
  by unfold_locales
    (auto simp: formal_urns_def Refines_refl intro: Refines_trans)

end
