(* ===== verification/Package.thy ===== *)
theory Package
  imports MediaUrn "HOL-Library.Finite_Map"
begin

text \<open>
  The rest of what the media URN and cap URN classes ask of the \<open>TaggedUrn\<close> package: making a URN from
  a prefix and a dictionary of tags, the complete reading of a value (\<open>satisfies:\<close>), the difference
  of two URNs and its application, editing a tag, the score and the least upper bound; and the
  operations of \<open>Urn/CSMediaUrn.m\<close> that call them.  The package stays a parameter: it is a record
  \<open>('t, 'd) tagged_urn_package\<close> over a type \<open>'t\<close> of tagged URNs and a type \<open>'d\<close> of differences.

  The locale \<open>urn_package\<close> states what the clients rely on, all of it said of the package where the
  clients call it: keys are lower case and values kept as given, a URN is printed as its prefix and its tags
  and read back, a value is decided by the formal values, which pass to the generated program as they
  are.  \<open>TextUrns\<close> gives a package of which this holds.
\<close>

record ('t, 'd) tagged_urn_package =
  urns :: "'t tagged_urn_api"
  tu_fromPrefix :: "string \<Rightarrow> (string, string) fmap \<Rightarrow> string + 't"
  tu_satisfies :: "'t \<Rightarrow> 't \<Rightarrow> bool"
  tu_meets :: "'t \<Rightarrow> 't \<Rightarrow> bool"
  tu_maySatisfy :: "'t \<Rightarrow> 't \<Rightarrow> bool"
  tu_deltaFrom :: "'t \<Rightarrow> 't \<Rightarrow> 'd option"
  tu_applyDelta :: "'t \<Rightarrow> 'd \<Rightarrow> 't option"
  tu_withTag :: "'t \<Rightarrow> string \<Rightarrow> string \<Rightarrow> 't"
  tu_withoutTag :: "'t \<Rightarrow> string \<Rightarrow> 't"
  tu_specificity :: "'t \<Rightarrow> nat"
  tu_leastUpperBound :: "string \<Rightarrow> 't list \<Rightarrow> 't option"

text \<open>The tags of a URN as a dictionary.\<close>

definition tags_of :: "('t, 'd) tagged_urn_package \<Rightarrow> 't \<Rightarrow> (string, string) fmap" where
  "tags_of pkg u = fmap_of_list (tu_tags (urns pkg) u)"

section \<open>Media URNs: complete readings, differences, editing\<close>

definition MediaUrn_satisfies ::
    "('t, 'd) tagged_urn_package \<Rightarrow> 't CSMediaUrn \<Rightarrow> 't CSMediaUrn \<Rightarrow> bool" where
  "MediaUrn_satisfies pkg m pattern = tu_satisfies pkg (inner m) (inner pattern)"

definition MediaUrn_meets ::
    "('t, 'd) tagged_urn_package \<Rightarrow> 't CSMediaUrn \<Rightarrow> 't CSMediaUrn \<Rightarrow> bool" where
  "MediaUrn_meets pkg m other = tu_meets pkg (inner m) (inner other)"

definition MediaUrn_maySatisfy ::
    "('t, 'd) tagged_urn_package \<Rightarrow> 't CSMediaUrn \<Rightarrow> 't CSMediaUrn \<Rightarrow> bool" where
  "MediaUrn_maySatisfy pkg m pattern = tu_maySatisfy pkg (inner m) (inner pattern)"

definition MediaUrn_deltaFrom ::
    "('t, 'd) tagged_urn_package \<Rightarrow> 't CSMediaUrn \<Rightarrow> 't CSMediaUrn \<Rightarrow> 'd option" where
  "MediaUrn_deltaFrom pkg m base = tu_deltaFrom pkg (inner m) (inner base)"

text \<open>A media URN of a tagged one, for the callers that only look whether there is one.\<close>

definition media_of_urn :: "('t, 'd) tagged_urn_package \<Rightarrow> 't \<Rightarrow> 't CSMediaUrn option" where
  "media_of_urn pkg u =
     (case MediaUrn_fromTaggedUrn (urns pkg) u of Inl _ \<Rightarrow> None | Inr m \<Rightarrow> Some m)"

definition MediaUrn_applyDelta ::
    "('t, 'd) tagged_urn_package \<Rightarrow> 't CSMediaUrn \<Rightarrow> 'd \<Rightarrow> 't CSMediaUrn option" where
  "MediaUrn_applyDelta pkg m delta =
     (case tu_applyDelta pkg (inner m) delta of
        None \<Rightarrow> None
      | Some applied \<Rightarrow> media_of_urn pkg applied)"

text \<open>Editing asserts that the result is a media URN: \<open>None\<close> is the assertion that fails.\<close>

definition MediaUrn_withTag ::
    "('t, 'd) tagged_urn_package \<Rightarrow> 't CSMediaUrn \<Rightarrow> string \<Rightarrow> string \<Rightarrow> 't CSMediaUrn option" where
  "MediaUrn_withTag pkg m key v = media_of_urn pkg (tu_withTag pkg (inner m) key v)"

definition MediaUrn_withoutTag ::
    "('t, 'd) tagged_urn_package \<Rightarrow> 't CSMediaUrn \<Rightarrow> string \<Rightarrow> 't CSMediaUrn option" where
  "MediaUrn_withoutTag pkg m key = media_of_urn pkg (tu_withoutTag pkg (inner m) key)"

definition MediaUrn_specificity :: "('t, 'd) tagged_urn_package \<Rightarrow> 't CSMediaUrn \<Rightarrow> nat" where
  "MediaUrn_specificity pkg m = tu_specificity pkg (inner m)"

definition MediaUrn_lub ::
    "('t, 'd) tagged_urn_package \<Rightarrow> 't CSMediaUrn list \<Rightarrow> 't CSMediaUrn option" where
  "MediaUrn_lub pkg ms =
     (case tu_leastUpperBound pkg ''media'' (map inner ms) of
        None \<Rightarrow> None
      | Some bound \<Rightarrow> media_of_urn pkg bound)"

section \<open>What the clients rely on\<close>

text \<open>Decisions are those of the formal values: conformance reads a value as a description, satisfying
  reads it as complete.\<close>

locale decided_urns =
  fixes pkg :: "('t, 'd) tagged_urn_package"
  assumes conforms_formal: "tu_conformsTo (urns pkg) u v =
      instDecidableRefines (tu_formalValue (urns pkg) u) (tu_formalValue (urns pkg) v)"
    and accepts_formal: "tu_accepts (urns pkg) u v = tu_conformsTo (urns pkg) v u"
    and satisfies_formal: "tu_satisfies pkg u v =
      instDecidableRefinesClosed (tu_formalValue (urns pkg) u) (tu_formalValue (urns pkg) v)"

sublocale decided_urns \<subseteq> tagged_urns "urns pkg"
  by unfold_locales (auto simp: conforms_formal accepts_formal intro: Refines_trans)

context decided_urns
begin

lemma conforms_satisfies: "MediaUrn_conformsTo (urns pkg) m n \<Longrightarrow> MediaUrn_satisfies pkg m n"
  by (simp add: MediaUrn_conformsTo_def MediaUrn_satisfies_def conforms_formal satisfies_formal
      Refines_RefinesClosed)

lemma satisfies_refl: "MediaUrn_satisfies pkg m m"
  by (rule conforms_satisfies) (simp add: MediaUrn_conformsTo_def conforms_refl)

lemma satisfies_conforms:
  "MediaUrn_satisfies pkg m n \<Longrightarrow> MediaUrn_conformsTo (urns pkg) n p \<Longrightarrow> MediaUrn_satisfies pkg m p"
  by (simp add: MediaUrn_conformsTo_def MediaUrn_satisfies_def conforms_formal satisfies_formal)
    (rule RefinesClosed_Refines_trans)

end

end
