(* ===== verification/CapUrn.thy ===== *)
theory CapUrn
  imports Package
begin

text \<open>
  Cap URNs (\<open>Urn/CSCapUrn.m\<close>): how a cap is made from a string, from tags, from an archive and with a
  builder, what is refused, how a cap is read, edited, merged and printed, and what its runtime
  output is.  Comparison, dispatch and score are asked of the generated program, of the value
  \<open>cap_formal\<close> that is assembled with the fields.

  An operation that answers \<open>nil\<close> with an error ends in \<open>Returns_nil\<close> of the error's code; one that
  raises an exception, or stops at an assertion, ends in \<open>Raises\<close>.  Of an error the code is kept, not
  the text of its description.  A dictionary that is enumerated (\<open>tu_tags\<close>, the argument of
  \<open>CapUrn_fromTags\<close>) is the list of its entries in the order of the enumeration.
\<close>

section \<open>Data\<close>

datatype CSCapKind =
    CSCapKindIdentity | CSCapKindSource | CSCapKindSink | CSCapKindEffect | CSCapKindTransform

datatype CSCapEffect =
    CSCapEffectDeclared | CSCapEffectNone | CSCapEffectPatch | CSCapEffectAny

datatype CSCapUrnError =
    CSCapUrnErrorInvalidFormat
  | CSCapUrnErrorEmptyTag
  | CSCapUrnErrorInvalidCharacter
  | CSCapUrnErrorInvalidTagFormat
  | CSCapUrnErrorMissingCapPrefix
  | CSCapUrnErrorDuplicateKey
  | CSCapUrnErrorNumericKey
  | CSCapUrnErrorUnterminatedQuote
  | CSCapUrnErrorInvalidEscapeSequence
  | CSCapUrnErrorMissingInSpec
  | CSCapUrnErrorMissingOutSpec
  | CSCapUrnErrorInvalidInSpec
  | CSCapUrnErrorInvalidOutSpec
  | CSCapUrnErrorInvalidEffect
  | CSCapUrnErrorInvalidEffectApplication
  | CSCapUrnErrorIllegalDeclaration

datatype urn_exception =
    NSInternalInconsistencyException
  | NSInvalidArgumentException
  | Assertion_failed
  | Null_value

datatype urn_failure = Returns_nil CSCapUrnError | Raises urn_exception

record CSCapUrn =
  inSpec :: string
  outSpec :: string
  effectSpec :: string
  mutableTags :: "(string, string) fmap"
  cap_formal :: WfCap

section \<open>Effects\<close>

definition CSCapEffectToString :: "CSCapEffect \<Rightarrow> string" where
  "CSCapEffectToString effect =
     (case effect of
        CSCapEffectDeclared \<Rightarrow> ''declared''
      | CSCapEffectNone \<Rightarrow> ''none''
      | CSCapEffectPatch \<Rightarrow> ''patch''
      | CSCapEffectAny \<Rightarrow> ''?'')"

definition CSCapEffectFromString :: "string \<Rightarrow> urn_failure + CSCapEffect" where
  "CSCapEffectFromString v =
     (if v = ''declared'' then Inr CSCapEffectDeclared
      else if v = ''none'' then Inr CSCapEffectNone
      else if v = ''patch'' then Inr CSCapEffectPatch
      else if v = ''?'' then Inr CSCapEffectAny
      else Inl (Raises Assertion_failed))"

definition CSCapNormalizeEffectValue :: "string option \<Rightarrow> urn_failure + string" where
  "CSCapNormalizeEffectValue raw =
     (case raw of
        None \<Rightarrow> Inr ''declared''
      | Some v \<Rightarrow>
          (if v = ''*'' \<or> v = ''?'' then Inr ''?''
           else if v = ''declared'' \<or> v = ''none'' \<or> v = ''patch'' then Inr v
           else Inl (Returns_nil CSCapUrnErrorInvalidEffect)))"

section \<open>The model's value\<close>

definition CSCapModelMedia ::
    "('t, 'd) tagged_urn_package \<Rightarrow> string \<Rightarrow> urn_failure + Urn" where
  "CSCapModelMedia pkg spec =
     (case MediaUrn_fromString (urns pkg) spec of
        Inl _ \<Rightarrow> Inl (Raises NSInternalInconsistencyException)
      | Inr media \<Rightarrow> Inr (tu_formalValue (urns pkg) (inner media)))"

definition CSCapModelEffect :: "string \<Rightarrow> urn_failure + Effect" where
  "CSCapModelEffect spec =
     (case CSCapEffectFromString spec of
        Inl e \<Rightarrow> Inl e
      | Inr CSCapEffectDeclared \<Rightarrow> Inr Effect_declared
      | Inr CSCapEffectNone \<Rightarrow> Inr Effect_none
      | Inr CSCapEffectPatch \<Rightarrow> Inr Effect_patch
      | Inr CSCapEffectAny \<Rightarrow> Inr Effect_unspecified)"

text \<open>The designated initializer: the fields, and the model's value built from them.\<close>

definition CapUrn_init ::
    "('t, 'd) tagged_urn_package \<Rightarrow> string \<Rightarrow> string \<Rightarrow> string \<Rightarrow> 't \<Rightarrow> urn_failure + CSCapUrn" where
  "CapUrn_init pkg i out eff tagUrn =
     (case CSCapModelMedia pkg i of Inl e \<Rightarrow> Inl e | Inr in_value \<Rightarrow>
     (case CSCapModelMedia pkg out of Inl e \<Rightarrow> Inl e | Inr out_value \<Rightarrow>
     (case CSCapModelEffect eff of Inl e \<Rightarrow> Inl e | Inr eff_value \<Rightarrow>
        Inr \<lparr>inSpec = i, outSpec = out, effectSpec = eff, mutableTags = tags_of pkg tagUrn,
             cap_formal = \<lparr>wf_input = in_value, wf_output = out_value,
                           wf_other = tu_formalValue (urns pkg) tagUrn, wf_effect = eff_value\<rparr>\<rparr>)))"

section \<open>Which caps may be declared\<close>

definition CapUrn_validateAdmissible ::
    "('t, 'd) tagged_urn_package \<Rightarrow> string \<Rightarrow> string \<Rightarrow> string \<Rightarrow> (string, string) fmap \<Rightarrow>
     urn_failure + unit" where
  "CapUrn_validateAdmissible pkg i out eff ts =
     (case MediaUrn_fromString (urns pkg) i of
        Inl _ \<Rightarrow> Inl (Returns_nil CSCapUrnErrorInvalidInSpec)
      | Inr in_media \<Rightarrow>
     (case MediaUrn_fromString (urns pkg) out of
        Inl _ \<Rightarrow> Inl (Returns_nil CSCapUrnErrorInvalidOutSpec)
      | Inr out_media \<Rightarrow>
     (case CSCapEffectFromString eff of
        Inl e \<Rightarrow> Inl e
      | Inr parsed \<Rightarrow>
          (if MediaUrn_isTop (urns pkg) in_media \<and> MediaUrn_isTop (urns pkg) out_media \<and>
              ts = fmempty \<and> parsed = CSCapEffectDeclared
           then Inl (Returns_nil CSCapUrnErrorIllegalDeclaration)
           else if parsed = CSCapEffectNone then
             (if MediaUrn_conformsTo (urns pkg) in_media out_media then Inr ()
              else Inl (Returns_nil CSCapUrnErrorIllegalDeclaration))
           else if parsed = CSCapEffectPatch then
             (case MediaUrn_deltaFrom pkg out_media in_media of
                None \<Rightarrow> Inl (Returns_nil CSCapUrnErrorIllegalDeclaration)
              | Some delta \<Rightarrow>
                  (case MediaUrn_applyDelta pkg in_media delta of
                     None \<Rightarrow> Inl (Returns_nil CSCapUrnErrorIllegalDeclaration)
                   | Some patched \<Rightarrow>
                       (if MediaUrn_conformsTo (urns pkg) patched out_media then Inr ()
                        else Inl (Returns_nil CSCapUrnErrorIllegalDeclaration))))
           else Inr ()))))"

section \<open>Making a cap\<close>

definition CapUrn_isValidMediaUrnOrWildcard :: "string \<Rightarrow> bool" where
  "CapUrn_isValidMediaUrnOrWildcard v \<longleftrightarrow> v = ''*'' \<or> hasPrefix v ''media:''"

definition CapUrn_capUrnErrorFromTaggedUrnError :: "string \<Rightarrow> CSCapUrnError" where
  "CapUrn_capUrnErrorFromTaggedUrnError msg =
     (let low = lowercase msg
      in if containsString low ''invalid character'' then CSCapUrnErrorInvalidCharacter
         else if containsString low ''duplicate'' then CSCapUrnErrorDuplicateKey
         else if containsString low ''unterminated'' \<or> containsString low ''unclosed''
           then CSCapUrnErrorUnterminatedQuote
         else if containsString low ''expected'' \<and> containsString low ''after quoted''
           then CSCapUrnErrorUnterminatedQuote
         else if containsString low ''numeric'' then CSCapUrnErrorNumericKey
         else if containsString low ''escape'' then CSCapUrnErrorInvalidEscapeSequence
         else if containsString low ''incomplete'' \<or> containsString low ''missing value''
           then CSCapUrnErrorInvalidTagFormat
         else CSCapUrnErrorInvalidFormat)"

text \<open>A direction with the wildcard expanded: of \<open>fromInSpec:outSpec:effect:tags:error:\<close> and
  \<open>fromTags:error:\<close>, and the same of a tag of a parsed URN.\<close>

definition CapUrn_processSpec :: "CSCapUrnError \<Rightarrow> string option \<Rightarrow> urn_failure + string" where
  "CapUrn_processSpec err spec =
     (case spec of
        None \<Rightarrow> Inr ''media:''
      | Some v \<Rightarrow>
          (if v = ''*'' then Inr ''media:''
           else if length v = 0 then Inl (Returns_nil err)
           else Inr v))"

definition CapUrn_processDirectionTag ::
    "('t, 'd) tagged_urn_package \<Rightarrow> 't \<Rightarrow> string \<Rightarrow> urn_failure + string" where
  "CapUrn_processDirectionTag pkg u tagName =
     (case tu_getTag (urns pkg) u tagName of
        None \<Rightarrow> Inr ''media:''
      | Some v \<Rightarrow>
          (if v = ''*'' then Inr ''media:''
           else if length v = 0 then
             Inl (Returns_nil (if tagName = ''in'' then CSCapUrnErrorInvalidInSpec
                               else CSCapUrnErrorInvalidOutSpec))
           else Inr v))"

text \<open>The check of a direction that is not the wildcard, made in all three constructors.\<close>

definition CapUrn_checkSpec ::
    "('t, 'd) tagged_urn_package \<Rightarrow> CSCapUrnError \<Rightarrow> string \<Rightarrow> urn_failure + unit" where
  "CapUrn_checkSpec pkg err spec =
     (if spec \<noteq> ''media:'' then
        (case MediaUrn_fromString (urns pkg) spec of
           Inl _ \<Rightarrow> Inl (Returns_nil err)
         | Inr _ \<Rightarrow> Inr ())
      else Inr ())"

definition CapUrn_fromInSpec ::
    "('t, 'd) tagged_urn_package \<Rightarrow> string option \<Rightarrow> string option \<Rightarrow> string option \<Rightarrow>
     (string, string) fmap \<Rightarrow> urn_failure + CSCapUrn" where
  "CapUrn_fromInSpec pkg i_spec out_spec eff ts =
     (case CapUrn_processSpec CSCapUrnErrorInvalidInSpec i_spec of Inl e \<Rightarrow> Inl e | Inr i \<Rightarrow>
     (case CapUrn_processSpec CSCapUrnErrorInvalidOutSpec out_spec of Inl e \<Rightarrow> Inl e | Inr out \<Rightarrow>
     (case CapUrn_checkSpec pkg CSCapUrnErrorInvalidInSpec i of Inl e \<Rightarrow> Inl e | Inr _ \<Rightarrow>
     (case CapUrn_checkSpec pkg CSCapUrnErrorInvalidOutSpec out of Inl e \<Rightarrow> Inl e | Inr _ \<Rightarrow>
     (case CSCapNormalizeEffectValue eff of Inl e \<Rightarrow> Inl e | Inr normalized \<Rightarrow>
     (case tu_fromPrefix pkg ''cap'' ts of
        Inl msg \<Rightarrow> Inl (Returns_nil (CapUrn_capUrnErrorFromTaggedUrnError msg))
      | Inr validated \<Rightarrow>
     (case CapUrn_validateAdmissible pkg i out normalized (tags_of pkg validated) of
        Inl e \<Rightarrow> Inl e
      | Inr _ \<Rightarrow> CapUrn_init pkg i out normalized validated)))))))"

text \<open>What the string and the tags constructor do with the tags they have read.\<close>

definition is_structural :: "string \<Rightarrow> bool" where
  "is_structural k \<longleftrightarrow> k = ''in'' \<or> k = ''out'' \<or> k = ''effect''"

fun CapUrn_remainingTags :: "(string \<times> string) list \<Rightarrow> (string, string) fmap \<Rightarrow> (string, string) fmap" where
  "CapUrn_remainingTags [] acc = acc"
| "CapUrn_remainingTags ((k, v) # kvs) acc =
     (if is_structural (lowercase k) then CapUrn_remainingTags kvs acc
      else CapUrn_remainingTags kvs (fmupd (lowercase k) v acc))"

definition CapUrn_fromString ::
    "('t, 'd) tagged_urn_package \<Rightarrow> string \<Rightarrow> urn_failure + CSCapUrn" where
  "CapUrn_fromString pkg s =
     (if length s = 0 then Inl (Returns_nil CSCapUrnErrorInvalidFormat)
      else if length s < 4 \<or> lowercase (take 4 s) \<noteq> ''cap:''
        then Inl (Returns_nil CSCapUrnErrorMissingCapPrefix)
      else
     (case tu_fromString (urns pkg) s of
        Inl msg \<Rightarrow> Inl (Returns_nil (CapUrn_capUrnErrorFromTaggedUrnError msg))
      | Inr u \<Rightarrow>
     (if lowercase (tu_prefix (urns pkg) u) \<noteq> ''cap''
        then Inl (Returns_nil CSCapUrnErrorMissingCapPrefix)
      else
     (case CapUrn_processDirectionTag pkg u ''in'' of Inl e \<Rightarrow> Inl e | Inr i \<Rightarrow>
     (case CapUrn_processDirectionTag pkg u ''out'' of Inl e \<Rightarrow> Inl e | Inr out \<Rightarrow>
     (case CSCapNormalizeEffectValue (tu_getTag (urns pkg) u ''effect'') of Inl e \<Rightarrow> Inl e | Inr eff \<Rightarrow>
     (case CapUrn_checkSpec pkg CSCapUrnErrorInvalidInSpec i of Inl e \<Rightarrow> Inl e | Inr _ \<Rightarrow>
     (case CapUrn_checkSpec pkg CSCapUrnErrorInvalidOutSpec out of Inl e \<Rightarrow> Inl e | Inr _ \<Rightarrow>
        CapUrn_fromInSpec pkg (Some i) (Some out) (Some eff)
          (CapUrn_remainingTags (tu_tags (urns pkg) u) fmempty)))))))))"

fun CapUrn_normalizedTags :: "(string \<times> string) list \<Rightarrow> (string, string) fmap \<Rightarrow> (string, string) fmap" where
  "CapUrn_normalizedTags [] acc = acc"
| "CapUrn_normalizedTags ((k, v) # kvs) acc = CapUrn_normalizedTags kvs (fmupd (lowercase k) v acc)"

definition CapUrn_fromTags ::
    "('t, 'd) tagged_urn_package \<Rightarrow> (string \<times> string) list \<Rightarrow> urn_failure + CSCapUrn" where
  "CapUrn_fromTags pkg entries =
     (let normalized = CapUrn_normalizedTags entries fmempty
      in
     (case CapUrn_processSpec CSCapUrnErrorInvalidInSpec (fmlookup normalized ''in'') of Inl e \<Rightarrow> Inl e | Inr i \<Rightarrow>
     (case CapUrn_processSpec CSCapUrnErrorInvalidOutSpec (fmlookup normalized ''out'') of Inl e \<Rightarrow> Inl e | Inr out \<Rightarrow>
     (case CSCapNormalizeEffectValue (fmlookup normalized ''effect'') of Inl e \<Rightarrow> Inl e | Inr eff \<Rightarrow>
     (case CapUrn_checkSpec pkg CSCapUrnErrorInvalidInSpec i of Inl e \<Rightarrow> Inl e | Inr _ \<Rightarrow>
     (case CapUrn_checkSpec pkg CSCapUrnErrorInvalidOutSpec out of Inl e \<Rightarrow> Inl e | Inr _ \<Rightarrow>
        CapUrn_fromInSpec pkg (Some i) (Some out) (Some eff)
          (fmfilter (\<lambda>k. \<not> is_structural k) normalized)))))))"

definition CapUrn_mustCreate ::
    "('t, 'd) tagged_urn_package \<Rightarrow> string \<Rightarrow> string \<Rightarrow> string \<Rightarrow> (string, string) fmap \<Rightarrow>
     urn_failure + CSCapUrn" where
  "CapUrn_mustCreate pkg i out eff ts =
     (case CapUrn_fromInSpec pkg (Some i) (Some out) (Some eff) ts of
        Inl (Returns_nil _) \<Rightarrow> Inl (Raises NSInternalInconsistencyException)
      | Inl (Raises x) \<Rightarrow> Inl (Raises x)
      | Inr c \<Rightarrow> Inr c)"

section \<open>Reading a cap\<close>

definition CapUrn_effect :: "CSCapUrn \<Rightarrow> urn_failure + CSCapEffect" where
  "CapUrn_effect c = CSCapEffectFromString (effectSpec c)"

definition CapUrn_kind ::
    "('t, 'd) tagged_urn_package \<Rightarrow> CSCapUrn \<Rightarrow> urn_failure + CSCapKind" where
  "CapUrn_kind pkg c =
     (case MediaUrn_fromString (urns pkg) (inSpec c) of
        Inl _ \<Rightarrow> Inl (Raises Assertion_failed)
      | Inr in_media \<Rightarrow>
     (case MediaUrn_fromString (urns pkg) (outSpec c) of
        Inl _ \<Rightarrow> Inl (Raises Assertion_failed)
      | Inr out_media \<Rightarrow>
     (case CapUrn_effect c of
        Inl e \<Rightarrow> Inl e
      | Inr eff \<Rightarrow>
          (let in_void = MediaUrn_isVoid (urns pkg) in_media;
               out_void = MediaUrn_isVoid (urns pkg) out_media;
               in_top = MediaUrn_isTop (urns pkg) in_media;
               out_top = MediaUrn_isTop (urns pkg) out_media;
               no_extra_tags = (mutableTags c = fmempty)
           in if in_top \<and> out_top \<and> no_extra_tags \<and> eff = CSCapEffectNone then Inr CSCapKindIdentity
              else if in_void \<and> out_void then Inr CSCapKindEffect
              else if in_void then Inr CSCapKindSource
              else if out_void then Inr CSCapKindSink
              else Inr CSCapKindTransform))))"

definition CSCapKindToString :: "CSCapKind \<Rightarrow> string" where
  "CSCapKindToString k =
     (case k of
        CSCapKindIdentity \<Rightarrow> ''identity''
      | CSCapKindSource \<Rightarrow> ''source''
      | CSCapKindSink \<Rightarrow> ''sink''
      | CSCapKindEffect \<Rightarrow> ''effect''
      | CSCapKindTransform \<Rightarrow> ''transform'')"

definition CapUrn_getTag :: "CSCapUrn \<Rightarrow> string \<Rightarrow> string option" where
  "CapUrn_getTag c key =
     (if lowercase key = ''in'' then Some (inSpec c)
      else if lowercase key = ''out'' then Some (outSpec c)
      else if lowercase key = ''effect'' then Some (effectSpec c)
      else fmlookup (mutableTags c) (lowercase key))"

definition CapUrn_hasTag :: "CSCapUrn \<Rightarrow> string \<Rightarrow> string \<Rightarrow> bool" where
  "CapUrn_hasTag c key v =
     (case (if lowercase key = ''in'' then Some (inSpec c)
            else if lowercase key = ''out'' then Some (outSpec c)
            else if lowercase key = ''effect'' then Some (effectSpec c)
            else fmlookup (mutableTags c) (lowercase key)) of
        None \<Rightarrow> False
      | Some tagValue \<Rightarrow> tagValue = v)"

definition CapUrn_hasMarkerTag :: "CSCapUrn \<Rightarrow> string \<Rightarrow> bool" where
  "CapUrn_hasMarkerTag c tagName =
     (if is_structural (lowercase tagName) then False
      else
        (case fmlookup (mutableTags c) (lowercase tagName) of
           None \<Rightarrow> False
         | Some tagValue \<Rightarrow> tagValue = ''*''))"

section \<open>Editing a cap\<close>

definition CapUrn_withTag ::
    "('t, 'd) tagged_urn_package \<Rightarrow> CSCapUrn \<Rightarrow> string \<Rightarrow> string \<Rightarrow> urn_failure + CSCapUrn" where
  "CapUrn_withTag pkg c key v =
     (if is_structural (lowercase key) then Inl (Raises NSInvalidArgumentException)
      else if length v = 0 then Inl (Raises NSInvalidArgumentException)
      else CapUrn_mustCreate pkg (inSpec c) (outSpec c) (effectSpec c)
             (fmupd (lowercase key) v (mutableTags c)))"

definition CapUrn_withInSpec ::
    "('t, 'd) tagged_urn_package \<Rightarrow> CSCapUrn \<Rightarrow> string \<Rightarrow> urn_failure + CSCapUrn" where
  "CapUrn_withInSpec pkg c spec =
     CapUrn_mustCreate pkg spec (outSpec c) (effectSpec c) (mutableTags c)"

definition CapUrn_withOutSpec ::
    "('t, 'd) tagged_urn_package \<Rightarrow> CSCapUrn \<Rightarrow> string \<Rightarrow> urn_failure + CSCapUrn" where
  "CapUrn_withOutSpec pkg c spec =
     CapUrn_mustCreate pkg (inSpec c) spec (effectSpec c) (mutableTags c)"

definition CapUrn_withEffect ::
    "('t, 'd) tagged_urn_package \<Rightarrow> CSCapUrn \<Rightarrow> CSCapEffect \<Rightarrow> urn_failure + CSCapUrn" where
  "CapUrn_withEffect pkg c effect =
     CapUrn_mustCreate pkg (inSpec c) (outSpec c) (CSCapEffectToString effect) (mutableTags c)"

definition CapUrn_withoutTag ::
    "('t, 'd) tagged_urn_package \<Rightarrow> CSCapUrn \<Rightarrow> string \<Rightarrow> urn_failure + CSCapUrn" where
  "CapUrn_withoutTag pkg c key =
     (if is_structural (lowercase key) then Inl (Raises NSInvalidArgumentException)
      else CapUrn_mustCreate pkg (inSpec c) (outSpec c) (effectSpec c)
             (fmdrop (lowercase key) (mutableTags c)))"

definition CapUrn_withWildcardTag ::
    "('t, 'd) tagged_urn_package \<Rightarrow> CSCapUrn \<Rightarrow> string \<Rightarrow> urn_failure + CSCapUrn" where
  "CapUrn_withWildcardTag pkg c key =
     (if lowercase key = ''in'' then CapUrn_withInSpec pkg c ''media:''
      else if lowercase key = ''out'' then CapUrn_withOutSpec pkg c ''media:''
      else if lowercase key = ''effect'' then CapUrn_withEffect pkg c CSCapEffectAny
      else
        (case fmlookup (mutableTags c) (lowercase key) of
           None \<Rightarrow> Inr c
         | Some _ \<Rightarrow> CapUrn_withTag pkg c key ''*''))"

fun CapUrn_subset_loop ::
    "CSCapUrn \<Rightarrow> string list \<Rightarrow> (string, string) fmap \<Rightarrow> (string, string) fmap" where
  "CapUrn_subset_loop c [] acc = acc"
| "CapUrn_subset_loop c (key # keys) acc =
     (if lowercase key = ''in'' \<or> lowercase key = ''out'' then CapUrn_subset_loop c keys acc
      else
        (case fmlookup (mutableTags c) (lowercase key) of
           None \<Rightarrow> CapUrn_subset_loop c keys acc
         | Some v \<Rightarrow> CapUrn_subset_loop c keys (fmupd (lowercase key) v acc)))"

definition CapUrn_subset ::
    "('t, 'd) tagged_urn_package \<Rightarrow> CSCapUrn \<Rightarrow> string list \<Rightarrow> urn_failure + CSCapUrn" where
  "CapUrn_subset pkg c keys =
     CapUrn_mustCreate pkg (inSpec c) (outSpec c) (effectSpec c) (CapUrn_subset_loop c keys fmempty)"

text \<open>The entries of the other cap win; the order in which they are put in does not matter.\<close>

definition CapUrn_merge ::
    "('t, 'd) tagged_urn_package \<Rightarrow> CSCapUrn \<Rightarrow> CSCapUrn \<Rightarrow> urn_failure + CSCapUrn" where
  "CapUrn_merge pkg c other =
     CapUrn_mustCreate pkg (inSpec other) (outSpec other) (effectSpec other)
       (mutableTags c ++\<^sub>f mutableTags other)"

definition CapUrn_copy ::
    "('t, 'd) tagged_urn_package \<Rightarrow> CSCapUrn \<Rightarrow> urn_failure + CSCapUrn" where
  "CapUrn_copy pkg c =
     CapUrn_mustCreate pkg (inSpec c) (outSpec c) (effectSpec c) (mutableTags c)"

section \<open>Comparing caps\<close>

definition CapUrn_accepts :: "CSCapUrn \<Rightarrow> CSCapUrn option \<Rightarrow> bool" where
  "CapUrn_accepts c cap =
     (case cap of None \<Rightarrow> True | Some d \<Rightarrow> Exec_accepts (cap_formal c) (cap_formal d))"

definition CapUrn_conformsTo :: "CSCapUrn \<Rightarrow> CSCapUrn \<Rightarrow> bool" where
  "CapUrn_conformsTo c pattern = CapUrn_accepts pattern (Some c)"

definition CapUrn_isDispatchable :: "CSCapUrn \<Rightarrow> CSCapUrn \<Rightarrow> bool" where
  "CapUrn_isDispatchable c request = Exec_dispatch (cap_formal c) (cap_formal request)"

definition CapUrn_mayDispatch :: "CSCapUrn \<Rightarrow> CSCapUrn \<Rightarrow> bool" where
  "CapUrn_mayDispatch c request = Exec_mayDispatch (cap_formal c) (cap_formal request)"

definition CapUrn_flowsInto :: "CSCapUrn \<Rightarrow> CSCapUrn \<Rightarrow> bool" where
  "CapUrn_flowsInto c next_cap = Exec_flows (cap_formal c) (cap_formal next_cap)"

definition CapUrn_mayFlowInto :: "CSCapUrn \<Rightarrow> CSCapUrn \<Rightarrow> bool" where
  "CapUrn_mayFlowInto c next_cap = Exec_mayFlow (cap_formal c) (cap_formal next_cap)"

definition CapUrn_isComparable :: "CSCapUrn \<Rightarrow> CSCapUrn \<Rightarrow> bool" where
  "CapUrn_isComparable c other = Exec_comparable (cap_formal c) (cap_formal other)"

definition CapUrn_isEquivalent :: "CSCapUrn \<Rightarrow> CSCapUrn \<Rightarrow> bool" where
  "CapUrn_isEquivalent c other = Exec_equivalent (cap_formal c) (cap_formal other)"

text \<open>The score is read into 64 bits; the code raises where it does not fit, which takes more tags than
  a memory holds.\<close>

definition CapUrn_specificity :: "CSCapUrn \<Rightarrow> nat" where
  "CapUrn_specificity c = Exec_specificity (cap_formal c)"

definition CapUrn_isMoreSpecificThan :: "CSCapUrn \<Rightarrow> CSCapUrn option \<Rightarrow> bool" where
  "CapUrn_isMoreSpecificThan c other =
     (case other of None \<Rightarrow> True | Some d \<Rightarrow> CapUrn_specificity d < CapUrn_specificity c)"

definition CapUrn_isEqual :: "CSCapUrn \<Rightarrow> CSCapUrn \<Rightarrow> bool" where
  "CapUrn_isEqual c other =
     (if inSpec c \<noteq> inSpec other then False
      else if outSpec c \<noteq> outSpec other then False
      else if effectSpec c \<noteq> effectSpec other then False
      else mutableTags c = mutableTags other)"

section \<open>The runtime output\<close>

definition CapUrn_inferRuntimeOutputMedia ::
    "('t, 'd) tagged_urn_package \<Rightarrow> CSCapUrn \<Rightarrow> 't CSMediaUrn \<Rightarrow> urn_failure + 't CSMediaUrn" where
  "CapUrn_inferRuntimeOutputMedia pkg c runtimeInput =
     (let refused = Inl (Returns_nil CSCapUrnErrorInvalidEffectApplication)
      in
     (case MediaUrn_fromString (urns pkg) (inSpec c) of Inl _ \<Rightarrow> refused | Inr declaredIn \<Rightarrow>
     (case MediaUrn_fromString (urns pkg) (outSpec c) of Inl _ \<Rightarrow> refused | Inr declaredOut \<Rightarrow>
     (if \<not> MediaUrn_satisfies pkg runtimeInput declaredIn then refused
      else
     (case CapUrn_effect c of
        Inl e \<Rightarrow> Inl e
      | Inr CSCapEffectAny \<Rightarrow> refused
      | Inr CSCapEffectNone \<Rightarrow>
          (if \<not> MediaUrn_satisfies pkg runtimeInput declaredOut then refused else Inr runtimeInput)
      | Inr CSCapEffectDeclared \<Rightarrow> Inr declaredOut
      | Inr CSCapEffectPatch \<Rightarrow>
          (case MediaUrn_deltaFrom pkg declaredOut declaredIn of
             None \<Rightarrow> refused
           | Some delta \<Rightarrow>
               (case MediaUrn_applyDelta pkg runtimeInput delta of
                  None \<Rightarrow> refused
                | Some result \<Rightarrow>
                    (if \<not> MediaUrn_satisfies pkg result declaredOut then refused
                     else Inr result))))))))"

definition CapUrn_isConformantRuntimeOutput ::
    "('t, 'd) tagged_urn_package \<Rightarrow> CSCapUrn \<Rightarrow> 't CSMediaUrn \<Rightarrow> 't CSMediaUrn \<Rightarrow>
     urn_failure + bool" where
  "CapUrn_isConformantRuntimeOutput pkg c runtimeInput runtimeOutput =
     (case CapUrn_inferRuntimeOutputMedia pkg c runtimeInput of
        Inl e \<Rightarrow> Inl e
      | Inr inferred \<Rightarrow>
     (case CapUrn_effect c of
        Inl e \<Rightarrow> Inl e
      | Inr eff \<Rightarrow>
          (if eff = CSCapEffectNone \<or> eff = CSCapEffectPatch
             then Inr (MediaUrn_isEquivalentTo (urns pkg) runtimeOutput inferred)
           else if eff = CSCapEffectDeclared
             then Inr (MediaUrn_satisfies pkg runtimeOutput inferred)
           else Inl (Returns_nil CSCapUrnErrorInvalidEffectApplication))))"

section \<open>Printing and archiving\<close>

definition CapUrn_allTags :: "CSCapUrn \<Rightarrow> (string, string) fmap" where
  "CapUrn_allTags c =
     (let with_in = (if inSpec c \<noteq> ''media:'' then fmupd ''in'' (inSpec c) (mutableTags c)
                     else mutableTags c);
          with_out = (if outSpec c \<noteq> ''media:'' then fmupd ''out'' (outSpec c) with_in else with_in)
      in if effectSpec c \<noteq> ''declared'' then fmupd ''effect'' (effectSpec c) with_out else with_out)"

definition CapUrn_toString ::
    "('t, 'd) tagged_urn_package \<Rightarrow> CSCapUrn \<Rightarrow> urn_failure + string" where
  "CapUrn_toString pkg c =
     (case tu_fromPrefix pkg ''cap'' (CapUrn_allTags c) of
        Inl _ \<Rightarrow> Inl (Raises Assertion_failed)
      | Inr u \<Rightarrow> Inr (tu_toString (urns pkg) u))"

text \<open>What an archive holds of a cap, each key or not.\<close>

record cap_archive =
  coded_inSpec :: "string option"
  coded_outSpec :: "string option"
  coded_effectSpec :: "string option"
  coded_tags :: "(string, string) fmap option"

definition CapUrn_encode :: "CSCapUrn \<Rightarrow> cap_archive" where
  "CapUrn_encode c =
     \<lparr>coded_inSpec = Some (inSpec c), coded_outSpec = Some (outSpec c),
      coded_effectSpec = Some (effectSpec c), coded_tags = Some (mutableTags c)\<rparr>"

definition CapUrn_initWithCoder ::
    "('t, 'd) tagged_urn_package \<Rightarrow> cap_archive \<Rightarrow> urn_failure + CSCapUrn" where
  "CapUrn_initWithCoder pkg coder =
     (let eff = (case coded_effectSpec coder of None \<Rightarrow> ''declared'' | Some e \<Rightarrow> e);
          ts = (case coded_tags coder of None \<Rightarrow> fmempty | Some t \<Rightarrow> t)
      in
     (case CapUrn_fromInSpec pkg (coded_inSpec coder) (coded_outSpec coder) (Some eff) ts of
        Inl e \<Rightarrow> Inl e
      | Inr decoded \<Rightarrow>
     (case tu_fromPrefix pkg ''cap'' (mutableTags decoded) of
        Inl _ \<Rightarrow> Inl (Raises Null_value)
      | Inr u \<Rightarrow> CapUrn_init pkg (inSpec decoded) (outSpec decoded) (effectSpec decoded) u)))"

section \<open>The builder\<close>

record CSCapUrnBuilder =
  builderInSpec :: "string option"
  builderOutSpec :: "string option"
  builderEffect :: CSCapEffect
  builderTags :: "(string, string) fmap"

definition CapUrnBuilder_builder :: CSCapUrnBuilder where
  "CapUrnBuilder_builder =
     \<lparr>builderInSpec = None, builderOutSpec = None, builderEffect = CSCapEffectDeclared,
      builderTags = fmempty\<rparr>"

definition CapUrnBuilder_inSpec :: "CSCapUrnBuilder \<Rightarrow> string \<Rightarrow> CSCapUrnBuilder" where
  "CapUrnBuilder_inSpec b spec = b\<lparr>builderInSpec := Some spec\<rparr>"

definition CapUrnBuilder_outSpec :: "CSCapUrnBuilder \<Rightarrow> string \<Rightarrow> CSCapUrnBuilder" where
  "CapUrnBuilder_outSpec b spec = b\<lparr>builderOutSpec := Some spec\<rparr>"

definition CapUrnBuilder_effect :: "CSCapUrnBuilder \<Rightarrow> CSCapEffect \<Rightarrow> CSCapUrnBuilder" where
  "CapUrnBuilder_effect b effect = b\<lparr>builderEffect := effect\<rparr>"

definition CapUrnBuilder_tag ::
    "CSCapUrnBuilder \<Rightarrow> string \<Rightarrow> string \<Rightarrow> urn_failure + CSCapUrnBuilder" where
  "CapUrnBuilder_tag b key v =
     (if is_structural (lowercase key) then Inl (Raises NSInvalidArgumentException)
      else Inr (b\<lparr>builderTags := fmupd (lowercase key) v (builderTags b)\<rparr>))"

definition CapUrnBuilder_marker :: "CSCapUrnBuilder \<Rightarrow> string \<Rightarrow> urn_failure + CSCapUrnBuilder" where
  "CapUrnBuilder_marker b key =
     (if is_structural (lowercase key) then Inl (Raises NSInvalidArgumentException)
      else Inr (b\<lparr>builderTags := fmupd (lowercase key) ''*'' (builderTags b)\<rparr>))"

definition CapUrnBuilder_build ::
    "('t, 'd) tagged_urn_package \<Rightarrow> CSCapUrnBuilder \<Rightarrow> urn_failure + CSCapUrn" where
  "CapUrnBuilder_build pkg b =
     (case builderInSpec b of
        None \<Rightarrow> Inl (Returns_nil CSCapUrnErrorMissingInSpec)
      | Some i \<Rightarrow>
     (case builderOutSpec b of
        None \<Rightarrow> Inl (Returns_nil CSCapUrnErrorMissingOutSpec)
      | Some out \<Rightarrow>
          CapUrn_fromInSpec pkg (Some i) (Some out) (Some (CSCapEffectToString (builderEffect b)))
            (builderTags b)))"

end
