(* ===== verification/Json.thy ===== *)
theory Json
  imports Complex_Main "HOL-Library.Word" "HOL-Library.Finite_Map"
begin

text \<open>
  The JSON values \<open>NSJSONSerialization\<close> reads and writes, as the library's classes take them apart:
  strings, booleans, integers, doubles (by their 64 bits), null, arrays and dictionaries.  A class that
  has a dictionary form prints its objects with \<open>toDictionary\<close> and reads them back with a constructor
  that refuses what it does not understand; the locales \<open>json_form\<close> and \<open>exact_form\<close> are that contract,
  with what follows from it for lists of objects.
\<close>

unbundle bit_operations_syntax

section \<open>Values\<close>

datatype json =
    JSON_string string
  | JSON_bool bool
  | JSON_int int
  | JSON_double "64 word"
  | JSON_null
  | JSON_array "json list"
  | JSON_object "(string, json) fmap"

type_synonym dictionary = "(string, json) fmap"

text \<open>The number a double is, by its sign, exponent and fraction; infinities and not-a-numbers are none.\<close>

definition double_value :: "64 word \<Rightarrow> rat option" where
  "double_value d =
     (let e = unat (drop_bit 52 d AND mask 11);
          f = of_nat (unat (d AND mask 52));
          sgn = (if bit d 63 then -1 else 1)
      in if e = 2047 then None
         else if e = 0 then Some (sgn * f / 2 ^ 1074)
         else if e \<le> 1075 then Some (sgn * (f + 2 ^ 52) / 2 ^ (1075 - e))
         else Some (sgn * (f + 2 ^ 52) * 2 ^ (e - 1075)))"

text \<open>An entry that is written where there is a value.\<close>

definition entry_if :: "string \<Rightarrow> json option \<Rightarrow> dictionary \<Rightarrow> dictionary" where
  "entry_if k v d = (case v of None \<Rightarrow> d | Some j \<Rightarrow> fmupd k j d)"

text \<open>What a field is where it is of the class that is asked for.\<close>

definition string_field :: "dictionary \<Rightarrow> string \<Rightarrow> string option" where
  "string_field d k = (case fmlookup d k of Some (JSON_string s) \<Rightarrow> Some s | _ \<Rightarrow> None)"

definition dictionary_field :: "dictionary \<Rightarrow> string \<Rightarrow> dictionary option" where
  "dictionary_field d k = (case fmlookup d k of Some (JSON_object e) \<Rightarrow> Some e | _ \<Rightarrow> None)"

lemma string_field_Some: "string_field d k = Some s \<longleftrightarrow> fmlookup d k = Some (JSON_string s)"
  by (auto simp: string_field_def split: option.splits json.splits)

lemma dictionary_field_Some: "dictionary_field d k = Some e \<longleftrightarrow> fmlookup d k = Some (JSON_object e)"
  by (auto simp: dictionary_field_def split: option.splits json.splits)

lemma fmlookup_entry_if [simp]:
  "fmlookup (entry_if k v d) k' = (if k' = k \<and> v \<noteq> None then v else fmlookup d k')"
  by (auto simp: entry_if_def split: option.splits)

section \<open>Reading lists\<close>

text \<open>The loop that reads one element after the other and stops at the first that cannot be read.\<close>

fun read_all :: "('a \<Rightarrow> 'e + 'b) \<Rightarrow> 'a list \<Rightarrow> 'e + 'b list" where
  "read_all f [] = Inr []"
| "read_all f (x # xs) =
     (case f x of
        Inl e \<Rightarrow> Inl e
      | Inr y \<Rightarrow> (case read_all f xs of Inl e \<Rightarrow> Inl e | Inr ys \<Rightarrow> Inr (y # ys)))"

lemma read_all_Inr: "read_all f xs = Inr ys \<longleftrightarrow> list_all2 (\<lambda>x y. f x = Inr y) xs ys"
proof (induction xs arbitrary: ys)
  case (Cons x xs)
  show ?case by (cases ys) (auto simp: Cons.IH [symmetric] split: sum.splits)
qed auto

lemma list_all_True [simp]: "list_all (\<lambda>_. True) xs"
  by (simp add: list_all_iff)

lemma read_all_map: "(\<And>x. x \<in> set xs \<Longrightarrow> f (g x) = Inr x) \<Longrightarrow> read_all f (map g xs) = Inr xs"
  by (induction xs) auto

lemma read_all_Inl:
  "read_all f xs = Inl e \<longleftrightarrow> (\<exists>i < length xs. f (xs ! i) = Inl e \<and> (\<forall>j < i. \<exists>y. f (xs ! j) = Inr y))"
proof (induction xs)
  case (Cons x xs)
  show ?case
  proof (cases "f x")
    case (Inl d)
    then show ?thesis by (auto simp: Ex_less_Suc2 All_less_Suc2)
  next
    case (Inr y)
    have "(\<exists>i < length (x # xs). f ((x # xs) ! i) = Inl e \<and> (\<forall>j < i. \<exists>z. f ((x # xs) ! j) = Inr z)) \<longleftrightarrow>
        (\<exists>i < length xs. f (xs ! i) = Inl e \<and> (\<forall>j < i. \<exists>z. f (xs ! j) = Inr z))"
      using Inr by (simp add: Ex_less_Suc2 All_less_Suc2)
    then show ?thesis using Cons.IH Inr by (auto split: sum.splits)
  qed
qed simp

section \<open>Going on after a step that may fail\<close>

definition on_ok :: "'e + 'a \<Rightarrow> ('a \<Rightarrow> 'e + 'b) \<Rightarrow> 'e + 'b" where
  "on_ok r f = (case r of Inl e \<Rightarrow> Inl e | Inr x \<Rightarrow> f x)"

lemma on_ok_simps [simp]: "on_ok (Inl e) f = Inl e" "on_ok (Inr x) f = f x"
  by (simp_all add: on_ok_def)

lemma on_ok_Inr: "on_ok r f = Inr y \<longleftrightarrow> (\<exists>x. r = Inr x \<and> f x = Inr y)"
  by (cases r) auto

section \<open>JSON forms\<close>

locale json_form =
  fixes to_json :: "'a \<Rightarrow> json" and from_json :: "json \<Rightarrow> 'e + 'a" and good :: "'a \<Rightarrow> bool"
  assumes reads_back: "good x \<Longrightarrow> from_json (to_json x) = Inr x"
    and reads_good: "from_json j = Inr x \<Longrightarrow> good x"
begin

lemma to_json_inject: "good x \<Longrightarrow> good y \<Longrightarrow> to_json x = to_json y \<longleftrightarrow> x = y"
  using reads_back by (metis sum.inject(2))

lemma list_reads_back: "list_all good xs \<Longrightarrow> read_all from_json (map to_json xs) = Inr xs"
  by (auto simp: list_all_iff intro: read_all_map reads_back)

lemma list_reads_good: "read_all from_json js = Inr xs \<Longrightarrow> list_all good xs"
  using reads_good by (auto simp: read_all_Inr list_all2_conv_all_nth list_all_length)

text \<open>What is read, written and read again is what was read.\<close>

lemma read_again: "from_json j = Inr x \<Longrightarrow> from_json (to_json x) = Inr x"
  using reads_back reads_good by blast

end

text \<open>A form nothing else is read from.\<close>

locale exact_form = json_form +
  assumes reads_only: "from_json j = Inr x \<Longrightarrow> j = to_json x"
begin

lemma reads_iff: "from_json j = Inr x \<longleftrightarrow> good x \<and> j = to_json x"
  using reads_back reads_good reads_only by blast

lemma list_reads_iff: "read_all from_json js = Inr xs \<longleftrightarrow> list_all good xs \<and> js = map to_json xs"
  by (auto simp: read_all_Inr list_all2_conv_all_nth list_all_length reads_iff intro: nth_equalityI)

end

end
