(* ===== verification/Dims.thy ===== *)
theory Dims
  imports Foundation Json
begin

text \<open>
  The fabric's dims (\<open>Cap/CSDim.m\<close>): the axes definitions are built along, with the values a dim may take
  and the tags each value contributes, and the references a definition makes to them.  Each class is read
  from a JSON object and written as one.  A function with an error parameter answers the error's code or
  its result; the text of an error is not modelled.
\<close>

section \<open>Reading fields\<close>

datatype CSDimErrorCode =
    CSDimErrorMalformed
  | CSDimErrorUnknownField
  | CSDimErrorInvalidName
  | CSDimErrorNoValues
  | CSDimErrorDuplicateValue
  | CSDimErrorValueWithoutTags
  | CSDimErrorInvalidRefs

definition CSDimRefuseUnknownKeys :: "dictionary \<Rightarrow> string list \<Rightarrow> CSDimErrorCode + unit" where
  "CSDimRefuseUnknownKeys d known =
     (if fBall (fmdom d) (\<lambda>k. k \<in> set known) then Inr () else Inl CSDimErrorUnknownField)"

definition CSDimRequireString :: "dictionary \<Rightarrow> string \<Rightarrow> CSDimErrorCode + string" where
  "CSDimRequireString d key =
     (case fmlookup d key of Some (JSON_string s) \<Rightarrow> Inr s | _ \<Rightarrow> Inl CSDimErrorMalformed)"

definition CSDimOptionalString :: "dictionary \<Rightarrow> string \<Rightarrow> CSDimErrorCode + string option" where
  "CSDimOptionalString d key =
     (case fmlookup d key of
        None \<Rightarrow> Inr None
      | Some (JSON_string s) \<Rightarrow> Inr (Some s)
      | _ \<Rightarrow> Inl CSDimErrorMalformed)"

definition CSIsDimName :: "string \<Rightarrow> bool" where
  "CSIsDimName name =
     (case name of
        [] \<Rightarrow> False
      | first # rest \<Rightarrow>
          97 \<le> (of_char first :: nat) \<and> (of_char first :: nat) \<le> 122 \<and>
          list_all (\<lambda>c. 97 \<le> (of_char c :: nat) \<and> (of_char c :: nat) \<le> 122 \<or>
            48 \<le> (of_char c :: nat) \<and> (of_char c :: nat) \<le> 57 \<or> c = CHR ''-'') rest)"

section \<open>References\<close>

record CSDimRef =
  ref_dim :: string
  ref_value :: string

definition DimRef_refWithDictionary :: "json \<Rightarrow> CSDimErrorCode + CSDimRef" where
  "DimRef_refWithDictionary j =
     (case j of
        JSON_object d \<Rightarrow>
          on_ok (CSDimRefuseUnknownKeys d [''dim'', ''value''])
            (\<lambda>_. on_ok (CSDimRequireString d ''dim'')
              (\<lambda>dim. on_ok (CSDimRequireString d ''value'')
                (\<lambda>v. Inr \<lparr>ref_dim = dim, ref_value = v\<rparr>)))
      | _ \<Rightarrow> Inl CSDimErrorMalformed)"

definition DimRef_toDictionary :: "CSDimRef \<Rightarrow> dictionary" where
  "DimRef_toDictionary r =
     fmupd ''dim'' (JSON_string (ref_dim r)) (fmupd ''value'' (JSON_string (ref_value r)) fmempty)"

definition DimRef_dictionariesFromRefs :: "CSDimRef list \<Rightarrow> json" where
  "DimRef_dictionariesFromRefs refs = JSON_array (map (\<lambda>r. JSON_object (DimRef_toDictionary r)) refs)"

fun check_refs :: "string set \<Rightarrow> CSDimRef list \<Rightarrow> CSDimErrorCode option" where
  "check_refs seen [] = None"
| "check_refs seen (r # rs) =
     (if \<not> CSIsDimName (ref_dim r) then Some CSDimErrorInvalidRefs
      else if ref_value r = '''' then Some CSDimErrorInvalidRefs
      else if ref_dim r \<in> seen then Some CSDimErrorInvalidRefs
      else check_refs (insert (ref_dim r) seen) rs)"

definition CSCheckDimRefs :: "CSDimRef list \<Rightarrow> CSDimErrorCode option" where
  "CSCheckDimRefs refs = check_refs {} refs"

definition DimRef_refsFromField :: "json option \<Rightarrow> CSDimErrorCode + CSDimRef list" where
  "DimRef_refsFromField field =
     (case field of
        None \<Rightarrow> Inr []
      | Some (JSON_array entries) \<Rightarrow>
          on_ok (read_all DimRef_refWithDictionary entries)
            (\<lambda>refs. case CSCheckDimRefs refs of Some e \<Rightarrow> Inl CSDimErrorInvalidRefs | None \<Rightarrow> Inr refs)
      | _ \<Rightarrow> Inl CSDimErrorMalformed)"

section \<open>Tags, values and dims\<close>

record CSDimTag =
  dimTag_key :: string
  dimTag_value :: string

definition DimTag_tagWithDictionary :: "json \<Rightarrow> CSDimErrorCode + CSDimTag" where
  "DimTag_tagWithDictionary j =
     (case j of
        JSON_object d \<Rightarrow>
          on_ok (CSDimRefuseUnknownKeys d [''key'', ''value''])
            (\<lambda>_. on_ok (CSDimRequireString d ''key'')
              (\<lambda>key. on_ok (CSDimRequireString d ''value'')
                (\<lambda>v. Inr \<lparr>dimTag_key = key, dimTag_value = v\<rparr>)))
      | _ \<Rightarrow> Inl CSDimErrorMalformed)"

definition DimTag_toDictionary :: "CSDimTag \<Rightarrow> dictionary" where
  "DimTag_toDictionary t =
     fmupd ''key'' (JSON_string (dimTag_key t)) (fmupd ''value'' (JSON_string (dimTag_value t)) fmempty)"

record CSStoredDimValue =
  dimValue_name :: string
  dimValue_title :: string
  dimValue_tags :: "CSDimTag list"
  dimValue_documentation :: "string option"
  dimValue_mediaType :: "string option"
  dimValue_extensions :: "string list"

definition read_extension :: "json \<Rightarrow> CSDimErrorCode + string" where
  "read_extension j = (case j of JSON_string s \<Rightarrow> Inr s | _ \<Rightarrow> Inl CSDimErrorMalformed)"

definition StoredDimValue_valueWithDictionary :: "json \<Rightarrow> CSDimErrorCode + CSStoredDimValue" where
  "StoredDimValue_valueWithDictionary j =
     (case j of
        JSON_object d \<Rightarrow>
          on_ok (CSDimRefuseUnknownKeys d
              [''name'', ''title'', ''tags'', ''documentation'', ''media_type'', ''extensions''])
            (\<lambda>_. on_ok (CSDimRequireString d ''name'')
            (\<lambda>name. on_ok (CSDimRequireString d ''title'')
            (\<lambda>title. on_ok
              (case fmlookup d ''tags'' of
                 Some (JSON_array ts) \<Rightarrow> read_all DimTag_tagWithDictionary ts
               | _ \<Rightarrow> Inl CSDimErrorMalformed)
            (\<lambda>tags. on_ok (CSDimOptionalString d ''documentation'')
            (\<lambda>documentation. on_ok (CSDimOptionalString d ''media_type'')
            (\<lambda>mediaType. on_ok
              (case fmlookup d ''extensions'' of
                 None \<Rightarrow> Inr []
               | Some (JSON_array es) \<Rightarrow> read_all read_extension es
               | _ \<Rightarrow> Inl CSDimErrorMalformed)
            (\<lambda>extensions. Inr \<lparr>dimValue_name = name, dimValue_title = title, dimValue_tags = tags,
               dimValue_documentation = documentation, dimValue_mediaType = mediaType,
               dimValue_extensions = extensions\<rparr>)))))))
      | _ \<Rightarrow> Inl CSDimErrorMalformed)"

definition StoredDimValue_toDictionary :: "CSStoredDimValue \<Rightarrow> dictionary" where
  "StoredDimValue_toDictionary v =
     entry_if ''extensions''
       (if 0 < length (dimValue_extensions v) then Some (JSON_array (map JSON_string (dimValue_extensions v)))
        else None)
     (entry_if ''media_type'' (map_option JSON_string (dimValue_mediaType v))
     (entry_if ''documentation'' (map_option JSON_string (dimValue_documentation v))
     (fmupd ''tags'' (JSON_array (map (\<lambda>t. JSON_object (DimTag_toDictionary t)) (dimValue_tags v)))
     (fmupd ''title'' (JSON_string (dimValue_title v))
     (fmupd ''name'' (JSON_string (dimValue_name v)) fmempty)))))"

record CSStoredDim =
  dim_name :: string
  dim_version :: "32 word"
  dim_title :: string
  dim_documentation :: string
  dim_values :: "CSStoredDimValue list"

text \<open>The version: a number, not a boolean, integral and not below 0 or above the largest 32-bit number.
  The conversion of an integer to a double keeps it on its side of both bounds.\<close>

definition version_field :: "json option \<Rightarrow> CSDimErrorCode + 32 word" where
  "version_field field =
     (case field of
        Some (JSON_int i) \<Rightarrow>
          (if i < 0 \<or> 4294967295 < i then Inl CSDimErrorMalformed else Inr (word_of_int i))
      | Some (JSON_double bits) \<Rightarrow>
          (case double_value bits of
             None \<Rightarrow> Inl CSDimErrorMalformed
           | Some x \<Rightarrow>
               (if x \<noteq> of_int \<lfloor>x\<rfloor> \<or> x < 0 \<or> 4294967295 < x then Inl CSDimErrorMalformed
                else Inr (word_of_int \<lfloor>x\<rfloor>)))
      | _ \<Rightarrow> Inl CSDimErrorMalformed)"

definition StoredDim_dimWithDictionary :: "json \<Rightarrow> CSDimErrorCode + CSStoredDim" where
  "StoredDim_dimWithDictionary j =
     (case j of
        JSON_object d \<Rightarrow>
          on_ok (CSDimRefuseUnknownKeys d [''name'', ''version'', ''title'', ''documentation'', ''values''])
            (\<lambda>_. on_ok (CSDimRequireString d ''name'')
            (\<lambda>name. on_ok (version_field (fmlookup d ''version''))
            (\<lambda>version. on_ok (CSDimRequireString d ''title'')
            (\<lambda>title. on_ok (CSDimRequireString d ''documentation'')
            (\<lambda>documentation. on_ok
              (case fmlookup d ''values'' of
                 Some (JSON_array vs) \<Rightarrow> read_all StoredDimValue_valueWithDictionary vs
               | _ \<Rightarrow> Inl CSDimErrorMalformed)
            (\<lambda>values. Inr \<lparr>dim_name = name, dim_version = version, dim_title = title,
               dim_documentation = documentation, dim_values = values\<rparr>))))))
      | _ \<Rightarrow> Inl CSDimErrorMalformed)"

definition StoredDim_toDictionary :: "CSStoredDim \<Rightarrow> dictionary" where
  "StoredDim_toDictionary d =
     fmupd ''name'' (JSON_string (dim_name d))
     (fmupd ''version'' (JSON_int (uint (dim_version d)))
     (fmupd ''title'' (JSON_string (dim_title d))
     (fmupd ''documentation'' (JSON_string (dim_documentation d))
     (fmupd ''values''
       (JSON_array (map (\<lambda>v. JSON_object (StoredDimValue_toDictionary v)) (dim_values d))) fmempty))))"

definition StoredDim_valueNamed :: "CSStoredDim \<Rightarrow> string \<Rightarrow> CSStoredDimValue option" where
  "StoredDim_valueNamed d name = List.find (\<lambda>v. dimValue_name v = name) (dim_values d)"

fun validate_values :: "string set \<Rightarrow> CSStoredDimValue list \<Rightarrow> CSDimErrorCode option" where
  "validate_values seen [] = None"
| "validate_values seen (v # vs) =
     (if dimValue_name v \<in> seen then Some CSDimErrorDuplicateValue
      else if length (dimValue_tags v) = 0 then Some CSDimErrorValueWithoutTags
      else validate_values (insert (dimValue_name v) seen) vs)"

definition StoredDim_validate :: "CSStoredDim \<Rightarrow> CSDimErrorCode option" where
  "StoredDim_validate d =
     (if \<not> CSIsDimName (dim_name d) then Some CSDimErrorInvalidName
      else if length (dim_values d) = 0 then Some CSDimErrorNoValues
      else validate_values {} (dim_values d))"


section \<open>Equality\<close>

definition DimRef_isEqual :: "CSDimRef \<Rightarrow> CSDimRef \<Rightarrow> bool" where
  "DimRef_isEqual r s \<longleftrightarrow> ref_dim r = ref_dim s \<and> ref_value r = ref_value s"

definition DimTag_isEqual :: "CSDimTag \<Rightarrow> CSDimTag \<Rightarrow> bool" where
  "DimTag_isEqual t u \<longleftrightarrow> dimTag_key t = dimTag_key u \<and> dimTag_value t = dimTag_value u"

definition StoredDimValue_isEqual :: "CSStoredDimValue \<Rightarrow> CSStoredDimValue \<Rightarrow> bool" where
  "StoredDimValue_isEqual v w \<longleftrightarrow> StoredDimValue_toDictionary v = StoredDimValue_toDictionary w"

definition StoredDim_isEqual :: "CSStoredDim \<Rightarrow> CSStoredDim \<Rightarrow> bool" where
  "StoredDim_isEqual d e \<longleftrightarrow> StoredDim_toDictionary d = StoredDim_toDictionary e"

section \<open>The forms\<close>

lemmas field_readers = CSDimRefuseUnknownKeys_def CSDimRequireString_def CSDimOptionalString_def

lemma unknown_refused: "CSDimRefuseUnknownKeys d known = Inr u \<longleftrightarrow> fset (fmdom d) \<subseteq> set known"
  by (auto simp: CSDimRefuseUnknownKeys_def subset_iff)

lemma require_string: "CSDimRequireString d k = Inr s \<longleftrightarrow> fmlookup d k = Some (JSON_string s)"
  by (auto simp: CSDimRequireString_def split: option.splits json.splits)

lemma optional_string: "CSDimOptionalString d k = Inr s \<longleftrightarrow> fmlookup d k = map_option JSON_string s"
  by (cases s) (auto simp: CSDimOptionalString_def split: option.splits json.splits)

lemma two_entries:
  assumes "fset (fmdom d) \<subseteq> {k, l}" and "fmlookup d k = Some v" and "fmlookup d l = Some w"
  shows "d = fmupd k v (fmupd l w fmempty)"
proof (rule fmap_ext)
  fix x
  have "x = k \<or> x = l \<or> fmlookup d x = None"
    using assms(1) by (metis (no_types) fmdom_notI fmdom_notD insertE singletonD subsetD)
  then show "fmlookup d x = fmlookup (fmupd k v (fmupd l w fmempty)) x" using assms(2,3) by auto
qed

interpretation refs: exact_form "\<lambda>r. JSON_object (DimRef_toDictionary r)" DimRef_refWithDictionary "\<lambda>_. True"
proof
  show "j = JSON_object (DimRef_toDictionary r)" if "DimRef_refWithDictionary j = Inr r" for j r
    using that
    by (auto simp: DimRef_refWithDictionary_def DimRef_toDictionary_def on_ok_Inr unknown_refused
        require_string intro!: two_entries split: json.splits)
qed (auto simp: DimRef_refWithDictionary_def DimRef_toDictionary_def field_readers)

interpretation dim_tags: exact_form "\<lambda>t. JSON_object (DimTag_toDictionary t)" DimTag_tagWithDictionary "\<lambda>_. True"
proof
  show "j = JSON_object (DimTag_toDictionary t)" if "DimTag_tagWithDictionary j = Inr t" for j t
    using that
    by (auto simp: DimTag_tagWithDictionary_def DimTag_toDictionary_def on_ok_Inr unknown_refused
        require_string intro!: two_entries split: json.splits)
qed (auto simp: DimTag_tagWithDictionary_def DimTag_toDictionary_def field_readers)

interpretation extensions: exact_form JSON_string read_extension "\<lambda>_. True"
  by unfold_locales (auto simp: read_extension_def split: json.splits)

interpretation dim_values: json_form "\<lambda>v. JSON_object (StoredDimValue_toDictionary v)"
    StoredDimValue_valueWithDictionary "\<lambda>_. True"
proof
  show "StoredDimValue_valueWithDictionary (JSON_object (StoredDimValue_toDictionary v)) = Inr v" for v
    using dim_tags.list_reads_back [of "dimValue_tags v"] extensions.list_reads_back [of "dimValue_extensions v"]
    by (cases v)
      (auto simp: StoredDimValue_valueWithDictionary_def StoredDimValue_toDictionary_def field_readers
        comp_def entry_if_def split: option.splits)
qed simp

interpretation dims: json_form "\<lambda>d. JSON_object (StoredDim_toDictionary d)" StoredDim_dimWithDictionary "\<lambda>_. True"
proof
  show "StoredDim_dimWithDictionary (JSON_object (StoredDim_toDictionary d)) = Inr d" for d
    using dim_values.list_reads_back [of "dim_values d"] uint_lt2p [of "dim_version d"]
    by (cases d) (auto simp: StoredDim_dimWithDictionary_def StoredDim_toDictionary_def field_readers
        version_field_def comp_def)
qed simp


section \<open>What is accepted\<close>

definition sound_ref :: "CSDimRef \<Rightarrow> bool" where
  "sound_ref r \<longleftrightarrow> CSIsDimName (ref_dim r) \<and> ref_value r \<noteq> ''''"

lemma check_refs_None:
  "check_refs seen refs = None \<longleftrightarrow>
    list_all sound_ref refs \<and> distinct (map ref_dim refs) \<and> seen \<inter> ref_dim ` set refs = {}"
  by (induction seen refs rule: check_refs.induct) (auto simp: sound_ref_def)

lemma CSCheckDimRefs_None:
  "CSCheckDimRefs refs = None \<longleftrightarrow> list_all sound_ref refs \<and> distinct (map ref_dim refs)"
  by (simp add: CSCheckDimRefs_def check_refs_None)

interpretation ref_lists: exact_form DimRef_dictionariesFromRefs "\<lambda>j. DimRef_refsFromField (Some j)"
    "\<lambda>refs. CSCheckDimRefs refs = None"
  by unfold_locales
    (auto simp: DimRef_refsFromField_def DimRef_dictionariesFromRefs_def on_ok_Inr refs.list_reads_iff
      refs.list_reads_back split: json.splits option.splits)

text \<open>Dims and the references to them survive being stored.  A dims field gives a list of references
  if and only if it is the list that is written for them and every reference names a dim by a dim name, no
  dim twice, and a value; a field that is not there gives none.  A dim is read back from what is written
  for it, version, values, tags and all, and two dims are equal only if they are the same.\<close>

theorem dims_read_back:
  "(DimRef_refsFromField (Some j) = Inr refs \<longleftrightarrow>
      j = DimRef_dictionariesFromRefs refs \<and> list_all sound_ref refs \<and> distinct (map ref_dim refs)) \<and>
   DimRef_refsFromField None = Inr [] \<and>
   StoredDim_dimWithDictionary (JSON_object (StoredDim_toDictionary d)) = Inr d \<and>
   (StoredDim_isEqual d e \<longleftrightarrow> d = e) \<and> (StoredDimValue_isEqual v w \<longleftrightarrow> v = w)"
proof (intro conjI)
  show "StoredDim_isEqual d e \<longleftrightarrow> d = e"
    using dims.to_json_inject [of d e] by (auto simp: StoredDim_isEqual_def)
  show "StoredDimValue_isEqual v w \<longleftrightarrow> v = w"
    using dim_values.to_json_inject [of v w] by (auto simp: StoredDimValue_isEqual_def)
  show "DimRef_refsFromField None = Inr []" by (simp add: DimRef_refsFromField_def)
qed (use dims.reads_back in \<open>auto simp: ref_lists.reads_iff CSCheckDimRefs_None\<close>)

lemma validate_values_None:
  "validate_values seen vs = None \<longleftrightarrow>
    list_all (\<lambda>v. dimValue_tags v \<noteq> []) vs \<and> distinct (map dimValue_name vs) \<and> seen \<inter> dimValue_name ` set vs = {}"
  by (induction seen vs rule: validate_values.induct) auto

lemma validate_values_append:
  "validate_values seen (us @ vs) =
    (case validate_values seen us of
       None \<Rightarrow> validate_values (seen \<union> dimValue_name ` set us) vs
     | Some e \<Rightarrow> Some e)"
  by (induction seen us rule: validate_values.induct) (auto split: option.split)

text \<open>The first fault: the values before it have none.\<close>

lemma validate_values_Some:
  "validate_values seen vs = Some e \<longleftrightarrow>
    (\<exists>us v ws. vs = us @ v # ws \<and> validate_values seen us = None \<and>
      validate_values (seen \<union> dimValue_name ` set us) [v] = Some e)"
proof
  show "\<exists>us v ws. vs = us @ v # ws \<and> validate_values seen us = None \<and>
      validate_values (seen \<union> dimValue_name ` set us) [v] = Some e" if "validate_values seen vs = Some e"
    using that
  proof (induction vs rule: rev_induct)
    case (snoc v us)
    show ?case
    proof (cases "validate_values seen us")
      case None
      then have "validate_values (seen \<union> dimValue_name ` set us) [v] = Some e"
        using snoc.prems by (simp add: validate_values_append del: validate_values.simps)
      with None show ?thesis by (intro exI [of _ us] exI [of _ v] exI [of _ "[]"]) simp
    next
      case (Some e')
      then have "validate_values seen us = Some e" using snoc.prems by (simp add: validate_values_append)
      from snoc.IH [OF this] obtain us' w ws where "us = us' @ w # ws" "validate_values seen us' = None"
          "validate_values (seen \<union> dimValue_name ` set us') [w] = Some e" by blast
      then show ?thesis by (intro exI [of _ us'] exI [of _ w] exI [of _ "ws @ [v]"]) simp
    qed
  qed simp
qed (auto simp: validate_values_append split: if_splits)

definition sound_values :: "CSStoredDimValue list \<Rightarrow> bool" where
  "sound_values vs \<longleftrightarrow> list_all (\<lambda>v. dimValue_tags v \<noteq> []) vs \<and> distinct (map dimValue_name vs)"

lemma sound_values_iff: "validate_values {} vs = None \<longleftrightarrow> sound_values vs"
  by (simp add: validate_values_None sound_values_def)

lemma find_by_name: "List.find (\<lambda>v. f v = n) vs = None \<longleftrightarrow> n \<notin> f ` set vs"
  by (induction vs) auto

text \<open>What validation accepts and what it reports.  A dim is valid exactly when its name is a dim name,
  it declares a value, no value twice, and every value contributes a tag.  A name that is not a dim name
  is reported first, then that there are no values; else the error is that of the first value at fault:
  declared before (whatever tags it has), or without a tag.  A value is found by its name exactly when
  the dim declares one of that name.\<close>

theorem dim_validate_exact:
  "(StoredDim_validate d = None \<longleftrightarrow>
      CSIsDimName (dim_name d) \<and> dim_values d \<noteq> [] \<and> sound_values (dim_values d)) \<and>
   (StoredDim_validate d = Some CSDimErrorInvalidName \<longleftrightarrow> \<not> CSIsDimName (dim_name d)) \<and>
   (StoredDim_validate d = Some CSDimErrorNoValues \<longleftrightarrow> CSIsDimName (dim_name d) \<and> dim_values d = []) \<and>
   (StoredDim_validate d = Some CSDimErrorDuplicateValue \<longleftrightarrow>
      CSIsDimName (dim_name d) \<and> (\<exists>us v ws. dim_values d = us @ v # ws \<and> sound_values us \<and>
        dimValue_name v \<in> dimValue_name ` set us)) \<and>
   (StoredDim_validate d = Some CSDimErrorValueWithoutTags \<longleftrightarrow>
      CSIsDimName (dim_name d) \<and> (\<exists>us v ws. dim_values d = us @ v # ws \<and> sound_values us \<and>
        dimValue_name v \<notin> dimValue_name ` set us \<and> dimValue_tags v = [])) \<and>
   (StoredDim_valueNamed d n = None \<longleftrightarrow> n \<notin> dimValue_name ` set (dim_values d))"
proof -
  have "validate_values {} vs \<notin> {Some CSDimErrorInvalidName, Some CSDimErrorNoValues}" for vs
    using validate_values_Some [of "{}" vs] by (auto split: if_splits)
  then show ?thesis
    using sound_values_iff [of "dim_values d"]
    by (auto simp: StoredDim_validate_def validate_values_Some sound_values_iff StoredDim_valueNamed_def
        find_by_name split: if_splits)
qed

end
