(* ===== verification/CapDef.thy ===== *)
theory CapDef
  imports CapUrn Dims
begin

text \<open>
  Cap definitions (\<open>Cap/CSCap.m\<close>): what a cap is called, the arguments it takes and where they come from,
  the outputs it gives, and who registered it; how a definition is read from JSON and written, and what
  is asked of it.  Objects are immutable records; a setter answers the changed record.

  A field of a class the property is not declared with, and a number a conversion does not represent, are
  kept or converted by the code in ways that depend on the messages the value happens to understand; that
  is where the model stops (\<open>Outside_model\<close>).  The texts of errors are not modelled, their codes are.
\<close>

section \<open>Errors and fields\<close>

datatype cap_def_error =
    Cap_error nat
  | Arg_error nat
  | Output_error nat
  | Registered_by_error nat
  | Source_error nat
  | Urn_error urn_failure
  | Dims_error CSDimErrorCode
  | Outside_model

definition of_class :: "(json \<Rightarrow> 'a option) \<Rightarrow> json \<Rightarrow> cap_def_error + 'a" where
  "of_class f j = (case f j of None \<Rightarrow> Inl Outside_model | Some x \<Rightarrow> Inr x)"

definition json_string :: "json \<Rightarrow> string option" where
  "json_string j = (case j of JSON_string s \<Rightarrow> Some s | _ \<Rightarrow> None)"

definition json_dictionary :: "json \<Rightarrow> dictionary option" where
  "json_dictionary j = (case j of JSON_object d \<Rightarrow> Some d | _ \<Rightarrow> None)"

definition json_strings :: "json \<Rightarrow> string list option" where
  "json_strings j =
     (case j of
        JSON_array js \<Rightarrow> (if list_all (\<lambda>x. json_string x \<noteq> None) js then Some (map (\<lambda>x. the (json_string x)) js) else None)
      | _ \<Rightarrow> None)"

text \<open>\<open>boolValue\<close>, \<open>integerValue\<close> and \<open>unsignedIntValue\<close> of a number.\<close>

definition json_bool :: "json \<Rightarrow> bool option" where
  "json_bool j =
     (case j of
        JSON_bool b \<Rightarrow> Some b
      | JSON_int i \<Rightarrow> Some (i \<noteq> 0)
      | JSON_double d \<Rightarrow> map_option (\<lambda>x. x \<noteq> 0) (double_value d)
      | _ \<Rightarrow> None)"

definition truncated :: "rat \<Rightarrow> int" where
  "truncated x = (if x < 0 then \<lceil>x\<rceil> else \<lfloor>x\<rfloor>)"

definition json_integer :: "json \<Rightarrow> int option" where
  "json_integer j =
     (case j of
        JSON_bool b \<Rightarrow> Some (if b then 1 else 0)
      | JSON_int i \<Rightarrow> Some i
      | JSON_double d \<Rightarrow> map_option truncated (double_value d)
      | _ \<Rightarrow> None)"

definition json_int64 :: "json \<Rightarrow> 64 word option" where
  "json_int64 j =
     (case json_integer j of
        None \<Rightarrow> None
      | Some i \<Rightarrow> (if - (2 ^ 63) \<le> i \<and> i < 2 ^ 63 then Some (word_of_int i) else None))"

definition json_uint32 :: "json \<Rightarrow> 32 word option" where
  "json_uint32 j =
     (case json_integer j of
        None \<Rightarrow> None
      | Some i \<Rightarrow> (if 0 \<le> i \<and> i < 2 ^ 32 then Some (word_of_int i) else None))"

text \<open>A field that is there, one that may be missing, and one with a value for when it is.\<close>

definition optional_field :: "(json \<Rightarrow> 'a option) \<Rightarrow> dictionary \<Rightarrow> string \<Rightarrow> cap_def_error + 'a option" where
  "optional_field f d k =
     (case fmlookup d k of None \<Rightarrow> Inr None | Some j \<Rightarrow> on_ok (of_class f j) (\<lambda>x. Inr (Some x)))"

definition required_field :: "cap_def_error \<Rightarrow> (json \<Rightarrow> 'a option) \<Rightarrow> dictionary \<Rightarrow> string \<Rightarrow> cap_def_error + 'a" where
  "required_field e f d k = (case fmlookup d k of None \<Rightarrow> Inl e | Some j \<Rightarrow> of_class f j)"

definition default_field :: "'a \<Rightarrow> (json \<Rightarrow> 'a option) \<Rightarrow> dictionary \<Rightarrow> string \<Rightarrow> cap_def_error + 'a" where
  "default_field x f d k = (case fmlookup d k of None \<Rightarrow> Inr x | Some j \<Rightarrow> of_class f j)"

definition refuse_unknown :: "cap_def_error \<Rightarrow> string list \<Rightarrow> dictionary \<Rightarrow> cap_def_error + unit" where
  "refuse_unknown e known d = (if fBall (fmdom d) (\<lambda>k. k \<in> set known) then Inr () else Inl e)"

definition definition_name :: "cap_def_error \<Rightarrow> dictionary \<Rightarrow> cap_def_error + string" where
  "definition_name e d = (case string_field d ''name'' of None \<Rightarrow> Inl e | Some s \<Rightarrow> Inr s)"

section \<open>Sources\<close>

datatype CSArgSourceType = CSArgSourceTypeStdin | CSArgSourceTypePosition | CSArgSourceTypeCliFlag

record CSArgSource =
  source_type :: CSArgSourceType
  stdinMediaUrn :: "string option"
  source_position :: "64 word"
  cliFlag :: "string option"

definition ArgSource_stdinSource :: "string \<Rightarrow> CSArgSource" where
  "ArgSource_stdinSource urn =
     \<lparr>source_type = CSArgSourceTypeStdin, stdinMediaUrn = Some urn, source_position = -1, cliFlag = None\<rparr>"

definition ArgSource_positionSource :: "64 word \<Rightarrow> CSArgSource" where
  "ArgSource_positionSource i =
     \<lparr>source_type = CSArgSourceTypePosition, stdinMediaUrn = None, source_position = i, cliFlag = None\<rparr>"

definition ArgSource_cliFlagSource :: "string \<Rightarrow> CSArgSource" where
  "ArgSource_cliFlagSource flg =
     \<lparr>source_type = CSArgSourceTypeCliFlag, stdinMediaUrn = None, source_position = -1, cliFlag = Some flg\<rparr>"

definition ArgSource_sourceWithDictionary :: "json \<Rightarrow> cap_def_error + CSArgSource" where
  "ArgSource_sourceWithDictionary j =
     (case j of
        JSON_object d \<Rightarrow>
          (case fmlookup d ''stdin'' of
             Some v \<Rightarrow> on_ok (of_class json_string v) (\<lambda>s. Inr (ArgSource_stdinSource s))
           | None \<Rightarrow>
               (case fmlookup d ''position'' of
                  Some v \<Rightarrow> on_ok (of_class json_int64 v) (\<lambda>i. Inr (ArgSource_positionSource i))
                | None \<Rightarrow>
                    (case fmlookup d ''cli_flag'' of
                       Some v \<Rightarrow> on_ok (of_class json_string v) (\<lambda>s. Inr (ArgSource_cliFlagSource s))
                     | None \<Rightarrow> Inl (Source_error 1001))))
      | _ \<Rightarrow> Inl Outside_model)"

definition ArgSource_toDictionary :: "CSArgSource \<Rightarrow> dictionary" where
  "ArgSource_toDictionary s =
     (case source_type s of
        CSArgSourceTypeStdin \<Rightarrow> entry_if ''stdin'' (map_option JSON_string (stdinMediaUrn s)) fmempty
      | CSArgSourceTypePosition \<Rightarrow> fmupd ''position'' (JSON_int (sint (source_position s))) fmempty
      | CSArgSourceTypeCliFlag \<Rightarrow> entry_if ''cli_flag'' (map_option JSON_string (cliFlag s)) fmempty)"

definition ArgSource_isStdin :: "CSArgSource \<Rightarrow> bool" where
  "ArgSource_isStdin s \<longleftrightarrow> source_type s = CSArgSourceTypeStdin"

definition ArgSource_isPosition :: "CSArgSource \<Rightarrow> bool" where
  "ArgSource_isPosition s \<longleftrightarrow> source_type s = CSArgSourceTypePosition"

definition ArgSource_isCliFlag :: "CSArgSource \<Rightarrow> bool" where
  "ArgSource_isCliFlag s \<longleftrightarrow> source_type s = CSArgSourceTypeCliFlag"

definition ArgSource_isEqual :: "CSArgSource \<Rightarrow> CSArgSource \<Rightarrow> bool" where
  "ArgSource_isEqual s t \<longleftrightarrow>
     (if source_type s \<noteq> source_type t then False
      else
        (case source_type s of
           CSArgSourceTypeStdin \<Rightarrow> stdinMediaUrn s = stdinMediaUrn t
         | CSArgSourceTypePosition \<Rightarrow> source_position s = source_position t
         | CSArgSourceTypeCliFlag \<Rightarrow> cliFlag s = cliFlag t))"

section \<open>Arguments\<close>

record CSCapArg =
  arg_mediaUrn :: string
  arg_name :: string
  arg_accepts :: "string option"
  arg_required :: bool
  arg_isSequence :: bool
  arg_streaming :: bool
  sources :: "CSArgSource list"
  arg_description :: "string option"
  arg_defaultValue :: "json option"
  arg_metadata :: "json option"

definition CapArg_argWithMediaUrn ::
    "string \<Rightarrow> string \<Rightarrow> bool \<Rightarrow> CSArgSource list \<Rightarrow> string option \<Rightarrow> json option \<Rightarrow> CSCapArg" where
  "CapArg_argWithMediaUrn urn name required srcs description dflt =
     \<lparr>arg_mediaUrn = urn, arg_name = name, arg_accepts = None, arg_required = required,
      arg_isSequence = False, arg_streaming = False, sources = srcs, arg_description = description,
      arg_defaultValue = dflt, arg_metadata = None\<rparr>"

definition CapArg_argWithDictionary :: "json \<Rightarrow> cap_def_error + CSCapArg" where
  "CapArg_argWithDictionary j =
     (case j of
        JSON_object d \<Rightarrow>
          on_ok (refuse_unknown (Arg_error 1099)
              [''media_urn'', ''name'', ''accepts'', ''required'', ''sources'', ''arg_description'',
               ''default_value'', ''metadata'', ''is_sequence'', ''streaming''] d)
            (\<lambda>_. on_ok (required_field (Arg_error 1001) json_string d ''media_urn'')
            (\<lambda>urn. on_ok (definition_name (Arg_error 1004) d)
            (\<lambda>name. on_ok
              (case fmlookup d ''accepts'' of
                 None \<Rightarrow> Inr None
               | Some (JSON_string s) \<Rightarrow> Inr (Some s)
               | Some _ \<Rightarrow> Inl (Arg_error 1005))
            (\<lambda>accepts. on_ok (required_field (Arg_error 1002) json_bool d ''required'')
            (\<lambda>required. on_ok
              (case fmlookup d ''sources'' of
                 Some (JSON_array js) \<Rightarrow> read_all ArgSource_sourceWithDictionary js
               | _ \<Rightarrow> Inl (Arg_error 1003))
            (\<lambda>srcs. on_ok (optional_field json_string d ''arg_description'')
            (\<lambda>description. on_ok (default_field False json_bool d ''is_sequence'')
            (\<lambda>isSequence. on_ok (default_field False json_bool d ''streaming'')
            (\<lambda>streaming. Inr \<lparr>arg_mediaUrn = urn, arg_name = name, arg_accepts = accepts,
               arg_required = required, arg_isSequence = isSequence, arg_streaming = streaming,
               sources = srcs, arg_description = description,
               arg_defaultValue = fmlookup d ''default_value'', arg_metadata = fmlookup d ''metadata''\<rparr>)))))))))
      | _ \<Rightarrow> Inl Outside_model)"

definition CapArg_toDictionary :: "CSCapArg \<Rightarrow> dictionary" where
  "CapArg_toDictionary a =
     entry_if ''metadata'' (arg_metadata a)
     (entry_if ''default_value'' (arg_defaultValue a)
     (entry_if ''arg_description'' (map_option JSON_string (arg_description a))
     (fmupd ''sources'' (JSON_array (map (\<lambda>s. JSON_object (ArgSource_toDictionary s)) (sources a)))
     (fmupd ''streaming'' (JSON_bool (arg_streaming a))
     (fmupd ''is_sequence'' (JSON_bool (arg_isSequence a))
     (fmupd ''required'' (JSON_bool (arg_required a))
     (entry_if ''accepts'' (map_option JSON_string (arg_accepts a))
     (fmupd ''name'' (JSON_string (arg_name a))
     (fmupd ''media_urn'' (JSON_string (arg_mediaUrn a)) fmempty)))))))))"

definition CapArg_argAccepting :: "CSCapArg \<Rightarrow> string option \<Rightarrow> CSCapArg" where
  "CapArg_argAccepting a accepts = a\<lparr>arg_accepts := accepts\<rparr>"

definition CapArg_argAsSequence :: "CSCapArg \<Rightarrow> bool \<Rightarrow> CSCapArg" where
  "CapArg_argAsSequence a isSequence = a\<lparr>arg_isSequence := isSequence\<rparr>"

definition CapArg_hasStdinSource :: "CSCapArg \<Rightarrow> bool" where
  "CapArg_hasStdinSource a = list_ex ArgSource_isStdin (sources a)"

definition CapArg_getStdinMediaUrn :: "CSCapArg \<Rightarrow> string option" where
  "CapArg_getStdinMediaUrn a = Option.bind (List.find ArgSource_isStdin (sources a)) stdinMediaUrn"

definition CapArg_acceptedUrn :: "CSCapArg \<Rightarrow> string" where
  "CapArg_acceptedUrn a =
     (case CapArg_getStdinMediaUrn a of
        Some urn \<Rightarrow> urn
      | None \<Rightarrow> (case arg_accepts a of Some urn \<Rightarrow> urn | None \<Rightarrow> arg_mediaUrn a))"

definition CapArg_streamUrn :: "CSCapArg \<Rightarrow> string option" where
  "CapArg_streamUrn a =
     (case List.find ArgSource_isStdin (sources a) of
        Some s \<Rightarrow> stdinMediaUrn s
      | None \<Rightarrow> Some (arg_mediaUrn a))"

fun isMainInput_loop :: "'t tagged_urn_api \<Rightarrow> CSArgSource list \<Rightarrow> 't CSMediaUrn \<Rightarrow> bool" where
  "isMainInput_loop api [] spec = False"
| "isMainInput_loop api (src # srcs) spec =
     (if \<not> ArgSource_isStdin src then isMainInput_loop api srcs spec
      else case Option.bind (stdinMediaUrn src) (media_of api) of
        None \<Rightarrow> isMainInput_loop api srcs spec
      | Some stdin \<Rightarrow>
          (if MediaUrn_isEquivalentTo api stdin spec then True
           else isMainInput_loop api srcs spec))"

definition CapArg_isMainInputForInSpec :: "'t tagged_urn_api \<Rightarrow> CSCapArg \<Rightarrow> 't CSMediaUrn \<Rightarrow> bool" where
  "CapArg_isMainInputForInSpec api arg spec = isMainInput_loop api (sources arg) spec"

definition CapArg_hasPositionSource :: "CSCapArg \<Rightarrow> bool" where
  "CapArg_hasPositionSource a = list_ex ArgSource_isPosition (sources a)"

definition CapArg_getPosition :: "CSCapArg \<Rightarrow> 64 word option" where
  "CapArg_getPosition a = map_option source_position (List.find ArgSource_isPosition (sources a))"

definition CapArg_hasCliFlagSource :: "CSCapArg \<Rightarrow> bool" where
  "CapArg_hasCliFlagSource a = list_ex ArgSource_isCliFlag (sources a)"

definition CapArg_getCliFlag :: "CSCapArg \<Rightarrow> string option" where
  "CapArg_getCliFlag a = Option.bind (List.find ArgSource_isCliFlag (sources a)) cliFlag"

definition CapArg_setMetadata :: "CSCapArg \<Rightarrow> json option \<Rightarrow> CSCapArg" where
  "CapArg_setMetadata a metadata = a\<lparr>arg_metadata := metadata\<rparr>"

definition CapArg_clearMetadata :: "CSCapArg \<Rightarrow> CSCapArg" where
  "CapArg_clearMetadata a = a\<lparr>arg_metadata := None\<rparr>"

section \<open>Outputs\<close>

record CSCapOutput =
  output_mediaUrn :: string
  output_name :: string
  output_description :: string
  output_optional :: bool
  carries :: "string option"
  output_isSequence :: bool
  output_streaming :: bool
  output_metadata :: "json option"

definition CapOutput_outputWithMediaUrn :: "string \<Rightarrow> string \<Rightarrow> string \<Rightarrow> CSCapOutput" where
  "CapOutput_outputWithMediaUrn urn name description =
     \<lparr>output_mediaUrn = urn, output_name = name, output_description = description,
      output_optional = False, carries = None, output_isSequence = False, output_streaming = False,
      output_metadata = None\<rparr>"

definition CapOutput_outputWithDictionary :: "json \<Rightarrow> cap_def_error + CSCapOutput" where
  "CapOutput_outputWithDictionary j =
     (case j of
        JSON_object d \<Rightarrow>
          on_ok (refuse_unknown (Output_error 1099)
              [''media_urn'', ''name'', ''output_description'', ''optional'', ''carries'', ''metadata'',
               ''is_sequence'', ''streaming''] d)
            (\<lambda>_. on_ok (required_field (Output_error 1001) json_string d ''media_urn'')
            (\<lambda>urn. on_ok (definition_name (Output_error 1004) d)
            (\<lambda>name. on_ok (required_field (Output_error 1002) json_string d ''output_description'')
            (\<lambda>description. on_ok
              (case fmlookup d ''carries'' of
                 None \<Rightarrow> Inr None
               | Some v \<Rightarrow> (if v = JSON_string ''input'' then Inr (Some ''input'') else Inl (Output_error 1003)))
            (\<lambda>carried. on_ok (default_field False json_bool d ''optional'')
            (\<lambda>optional. on_ok (default_field False json_bool d ''is_sequence'')
            (\<lambda>isSequence. on_ok (default_field False json_bool d ''streaming'')
            (\<lambda>streaming. Inr \<lparr>output_mediaUrn = urn, output_name = name, output_description = description,
               output_optional = optional, carries = carried, output_isSequence = isSequence,
               output_streaming = streaming, output_metadata = fmlookup d ''metadata''\<rparr>))))))))
      | _ \<Rightarrow> Inl (Cap_error 1006))"

definition CapOutput_toDictionary :: "CSCapOutput \<Rightarrow> dictionary" where
  "CapOutput_toDictionary out =
     entry_if ''metadata'' (output_metadata out)
     (fmupd ''streaming'' (JSON_bool (output_streaming out))
     (fmupd ''is_sequence'' (JSON_bool (output_isSequence out))
     (entry_if ''carries'' (map_option JSON_string (carries out))
     (fmupd ''optional'' (JSON_bool (output_optional out))
     (fmupd ''output_description'' (JSON_string (output_description out))
     (fmupd ''name'' (JSON_string (output_name out))
     (fmupd ''media_urn'' (JSON_string (output_mediaUrn out)) fmempty)))))))"

definition CapOutput_outputAsOptional :: "CSCapOutput \<Rightarrow> bool \<Rightarrow> CSCapOutput" where
  "CapOutput_outputAsOptional out optional = out\<lparr>output_optional := optional\<rparr>"

definition CapOutput_outputCarryingInput :: "CSCapOutput \<Rightarrow> CSCapOutput" where
  "CapOutput_outputCarryingInput out = out\<lparr>carries := Some ''input''\<rparr>"

definition CapOutput_outputAsSequence :: "CSCapOutput \<Rightarrow> bool \<Rightarrow> CSCapOutput" where
  "CapOutput_outputAsSequence out isSequence = out\<lparr>output_isSequence := isSequence\<rparr>"

definition CapOutput_setMetadata :: "CSCapOutput \<Rightarrow> json option \<Rightarrow> CSCapOutput" where
  "CapOutput_setMetadata out metadata = out\<lparr>output_metadata := metadata\<rparr>"

definition CapOutput_clearMetadata :: "CSCapOutput \<Rightarrow> CSCapOutput" where
  "CapOutput_clearMetadata out = out\<lparr>output_metadata := None\<rparr>"


section \<open>Who registered a cap\<close>

record CSRegisteredBy =
  username :: string
  registeredAt :: string

definition RegisteredBy_registeredByWithDictionary :: "json \<Rightarrow> cap_def_error + CSRegisteredBy" where
  "RegisteredBy_registeredByWithDictionary j =
     (case j of
        JSON_object d \<Rightarrow>
          (case string_field d ''username'' of
             None \<Rightarrow> Inl (Registered_by_error 1001)
           | Some u \<Rightarrow>
               (case string_field d ''registered_at'' of
                  None \<Rightarrow> Inl (Registered_by_error 1002)
                | Some t \<Rightarrow> Inr \<lparr>username = u, registeredAt = t\<rparr>))
      | _ \<Rightarrow> Inl Outside_model)"

definition RegisteredBy_toDictionary :: "CSRegisteredBy \<Rightarrow> dictionary" where
  "RegisteredBy_toDictionary r =
     fmupd ''username'' (JSON_string (username r))
       (fmupd ''registered_at'' (JSON_string (registeredAt r)) fmempty)"

section \<open>Caps\<close>

record CSCap =
  capUrn :: CSCapUrn
  cap_version :: "32 word"
  cap_title :: string
  aliases :: "string list"
  isAbstract :: bool
  cap_description :: "string option"
  cap_documentation :: "string option"
  cap_dims :: "CSDimRef list"
  cap_metadata :: dictionary
  args :: "CSCapArg list"
  outputs :: "CSCapOutput list"
  metadataJSON :: "dictionary option"
  registeredBy :: "CSRegisteredBy option"
  supportedModelTypes :: "string list"
  defaultModelSpec :: "string option"

text \<open>The one constructor; without an alias it answers nothing.\<close>

definition Cap_capWithUrn ::
    "CSCapUrn \<Rightarrow> string \<Rightarrow> string list \<Rightarrow> string option \<Rightarrow> string option \<Rightarrow> dictionary \<Rightarrow>
     CSCapArg list \<Rightarrow> CSCapOutput list \<Rightarrow> dictionary option \<Rightarrow> CSCap option" where
  "Cap_capWithUrn urn ttl names description doc metadata arguments outs metadata_json =
     (if names = [] then None
      else Some \<lparr>capUrn = urn, cap_version = 0, cap_title = ttl, aliases = names, isAbstract = False,
        cap_description = description, cap_documentation = doc, cap_dims = [], cap_metadata = metadata,
        args = arguments, outputs = outs, metadataJSON = metadata_json, registeredBy = None,
        supportedModelTypes = [], defaultModelSpec = None\<rparr>)"

definition read_documentation :: "dictionary \<Rightarrow> string option" where
  "read_documentation d =
     (case string_field d ''documentation'' of
        Some s \<Rightarrow> (if 0 < length s then Some s else None)
      | None \<Rightarrow> None)"

definition Cap_capWithDictionary :: "('t, 'd) tagged_urn_package \<Rightarrow> json \<Rightarrow> cap_def_error + CSCap" where
  "Cap_capWithDictionary pkg j =
     (case j of
        JSON_object d \<Rightarrow>
          on_ok (case fmlookup d ''urn'' of None \<Rightarrow> Inl (Cap_error 1001) | Some v \<Rightarrow> Inr v)
            (\<lambda>urn_field. on_ok
              (case fmlookup d ''aliases'' of
                 Some (JSON_array js) \<Rightarrow>
                   (if js = [] then Inl (Cap_error 1002) else of_class json_strings (JSON_array js))
               | _ \<Rightarrow> Inl (Cap_error 1002))
            (\<lambda>names. on_ok (default_field False json_bool d ''abstract'')
            (\<lambda>abstract. on_ok (required_field (Cap_error 1003) json_string d ''title'')
            (\<lambda>ttl. on_ok (case urn_field of JSON_string s \<Rightarrow> Inr s | _ \<Rightarrow> Inl (Cap_error 1004))
            (\<lambda>urn_text. on_ok
              (case CapUrn_fromString pkg urn_text of Inl e \<Rightarrow> Inl (Urn_error e) | Inr u \<Rightarrow> Inr u)
            (\<lambda>urn. on_ok
              (case fmlookup d ''version'' of
                 None \<Rightarrow> Inr 0
               | Some v \<Rightarrow> (if json_integer v = None then Inr 0 else of_class json_uint32 v))
            (\<lambda>version. on_ok (optional_field json_string d ''cap_description'')
            (\<lambda>description. on_ok
              (case DimRef_refsFromField (fmlookup d ''dims'') of Inl e \<Rightarrow> Inl (Dims_error e) | Inr rs \<Rightarrow> Inr rs)
            (\<lambda>refs. on_ok (default_field fmempty json_dictionary d ''metadata'')
            (\<lambda>metadata. on_ok (optional_field json_dictionary d ''metadata_json'')
            (\<lambda>metadata_json. on_ok
              (case fmlookup d ''args'' of
                 Some (JSON_array js) \<Rightarrow> read_all CapArg_argWithDictionary js
               | _ \<Rightarrow> Inr [])
            (\<lambda>arguments. on_ok
              (case fmlookup d ''outputs'' of
                 None \<Rightarrow> Inr []
               | Some (JSON_array js) \<Rightarrow> read_all CapOutput_outputWithDictionary js
               | _ \<Rightarrow> Inl (Cap_error 1005))
            (\<lambda>outs. on_ok
              (case fmlookup d ''registered_by'' of
                 None \<Rightarrow> Inr None
               | Some v \<Rightarrow> on_ok (RegisteredBy_registeredByWithDictionary v) (\<lambda>r. Inr (Some r)))
            (\<lambda>registered. on_ok
              (case fmlookup d ''supported_model_types'' of
                 Some (JSON_array js) \<Rightarrow> of_class json_strings (JSON_array js)
               | _ \<Rightarrow> Inr [])
            (\<lambda>model_types.
              case Cap_capWithUrn urn ttl names description (read_documentation d) metadata arguments outs
                  metadata_json of
                None \<Rightarrow> Inl Outside_model
              | Some c \<Rightarrow> Inr (c\<lparr>isAbstract := abstract, registeredBy := registered,
                  supportedModelTypes := model_types, defaultModelSpec := string_field d ''default_model_spec'',
                  cap_version := version, cap_dims := refs\<rparr>))))))))))))))))
      | _ \<Rightarrow> Inl Outside_model)"

definition Cap_toDictionary :: "('t, 'd) tagged_urn_package \<Rightarrow> CSCap \<Rightarrow> urn_failure + dictionary" where
  "Cap_toDictionary pkg c =
     on_ok (CapUrn_toString pkg (capUrn c))
       (\<lambda>s. Inr
         (entry_if ''default_model_spec'' (map_option JSON_string (defaultModelSpec c))
         (entry_if ''supported_model_types''
           (if 0 < length (supportedModelTypes c) then Some (JSON_array (map JSON_string (supportedModelTypes c)))
            else None)
         (entry_if ''registered_by'' (map_option (\<lambda>r. JSON_object (RegisteredBy_toDictionary r)) (registeredBy c))
         (entry_if ''metadata_json'' (map_option JSON_object (metadataJSON c))
         (fmupd ''outputs'' (JSON_array (map (\<lambda>out. JSON_object (CapOutput_toDictionary out)) (outputs c)))
         (entry_if ''args''
           (if 0 < length (args c) then Some (JSON_array (map (\<lambda>a. JSON_object (CapArg_toDictionary a)) (args c)))
            else None)
         (fmupd ''metadata'' (JSON_object (cap_metadata c))
         (entry_if ''dims'' (if 0 < length (cap_dims c) then Some (DimRef_dictionariesFromRefs (cap_dims c)) else None)
         (entry_if ''documentation'' (map_option JSON_string (cap_documentation c))
         (entry_if ''cap_description'' (map_option JSON_string (cap_description c))
         (entry_if ''abstract'' (if isAbstract c then Some (JSON_bool True) else None)
         (fmupd ''aliases'' (JSON_array (map JSON_string (aliases c)))
         (fmupd ''title'' (JSON_string (cap_title c))
         (entry_if ''version'' (if cap_version c \<noteq> 0 then Some (JSON_int (uint (cap_version c))) else None)
         (fmupd ''urn'' (JSON_string s) fmempty))))))))))))))))"

definition Cap_copy :: "('t, 'd) tagged_urn_package \<Rightarrow> CSCap \<Rightarrow> urn_failure + CSCap option" where
  "Cap_copy pkg c =
     (if aliases c = [] then Inr None
      else on_ok (CapUrn_copy pkg (capUrn c))
        (\<lambda>urn. Inr (map_option
          (\<lambda>k. k\<lparr>isAbstract := isAbstract c, registeredBy := registeredBy c,
             supportedModelTypes := supportedModelTypes c, defaultModelSpec := defaultModelSpec c,
             cap_version := cap_version c, cap_dims := cap_dims c\<rparr>)
          (Cap_capWithUrn urn (cap_title c) (aliases c) (cap_description c) (cap_documentation c)
            (cap_metadata c) (args c) (outputs c) (metadataJSON c)))))"

section \<open>What is asked of a cap\<close>

definition Cap_acceptsRequest :: "('t, 'd) tagged_urn_package \<Rightarrow> CSCap \<Rightarrow> string \<Rightarrow> bool" where
  "Cap_acceptsRequest pkg c request =
     (case CapUrn_fromString pkg request of Inl _ \<Rightarrow> False | Inr r \<Rightarrow> CapUrn_isDispatchable (capUrn c) r)"

definition Cap_conformsToRequest :: "CSCap \<Rightarrow> CSCapUrn \<Rightarrow> bool" where
  "Cap_conformsToRequest c request = CapUrn_conformsTo (capUrn c) request"

definition Cap_isMoreSpecificThan :: "CSCap \<Rightarrow> CSCap option \<Rightarrow> bool" where
  "Cap_isMoreSpecificThan c other =
     (case other of None \<Rightarrow> True | Some d \<Rightarrow> CapUrn_isMoreSpecificThan (capUrn c) (Some (capUrn d)))"

definition Cap_metadataForKey :: "CSCap \<Rightarrow> string \<Rightarrow> json option" where
  "Cap_metadataForKey c k = fmlookup (cap_metadata c) k"

definition Cap_hasMetadataForKey :: "CSCap \<Rightarrow> string \<Rightarrow> bool" where
  "Cap_hasMetadataForKey c k \<longleftrightarrow> fmlookup (cap_metadata c) k \<noteq> None"

definition Cap_urnString :: "('t, 'd) tagged_urn_package \<Rightarrow> CSCap \<Rightarrow> urn_failure + string" where
  "Cap_urnString pkg c = CapUrn_toString pkg (capUrn c)"

definition Cap_primaryAlias :: "CSCap \<Rightarrow> string" where
  "Cap_primaryAlias c = (if 0 < length (aliases c) then aliases c ! 0 else '''')"

definition Cap_hasAlias :: "CSCap \<Rightarrow> string \<Rightarrow> bool" where
  "Cap_hasAlias c name \<longleftrightarrow> name \<in> set (aliases c)"

definition Cap_outputNamed :: "CSCap \<Rightarrow> string \<Rightarrow> CSCapOutput option" where
  "Cap_outputNamed c name = List.find (\<lambda>out. output_name out = name) (outputs c)"

definition Cap_argNamed :: "CSCap \<Rightarrow> string \<Rightarrow> CSCapArg option" where
  "Cap_argNamed c name = List.find (\<lambda>a. arg_name a = name) (args c)"

definition Cap_setOutputs :: "CSCap \<Rightarrow> CSCapOutput list \<Rightarrow> CSCap" where
  "Cap_setOutputs c outs = c\<lparr>outputs := outs\<rparr>"

definition Cap_addOutput :: "CSCap \<Rightarrow> CSCapOutput \<Rightarrow> CSCap" where
  "Cap_addOutput c out = c\<lparr>outputs := outputs c @ [out]\<rparr>"

definition Cap_getRequiredArgs :: "CSCap \<Rightarrow> CSCapArg list" where
  "Cap_getRequiredArgs c = filter arg_required (args c)"

definition Cap_getOptionalArgs :: "CSCap \<Rightarrow> CSCapArg list" where
  "Cap_getOptionalArgs c = filter (\<lambda>a. \<not> arg_required a) (args c)"

definition Cap_addArg :: "CSCap \<Rightarrow> CSCapArg \<Rightarrow> CSCap" where
  "Cap_addArg c a = c\<lparr>args := args c @ [a]\<rparr>"

definition Cap_findArgByMediaUrn :: "CSCap \<Rightarrow> string \<Rightarrow> CSCapArg option" where
  "Cap_findArgByMediaUrn c urn = List.find (\<lambda>a. arg_mediaUrn a = urn) (args c)"

definition compare_positions :: "CSCapArg \<Rightarrow> CSCapArg \<Rightarrow> NSComparisonResult" where
  "compare_positions a b =
     (case (CapArg_getPosition a, CapArg_getPosition b) of
        (Some i, Some j) \<Rightarrow> compare_linorder (sint i) (sint j)
      | _ \<Rightarrow> NSOrderedSame)"

definition Cap_getPositionalArgs :: "CSCap \<Rightarrow> CSCapArg list" where
  "Cap_getPositionalArgs c = sort_by compare_positions (filter CapArg_hasPositionSource (args c))"

definition Cap_getFlagArgs :: "CSCap \<Rightarrow> CSCapArg list" where
  "Cap_getFlagArgs c = filter CapArg_hasCliFlagSource (args c)"

fun stdin_loop :: "CSCapArg list \<Rightarrow> string option" where
  "stdin_loop [] = None"
| "stdin_loop (a # as) =
     (case CapArg_getStdinMediaUrn a of Some urn \<Rightarrow> Some urn | None \<Rightarrow> stdin_loop as)"

definition Cap_getStdinMediaUrn :: "CSCap \<Rightarrow> string option" where
  "Cap_getStdinMediaUrn c = stdin_loop (args c)"

definition Cap_acceptsStdin :: "CSCap \<Rightarrow> bool" where
  "Cap_acceptsStdin c \<longleftrightarrow> Cap_getStdinMediaUrn c \<noteq> None"

definition Cap_setMetadataJSON :: "CSCap \<Rightarrow> dictionary option \<Rightarrow> CSCap" where
  "Cap_setMetadataJSON c metadata = c\<lparr>metadataJSON := metadata\<rparr>"

definition Cap_clearMetadataJSON :: "CSCap \<Rightarrow> CSCap" where
  "Cap_clearMetadataJSON c = c\<lparr>metadataJSON := None\<rparr>"

section \<open>The main input and output\<close>

text \<open>Broken invariants the code stops at with an exception.\<close>

datatype cap_exception =
    In_spec_invalid
  | Void_urn_invalid
  | Main_input_missing
  | Output_urn_invalid string

definition Cap_mainInputArg ::
    "'t tagged_urn_api \<Rightarrow> CSCap \<Rightarrow> cap_exception + CSCapArg option" where
  "Cap_mainInputArg api cap =
     (case media_of api (inSpec (capUrn cap)) of
        None \<Rightarrow> Inl In_spec_invalid
      | Some spec \<Rightarrow>
          (case media_of api ''media:void'' of
             None \<Rightarrow> Inl Void_urn_invalid
           | Some void \<Rightarrow>
               (if MediaUrn_isEquivalentTo api spec void then Inr None
                else case List.find (\<lambda>arg. CapArg_isMainInputForInSpec api arg spec) (args cap) of
                  Some arg \<Rightarrow> Inr (Some arg)
                | None \<Rightarrow> Inl Main_input_missing)))"

definition Cap_primaryInputIsSequence :: "'t tagged_urn_api \<Rightarrow> CSCap \<Rightarrow> cap_exception + bool" where
  "Cap_primaryInputIsSequence api cap =
     (case Cap_mainInputArg api cap of
        Inl e \<Rightarrow> Inl e
      | Inr None \<Rightarrow> Inr False
      | Inr (Some arg) \<Rightarrow> Inr (arg_isSequence arg))"

definition Cap_primaryInputStreams :: "'t tagged_urn_api \<Rightarrow> CSCap \<Rightarrow> cap_exception + bool" where
  "Cap_primaryInputStreams api cap =
     (case Cap_mainInputArg api cap of
        Inl e \<Rightarrow> Inl e
      | Inr None \<Rightarrow> Inr False
      | Inr (Some arg) \<Rightarrow> Inr (arg_streaming arg))"

definition Cap_outputByUrn :: "'t tagged_urn_api \<Rightarrow> CSCap \<Rightarrow> string \<Rightarrow> CSCapOutput option" where
  "Cap_outputByUrn api cap urn =
     (case media_of api urn of
        None \<Rightarrow> None
      | Some wanted \<Rightarrow>
          List.find (\<lambda>out. case media_of api (output_mediaUrn out) of
                        None \<Rightarrow> False
                      | Some held \<Rightarrow> MediaUrn_isEquivalentTo api held wanted) (outputs cap))"

definition Cap_mainOutput :: "'t tagged_urn_api \<Rightarrow> CSCap \<Rightarrow> CSCapOutput option" where
  "Cap_mainOutput api cap = Cap_outputByUrn api cap (outSpec (capUrn cap))"

definition Cap_outputStreams :: "'t tagged_urn_api \<Rightarrow> CSCap \<Rightarrow> bool" where
  "Cap_outputStreams api cap =
     (case Cap_mainOutput api cap of None \<Rightarrow> False | Some out \<Rightarrow> output_streaming out)"

definition Cap_identityCap :: "('t, 'd) tagged_urn_package \<Rightarrow> urn_failure + CSCap option" where
  "Cap_identityCap pkg =
     on_ok (CapUrn_fromString pkg ''cap:effect=none'')
       (\<lambda>urn. Inr (Cap_capWithUrn urn ''Identity'' [''identity'']
         (Some ''The categorical identity morphism. Echoes input as output unchanged. Mandatory in every capability set.'')
         None fmempty
         [CapArg_argWithMediaUrn ''media:'' ''input'' True [ArgSource_stdinSource ''media:''] None None]
         [CapOutput_outputWithMediaUrn ''media:'' ''output'' ''The input data, unchanged''] None))"

end
