(* ===== verification/Fab.thy ===== *)
theory Fab
  imports CapDef
begin

text \<open>
  The graph of the installed caps and the search for paths in it (\<open>Planner/CSLiveCapFab.m\<close>), with
  the strand it answers (\<open>Planner/CSPlanBuilder.m\<close>).

  An edge leads from a cap's input to one of its outputs.  Whether the data at a node is a sequence is
  not stored: it is the second half of the position of a search, and a ForEach edge, which takes a
  sequence apart, is made up where a cap that takes single items could follow.
\<close>

section \<open>Edges\<close>

datatype CSLiveMachinePlanEdgeType =
    CSLiveMachinePlanEdgeTypeCap
  | CSLiveMachinePlanEdgeTypeForEach
  | CSLiveMachinePlanEdgeTypeCollect

record 't CSLiveMachinePlanEdge =
  fromSpec :: "'t CSMediaUrn"
  toSpec :: "'t CSMediaUrn"
  edgeType :: CSLiveMachinePlanEdgeType
  edge_inputIsSequence :: bool
  edge_outputIsSequence :: bool
  edge_outputUrn :: "'t CSMediaUrn option"
  edge_capUrn :: "CSCapUrn option"
  edge_capTitle :: "string option"
  edge_specificity :: nat

definition LiveMachinePlanEdge_capEdge ::
    "'t CSMediaUrn \<Rightarrow> 't CSMediaUrn \<Rightarrow> CSCapUrn \<Rightarrow> string \<Rightarrow> nat \<Rightarrow> bool \<Rightarrow> bool \<Rightarrow>
     't CSMediaUrn option \<Rightarrow> 't CSLiveMachinePlanEdge" where
  "LiveMachinePlanEdge_capEdge from_m to_m cap ttl spec in_seq out_seq out_urn =
     \<lparr>fromSpec = from_m, toSpec = to_m, edgeType = CSLiveMachinePlanEdgeTypeCap,
      edge_inputIsSequence = in_seq, edge_outputIsSequence = out_seq, edge_outputUrn = out_urn,
      edge_capUrn = Some cap, edge_capTitle = Some ttl, edge_specificity = spec\<rparr>"

definition LiveMachinePlanEdge_forEachEdge ::
    "'t CSMediaUrn \<Rightarrow> 't CSMediaUrn \<Rightarrow> 't CSLiveMachinePlanEdge" where
  "LiveMachinePlanEdge_forEachEdge from_m to_m =
     \<lparr>fromSpec = from_m, toSpec = to_m, edgeType = CSLiveMachinePlanEdgeTypeForEach,
      edge_inputIsSequence = True, edge_outputIsSequence = False, edge_outputUrn = None,
      edge_capUrn = None, edge_capTitle = None, edge_specificity = 0\<rparr>"

definition LiveMachinePlanEdge_collectEdge ::
    "'t CSMediaUrn \<Rightarrow> 't CSMediaUrn \<Rightarrow> 't CSLiveMachinePlanEdge" where
  "LiveMachinePlanEdge_collectEdge from_m to_m =
     \<lparr>fromSpec = from_m, toSpec = to_m, edgeType = CSLiveMachinePlanEdgeTypeCollect,
      edge_inputIsSequence = False, edge_outputIsSequence = True, edge_outputUrn = None,
      edge_capUrn = None, edge_capTitle = None, edge_specificity = 0\<rparr>"

section \<open>The graph\<close>

text \<open>The index \<open>nodes\<close> is a set of strings, the other indices map a canonical string to positions of
  \<open>edges\<close>.\<close>

record 't CSLiveCapFab =
  fab_edges :: "'t CSLiveMachinePlanEdge list"
  outgoing :: "string \<rightharpoonup> nat list"
  incoming :: "string \<rightharpoonup> nat list"
  fab_nodes :: "string set"
  capToEdges :: "string \<rightharpoonup> nat list"
  identityUrn :: "CSCapUrn option"

definition LiveCapFab_graph :: "CSCapUrn option \<Rightarrow> 't CSLiveCapFab" where
  "LiveCapFab_graph identity_urn =
     \<lparr>fab_edges = [], outgoing = Map.empty, incoming = Map.empty, fab_nodes = {}, capToEdges = Map.empty,
      identityUrn = identity_urn\<rparr>"

definition LiveCapFab_clear :: "'t CSLiveCapFab \<Rightarrow> 't CSLiveCapFab" where
  "LiveCapFab_clear g =
     g\<lparr>fab_edges := [], outgoing := Map.empty, incoming := Map.empty, fab_nodes := {},
       capToEdges := Map.empty\<rparr>"

definition index_add :: "(string \<rightharpoonup> nat list) \<Rightarrow> string \<Rightarrow> nat \<Rightarrow> (string \<rightharpoonup> nat list)" where
  "index_add index key i =
     index(key \<mapsto> (case index key of None \<Rightarrow> [] | Some is \<Rightarrow> is) @ [i])"

definition LiveCapFab_pushEdgeOfCap ::
    "'t tagged_urn_api \<Rightarrow> (CSCapUrn \<Rightarrow> string) \<Rightarrow> 't CSLiveCapFab \<Rightarrow> CSCap \<Rightarrow> 't CSMediaUrn \<Rightarrow>
     't CSMediaUrn \<Rightarrow> bool \<Rightarrow> bool \<Rightarrow> 't CSMediaUrn option \<Rightarrow> 't CSLiveCapFab" where
  "LiveCapFab_pushEdgeOfCap api cap_string g cap from_m to_m in_seq out_seq out_urn =
     (let i = length (fab_edges g);
          f = MediaUrn_toString api from_m;
          t = MediaUrn_toString api to_m
      in g\<lparr>fab_edges := fab_edges g @
             [LiveMachinePlanEdge_capEdge from_m to_m (capUrn cap) (cap_title cap)
               (CapUrn_specificity (capUrn cap)) in_seq out_seq out_urn],
           outgoing := index_add (outgoing g) f i,
           incoming := index_add (incoming g) t i,
           fab_nodes := insert t (insert f (fab_nodes g)),
           capToEdges := index_add (capToEdges g) (cap_string (capUrn cap)) i\<rparr>)"

fun addCap_outputs ::
    "'t tagged_urn_api \<Rightarrow> (CSCapUrn \<Rightarrow> string) \<Rightarrow> CSCap \<Rightarrow> 't CSMediaUrn \<Rightarrow> bool \<Rightarrow>
     CSCapOutput option \<Rightarrow> 't CSLiveCapFab \<Rightarrow> CSCapOutput list \<Rightarrow>
     cap_exception + 't CSLiveCapFab" where
  "addCap_outputs api cap_string cap from_m in_seq main g [] = Inr g"
| "addCap_outputs api cap_string cap from_m in_seq main g (out # outs) =
     (if carries out \<noteq> None then addCap_outputs api cap_string cap from_m in_seq main g outs
      else if (case main of None \<Rightarrow> False | Some m \<Rightarrow> output_mediaUrn m = output_mediaUrn out)
      then addCap_outputs api cap_string cap from_m in_seq main g outs
      else case media_of api (output_mediaUrn out) of
        None \<Rightarrow> Inl (Output_urn_invalid (output_mediaUrn out))
      | Some urn \<Rightarrow>
          addCap_outputs api cap_string cap from_m in_seq main
            (LiveCapFab_pushEdgeOfCap api cap_string g cap from_m urn in_seq
              (output_isSequence out) (Some urn)) outs)"

definition LiveCapFab_addCap ::
    "'t tagged_urn_api \<Rightarrow> (CSCapUrn \<Rightarrow> string) \<Rightarrow> 't CSLiveCapFab \<Rightarrow> CSCap \<Rightarrow>
     cap_exception + 't CSLiveCapFab" where
  "LiveCapFab_addCap api cap_string g cap =
     (if inSpec (capUrn cap) = [] \<or> outSpec (capUrn cap) = [] then Inr g
      else if (case identityUrn g of
                 None \<Rightarrow> False | Some i \<Rightarrow> CapUrn_isEquivalent (capUrn cap) i) then Inr g
      else case media_of api (inSpec (capUrn cap)) of
        None \<Rightarrow> Inr g
      | Some from_m \<Rightarrow>
          (case media_of api (outSpec (capUrn cap)) of
             None \<Rightarrow> Inr g
           | Some to_m \<Rightarrow>
               (case Cap_primaryInputIsSequence api cap of
                  Inl e \<Rightarrow> Inl e
                | Inr in_seq \<Rightarrow>
                    (let main = Cap_mainOutput api cap;
                         out_seq = (case main of None \<Rightarrow> False | Some m \<Rightarrow> output_isSequence m)
                     in addCap_outputs api cap_string cap from_m in_seq main
                          (LiveCapFab_pushEdgeOfCap api cap_string g cap from_m to_m in_seq out_seq None)
                          (outputs cap)))))"

fun syncFromCaps_loop ::
    "'t tagged_urn_api \<Rightarrow> (CSCapUrn \<Rightarrow> string) \<Rightarrow> 't CSLiveCapFab \<Rightarrow> CSCap list \<Rightarrow>
     cap_exception + 't CSLiveCapFab" where
  "syncFromCaps_loop api cap_string g [] = Inr g"
| "syncFromCaps_loop api cap_string g (cap # caps) =
     (case LiveCapFab_addCap api cap_string g cap of
        Inl e \<Rightarrow> Inl e
      | Inr g' \<Rightarrow> syncFromCaps_loop api cap_string g' caps)"

definition LiveCapFab_syncFromCaps ::
    "'t tagged_urn_api \<Rightarrow> (CSCapUrn \<Rightarrow> string) \<Rightarrow> 't CSLiveCapFab \<Rightarrow> CSCap list \<Rightarrow>
     cap_exception + 't CSLiveCapFab" where
  "LiveCapFab_syncFromCaps api cap_string g caps =
     syncFromCaps_loop api cap_string (LiveCapFab_clear g) caps"

definition LiveCapFab_nodeCount :: "'t CSLiveCapFab \<Rightarrow> nat" where
  "LiveCapFab_nodeCount g = card (fab_nodes g)"

definition LiveCapFab_edgeCount :: "'t CSLiveCapFab \<Rightarrow> nat" where
  "LiveCapFab_edgeCount g = length (fab_edges g)"

section \<open>Outgoing edges\<close>

fun stored_loop ::
    "'t tagged_urn_api \<Rightarrow> 't CSMediaUrn \<Rightarrow> bool \<Rightarrow> 't CSLiveMachinePlanEdge list \<Rightarrow>
     ('t CSLiveMachinePlanEdge \<times> bool) list" where
  "stored_loop api src isSequence [] = []"
| "stored_loop api src isSequence (e # es) =
     (if \<not> MediaUrn_conformsTo api src (fromSpec e) then stored_loop api src isSequence es
      else if isSequence \<and> \<not> edge_inputIsSequence e then stored_loop api src isSequence es
      else (e, edge_outputIsSequence e) # stored_loop api src isSequence es)"

fun scalar_consumers_loop ::
    "'t tagged_urn_api \<Rightarrow> 't CSMediaUrn \<Rightarrow> 't CSLiveMachinePlanEdge list \<Rightarrow> bool" where
  "scalar_consumers_loop api src [] = False"
| "scalar_consumers_loop api src (e # es) =
     (if \<not> edge_inputIsSequence e \<and> MediaUrn_conformsTo api src (fromSpec e) then True
      else scalar_consumers_loop api src es)"

definition LiveCapFab_getOutgoingEdges ::
    "'t tagged_urn_api \<Rightarrow> 't CSLiveCapFab \<Rightarrow> 't CSMediaUrn \<Rightarrow> bool \<Rightarrow>
     ('t CSLiveMachinePlanEdge \<times> bool) list" where
  "LiveCapFab_getOutgoingEdges api g src isSequence =
     (let result = stored_loop api src isSequence (fab_edges g)
      in if isSequence \<and> scalar_consumers_loop api src (fab_edges g)
         then result @ [(LiveMachinePlanEdge_forEachEdge src src, False)]
         else result)"

definition LiveCapFab_canFollowForEach :: "'t CSLiveMachinePlanEdge \<Rightarrow> bool" where
  "LiveCapFab_canFollowForEach e \<longleftrightarrow>
     edgeType e = CSLiveMachinePlanEdgeTypeCap \<and> \<not> edge_inputIsSequence e"

section \<open>Strands\<close>

text \<open>The token a step is born with is random and plays no part in the search; it is left out.\<close>

datatype CSStrandStepType =
    CSStrandStepTypeCap
  | CSStrandStepTypeForEach
  | CSStrandStepTypeCollect

record CSStrandStep =
  step_capUrn :: "string option"
  stepType :: CSStrandStepType
  step_fromSpec :: "string option"
  step_toSpec :: "string option"
  step_mediaUrn :: "string option"
  step_specificity :: nat
  step_inputIsSequence :: bool
  step_outputIsSequence :: bool
  step_outputUrn :: "string option"

definition StrandStep_title :: "CSStrandStep \<Rightarrow> string" where
  "StrandStep_title s =
     (case stepType s of
        CSStrandStepTypeCap \<Rightarrow>
          (case step_capUrn s of None \<Rightarrow> ''(unknown cap)'' | Some c \<Rightarrow> c)
      | CSStrandStepTypeForEach \<Rightarrow> ''ForEach (iterate over list)''
      | CSStrandStepTypeCollect \<Rightarrow> ''Collect (scalar to list)'')"

definition StrandStep_isCap :: "CSStrandStep \<Rightarrow> bool" where
  "StrandStep_isCap s \<longleftrightarrow> stepType s = CSStrandStepTypeCap"

record CSStrand =
  sourceMediaUrn :: string
  targetMediaUrn :: string
  steps :: "CSStrandStep list"
  totalSteps :: nat
  capStepCount :: nat
  pathDescription :: string

definition step_of_edge ::
    "'t tagged_urn_api \<Rightarrow> (CSCapUrn \<Rightarrow> string) \<Rightarrow> 't CSLiveMachinePlanEdge \<Rightarrow> CSStrandStep" where
  "step_of_edge api cap_string e =
     (let s = \<lparr>step_capUrn = None, stepType = CSStrandStepTypeCap,
                step_fromSpec = Some (MediaUrn_toString api (fromSpec e)),
                step_toSpec = Some (MediaUrn_toString api (toSpec e)), step_mediaUrn = None,
                step_specificity = 0, step_inputIsSequence = False,
                step_outputIsSequence = False, step_outputUrn = None\<rparr>
      in case edgeType e of
           CSLiveMachinePlanEdgeTypeCap \<Rightarrow>
             s\<lparr>stepType := CSStrandStepTypeCap, step_capUrn := map_option cap_string (edge_capUrn e),
               step_specificity := edge_specificity e,
               step_inputIsSequence := edge_inputIsSequence e,
               step_outputIsSequence := edge_outputIsSequence e,
               step_outputUrn := map_option (MediaUrn_toString api) (edge_outputUrn e)\<rparr>
         | CSLiveMachinePlanEdgeTypeForEach \<Rightarrow>
             s\<lparr>stepType := CSStrandStepTypeForEach,
               step_mediaUrn := Some (MediaUrn_toString api (toSpec e))\<rparr>
         | CSLiveMachinePlanEdgeTypeCollect \<Rightarrow>
             s\<lparr>stepType := CSStrandStepTypeCollect,
               step_mediaUrn := Some (MediaUrn_toString api (fromSpec e))\<rparr>)"

fun join :: "string \<Rightarrow> string list \<Rightarrow> string" where
  "join sep [] = []"
| "join sep [s] = s"
| "join sep (s # t # ts) = s @ sep @ join sep (t # ts)"

text \<open>The separator is a blank, the arrow U+2192 in UTF-8, a blank.\<close>

definition arrow :: string where
  "arrow = CHR '' '' # map char_of [226, 134, 146 :: nat] @ [CHR '' '']"

definition strand_of ::
    "'t tagged_urn_api \<Rightarrow> 't CSMediaUrn \<Rightarrow> 't CSMediaUrn \<Rightarrow> CSStrandStep list \<Rightarrow> CSStrand" where
  "strand_of api src target path =
     \<lparr>sourceMediaUrn = MediaUrn_toString api src, targetMediaUrn = MediaUrn_toString api target,
      steps = path, totalSteps = length path,
      capStepCount = length (filter StrandStep_isCap path),
      pathDescription = join arrow (map StrandStep_title path)\<rparr>"

section \<open>Paths to a target\<close>

definition position_key :: "'t tagged_urn_api \<Rightarrow> 't CSMediaUrn \<Rightarrow> bool \<Rightarrow> string" where
  "position_key api m isSequence =
     MediaUrn_toString api m @ ''|'' @ (if isSequence then ''1'' else ''0'')"

definition pending_foreach :: "CSStrandStep list \<Rightarrow> bool" where
  "pending_foreach path \<longleftrightarrow> path \<noteq> [] \<and> stepType (last path) = CSStrandStepTypeForEach"

function dfsFindPaths ::
    "'t tagged_urn_api \<Rightarrow> (CSCapUrn \<Rightarrow> string) \<Rightarrow> 't CSLiveCapFab \<Rightarrow> 't CSMediaUrn \<Rightarrow> 't CSMediaUrn \<Rightarrow>
     nat \<Rightarrow> nat \<Rightarrow> 't CSMediaUrn \<Rightarrow> CSStrandStep list \<Rightarrow> string set \<Rightarrow> CSStrand list \<Rightarrow> bool \<Rightarrow>
     string set \<times> CSStrand list" where
  "dfsFindPaths api cap_string g src target maxDepth maxPaths current path visited allPaths isSequence =
     (if maxPaths \<le> length allPaths then (visited, allPaths)
      else if MediaUrn_isEquivalentTo api current target \<and> \<not> pending_foreach path
      then (visited, allPaths @ [strand_of api src target path])
      else if maxDepth \<le> length path then (visited, allPaths)
      else
        (case foldl
            (\<lambda>(v, found) (e, nextIsSequence).
               if pending_foreach path \<and> \<not> LiveCapFab_canFollowForEach e then (v, found)
               else if position_key api (toSpec e) nextIsSequence \<in> v then (v, found)
               else dfsFindPaths api cap_string g src target maxDepth maxPaths (toSpec e)
                      (path @ [step_of_edge api cap_string e]) v found nextIsSequence)
            (insert (position_key api current isSequence) visited, allPaths)
            (LiveCapFab_getOutgoingEdges api g current isSequence) of
           (v, found) \<Rightarrow> (v - {position_key api current isSequence}, found)))"
  by pat_completeness auto
termination
  by (relation "measure (\<lambda>(api, cap_string, g, src, target, maxDepth, maxPaths, current, path,
        visited, allPaths, isSequence). maxDepth - length path)") auto

declare dfsFindPaths.simps [simp del]

definition stepKey :: "CSStrandStep \<Rightarrow> string" where
  "stepKey s =
     (case stepType s of
        CSStrandStepTypeCap \<Rightarrow> (case step_capUrn s of None \<Rightarrow> '''' | Some c \<Rightarrow> c)
      | CSStrandStepTypeForEach \<Rightarrow> ''foreach''
      | CSStrandStepTypeCollect \<Rightarrow> ''collect'')"

fun compare_step_keys :: "string list \<Rightarrow> string list \<Rightarrow> NSComparisonResult" where
  "compare_step_keys (a # as) (b # bs) =
     (case compare_linorder a b of
        NSOrderedSame \<Rightarrow> compare_step_keys as bs
      | cmp \<Rightarrow> cmp)"
| "compare_step_keys as bs =
     (if length as \<noteq> length bs then
        (if length as < length bs then NSOrderedAscending else NSOrderedDescending)
      else NSOrderedSame)"

definition total_specificity :: "CSStrand \<Rightarrow> nat" where
  "total_specificity s = sum_list (map step_specificity (steps s))"

definition LiveCapFab_comparePaths :: "CSStrand \<Rightarrow> CSStrand \<Rightarrow> NSComparisonResult" where
  "LiveCapFab_comparePaths a b =
     (if capStepCount a \<noteq> capStepCount b then
        (if capStepCount a < capStepCount b then NSOrderedAscending else NSOrderedDescending)
      else if total_specificity a \<noteq> total_specificity b then
        (if total_specificity b < total_specificity a then NSOrderedAscending else NSOrderedDescending)
      else compare_step_keys (map stepKey (steps a)) (map stepKey (steps b)))"

definition LiveCapFab_findPathsToExactTarget ::
    "'t tagged_urn_api \<Rightarrow> (CSCapUrn \<Rightarrow> string) \<Rightarrow> 't CSLiveCapFab \<Rightarrow> 't CSMediaUrn \<Rightarrow> 't CSMediaUrn \<Rightarrow>
     nat \<Rightarrow> nat \<Rightarrow> bool \<Rightarrow> CSStrand list" where
  "LiveCapFab_findPathsToExactTarget api cap_string g src target maxDepth maxPaths isSequence =
     (if MediaUrn_isEquivalentTo api src target then []
      else sort_by LiveCapFab_comparePaths
        (snd (dfsFindPaths api cap_string g src target maxDepth maxPaths src [] {} [] isSequence)))"

section \<open>Reachable targets\<close>

record CSReachableTargetInfo =
  info_mediaUrn :: string
  displayName :: string
  minDepth :: nat
  pathCount :: nat

text \<open>The dictionary of results, in the order its keys were first met.\<close>

fun count_target :: "string \<Rightarrow> nat \<Rightarrow> CSReachableTargetInfo list \<Rightarrow> CSReachableTargetInfo list" where
  "count_target urn newDepth [] =
     [\<lparr>info_mediaUrn = urn, displayName = urn, minDepth = newDepth, pathCount = 1\<rparr>]"
| "count_target urn newDepth (i # is) =
     (if info_mediaUrn i = urn then i\<lparr>pathCount := pathCount i + 1\<rparr> # is
      else i # count_target urn newDepth is)"

definition flag :: "bool \<Rightarrow> string" where
  "flag b = (if b then ''1'' else ''0'')"

definition reach_key :: "'t tagged_urn_api \<Rightarrow> 't CSMediaUrn \<Rightarrow> bool \<Rightarrow> bool \<Rightarrow> string" where
  "reach_key api m isSequence pending =
     MediaUrn_toString api m @ ''|'' @ flag isSequence @ ''|'' @ flag pending"

type_synonym 't reach_item = "'t CSMediaUrn \<times> nat \<times> bool \<times> bool"

fun reach_edges ::
    "'t tagged_urn_api \<Rightarrow> nat \<Rightarrow> bool \<Rightarrow> ('t CSLiveMachinePlanEdge \<times> bool) list \<Rightarrow>
     CSReachableTargetInfo list \<Rightarrow> string set \<Rightarrow> 't reach_item list \<Rightarrow>
     CSReachableTargetInfo list \<times> string set \<times> 't reach_item list" where
  "reach_edges api depth pending [] results visited queue = (results, visited, queue)"
| "reach_edges api depth pending ((e, nextIsSequence) # es) results visited queue =
     (if pending \<and> \<not> LiveCapFab_canFollowForEach e
      then reach_edges api depth pending es results visited queue
      else
        (let newDepth = depth + 1;
             nextPending = (edgeType e = CSLiveMachinePlanEdgeTypeForEach);
             results' = (if nextPending then results
                         else count_target (MediaUrn_toString api (toSpec e)) newDepth results);
             nextKey = reach_key api (toSpec e) nextIsSequence nextPending
         in if nextKey \<in> visited then reach_edges api depth pending es results' visited queue
            else reach_edges api depth pending es results' (insert nextKey visited)
                   (queue @ [(toSpec e, newDepth, nextIsSequence, nextPending)])))"

text \<open>Termination of the queue: a step enters only positions of the finitely many media the edges
  lead to or the queue holds, each at most once.\<close>

definition reach_keys :: "'t tagged_urn_api \<Rightarrow> 't CSMediaUrn set \<Rightarrow> string set" where
  "reach_keys api M = (\<Union>m \<in> M. \<Union>s. \<Union>p. {reach_key api m s p})"

definition reach_universe ::
    "'t tagged_urn_api \<Rightarrow> 't CSLiveCapFab \<Rightarrow> 't reach_item list \<Rightarrow> string set" where
  "reach_universe api g queue = reach_keys api (toSpec ` set (fab_edges g) \<union> fst ` set queue)"

lemma finite_reach_universe [simp]: "finite (reach_universe api g queue)"
  by (simp add: reach_universe_def reach_keys_def)

lemma reach_universe_mono:
  "fst ` set q \<subseteq> toSpec ` set (fab_edges g) \<union> fst ` set q' \<Longrightarrow>
     reach_universe api g q \<subseteq> reach_universe api g q'"
  unfolding reach_universe_def reach_keys_def by (intro UN_mono) auto

lemma reach_universe_key:
  "m \<in> toSpec ` set (fab_edges g) \<union> fst ` set q \<Longrightarrow> reach_key api m s p \<in> reach_universe api g q"
  unfolding reach_universe_def reach_keys_def by blast

lemma stored_loop_set:
  "set (stored_loop api src isSequence es) \<subseteq> (\<lambda>e. (e, edge_outputIsSequence e)) ` set es"
  by (induction es) auto

lemma outgoing_toSpec:
  "(e, s) \<in> set (LiveCapFab_getOutgoingEdges api g src isSequence) \<Longrightarrow>
     toSpec e \<in> toSpec ` set (fab_edges g) \<union> {src}"
  using stored_loop_set [of api src isSequence "fab_edges g"]
  by (auto simp: LiveCapFab_getOutgoingEdges_def Let_def LiveMachinePlanEdge_forEachEdge_def
      split: if_splits)

text \<open>What one round of the loop does, hop by hop.\<close>

definition hop_key :: "'t tagged_urn_api \<Rightarrow> 't CSLiveMachinePlanEdge \<times> bool \<Rightarrow> string" where
  "hop_key api h =
     reach_key api (toSpec (fst h)) (snd h) (edgeType (fst h) = CSLiveMachinePlanEdgeTypeForEach)"

definition hop_item :: "nat \<Rightarrow> 't CSLiveMachinePlanEdge \<times> bool \<Rightarrow> 't reach_item" where
  "hop_item d h =
     (toSpec (fst h), d, snd h, edgeType (fst h) = CSLiveMachinePlanEdgeTypeForEach)"

definition hop_record ::
    "'t tagged_urn_api \<Rightarrow> nat \<Rightarrow> 't CSLiveMachinePlanEdge \<times> bool \<Rightarrow> CSReachableTargetInfo list \<Rightarrow>
     CSReachableTargetInfo list" where
  "hop_record api d h results =
     (if edgeType (fst h) = CSLiveMachinePlanEdgeTypeForEach then results
      else count_target (MediaUrn_toString api (toSpec (fst h))) d results)"

definition hop_taken :: "bool \<Rightarrow> 't CSLiveMachinePlanEdge \<times> bool \<Rightarrow> bool" where
  "hop_taken pending h \<longleftrightarrow> (pending \<longrightarrow> LiveCapFab_canFollowForEach (fst h))"

lemma reach_edges_Cons:
  "reach_edges api depth pending (h # hs) results visited queue =
     (if hop_taken pending h
      then reach_edges api depth pending hs (hop_record api (depth + 1) h results)
             (insert (hop_key api h) visited)
             (if hop_key api h \<in> visited then queue else queue @ [hop_item (depth + 1) h])
      else reach_edges api depth pending hs results visited queue)"
  by (cases h)
    (simp add: hop_taken_def hop_record_def hop_key_def hop_item_def Let_def insert_absorb)

lemma reach_edges_spec:
  assumes "reach_edges api depth pending hs results visited queue = (results', visited', queue')"
  shows "results' = fold (hop_record api (depth + 1)) (filter (hop_taken pending) hs) results \<and>
    visited' = visited \<union> hop_key api ` set (filter (hop_taken pending) hs) \<and>
    (\<exists>new. queue' = queue @ map (hop_item (depth + 1)) new \<and>
       set new \<subseteq> set (filter (hop_taken pending) hs) \<and>
       hop_key api ` set new = hop_key api ` set (filter (hop_taken pending) hs) - visited)"
  using assms
proof (induction hs arbitrary: results visited queue)
  case Nil
  then show ?case by simp
next
  case (Cons h hs)
  show ?case
  proof (cases "hop_taken pending h")
    case False
    then show ?thesis using Cons.IH [of results visited queue] Cons.prems
      by (simp add: reach_edges_Cons del: reach_edges.simps)
  next
    case True
    let ?k = "hop_key api h"
    let ?queue = "if ?k \<in> visited then queue else queue @ [hop_item (depth + 1) h]"
    let ?taken = "filter (hop_taken pending) hs"
    have "reach_edges api depth pending hs (hop_record api (depth + 1) h results)
        (insert ?k visited) ?queue = (results', visited', queue')"
      using Cons.prems True by (simp add: reach_edges_Cons del: reach_edges.simps)
    from Cons.IH [OF this] obtain new where new: "queue' = ?queue @ map (hop_item (depth + 1)) new"
        "set new \<subseteq> set ?taken" "hop_key api ` set new = hop_key api ` set ?taken - insert ?k visited"
        "results' = fold (hop_record api (depth + 1)) ?taken (hop_record api (depth + 1) h results)"
        "visited' = insert ?k visited \<union> hop_key api ` set ?taken"
      by blast
    let ?new = "if ?k \<in> visited then new else h # new"
    have "queue' = queue @ map (hop_item (depth + 1)) ?new"
      "set ?new \<subseteq> set (filter (hop_taken pending) (h # hs))"
      "hop_key api ` set ?new = hop_key api ` set (filter (hop_taken pending) (h # hs)) - visited"
      using new(1-3) True by auto
    moreover have "results' = fold (hop_record api (depth + 1))
        (filter (hop_taken pending) (h # hs)) results"
      "visited' = visited \<union> hop_key api ` set (filter (hop_taken pending) (h # hs))"
      using new(4,5) True by auto
    ultimately show ?thesis by blast
  qed
qed

lemma hop_in_universe:
  assumes "h \<in> set (LiveCapFab_getOutgoingEdges api g current isSequence)"
  shows "hop_key api h \<in> reach_universe api g ((current, depth, isSequence, pending) # rest)"
  using outgoing_toSpec [of "fst h" "snd h" api g current isSequence] assms
  unfolding hop_key_def by (intro reach_universe_key) auto

lemma reach_universe_step:
  assumes "set new \<subseteq> set (LiveCapFab_getOutgoingEdges api g current isSequence)"
  shows "reach_universe api g (rest @ map (hop_item d) new)
    \<subseteq> reach_universe api g ((current, depth, isSequence, pending) # rest)"
proof -
  have "fst ` set (map (hop_item d) new) \<subseteq> toSpec ` set (fab_edges g) \<union> {current}"
    using assms outgoing_toSpec [of _ _ api g current isSequence]
    by (fastforce simp: hop_item_def)
  then show ?thesis by (intro reach_universe_mono) auto
qed

lemma reach_step_decreases:
  assumes "reach_edges api depth pending (LiveCapFab_getOutgoingEdges api g current isSequence) results
      visited rest = (results', visited', queue')"
  shows "card (reach_universe api g queue' - visited') <
      card (reach_universe api g ((current, depth, isSequence, pending) # rest) - visited) \<or>
    card (reach_universe api g queue' - visited') =
      card (reach_universe api g ((current, depth, isSequence, pending) # rest) - visited) \<and>
    length queue' < length ((current, depth, isSequence, pending) # rest)"
proof -
  let ?U = "reach_universe api g ((current, depth, isSequence, pending) # rest)"
  let ?taken = "filter (hop_taken pending) (LiveCapFab_getOutgoingEdges api g current isSequence)"
  from reach_edges_spec [OF assms] obtain new where
    v: "visited' = visited \<union> hop_key api ` set ?taken" and
    q: "queue' = rest @ map (hop_item (depth + 1)) new" "set new \<subseteq> set ?taken"
      "hop_key api ` set new = hop_key api ` set ?taken - visited"
    by blast
  have sub: "reach_universe api g queue' - visited' \<subseteq> ?U - visited"
    using reach_universe_step [of new api g current isSequence rest "depth + 1" depth pending] q v
    by auto
  show ?thesis
  proof (cases new)
    case Nil
    then have "visited' = visited" using q(3) v by auto
    moreover have "card (reach_universe api g queue' - visited') \<le> card (?U - visited)"
      by (rule card_mono [OF _ sub]) simp
    ultimately show ?thesis using Nil q(1) by auto
  next
    case (Cons h tl)
    then have "hop_key api h \<in> ?U - visited" "hop_key api h \<in> visited'"
      using q v hop_in_universe [of h api g current isSequence depth pending rest] by auto
    with sub have "reach_universe api g queue' - visited' \<subset> ?U - visited" by blast
    then show ?thesis by (simp add: psubset_card_mono)
  qed
qed

function reach_loop ::
    "'t tagged_urn_api \<Rightarrow> 't CSLiveCapFab \<Rightarrow> nat \<Rightarrow> 't reach_item list \<Rightarrow> string set \<Rightarrow>
     CSReachableTargetInfo list \<Rightarrow> CSReachableTargetInfo list" where
  "reach_loop api g maxDepth [] visited results = results"
| "reach_loop api g maxDepth ((current, depth, isSequence, pending) # rest) visited results =
     (if maxDepth \<le> depth then reach_loop api g maxDepth rest visited results
      else
        (case reach_edges api depth pending (LiveCapFab_getOutgoingEdges api g current isSequence)
            results visited rest of
           (results', visited', queue') \<Rightarrow>
             reach_loop api g maxDepth queue' visited' results'))"
  by pat_completeness auto
termination
proof (relation "inv_image (less_than <*lex*> less_than)
    (\<lambda>(api, g, maxDepth, queue, visited, results).
       (card (reach_universe api g queue - visited), length queue))", goal_cases)
  case 1
  then show ?case by auto
next
  case (2 api g maxDepth current depth isSequence pending rest visited results)
  have "card (reach_universe api g rest - visited) \<le>
      card (reach_universe api g ((current, depth, isSequence, pending) # rest) - visited)"
    by (intro card_mono Diff_mono reach_universe_mono) auto
  then show ?case by auto
next
  case (3 api g maxDepth current depth isSequence pending rest visited results r y v q)
  then have "reach_edges api depth pending (LiveCapFab_getOutgoingEdges api g current isSequence)
      results visited rest = (r, v, q)"
    by simp
  from reach_step_decreases [OF this] show ?case by auto
qed

declare reach_loop.simps [simp del]

definition compare_targets :: "CSReachableTargetInfo \<Rightarrow> CSReachableTargetInfo \<Rightarrow> NSComparisonResult" where
  "compare_targets a b =
     (if minDepth a \<noteq> minDepth b then
        (if minDepth a < minDepth b then NSOrderedAscending else NSOrderedDescending)
      else compare_linorder (displayName a) (displayName b))"

definition LiveCapFab_getReachableTargets ::
    "'t tagged_urn_api \<Rightarrow> 't CSLiveCapFab \<Rightarrow> 't CSMediaUrn \<Rightarrow> nat \<Rightarrow> bool \<Rightarrow>
     CSReachableTargetInfo list" where
  "LiveCapFab_getReachableTargets api g src maxDepth isSequence =
     sort_by compare_targets
       (reach_loop api g maxDepth [(src, 0, isSequence, False)] {reach_key api src isSequence False} [])"

end
