(* ===== verification/FabPaths.thy ===== *)
theory FabPaths
  imports Fab
begin

text \<open>
  The path search of \<open>CSLiveCapFab.m\<close> against what it searches for.  A route is a walk through the
  graph, written as the edges it takes with whether the data after each is a sequence; the search
  answers the strands of the routes of at most \<open>maxDepth\<close> steps that meet the target once, at their
  end, and no position twice.
\<close>

type_synonym 't hop = "'t CSLiveMachinePlanEdge \<times> bool"

section \<open>Routes\<close>

text \<open>A position: the media, whether the data is a sequence, whether a ForEach waits for its cap.\<close>

type_synonym 't position = "'t CSMediaUrn \<times> bool \<times> bool"

definition is_foreach :: "'t CSLiveMachinePlanEdge \<Rightarrow> bool" where
  "is_foreach e \<longleftrightarrow> edgeType e = CSLiveMachinePlanEdgeTypeForEach"

definition arrive :: "'t hop \<Rightarrow> 't position" where
  "arrive h = (toSpec (fst h), snd h, is_foreach (fst h))"

text \<open>What can be done with data at a position: a cap whose input the media conforms to, unless it takes
  single items and the data is a sequence; and taking a sequence apart, where some cap takes its items.
  After that only such a cap can follow.\<close>

definition offered :: "'t tagged_urn_api \<Rightarrow> 't CSLiveCapFab \<Rightarrow> 't CSMediaUrn \<Rightarrow> bool \<Rightarrow> 't hop \<Rightarrow> bool" where
  "offered api g m isSequence h \<longleftrightarrow>
     (fst h \<in> set (fab_edges g) \<and> MediaUrn_conformsTo api m (fromSpec (fst h)) \<and>
        (isSequence \<longrightarrow> edge_inputIsSequence (fst h)) \<and> snd h = edge_outputIsSequence (fst h)) \<or>
     (isSequence \<and> h = (LiveMachinePlanEdge_forEachEdge m m, False) \<and>
        (\<exists>e \<in> set (fab_edges g). \<not> edge_inputIsSequence e \<and> MediaUrn_conformsTo api m (fromSpec e)))"

definition can_take :: "'t tagged_urn_api \<Rightarrow> 't CSLiveCapFab \<Rightarrow> 't position \<Rightarrow> 't hop \<Rightarrow> bool" where
  "can_take api g pos h =
     (case pos of (m, isSequence, pending) \<Rightarrow>
        offered api g m isSequence h \<and>
        (pending \<longrightarrow> edgeType (fst h) = CSLiveMachinePlanEdgeTypeCap \<and> \<not> edge_inputIsSequence (fst h)))"

lemma stored_loop_offers:
  "set (stored_loop api m isSequence es) =
     {(e, edge_outputIsSequence e) | e. e \<in> set es \<and> MediaUrn_conformsTo api m (fromSpec e) \<and>
        (isSequence \<longrightarrow> edge_inputIsSequence e)}"
  by (induction es) auto

lemma scalar_consumers_iff:
  "scalar_consumers_loop api m es \<longleftrightarrow>
     (\<exists>e \<in> set es. \<not> edge_inputIsSequence e \<and> MediaUrn_conformsTo api m (fromSpec e))"
  by (induction es) auto

lemma outgoing_offered:
  "h \<in> set (LiveCapFab_getOutgoingEdges api g m isSequence) \<longleftrightarrow> offered api g m isSequence h"
  by (cases h) (auto simp: LiveCapFab_getOutgoingEdges_def Let_def offered_def stored_loop_offers
      scalar_consumers_iff)

lemma can_take_outgoing:
  "can_take api g pos h =
     (case pos of (m, isSequence, pending) \<Rightarrow>
        h \<in> set (LiveCapFab_getOutgoingEdges api g m isSequence) \<and>
        (pending \<longrightarrow> LiveCapFab_canFollowForEach (fst h)))"
  by (simp add: can_take_def outgoing_offered LiveCapFab_canFollowForEach_def split: prod.split)

fun walk :: "'t tagged_urn_api \<Rightarrow> 't CSLiveCapFab \<Rightarrow> 't position \<Rightarrow> 't hop list \<Rightarrow> bool" where
  "walk api g pos [] = True"
| "walk api g pos (h # hs) = (can_take api g pos h \<and> walk api g (arrive h) hs)"

definition goal :: "'t tagged_urn_api \<Rightarrow> 't CSMediaUrn \<Rightarrow> 't position \<Rightarrow> bool" where
  "goal api target pos = (case pos of (m, _, pending) \<Rightarrow> MediaUrn_isEquivalentTo api m target \<and> \<not> pending)"

definition place :: "'t tagged_urn_api \<Rightarrow> 't position \<Rightarrow> string" where
  "place api pos = (case pos of (m, isSequence, _) \<Rightarrow> position_key api m isSequence)"

text \<open>The positions of a walk: the first one and one after every hop.\<close>

definition positions :: "'t position \<Rightarrow> 't hop list \<Rightarrow> 't position list" where
  "positions pos hs = pos # map arrive hs"

definition route ::
    "'t tagged_urn_api \<Rightarrow> 't CSLiveCapFab \<Rightarrow> 't CSMediaUrn \<Rightarrow> 't position \<Rightarrow> 't hop list \<Rightarrow> bool" where
  "route api g target pos hs \<longleftrightarrow>
     walk api g pos hs \<and> goal api target (last (positions pos hs)) \<and>
     (\<forall>p \<in> set (butlast (positions pos hs)). \<not> goal api target p) \<and>
     distinct (map (place api) (positions pos hs))"

section \<open>Only caps are stored\<close>

lemma pushEdgeOfCap_edges:
  "fab_edges (LiveCapFab_pushEdgeOfCap api cap_string g cap f t i out urn) =
     fab_edges g @ [LiveMachinePlanEdge_capEdge f t (capUrn cap) (cap_title cap)
       (CapUrn_specificity (capUrn cap)) i out urn]"
  by (simp add: LiveCapFab_pushEdgeOfCap_def Let_def)

definition caps_only :: "'t CSLiveCapFab \<Rightarrow> bool" where
  "caps_only g \<longleftrightarrow> (\<forall>e \<in> set (fab_edges g). edgeType e = CSLiveMachinePlanEdgeTypeCap)"

lemma caps_only_push:
  "caps_only g \<Longrightarrow> caps_only (LiveCapFab_pushEdgeOfCap api cap_string g cap f t i out urn)"
  by (auto simp: caps_only_def pushEdgeOfCap_edges LiveMachinePlanEdge_capEdge_def)

lemma caps_only_outputs:
  "addCap_outputs api cap_string cap f i main g outs = Inr g' \<Longrightarrow> caps_only g \<Longrightarrow> caps_only g'"
  by (induction api cap_string cap f i main g outs rule: addCap_outputs.induct)
    (auto simp: caps_only_push split: if_splits option.splits)

lemma caps_only_addCap:
  "LiveCapFab_addCap api cap_string g cap = Inr g' \<Longrightarrow> caps_only g \<Longrightarrow> caps_only g'"
  by (auto simp: LiveCapFab_addCap_def Let_def caps_only_push dest!: caps_only_outputs
      split: if_splits option.splits sum.splits)

lemma syncFromCaps_stores_caps_only:
  assumes "LiveCapFab_syncFromCaps api cap_string g caps = Inr g'"
  shows "caps_only g'"
proof -
  have "syncFromCaps_loop api cap_string h caps = Inr g' \<Longrightarrow> caps_only h \<Longrightarrow> caps_only g'" for h
    by (induction caps arbitrary: h) (auto dest: caps_only_addCap split: sum.splits)
  moreover have "caps_only (LiveCapFab_clear g)" by (simp add: caps_only_def LiveCapFab_clear_def)
  ultimately show ?thesis using assms by (simp add: LiveCapFab_syncFromCaps_def)
qed

text \<open>So a search meets caps and ForEach only: no Collect edge is made up anywhere.\<close>

lemma never_collects:
  assumes "caps_only g" and "offered api g m isSequence h"
  shows "edgeType (fst h) \<noteq> CSLiveMachinePlanEdgeTypeCollect"
  using assms by (auto simp: caps_only_def offered_def LiveMachinePlanEdge_forEachEdge_def)

section \<open>The routes in the order the search meets them\<close>

fun routes ::
    "'t tagged_urn_api \<Rightarrow> 't CSLiveCapFab \<Rightarrow> 't CSMediaUrn \<Rightarrow> nat \<Rightarrow> string set \<Rightarrow> 't position \<Rightarrow>
     't hop list list" where
  "routes api g target 0 V pos = (if goal api target pos then [[]] else [])"
| "routes api g target (Suc d) V pos =
     (if goal api target pos then [[]]
      else concat (map (\<lambda>h.
             if can_take api g pos h \<and> place api (arrive h) \<notin> insert (place api pos) V
             then map (Cons h) (routes api g target d (insert (place api pos) V) (arrive h)) else [])
           (LiveCapFab_getOutgoingEdges api g (fst pos) (fst (snd pos)))))"

lemma can_take_edge:
  "can_take api g pos h \<Longrightarrow> h \<in> set (LiveCapFab_getOutgoingEdges api g (fst pos) (fst (snd pos)))"
  by (simp add: can_take_outgoing split: prod.splits)

lemma routes_sound:
  assumes "hs \<in> set (routes api g target d V pos)"
  shows "route api g target pos hs \<and> length hs \<le> d \<and>
    set (map (place api) (map arrive hs)) \<inter> V = {}"
  using assms
proof (induction d arbitrary: V pos hs)
  case 0
  then show ?case by (auto simp: route_def positions_def split: if_splits)
next
  case (Suc d)
  show ?case
  proof (cases "goal api target pos")
    case True
    then show ?thesis using Suc.prems by (simp add: route_def positions_def)
  next
    case False
    then obtain h tl where hs: "hs = h # tl" "can_take api g pos h"
        "place api (arrive h) \<notin> insert (place api pos) V"
        "tl \<in> set (routes api g target d (insert (place api pos) V) (arrive h))"
      using Suc.prems by (auto split: if_splits)
    from Suc.IH [OF hs(4)] show ?thesis
      using hs False by (auto simp: route_def positions_def)
  qed
qed

lemma routes_complete:
  assumes "route api g target pos hs" and "length hs \<le> d"
    and "set (map (place api) (map arrive hs)) \<inter> V = {}"
  shows "hs \<in> set (routes api g target d V pos)"
  using assms
proof (induction hs arbitrary: d V pos)
  case Nil
  then show ?case by (cases d) (simp_all add: route_def positions_def)
next
  case (Cons h hs)
  then obtain d' where d: "d = Suc d'" by (cases d) auto
  have tail: "route api g target (arrive h) hs"
    using Cons.prems(1) by (auto simp: route_def positions_def)
  have "\<not> goal api target pos" "can_take api g pos h"
    using Cons.prems(1) by (auto simp: route_def positions_def)
  moreover have "hs \<in> set (routes api g target d' (insert (place api pos) V) (arrive h))"
    using Cons.prems by (intro Cons.IH tail) (auto simp: d route_def positions_def)
  moreover have "place api (arrive h) \<notin> insert (place api pos) V"
    using Cons.prems by (auto simp: route_def positions_def)
  ultimately show ?case
    using can_take_edge [of api g pos h] by (auto simp: d intro!: bexI [of _ h])
qed

section \<open>The search meets exactly the routes\<close>

abbreviation hop_steps ::
    "'t tagged_urn_api \<Rightarrow> (CSCapUrn \<Rightarrow> string) \<Rightarrow> 't hop list \<Rightarrow> CSStrandStep list" where
  "hop_steps api cap_string hs \<equiv> map (\<lambda>h. step_of_edge api cap_string (fst h)) hs"

lemma stepType_step_of_edge:
  "stepType (step_of_edge api cap_string e) = CSStrandStepTypeForEach \<longleftrightarrow> is_foreach e"
  by (cases "edgeType e") (simp_all add: step_of_edge_def is_foreach_def)

lemma pending_foreach_snoc [simp]:
  "pending_foreach (path @ [step_of_edge api cap_string e]) = is_foreach e"
  by (simp add: pending_foreach_def stepType_step_of_edge)

lemma take_app_take: "take n (take n xs @ ys) = take n (xs @ ys)"
  by (cases "n \<le> length xs") (simp_all add: min_def)

text \<open>The loop over the outgoing edges, for any body that behaves as the search does.\<close>

lemma collecting_foldl:
  assumes "\<And>h found. h \<in> set hs \<Longrightarrow> length found \<le> n \<Longrightarrow>
      step (v, found) h = (v, take n (found @ new h))"
    and "length found \<le> n"
  shows "foldl step (v, found) hs = (v, take n (found @ concat (map new hs)))"
  using assms
proof (induction hs arbitrary: found)
  case Nil
  then show ?case by simp
next
  case (Cons h hs)
  have "foldl step (v, found) (h # hs) = foldl step (v, take n (found @ new h)) hs"
    using Cons.prems by simp
  also have "\<dots> = (v, take n (take n (found @ new h) @ concat (map new hs)))"
    using Cons.prems(1) by (intro Cons.IH) auto
  finally show ?case by (simp only: take_app_take) simp
qed

lemma dfs_routes:
  assumes "length allPaths \<le> maxPaths" and "place api pos \<notin> visited"
    and "pos = (current, isSequence, pending_foreach path)" and "length path \<le> maxDepth"
  shows "dfsFindPaths api cap_string g src target maxDepth maxPaths current path visited allPaths
      isSequence =
    (visited, take maxPaths (allPaths @
       map (\<lambda>hs. strand_of api src target (path @ hop_steps api cap_string hs))
         (routes api g target (maxDepth - length path) visited pos)))"
  using assms
proof (induction "maxDepth - length path" arbitrary: current path visited allPaths isSequence pos)
  case 0
  then show ?case
    by (subst dfsFindPaths.simps) (auto simp: goal_def not_le take_Cons')
next
  case (Suc d)
  let ?dfs = "\<lambda>current path visited allPaths isSequence.
    dfsFindPaths api cap_string g src target maxDepth maxPaths current path visited allPaths isSequence"
  let ?strand = "\<lambda>hs. strand_of api src target (path @ hop_steps api cap_string hs)"
  let ?here = "place api pos"
  let ?step = "\<lambda>(v, found) (e, nextIsSequence).
     if pending_foreach path \<and> \<not> LiveCapFab_canFollowForEach e then (v, found)
     else if position_key api (toSpec e) nextIsSequence \<in> v then (v, found)
     else ?dfs (toSpec e) (path @ [step_of_edge api cap_string e]) v found nextIsSequence"
  let ?out = "LiveCapFab_getOutgoingEdges api g current isSequence"
  let ?new = "\<lambda>h. map ?strand
     (if can_take api g pos h \<and> place api (arrive h) \<notin> insert ?here visited
      then map (Cons h) (routes api g target d (insert ?here visited) (arrive h)) else [])"
  have depth: "\<not> maxDepth \<le> length path" "maxDepth - length path = Suc d"
      "maxDepth - Suc (length path) = d"
    using Suc.hyps(2) by auto
  have body: "?step (insert ?here visited, found) h = (insert ?here visited, take maxPaths (found @ ?new h))"
    if h: "h \<in> set ?out" and found: "length found \<le> maxPaths" for h found
  proof -
    obtain e s where hd: "h = (e, s)" by (cases h)
    have take_iff: "can_take api g pos h \<longleftrightarrow> (pending_foreach path \<longrightarrow> LiveCapFab_canFollowForEach e)"
      using h by (simp add: can_take_outgoing Suc.prems(3) hd)
    have key: "position_key api (toSpec e) s = place api (arrive h)"
      by (simp add: place_def arrive_def hd)
    show ?thesis
    proof (cases "can_take api g pos h \<and> place api (arrive h) \<notin> insert ?here visited")
      case True
      have "?dfs (toSpec e) (path @ [step_of_edge api cap_string e]) (insert ?here visited) found s =
          (insert ?here visited, take maxPaths (found @
            map (\<lambda>hs. strand_of api src target
                (path @ [step_of_edge api cap_string e] @ hop_steps api cap_string hs))
              (routes api g target d (insert ?here visited) (arrive h))))"
        using Suc.hyps(1) [of "path @ [step_of_edge api cap_string e]" found "arrive h"
            "insert ?here visited" "toSpec e" s] True depth found
        by (simp add: arrive_def hd)
      then show ?thesis using True take_iff key by (auto simp: hd comp_def)
    next
      case False
      then show ?thesis using take_iff key found by (auto simp: hd)
    qed
  qed
  show ?case
  proof (cases "maxPaths \<le> length allPaths \<or> goal api target pos")
    case True
    then show ?thesis using Suc.prems(1,3) depth
      by (subst dfsFindPaths.simps) (auto simp: goal_def take_Cons' not_le)
  next
    case False
    have "foldl ?step (insert ?here visited, allPaths) ?out =
        (insert ?here visited, take maxPaths (allPaths @ concat (map ?new ?out)))"
      by (rule collecting_foldl [OF body Suc.prems(1)])
    moreover have "concat (map ?new ?out) = map ?strand (routes api g target (Suc d) visited pos)"
    proof -
      have "fst pos = current" "fst (snd pos) = isSequence" by (simp_all add: Suc.prems(3))
      then show ?thesis using False by (simp add: map_concat comp_def)
    qed
    moreover have here: "?here = position_key api current isSequence"
      by (simp add: place_def Suc.prems(3))
    ultimately have run: "foldl ?step (insert (position_key api current isSequence) visited, allPaths) ?out =
        (insert (position_key api current isSequence) visited,
         take maxPaths (allPaths @ map ?strand (routes api g target (Suc d) visited pos)))"
      by simp
    have "\<not> (MediaUrn_isEquivalentTo api current target \<and> \<not> pending_foreach path)"
      using False by (simp add: goal_def Suc.prems(3))
    with False depth Suc.prems(2) here show ?thesis
      by (subst dfsFindPaths.simps) (auto simp: run simp del: routes.simps)
  qed
qed

section \<open>The order of the answer\<close>

lemma compare_step_keys_le:
  "compare_step_keys as bs \<noteq> NSOrderedDescending \<longleftrightarrow> as \<le> bs"
  by (induction as bs rule: compare_step_keys.induct)
    (auto simp: compare_linorder_def split: NSComparisonResult.splits)

definition path_le :: "CSStrand \<Rightarrow> CSStrand \<Rightarrow> bool" where
  "path_le a b \<longleftrightarrow>
     capStepCount a < capStepCount b \<or>
     capStepCount a = capStepCount b \<and>
       (total_specificity b < total_specificity a \<or>
        total_specificity b = total_specificity a \<and>
          map stepKey (steps a) \<le> map stepKey (steps b))"

interpretation by_quality: comparator LiveCapFab_comparePaths path_le
proof
  show "LiveCapFab_comparePaths x y \<noteq> NSOrderedDescending \<longleftrightarrow> path_le x y" for x y
    using compare_step_keys_le [of "map stepKey (steps x)" "map stepKey (steps y)"]
    by (auto simp: LiveCapFab_comparePaths_def path_le_def)
qed (auto simp: path_le_def)

section \<open>The property\<close>

text \<open>C14: The search for paths to a target is sound, bounded, complete and ordered.  Every strand it
  answers is one of a route: a walk through caps that take what is there (a sequence is taken apart, by a ForEach,
  only for a cap that takes its items, which then follows), that ends at the target, does not pass it before and
  visits no position twice, within the depth.  There are at most \<open>maxPaths\<close>; if there are fewer, no
  route within the depth is missing.  They come by number of cap steps, then the more specific first,
  then by the keys of their steps.\<close>

theorem find_paths_correct:
  assumes "\<not> MediaUrn_isEquivalentTo api src target"
  shows "let found = LiveCapFab_findPathsToExactTarget api cap_string g src target maxDepth maxPaths isSequence
    in (\<forall>s \<in> set found. \<exists>hs. route api g target (src, isSequence, False) hs \<and> length hs \<le> maxDepth \<and>
          s = strand_of api src target (hop_steps api cap_string hs)) \<and>
       length found \<le> maxPaths \<and>
       (length found < maxPaths \<longrightarrow>
          (\<forall>hs. route api g target (src, isSequence, False) hs \<and> length hs \<le> maxDepth \<longrightarrow>
             strand_of api src target (hop_steps api cap_string hs) \<in> set found)) \<and>
       sorted_wrt path_le found"
proof -
  let ?all = "map (\<lambda>hs. strand_of api src target (hop_steps api cap_string hs))
    (routes api g target maxDepth {} (src, isSequence, False))"
  have "\<not> pending_foreach []" by (simp add: pending_foreach_def)
  then have dfs: "dfsFindPaths api cap_string g src target maxDepth maxPaths src [] {} [] isSequence =
      ({}, take maxPaths ?all)"
    by (subst dfs_routes [of "[]" maxPaths api "(src, isSequence, False)" "{}"]) simp_all
  have found: "LiveCapFab_findPathsToExactTarget api cap_string g src target maxDepth maxPaths isSequence =
      sort_by LiveCapFab_comparePaths (take maxPaths ?all)"
    unfolding LiveCapFab_findPathsToExactTarget_def dfs using assms by simp
  have sound: "\<exists>hs. route api g target (src, isSequence, False) hs \<and> length hs \<le> maxDepth \<and>
      s = strand_of api src target (hop_steps api cap_string hs)" if "s \<in> set (take maxPaths ?all)" for s
    using routes_sound [of _ api g target maxDepth "{}" "(src, isSequence, False)"] in_set_takeD [OF that]
    by auto
  have complete: "strand_of api src target (hop_steps api cap_string hs) \<in> set (take maxPaths ?all)"
    if "length (take maxPaths ?all) < maxPaths"
      "route api g target (src, isSequence, False) hs" "length hs \<le> maxDepth" for hs
    using routes_complete [OF that(2,3), of "{}"] that(1) by (auto simp: min_def split: if_splits)
  show ?thesis
    unfolding found Let_def by_quality.set_sort_by by_quality.length_sort_by
  proof (intro conjI)
    show "sorted_wrt path_le (sort_by LiveCapFab_comparePaths (take maxPaths ?all))"
      by (rule by_quality.sorted_sort_by)
  qed (use sound complete in \<open>blast | simp\<close>)+
qed

text \<open>A graph of two caps: one gives the pages of a document, the other takes a page.\<close>

definition sample_urns :: "string tagged_urn_api" where
  "sample_urns =
     \<lparr>tu_fromString = Inr, tu_prefix = (\<lambda>_. ''media''), tu_tags = (\<lambda>_. []),
      tu_getTag = (\<lambda>_ _. None), tu_toString = (\<lambda>s. s), tu_conformsTo = (=), tu_accepts = (=),
      tu_formalValue = (\<lambda>s. \<lparr>scheme = ''media'', tags = []\<rparr>)\<rparr>"

definition sample_cap :: CSCapUrn where
  "sample_cap =
     \<lparr>inSpec = ''media:'', outSpec = ''media:'', effectSpec = ''declared'', mutableTags = fmempty,
      cap_formal = wf_pdf_to_text\<rparr>"

definition pages_edge :: "string CSLiveMachinePlanEdge" where
  "pages_edge = LiveMachinePlanEdge_capEdge (CSMediaUrn ''pdf'') (CSMediaUrn ''page'') sample_cap
     ''pages'' 1 False True None"

definition text_edge :: "string CSLiveMachinePlanEdge" where
  "text_edge = LiveMachinePlanEdge_capEdge (CSMediaUrn ''page'') (CSMediaUrn ''text'') sample_cap
     ''text'' 1 False False None"

definition sample_fab :: "string CSLiveCapFab" where
  "sample_fab = (LiveCapFab_graph None)\<lparr>fab_edges := [pages_edge, text_edge]\<rparr>"

definition split_pages :: "string CSLiveMachinePlanEdge" where
  "split_pages = LiveMachinePlanEdge_forEachEdge (CSMediaUrn ''page'') (CSMediaUrn ''page'')"

lemmas sample_fab_evals = sample_urns_def pages_edge_def text_edge_def sample_fab_def split_pages_def
  LiveMachinePlanEdge_capEdge_def LiveMachinePlanEdge_forEachEdge_def LiveCapFab_graph_def
  LiveCapFab_getOutgoingEdges_def MediaUrn_conformsTo_def MediaUrn_isEquivalentTo_def
  MediaUrn_accepts_def MediaUrn_toString_def LiveCapFab_canFollowForEach_def

lemma sample_route:
  "route sample_urns sample_fab (CSMediaUrn ''text'') (CSMediaUrn ''pdf'', False, False)
     [(pages_edge, True), (split_pages, False), (text_edge, False)]"
  by (simp add: route_def positions_def goal_def place_def position_key_def can_take_outgoing arrive_def
      is_foreach_def sample_fab_evals)

lemma find_paths_correct_witness:
  "LiveCapFab_findPathsToExactTarget sample_urns effectSpec sample_fab (CSMediaUrn ''pdf'')
     (CSMediaUrn ''text'') 5 10 False \<noteq> []"
proof -
  have "\<not> MediaUrn_isEquivalentTo sample_urns (CSMediaUrn ''pdf'') (CSMediaUrn ''text'')"
    by (simp add: sample_fab_evals)
  note correct = find_paths_correct [OF this, of effectSpec sample_fab 5 10 False]
  show ?thesis
    using correct sample_route by (fastforce simp: Let_def)
qed

end
