(* ===== verification/FabReach.thy ===== *)
theory FabReach
  imports FabPaths
begin

text \<open>
  The targets \<open>CSLiveCapFab.m\<close> finds reachable, against walks in the graph: a target is reported
  exactly when a walk within the depth ends with a cap that gives it, with the length of the shortest
  such walk.  The queue is a breadth-first search: the positions in it are met in the order of their
  distance, and differ in it by at most one.
\<close>

section \<open>Distance\<close>

definition gets ::
    "'t tagged_urn_api \<Rightarrow> 't CSLiveCapFab \<Rightarrow> 't position \<Rightarrow> nat \<Rightarrow> string \<Rightarrow> bool" where
  "gets api g start n urn \<longleftrightarrow>
     (\<exists>hs h. walk api g start (hs @ [h]) \<and> length (hs @ [h]) = n \<and> \<not> is_foreach (fst h) \<and>
        MediaUrn_toString api (toSpec (fst h)) = urn)"

inductive reaches ::
    "'t tagged_urn_api \<Rightarrow> 't CSLiveCapFab \<Rightarrow> 't position \<Rightarrow> nat \<Rightarrow> 't position \<Rightarrow> bool"
  for api g start where
  here: "reaches api g start 0 start"
| hop: "reaches api g start n pos \<Longrightarrow> can_take api g pos h \<Longrightarrow> reaches api g start (Suc n) (arrive h)"

lemma walk_append:
  "walk api g pos (hs @ hs') \<longleftrightarrow> walk api g pos hs \<and> walk api g (last (positions pos hs)) hs'"
  by (induction hs arbitrary: pos) (auto simp: positions_def)

lemma reaches_walk:
  "reaches api g start n pos \<Longrightarrow>
     \<exists>hs. walk api g start hs \<and> length hs = n \<and> last (positions start hs) = pos"
proof (induction rule: reaches.induct)
  case here
  then show ?case by (auto simp: positions_def)
next
  case (hop n pos h)
  then obtain hs where hs: "walk api g start hs" "length hs = n" "last (positions start hs) = pos"
    by blast
  then have "walk api g start (hs @ [h]) \<and> length (hs @ [h]) = Suc n \<and>
      last (positions start (hs @ [h])) = arrive h"
    using hop.hyps(2) by (simp add: walk_append) (simp add: positions_def)
  then show ?case by blast
qed

lemma walk_reaches:
  "walk api g start hs \<Longrightarrow> reaches api g start (length hs) (last (positions start hs))"
proof (induction hs rule: rev_induct)
  case Nil
  then show ?case by (simp add: positions_def reaches.here)
next
  case (snoc h hs)
  then show ?case
    using reaches.hop [of api g start "length hs" "last (positions start hs)" h]
    by (simp add: walk_append) (simp add: positions_def)
qed

lemma gets_reaches:
  "gets api g start n urn \<longleftrightarrow>
     (\<exists>k pos h. n = Suc k \<and> reaches api g start k pos \<and> can_take api g pos h \<and>
        \<not> is_foreach (fst h) \<and> MediaUrn_toString api (toSpec (fst h)) = urn)"
proof
  assume "gets api g start n urn"
  then obtain hs h where "walk api g start hs" "can_take api g (last (positions start hs)) h"
      "n = Suc (length hs)" "\<not> is_foreach (fst h)" "MediaUrn_toString api (toSpec (fst h)) = urn"
    by (auto simp: gets_def walk_append)
  then show "\<exists>k pos h. n = Suc k \<and> reaches api g start k pos \<and> can_take api g pos h \<and>
        \<not> is_foreach (fst h) \<and> MediaUrn_toString api (toSpec (fst h)) = urn"
    using walk_reaches by blast
next
  assume "\<exists>k pos h. n = Suc k \<and> reaches api g start k pos \<and> can_take api g pos h \<and>
        \<not> is_foreach (fst h) \<and> MediaUrn_toString api (toSpec (fst h)) = urn"
  then obtain k pos h where k: "n = Suc k" "reaches api g start k pos" "can_take api g pos h"
      "\<not> is_foreach (fst h)" "MediaUrn_toString api (toSpec (fst h)) = urn"
    by blast
  from reaches_walk [OF k(2)] obtain hs where
    "walk api g start hs" "length hs = k" "last (positions start hs) = pos" by blast
  with k show "gets api g start n urn" unfolding gets_def
    by (intro exI [of _ hs] exI [of _ h]) (simp add: walk_append)
qed

section \<open>Keys and results\<close>

definition pos_key :: "'t tagged_urn_api \<Rightarrow> 't position \<Rightarrow> string" where
  "pos_key api pos = (case pos of (m, s, p) \<Rightarrow> reach_key api m s p)"

lemma pos_key_inject:
  assumes "inj (tu_toString api)"
  shows "pos_key api x = pos_key api y \<longleftrightarrow> x = y"
proof -
  obtain m s p m' s' p' where xy: "x = (m, s, p)" "y = (m', s', p')" by (metis prod_cases3)
  have "inner m = inner m' \<longleftrightarrow> m = m'" by (cases m; cases m'; simp)
  then show ?thesis
    using assms by (auto simp: xy pos_key_def reach_key_def flag_def MediaUrn_toString_def inj_eq
        split: if_splits)
qed

lemma hop_key_arrive: "hop_key api h = pos_key api (arrive h)"
  by (simp add: hop_key_def pos_key_def arrive_def is_foreach_def)

text \<open>What the search relies on of a result: its name, depth and display name.\<close>

definition sig :: "CSReachableTargetInfo \<Rightarrow> string \<times> nat \<times> string" where
  "sig i = (info_mediaUrn i, minDepth i, displayName i)"

lemma count_target_sig:
  "map sig (count_target urn d is) =
     (if urn \<in> info_mediaUrn ` set is then map sig is else map sig is @ [(urn, d, urn)])"
  by (induction "is") (auto simp: sig_def)

definition records :: "CSReachableTargetInfo list \<Rightarrow> (string \<times> nat \<times> string) set" where
  "records is = sig ` set is"

definition hop_urn :: "'t tagged_urn_api \<Rightarrow> 't hop \<Rightarrow> string" where
  "hop_urn api h = MediaUrn_toString api (toSpec (fst h))"

lemma records_hop_record:
  "records (hop_record api d h is) =
     records is \<union> (if is_foreach (fst h) \<or> hop_urn api h \<in> fst ` records is then {}
       else {(hop_urn api h, d, hop_urn api h)})"
proof -
  have "fst ` records is = info_mediaUrn ` set is" by (force simp: records_def sig_def)
  moreover have "records (count_target u d is) = set (map sig (count_target u d is))" for u
    by (simp add: records_def)
  ultimately show ?thesis
    by (auto simp: hop_record_def is_foreach_def hop_urn_def count_target_sig records_def)
qed

lemma count_target_names:
  "map info_mediaUrn (count_target urn d is) =
     (if urn \<in> info_mediaUrn ` set is then map info_mediaUrn is else map info_mediaUrn is @ [urn])"
  by (induction "is") auto

lemma distinct_hop_record:
  "distinct (map info_mediaUrn is) \<Longrightarrow> distinct (map info_mediaUrn (hop_record api d h is))"
  by (auto simp: hop_record_def count_target_names)

lemma fold_hop_record:
  "records is \<subseteq> records (fold (hop_record api d) hs is) \<and>
   records (fold (hop_record api d) hs is) \<subseteq>
     records is \<union> {(hop_urn api h, d, hop_urn api h) | h. h \<in> set hs \<and> \<not> is_foreach (fst h)} \<and>
   (\<forall>h \<in> set hs. \<not> is_foreach (fst h) \<longrightarrow> hop_urn api h \<in> fst ` records (fold (hop_record api d) hs is)) \<and>
   (distinct (map info_mediaUrn is) \<longrightarrow> distinct (map info_mediaUrn (fold (hop_record api d) hs is)))"
proof (induction hs arbitrary: "is")
  case Nil
  then show ?case by simp
next
  case (Cons h hs)
  let ?is = "hop_record api d h is"
  let ?all = "fold (hop_record api d) (h # hs) is"
  have h: "\<not> is_foreach (fst h) \<Longrightarrow> hop_urn api h \<in> fst ` records ?is"
    "records is \<subseteq> records ?is"
    "records ?is \<subseteq> records is \<union> {(hop_urn api h, d, hop_urn api h) | x. \<not> is_foreach (fst h)}"
    by (auto simp: records_hop_record)
  have ih: "records ?is \<subseteq> records ?all"
    "records ?all \<subseteq> records ?is \<union>
       {(hop_urn api h, d, hop_urn api h) | h. h \<in> set hs \<and> \<not> is_foreach (fst h)}"
    "\<forall>h \<in> set hs. \<not> is_foreach (fst h) \<longrightarrow> hop_urn api h \<in> fst ` records ?all"
    "distinct (map info_mediaUrn ?is) \<longrightarrow> distinct (map info_mediaUrn ?all)"
    using Cons.IH [of ?is] by simp_all
  show ?case
  proof (intro conjI)
    show "records is \<subseteq> records ?all" using h(2) ih(1) by (rule subset_trans)
    show "records ?all \<subseteq> records is \<union>
        {(hop_urn api h', d, hop_urn api h') | h'. h' \<in> set (h # hs) \<and> \<not> is_foreach (fst h')}"
      using ih(2) h(3) by (cases h) (auto dest!: subsetD)
    show "\<forall>h' \<in> set (h # hs). \<not> is_foreach (fst h') \<longrightarrow> hop_urn api h' \<in> fst ` records ?all"
      using ih(1,3) h(1) by (auto dest: subsetD)
    show "distinct (map info_mediaUrn is) \<longrightarrow> distinct (map info_mediaUrn ?all)"
      using ih(4) distinct_hop_record [of "is" api d h] by blast
  qed
qed

section \<open>The invariant of the queue\<close>

text \<open>Every position met has a depth \<open>\<delta>\<close>, the length of a walk to it.  A position met is still in the
  queue, too deep to go on from, or expanded: all it leads to is met and recorded, one step deeper at
  most.  The queue is sorted by depth, and nothing met is more than one step deeper than its head.\<close>

definition item_pos :: "'t reach_item \<Rightarrow> 't position" where
  "item_pos it = (case it of (m, d, s, p) \<Rightarrow> (m, s, p))"

definition item_depth :: "'t reach_item \<Rightarrow> nat" where
  "item_depth it = fst (snd it)"

lemma item_hop [simp]: "item_pos (hop_item d h) = arrive h" "item_depth (hop_item d h) = d"
  by (simp_all add: item_pos_def item_depth_def hop_item_def arrive_def is_foreach_def)

definition expanded where
  "expanded api g \<delta> V R x \<longleftrightarrow>
     (\<forall>h. can_take api g x h \<longrightarrow>
        pos_key api (arrive h) \<in> V \<and> \<delta> (arrive h) \<le> Suc (\<delta> x) \<and>
        (\<not> is_foreach (fst h) \<longrightarrow>
           (\<exists>n \<le> Suc (\<delta> x). (hop_urn api h, n, hop_urn api h) \<in> records R)))"

definition reach_inv where
  "reach_inv api g start maxDepth \<delta> Q V R \<longleftrightarrow>
     pos_key api start \<in> V \<and> \<delta> start = 0 \<and>
     (\<forall>it \<in> set Q. pos_key api (item_pos it) \<in> V \<and> \<delta> (item_pos it) = item_depth it) \<and>
     (\<forall>x. pos_key api x \<in> V \<longrightarrow> reaches api g start (\<delta> x) x) \<and>
     (\<forall>x. pos_key api x \<in> V \<longrightarrow>
        x \<in> item_pos ` set Q \<or> maxDepth \<le> \<delta> x \<or> expanded api g \<delta> V R x) \<and>
     sorted (map item_depth Q) \<and>
     (Q \<noteq> [] \<longrightarrow> (\<forall>x. pos_key api x \<in> V \<longrightarrow> \<delta> x \<le> Suc (item_depth (hd Q))) \<and>
        (\<forall>u n t. (u, n, t) \<in> records R \<longrightarrow> n \<le> Suc (item_depth (hd Q)))) \<and>
     (\<forall>u n t. (u, n, t) \<in> records R \<longrightarrow> gets api g start n u \<and> n \<le> maxDepth \<and> t = u) \<and>
     distinct (map info_mediaUrn R)"

lemma reach_inv_start:
  assumes "inj (tu_toString api)"
  shows "reach_inv api g (src, isSequence, False) maxDepth (\<lambda>_. 0) [(src, 0, isSequence, False)]
    {reach_key api src isSequence False} []"
proof -
  have "pos_key api x = reach_key api src isSequence False \<longleftrightarrow> x = (src, isSequence, False)" for x
    using pos_key_inject [OF assms, of x "(src, isSequence, False)"] by (simp add: pos_key_def)
  then show ?thesis
    by (simp add: reach_inv_def item_pos_def item_depth_def records_def reaches.here)
qed

lemma reach_invD:
  assumes "reach_inv api g start maxDepth \<delta> Q V R"
  shows "pos_key api start \<in> V" and "\<delta> start = 0"
    and "it \<in> set Q \<Longrightarrow> pos_key api (item_pos it) \<in> V"
    and "it \<in> set Q \<Longrightarrow> \<delta> (item_pos it) = item_depth it"
    and "pos_key api x \<in> V \<Longrightarrow> reaches api g start (\<delta> x) x"
    and "pos_key api x \<in> V \<Longrightarrow>
       x \<in> item_pos ` set Q \<or> maxDepth \<le> \<delta> x \<or> expanded api g \<delta> V R x"
    and "sorted (map item_depth Q)"
    and "Q \<noteq> [] \<Longrightarrow> pos_key api x \<in> V \<Longrightarrow> \<delta> x \<le> Suc (item_depth (hd Q))"
    and "Q \<noteq> [] \<Longrightarrow> (u, n, t) \<in> records R \<Longrightarrow> n \<le> Suc (item_depth (hd Q))"
    and "(u, n, t) \<in> records R \<Longrightarrow> gets api g start n u"
    and "(u, n, t) \<in> records R \<Longrightarrow> n \<le> maxDepth"
    and "(u, n, t) \<in> records R \<Longrightarrow> t = u"
    and "distinct (map info_mediaUrn R)"
  using assms unfolding reach_inv_def by (elim conjE; blast)+

lemma reach_invI:
  assumes "pos_key api start \<in> V" and "\<delta> start = 0"
    and "\<And>it. it \<in> set Q \<Longrightarrow> pos_key api (item_pos it) \<in> V"
    and "\<And>it. it \<in> set Q \<Longrightarrow> \<delta> (item_pos it) = item_depth it"
    and "\<And>x. pos_key api x \<in> V \<Longrightarrow> reaches api g start (\<delta> x) x"
    and "\<And>x. pos_key api x \<in> V \<Longrightarrow>
       x \<in> item_pos ` set Q \<or> maxDepth \<le> \<delta> x \<or> expanded api g \<delta> V R x"
    and "sorted (map item_depth Q)"
    and "\<And>x. Q \<noteq> [] \<Longrightarrow> pos_key api x \<in> V \<Longrightarrow> \<delta> x \<le> Suc (item_depth (hd Q))"
    and "\<And>u n t. Q \<noteq> [] \<Longrightarrow> (u, n, t) \<in> records R \<Longrightarrow> n \<le> Suc (item_depth (hd Q))"
    and "\<And>u n t. (u, n, t) \<in> records R \<Longrightarrow> gets api g start n u \<and> n \<le> maxDepth \<and> t = u"
    and "distinct (map info_mediaUrn R)"
  shows "reach_inv api g start maxDepth \<delta> Q V R"
  unfolding reach_inv_def using assms by (intro conjI allI ballI impI) blast+

lemma queue_head_le:
  assumes "reach_inv api g start maxDepth \<delta> (it # Q) V R" and "Q \<noteq> []"
  shows "item_depth it \<le> item_depth (hd Q)"
  using reach_invD(7) [OF assms(1)] assms(2) by (cases Q) auto

lemma reach_inv_skip:
  assumes inv: "reach_inv api g start maxDepth \<delta> (it # Q) V R" and deep: "maxDepth \<le> item_depth it"
  shows "reach_inv api g start maxDepth \<delta> Q V R"
proof (rule reach_invI)
  note d = reach_invD [OF inv]
  show "x \<in> item_pos ` set Q \<or> maxDepth \<le> \<delta> x \<or> expanded api g \<delta> V R x"
    if "pos_key api x \<in> V" for x
    using d(6) [OF that] d(4) [of it] deep by auto
  show "\<delta> x \<le> Suc (item_depth (hd Q))" if "Q \<noteq> []" "pos_key api x \<in> V" for x
    using d(8) [OF _ that(2)] queue_head_le [OF inv that(1)] by simp
  show "n \<le> Suc (item_depth (hd Q))" if "Q \<noteq> []" "(u, n, t) \<in> records R" for u n t
    using d(9) [OF _ that(2)] queue_head_le [OF inv that(1)] by simp
  show "sorted (map item_depth Q)" using d(7) by simp
qed (use reach_invD [OF inv] in auto)

lemma can_take_iff:
  "can_take api g (m, s, p) h \<longleftrightarrow>
     h \<in> set (filter (hop_taken p) (LiveCapFab_getOutgoingEdges api g m s))"
  by (auto simp: can_take_outgoing hop_taken_def)

lemma reach_inv_step:
  assumes inj: "inj (tu_toString api)"
    and inv: "reach_inv api g start maxDepth \<delta> ((m, d, s, p) # Q) V R"
    and depth: "d < maxDepth"
    and step: "reach_edges api d p (LiveCapFab_getOutgoingEdges api g m s) R V Q = (R', V', Q')"
  shows "reach_inv api g start maxDepth
    (\<lambda>y. if pos_key api y \<in> V then \<delta> y else Suc d) Q' V' R'"
proof -
  let ?x = "(m, s, p)" and ?\<delta> = "\<lambda>y. if pos_key api y \<in> V then \<delta> y else Suc d"
  let ?T = "filter (hop_taken p) (LiveCapFab_getOutgoingEdges api g m s)"
  note inv_d = reach_invD [OF inv]
  from reach_edges_spec [OF step] obtain new where
    R': "R' = fold (hop_record api (Suc d)) ?T R" and
    V': "V' = V \<union> hop_key api ` set ?T" and
    Q': "Q' = Q @ map (hop_item (Suc d)) new" and
    new: "set new \<subseteq> set ?T" "hop_key api ` set new = hop_key api ` set ?T - V"
    by auto
  note rec = fold_hop_record [of R api "Suc d" ?T, folded R']
  have xi: "item_pos (m, d, s, p) = ?x" by (simp add: item_pos_def)
  have x: "\<delta> ?x = d" "pos_key api ?x \<in> V"
    using inv_d(3,4) [of "(m, d, s, p)"] by (simp_all add: item_pos_def item_depth_def)
  have take_T: "can_take api g ?x h \<longleftrightarrow> h \<in> set ?T" for h by (rule can_take_iff)
  have near: "\<delta> y \<le> Suc d" if "pos_key api y \<in> V" for y
    using inv_d(8) [OF _ that] by (simp add: item_depth_def)
  have near_r: "n \<le> Suc d" if "(u, n, t) \<in> records R'" for u n t
    using rec that inv_d(9) [of u n t] by (auto simp: item_depth_def)
  have at: "\<exists>h \<in> set hs. y = arrive h" if "pos_key api y \<in> hop_key api ` set hs" for y hs
  proof -
    from that obtain h where "h \<in> set hs" "pos_key api y = hop_key api h" by blast
    then show ?thesis using pos_key_inject [OF inj, of y "arrive h"] by (auto simp: hop_key_arrive)
  qed
  have fresh: "\<exists>h \<in> set ?T. y = arrive h" if "pos_key api y \<in> V'" "pos_key api y \<notin> V" for y
    using that V' by (intro at) blast
  have queued: "y \<in> item_pos ` set Q'" if "pos_key api y \<in> V'" "pos_key api y \<notin> V" for y
  proof -
    have "pos_key api y \<in> hop_key api ` set new" using that V' new(2) by auto
    from at [OF this] show ?thesis by (force simp: Q')
  qed
  have head: "d \<le> item_depth (hd Q')" if "Q' \<noteq> []"
    using that queue_head_le [OF inv] by (cases Q; cases new) (auto simp: Q' item_depth_def hop_item_def)
  have expand: "expanded api g ?\<delta> V' R' ?x"
    unfolding expanded_def
  proof (intro allI impI conjI)
    fix h assume h: "can_take api g ?x h"
    then show "pos_key api (arrive h) \<in> V'" by (auto simp: take_T V' hop_key_arrive)
    show "?\<delta> (arrive h) \<le> Suc (?\<delta> ?x)" using near x by auto
    assume "\<not> is_foreach (fst h)"
    then have "hop_urn api h \<in> fst ` records R'" using rec h take_T by blast
    then obtain n t where nt: "(hop_urn api h, n, t) \<in> records R'" by force
    moreover have "t = hop_urn api h" using nt rec inv_d(12) [of "hop_urn api h" n t] by auto
    ultimately show "\<exists>n \<le> Suc (?\<delta> ?x). (hop_urn api h, n, hop_urn api h) \<in> records R'"
      using near_r x by auto
  qed
  have keep: "expanded api g ?\<delta> V' R' y" if "expanded api g \<delta> V R y" "pos_key api y \<in> V" for y
  proof -
    have "records R \<subseteq> records R'" using rec by blast
    then show ?thesis using that unfolding expanded_def V' by simp blast
  qed
  show ?thesis
  proof (rule reach_invI)
    show "pos_key api start \<in> V'" "?\<delta> start = 0" using inv_d(1,2) by (simp_all add: V')
    fix it assume it: "it \<in> set Q'"
    then show "pos_key api (item_pos it) \<in> V'"
      using inv_d(3) [of it] new(1) by (auto simp: Q' V' hop_key_arrive)
    show "?\<delta> (item_pos it) = item_depth it"
    proof (cases "it \<in> set Q")
      case True
      then show ?thesis using inv_d(3,4) [of it] by simp
    next
      case False
      then obtain h where h: "h \<in> set new" "it = hop_item (Suc d) h" using it by (auto simp: Q')
      then have "pos_key api (arrive h) \<notin> V" using new(2) by (auto simp: hop_key_arrive)
      then show ?thesis by (simp add: h)
    qed
  next
    fix y assume y: "pos_key api y \<in> V'"
    show "reaches api g start (?\<delta> y) y"
    proof (cases "pos_key api y \<in> V")
      case True
      then show ?thesis using inv_d(5) by simp
    next
      case False
      with fresh [OF y] obtain h where "can_take api g ?x h" "y = arrive h" using take_T by blast
      then show ?thesis using False reaches.hop [OF inv_d(5) [OF x(2)]] x(1) by simp
    qed
    show "y \<in> item_pos ` set Q' \<or> maxDepth \<le> ?\<delta> y \<or> expanded api g ?\<delta> V' R' y"
    proof (cases "pos_key api y \<in> V")
      case True
      from inv_d(6) [OF this] consider "y = ?x" | "y \<in> item_pos ` set Q" | "maxDepth \<le> \<delta> y"
        | "expanded api g \<delta> V R y"
        unfolding list.set image_insert xi by blast
      then show ?thesis using expand keep [OF _ True] True by cases (auto simp: Q')
    next
      case False
      then show ?thesis using queued [OF y] by simp
    qed
    show "?\<delta> y \<le> Suc (item_depth (hd Q'))" if "Q' \<noteq> []"
      using near [of y] head [OF that] by auto
  next
    have "item_depth it \<le> Suc d" if "it \<in> set Q" for it
      using near [OF inv_d(3)] inv_d(4) that by (metis list.set_intros(2))
    then show "sorted (map item_depth Q')"
      using inv_d(7) by (auto simp: Q' sorted_append comp_def map_replicate_const)
    show "n \<le> Suc (item_depth (hd Q'))" if "Q' \<noteq> []" "(u, n, t) \<in> records R'" for u n t
      using near_r [OF that(2)] head [OF that(1)] by simp
    show "gets api g start n u \<and> n \<le> maxDepth \<and> t = u" if r: "(u, n, t) \<in> records R'" for u n t
    proof (cases "(u, n, t) \<in> records R")
      case True
      then show ?thesis using inv_d(10-12) by blast
    next
      case False
      then obtain h where h: "h \<in> set ?T" "\<not> is_foreach (fst h)"
          "u = hop_urn api h" "n = Suc d" "t = u"
        using rec r by auto
      have "reaches api g start d ?x" using inv_d(5) [OF x(2)] x(1) by simp
      then have "gets api g start (Suc d) (hop_urn api h)"
        unfolding gets_reaches hop_urn_def using h(1,2) take_T [of h] by blast
      then show ?thesis using depth h by simp
    qed
    show "distinct (map info_mediaUrn R')" using rec inv_d(13) by blast
  qed
qed

section \<open>The property\<close>

lemma reach_loop_inv:
  assumes "inj (tu_toString api)" and "reach_inv api g start maxDepth \<delta> Q V R"
  shows "\<exists>\<delta>' V'. reach_inv api g start maxDepth \<delta>' [] V' (reach_loop api g maxDepth Q V R)"
  using assms
proof (induction api g maxDepth Q V R arbitrary: \<delta> rule: reach_loop.induct)
  case 1
  then show ?case by (auto simp: reach_loop.simps)
next
  case (2 api g maxDepth m d s p Q V R)
  show ?case
  proof (cases "maxDepth \<le> d")
    case True
    then have "reach_inv api g start maxDepth \<delta> Q V R"
      by (intro reach_inv_skip [OF "2.prems"(2)]) (simp add: item_depth_def)
    from "2.IH"(1) [OF True "2.prems"(1) this] True show ?thesis by (simp add: reach_loop.simps)
  next
    case False
    then have "d < maxDepth" by simp
    obtain R' V' Q' where step:
      "reach_edges api d p (LiveCapFab_getOutgoingEdges api g m s) R V Q = (R', V', Q')"
      by (metis prod_cases3)
    from reach_inv_step [OF "2.prems" \<open>d < maxDepth\<close> step]
    have "reach_inv api g start maxDepth (\<lambda>y. if pos_key api y \<in> V then \<delta> y else Suc d) Q' V' R'" .
    from "2.IH"(2) [OF False step [symmetric] refl "2.prems"(1) this] show ?thesis
      using False step by (simp add: reach_loop.simps)
  qed
qed

lemma reach_inv_end:
  assumes inv: "reach_inv api g start maxDepth \<delta> [] V R" and "reaches api g start n x" and "n \<le> maxDepth"
  shows "pos_key api x \<in> V \<and> \<delta> x \<le> n"
  using assms(2,3)
proof (induction rule: reaches.induct)
  case here
  then show ?case using reach_invD(1,2) [OF inv] by simp
next
  case (hop n pos h)
  then have "pos_key api pos \<in> V" "\<delta> pos \<le> n" by simp_all
  then have "expanded api g \<delta> V R pos"
    using reach_invD(6) [OF inv, of pos] hop.prems by auto
  with hop.hyps(2) have "pos_key api (arrive h) \<in> V" "\<delta> (arrive h) \<le> Suc (\<delta> pos)"
    unfolding expanded_def by blast+
  with \<open>\<delta> pos \<le> n\<close> show ?case by simp
qed

definition target_le :: "CSReachableTargetInfo \<Rightarrow> CSReachableTargetInfo \<Rightarrow> bool" where
  "target_le a b \<longleftrightarrow>
     minDepth a < minDepth b \<or> minDepth a = minDepth b \<and> displayName a \<le> displayName b"

interpretation by_depth: comparator compare_targets target_le
  by unfold_locales (auto simp: compare_targets_def compare_linorder_def target_le_def)

text \<open>C33: The reachable targets are exact: every target reported is given by the last cap of a walk of
  \<open>minDepth\<close> hops, within the depth, and by no shorter one; every target a walk within the depth ends
  with is reported; no target is reported twice; and they come by depth, then by name.  The search
  ends on every graph, cyclic ones included.\<close>

theorem reachable_targets_exact:
  assumes "inj (tu_toString api)"
  shows "let found = LiveCapFab_getReachableTargets api g src maxDepth isSequence;
      gets_in = gets api g (src, isSequence, False)
    in (\<forall>i \<in> set found. gets_in (minDepth i) (info_mediaUrn i) \<and> minDepth i \<le> maxDepth \<and>
          (\<forall>n. gets_in n (info_mediaUrn i) \<longrightarrow> minDepth i \<le> n) \<and> displayName i = info_mediaUrn i) \<and>
       (\<forall>n urn. gets_in n urn \<and> n \<le> maxDepth \<longrightarrow> (\<exists>i \<in> set found. info_mediaUrn i = urn)) \<and>
       card (info_mediaUrn ` set found) = length found \<and> sorted_wrt target_le found"
proof -
  let ?start = "(src, isSequence, False)"
  let ?R = "reach_loop api g maxDepth [(src, 0, isSequence, False)]
    {reach_key api src isSequence False} []"
  from reach_loop_inv [OF assms reach_inv_start [OF assms]] obtain \<delta> V where
    inv: "reach_inv api g ?start maxDepth \<delta> [] V ?R" by blast
  note inv_d = reach_invD [OF inv]
  have sound: "gets api g ?start (minDepth i) (info_mediaUrn i)" "minDepth i \<le> maxDepth"
    "displayName i = info_mediaUrn i" if "i \<in> set ?R" for i
    using inv_d(10-12) [of "info_mediaUrn i" "minDepth i" "displayName i"] that
    by (auto simp: records_def sig_def)
  have listed: "\<exists>i \<in> set ?R. info_mediaUrn i = urn \<and> minDepth i \<le> n"
    if n: "gets api g ?start n urn" "n \<le> maxDepth" for n urn
  proof -
    obtain k x h where k: "n = Suc k" "reaches api g ?start k x" "can_take api g x h"
        "\<not> is_foreach (fst h)" "hop_urn api h = urn"
      using n(1) by (auto simp: gets_reaches hop_urn_def)
    with reach_inv_end [OF inv k(2)] n(2) have "pos_key api x \<in> V" "\<delta> x \<le> k" by auto
    with k(1) n(2) inv_d(6) [of x] have "expanded api g \<delta> V ?R x" by auto
    with k(3-5) obtain n' where "n' \<le> Suc (\<delta> x)" "(urn, n', urn) \<in> records ?R"
      unfolding expanded_def by blast
    with \<open>\<delta> x \<le> k\<close> k(1) show ?thesis by (auto simp: records_def sig_def)
  qed
  have unique: "i = j" if "i \<in> set ?R" "j \<in> set ?R" "info_mediaUrn i = info_mediaUrn j" for i j
    using inv_d(13) that by (auto simp: distinct_map inj_on_def)
  have least: "minDepth i \<le> n" if i: "i \<in> set ?R" "gets api g ?start n (info_mediaUrn i)" for i n
  proof (cases "n \<le> maxDepth")
    case True
    with listed [OF i(2)] unique [OF i(1)] show ?thesis by metis
  next
    case False
    with sound(2) [OF i(1)] show ?thesis by simp
  qed
  have "card (info_mediaUrn ` set ?R) = length ?R"
    using inv_d(13) by (metis distinct_card length_map set_map)
  then show ?thesis
    using sound least listed
    by (simp add: LiveCapFab_getReachableTargets_def by_depth.sorted_sort_by) blast
qed

lemma reachable_targets_exact_witness:
  "\<exists>i \<in> set (LiveCapFab_getReachableTargets sample_urns sample_fab (CSMediaUrn ''pdf'') 5 False).
     info_mediaUrn i = ''text''"
proof -
  have "inj (tu_toString sample_urns)" by (simp add: sample_urns_def inj_def)
  from reachable_targets_exact [OF this, of sample_fab "CSMediaUrn ''pdf''" 5 False]
  have "\<forall>n urn. gets sample_urns sample_fab (CSMediaUrn ''pdf'', False, False) n urn \<and> n \<le> 5 \<longrightarrow>
      (\<exists>i \<in> set (LiveCapFab_getReachableTargets sample_urns sample_fab (CSMediaUrn ''pdf'') 5 False).
        info_mediaUrn i = urn)"
    by (simp add: Let_def)
  moreover have "gets sample_urns sample_fab (CSMediaUrn ''pdf'', False, False) 3 ''text''"
    unfolding gets_def
    by (intro exI [of _ "[(pages_edge, True), (split_pages, False)]"] exI [of _ "(text_edge, False)"])
      (simp add: can_take_outgoing arrive_def is_foreach_def sample_fab_evals)
  ultimately show ?thesis by (meson numeral_le_iff semiring_norm(68) semiring_norm(71) semiring_norm(73))
qed

end
