(* ===== verification/Adapters.thy ===== *)
theory Adapters
  imports MediaUrn
begin

text \<open>
  The registry of content inspection adapters (\<open>InputResolver/CSMediaAdapters.m\<close>): cartridges
  register, group by group, the media URNs their adapters inspect, and no two registered URNs may be
  such that one conforms to the other.  A group is registered whole or not at all, and registering it
  again changes nothing.
\<close>

record 't CSRegisteredAdapter =
  ra_mediaUrn :: "'t CSMediaUrn"
  ra_urnString :: string
  ra_groupName :: string
  ra_cartridgeId :: string

datatype 't adapter_error =
    Adapter_urn_invalid string
  | Adapter_conflict "'t CSRegisteredAdapter" "'t CSRegisteredAdapter"
  | Adapter_conflict_in_group "'t CSRegisteredAdapter" "'t CSRegisteredAdapter"

definition adapters_clash ::
    "'t tagged_urn_api \<Rightarrow> 't CSRegisteredAdapter \<Rightarrow> 't CSRegisteredAdapter \<Rightarrow> bool" where
  "adapters_clash api a b \<longleftrightarrow>
     MediaUrn_conformsTo api (ra_mediaUrn a) (ra_mediaUrn b) \<or>
     MediaUrn_conformsTo api (ra_mediaUrn b) (ra_mediaUrn a)"

fun parse_adapters ::
    "'t tagged_urn_api \<Rightarrow> string \<Rightarrow> string \<Rightarrow> string list \<Rightarrow>
     't adapter_error + 't CSRegisteredAdapter list" where
  "parse_adapters api grp cartridge [] = Inr []"
| "parse_adapters api grp cartridge (u # us) =
     (case media_of api u of
        None \<Rightarrow> Inl (Adapter_urn_invalid u)
      | Some m \<Rightarrow>
          (case parse_adapters api grp cartridge us of
             Inl e \<Rightarrow> Inl e
           | Inr rest \<Rightarrow>
               Inr (\<lparr>ra_mediaUrn = m, ra_urnString = u, ra_groupName = grp,
                     ra_cartridgeId = cartridge\<rparr> # rest)))"

definition already_registered ::
    "'t tagged_urn_api \<Rightarrow> 't CSRegisteredAdapter list \<Rightarrow> string \<Rightarrow> string \<Rightarrow>
     't CSRegisteredAdapter \<Rightarrow> bool" where
  "already_registered api existing grp cartridge new \<longleftrightarrow>
     list_ex (\<lambda>e. ra_cartridgeId e = cartridge \<and> ra_groupName e = grp \<and>
       MediaUrn_isEquivalentTo api (ra_mediaUrn e) (ra_mediaUrn new)) existing"

fun clash_with_existing ::
    "'t tagged_urn_api \<Rightarrow> 't CSRegisteredAdapter list \<Rightarrow> 't CSRegisteredAdapter list \<Rightarrow>
     't adapter_error option" where
  "clash_with_existing api existing [] = None"
| "clash_with_existing api existing (new # news) =
     (case find (\<lambda>e. adapters_clash api new e) existing of
        Some e \<Rightarrow> Some (Adapter_conflict new e)
      | None \<Rightarrow> clash_with_existing api existing news)"

fun clash_in_group ::
    "'t tagged_urn_api \<Rightarrow> 't CSRegisteredAdapter list \<Rightarrow> 't adapter_error option" where
  "clash_in_group api [] = None"
| "clash_in_group api (a # as) =
     (case find (\<lambda>b. adapters_clash api a b) as of
        Some b \<Rightarrow> Some (Adapter_conflict_in_group a b)
      | None \<Rightarrow> clash_in_group api as)"

definition MediaAdapterRegistry_registerCapGroup ::
    "'t tagged_urn_api \<Rightarrow> 't CSRegisteredAdapter list \<Rightarrow> string \<Rightarrow> string list \<Rightarrow> string \<Rightarrow>
     't adapter_error + 't CSRegisteredAdapter list" where
  "MediaAdapterRegistry_registerCapGroup api existing grp urns cartridge =
     (case parse_adapters api grp cartridge urns of
        Inl e \<Rightarrow> Inl e
      | Inr news \<Rightarrow>
          (let fresh = filter (\<lambda>n. \<not> already_registered api existing grp cartridge n) news
           in case clash_with_existing api existing fresh of
                Some e \<Rightarrow> Inl e
              | None \<Rightarrow>
                  (case clash_in_group api news of
                     Some e \<Rightarrow> Inl e
                   | None \<Rightarrow> Inr (existing @ fresh))))"

text \<open>Looking up the cartridges for a file name extension; the extension index is the fabric
  registry's.\<close>

fun adapter_ids ::
    "'t tagged_urn_api \<Rightarrow> 't CSMediaUrn list \<Rightarrow> 't CSRegisteredAdapter list \<Rightarrow> string list \<Rightarrow> string list" where
  "adapter_ids api candidates [] acc = acc"
| "adapter_ids api candidates (r # rs) acc =
     adapter_ids api candidates rs
       (if list_ex (\<lambda>c. MediaUrn_conformsTo api c (ra_mediaUrn r)) candidates \<and> ra_cartridgeId r \<notin> set acc
        then acc @ [ra_cartridgeId r] else acc)"

definition MediaAdapterRegistry_cartridgeIdsForExtension ::
    "'t tagged_urn_api \<Rightarrow> (string \<Rightarrow> string list option) \<Rightarrow> 't CSRegisteredAdapter list \<Rightarrow> string \<Rightarrow>
     string list" where
  "MediaAdapterRegistry_cartridgeIdsForExtension api mediaUrnsForExtension registered ext =
     (case mediaUrnsForExtension ext of
        None \<Rightarrow> []
      | Some urns \<Rightarrow>
          (if urns = [] then []
           else adapter_ids api (List.map_filter (media_of api) urns) registered []))"

definition MediaAdapterRegistry_hasAdapterForExtension ::
    "'t tagged_urn_api \<Rightarrow> (string \<Rightarrow> string list option) \<Rightarrow> 't CSRegisteredAdapter list \<Rightarrow> string \<Rightarrow>
     bool" where
  "MediaAdapterRegistry_hasAdapterForExtension api mediaUrnsForExtension registered ext \<longleftrightarrow>
     0 < length (MediaAdapterRegistry_cartridgeIdsForExtension api mediaUrnsForExtension registered ext)"

section \<open>Lemmas\<close>

text \<open>No ambiguity: no two entries clash.\<close>

definition unambiguous :: "'t tagged_urn_api \<Rightarrow> 't CSRegisteredAdapter list \<Rightarrow> bool" where
  "unambiguous api as \<longleftrightarrow> sorted_wrt (\<lambda>a b. \<not> adapters_clash api a b) as"

lemma adapters_clash_sym: "adapters_clash api a b \<Longrightarrow> adapters_clash api b a"
  by (auto simp: adapters_clash_def)

lemma clash_with_existing_None:
  "clash_with_existing api existing news = None \<longleftrightarrow>
     (\<forall>n \<in> set news. \<forall>e \<in> set existing. \<not> adapters_clash api n e)"
  by (induction news) (auto simp: find_None_iff find_Some_iff split: option.splits)

lemma clash_in_group_None: "clash_in_group api news = None \<longleftrightarrow> unambiguous api news"
  by (induction news) (auto simp: unambiguous_def find_None_iff find_Some_iff split: option.splits)

lemma unambiguous_filter: "unambiguous api as \<Longrightarrow> unambiguous api (filter p as)"
  by (simp add: unambiguous_def sorted_wrt_filter)

lemma parse_adapters_Inr:
  "parse_adapters api grp cartridge urns = Inr news \<Longrightarrow>
     (\<forall>u \<in> set urns. \<exists>n \<in> set news. media_of api u = Some (ra_mediaUrn n)) \<and>
     (\<forall>n \<in> set news. ra_groupName n = grp \<and> ra_cartridgeId n = cartridge)"
  by (induction urns arbitrary: news) (auto split: option.splits sum.splits)

lemma adapter_ids_set:
  "set (adapter_ids api cands rs acc) =
     set acc \<union> {ra_cartridgeId r | r. r \<in> set rs \<and>
       (\<exists>c \<in> set cands. MediaUrn_conformsTo api c (ra_mediaUrn r))}"
  by (induction rs arbitrary: acc) (auto simp: list_ex_iff)

lemma adapter_ids_distinct: "distinct acc \<Longrightarrow> distinct (adapter_ids api cands rs acc)"
  by (induction rs arbitrary: acc) auto

context tagged_urns begin

text \<open>After a registration every URN of the group is found registered by that group.\<close>

lemma registered_after:
  assumes "parse_adapters api grp cartridge urns = Inr news" and "n \<in> set news"
  shows "already_registered api
    (existing @ filter (\<lambda>n. \<not> already_registered api existing grp cartridge n) news)
    grp cartridge n"
proof (cases "already_registered api existing grp cartridge n")
  case True
  then show ?thesis by (simp add: already_registered_def)
next
  case False
  have "ra_groupName n = grp \<and> ra_cartridgeId n = cartridge"
    using parse_adapters_Inr [OF assms(1)] assms(2) by blast
  then show ?thesis
    using False assms(2) equivalent_refl by (auto simp: already_registered_def list_ex_iff)
qed

lemma register_again:
  assumes "MediaAdapterRegistry_registerCapGroup api existing grp urns cartridge = Inr after"
  shows "MediaAdapterRegistry_registerCapGroup api after grp urns cartridge = Inr after"
proof -
  obtain news where news: "parse_adapters api grp cartridge urns = Inr news"
      "clash_in_group api news = None"
      "after = existing @ filter (\<lambda>n. \<not> already_registered api existing grp cartridge n) news"
    using assms by (auto simp: MediaAdapterRegistry_registerCapGroup_def Let_def
        split: sum.splits option.splits)
  then have "filter (\<lambda>n. \<not> already_registered api after grp cartridge n) news = []"
    using registered_after [OF news(1)] by (auto simp: filter_empty_conv)
  then show ?thesis
    by (simp add: MediaAdapterRegistry_registerCapGroup_def news(1,2) Let_def)
qed

end

lemma register_keeps_unambiguous:
  assumes "unambiguous api existing"
    and "MediaAdapterRegistry_registerCapGroup api existing grp urns cartridge = Inr after"
  shows "unambiguous api after"
proof -
  obtain news where "clash_in_group api news = None"
      "clash_with_existing api existing
         (filter (\<lambda>n. \<not> already_registered api existing grp cartridge n) news) = None"
      "after = existing @ filter (\<lambda>n. \<not> already_registered api existing grp cartridge n) news"
    using assms(2) by (auto simp: MediaAdapterRegistry_registerCapGroup_def Let_def
        split: sum.splits option.splits)
  then show ?thesis
    using assms(1) unambiguous_filter [of api news]
    by (auto simp: clash_in_group_None clash_with_existing_None unambiguous_def sorted_wrt_append
        dest: adapters_clash_sym)
qed

section \<open>The property\<close>

text \<open>C34: Registering keeps the registry unambiguous (no registered URN conforms to another), only adds
  to it, and afterwards every URN of the group is registered by this group of this cartridge; doing
  it again succeeds and changes nothing.\<close>

theorem register_correct:
  assumes "tagged_urns api" and "unambiguous api existing"
    and "MediaAdapterRegistry_registerCapGroup api existing grp urns cartridge = Inr after"
  shows "unambiguous api after \<and> (\<exists>fresh. after = existing @ fresh) \<and>
    (\<forall>u \<in> set urns. \<exists>m. media_of api u = Some m \<and>
       (\<exists>e \<in> set after. ra_groupName e = grp \<and> ra_cartridgeId e = cartridge \<and>
          MediaUrn_isEquivalentTo api (ra_mediaUrn e) m)) \<and>
    MediaAdapterRegistry_registerCapGroup api after grp urns cartridge = Inr after"
proof -
  obtain news where news: "parse_adapters api grp cartridge urns = Inr news"
      "after = existing @ filter (\<lambda>n. \<not> already_registered api existing grp cartridge n) news"
    using assms(3) by (auto simp: MediaAdapterRegistry_registerCapGroup_def Let_def
        split: sum.splits option.splits)
  have "\<exists>m. media_of api u = Some m \<and> (\<exists>e \<in> set after. ra_groupName e = grp \<and>
      ra_cartridgeId e = cartridge \<and> MediaUrn_isEquivalentTo api (ra_mediaUrn e) m)"
    if u: "u \<in> set urns" for u
  proof -
    obtain n where "n \<in> set news" "media_of api u = Some (ra_mediaUrn n)"
      using parse_adapters_Inr [OF news(1)] u by blast
    moreover have "already_registered api after grp cartridge n"
      using tagged_urns.registered_after [OF assms(1) news(1) \<open>n \<in> set news\<close>, of existing]
      unfolding news(2) .
    ultimately show ?thesis unfolding already_registered_def list_ex_iff by blast
  qed
  then show ?thesis
    using register_keeps_unambiguous [OF assms(2,3)] tagged_urns.register_again [OF assms(1,3)] news(2)
    by blast
qed

definition tag_urns :: "Urn tagged_urn_api" where
  "tag_urns = formal_urns (\<lambda>s. Inr \<lparr>scheme = ''media'', tags = [(s, Constraint_present)]\<rparr>)
     (\<lambda>u. concat (map fst (tags u)))"

lemma register_correct_witness:
  "\<exists>after. MediaAdapterRegistry_registerCapGroup tag_urns [] ''images'' [''png'', ''jpg''] ''viewer'' =
       Inr after \<and> unambiguous tag_urns after"
proof -
  have "\<exists>after. MediaAdapterRegistry_registerCapGroup tag_urns [] ''images'' [''png'', ''jpg''] ''viewer'' =
      Inr after"
    by (simp add: MediaAdapterRegistry_registerCapGroup_def media_of_def MediaUrn_fromString_def
        MediaUrn_fromTaggedUrn_def lowercase_def lowercase_char_def tag_urns_def formal_urns_def
        already_registered_def adapters_clash_def MediaUrn_conformsTo_def instDecidableRefines_def
        Urn_keys_def Urn_tag_def tagMatch_def)
  moreover have "tagged_urns tag_urns"
    unfolding tag_urns_def by (rule formal.tagged_urns_axioms)
  moreover have "unambiguous tag_urns []" by (simp add: unambiguous_def)
  ultimately show ?thesis using register_correct by blast
qed

end
