(* ===== verification/Shapes.thy ===== *)
theory Shapes
  imports MediaUrn
begin

text \<open>
  Cardinality and structure of what flows between caps (\<open>Planner/CSCardinality.m\<close>): one item or a
  sequence, opaque or a record; whether an output can flow into an input, and the analysis of a strand
  of caps, which finds the caps that run once per item and the first mismatch.
\<close>

datatype CSInputCardinality =
    CSInputCardinalitySingle
  | CSInputCardinalitySequence
  | CSInputCardinalityAtLeastOne

datatype CSCardinalityCompatibility =
    CSCardinalityCompatibilityDirect
  | CSCardinalityCompatibilityWrapInArray
  | CSCardinalityCompatibilityRequiresFanOut

datatype CSCardinalityPattern =
    CSCardinalityPatternOneToOne
  | CSCardinalityPatternOneToMany
  | CSCardinalityPatternManyToOne
  | CSCardinalityPatternManyToMany

datatype CSInputStructure = CSInputStructureOpaque | CSInputStructureRecord

datatype CSStructureCompatibility =
    CSStructureCompatibilityDirect
  | CSStructureCompatibilityIncompatible

datatype CSShapeCompatibility =
    CSShapeCompatibilityDirect
  | CSShapeCompatibilityWrapInArray
  | CSShapeCompatibilityRequiresFanOut
  | CSShapeCompatibilityIncompatible

definition CSInputCardinalityIsMultiple :: "CSInputCardinality \<Rightarrow> bool" where
  "CSInputCardinalityIsMultiple c \<longleftrightarrow>
     c = CSInputCardinalitySequence \<or> c = CSInputCardinalityAtLeastOne"

definition CSInputCardinalityAcceptsSingle :: "CSInputCardinality \<Rightarrow> bool" where
  "CSInputCardinalityAcceptsSingle c \<longleftrightarrow>
     c = CSInputCardinalitySingle \<or> c = CSInputCardinalityAtLeastOne"

definition CSInputCardinalityIsCompatibleWith ::
    "CSInputCardinality \<Rightarrow> CSInputCardinality \<Rightarrow> CSCardinalityCompatibility" where
  "CSInputCardinalityIsCompatibleWith target src =
     (if src = CSInputCardinalitySingle \<and> target = CSInputCardinalitySingle
      then CSCardinalityCompatibilityDirect
      else if src = CSInputCardinalitySingle \<and> target = CSInputCardinalitySequence
      then CSCardinalityCompatibilityWrapInArray
      else if src = CSInputCardinalitySequence \<and> target = CSInputCardinalitySingle
      then CSCardinalityCompatibilityRequiresFanOut
      else if src = CSInputCardinalitySequence \<and> target = CSInputCardinalitySequence
      then CSCardinalityCompatibilityDirect
      else if src = CSInputCardinalityAtLeastOne \<or> target = CSInputCardinalityAtLeastOne
      then CSCardinalityCompatibilityDirect
      else CSCardinalityCompatibilityDirect)"

definition CSInputStructureFromMediaUrn ::
    "'t tagged_urn_api \<Rightarrow> string \<Rightarrow> media_error + CSInputStructure" where
  "CSInputStructureFromMediaUrn api urn =
     (case MediaUrn_fromString api urn of
        Inl e \<Rightarrow> Inl e
      | Inr m \<Rightarrow>
          Inr (if MediaUrn_isRecord api m then CSInputStructureRecord else CSInputStructureOpaque))"

definition CSInputStructureIsCompatibleWith ::
    "CSInputStructure \<Rightarrow> CSInputStructure \<Rightarrow> CSStructureCompatibility" where
  "CSInputStructureIsCompatibleWith target src =
     (if src = target then CSStructureCompatibilityDirect
      else CSStructureCompatibilityIncompatible)"

text \<open>Adding and removing a tag is the package's; the result is a media URN again.\<close>

definition CSInputStructureApplyToUrn ::
    "'t tagged_urn_api \<Rightarrow> ('t \<Rightarrow> string \<Rightarrow> string \<Rightarrow> 't) \<Rightarrow> ('t \<Rightarrow> string \<Rightarrow> 't) \<Rightarrow> CSInputStructure \<Rightarrow>
     string \<Rightarrow> media_error + string" where
  "CSInputStructureApplyToUrn api withTag withoutTag struct baseUrn =
     (case MediaUrn_fromString api baseUrn of
        Inl e \<Rightarrow> Inl e
      | Inr m \<Rightarrow>
          (let hasRecord = MediaUrn_isRecord api m
           in case struct of
                CSInputStructureOpaque \<Rightarrow>
                  (if hasRecord then
                     (case MediaUrn_fromTaggedUrn api (withoutTag (inner m) ''record'') of
                        Inl e \<Rightarrow> Inl e | Inr r \<Rightarrow> Inr (MediaUrn_toString api r))
                   else Inr baseUrn)
              | CSInputStructureRecord \<Rightarrow>
                  (if hasRecord then Inr baseUrn
                   else
                     (case MediaUrn_fromTaggedUrn api (withTag (inner m) ''record'' ''*'') of
                        Inl e \<Rightarrow> Inl e | Inr r \<Rightarrow> Inr (MediaUrn_toString api r)))))"

section \<open>Shapes\<close>

record CSMediaShape =
  shape_cardinality :: CSInputCardinality
  shape_structure :: CSInputStructure

definition MediaShape_fromMediaUrn :: "'t tagged_urn_api \<Rightarrow> string \<Rightarrow> media_error + CSMediaShape" where
  "MediaShape_fromMediaUrn api urn =
     (case CSInputStructureFromMediaUrn api urn of
        Inl e \<Rightarrow> Inl e
      | Inr s \<Rightarrow> Inr \<lparr>shape_cardinality = CSInputCardinalitySingle, shape_structure = s\<rparr>)"

definition MediaShape_scalarOpaque :: CSMediaShape where
  "MediaShape_scalarOpaque =
     \<lparr>shape_cardinality = CSInputCardinalitySingle, shape_structure = CSInputStructureOpaque\<rparr>"

definition MediaShape_scalarRecord :: CSMediaShape where
  "MediaShape_scalarRecord =
     \<lparr>shape_cardinality = CSInputCardinalitySingle, shape_structure = CSInputStructureRecord\<rparr>"

definition MediaShape_listOpaque :: CSMediaShape where
  "MediaShape_listOpaque =
     \<lparr>shape_cardinality = CSInputCardinalitySequence, shape_structure = CSInputStructureOpaque\<rparr>"

definition MediaShape_listRecord :: CSMediaShape where
  "MediaShape_listRecord =
     \<lparr>shape_cardinality = CSInputCardinalitySequence, shape_structure = CSInputStructureRecord\<rparr>"

definition CSMediaShapeIsCompatibleWith :: "CSMediaShape \<Rightarrow> CSMediaShape \<Rightarrow> CSShapeCompatibility" where
  "CSMediaShapeIsCompatibleWith target src =
     (if CSInputStructureIsCompatibleWith (shape_structure target) (shape_structure src) =
           CSStructureCompatibilityIncompatible
      then CSShapeCompatibilityIncompatible
      else case CSInputCardinalityIsCompatibleWith (shape_cardinality target) (shape_cardinality src) of
             CSCardinalityCompatibilityDirect \<Rightarrow> CSShapeCompatibilityDirect
           | CSCardinalityCompatibilityWrapInArray \<Rightarrow> CSShapeCompatibilityWrapInArray
           | CSCardinalityCompatibilityRequiresFanOut \<Rightarrow> CSShapeCompatibilityRequiresFanOut)"

record CSCapShapeInfo =
  info_input :: CSMediaShape
  info_output :: CSMediaShape
  info_capUrn :: string

definition CapShapeInfo_fromCapUrn ::
    "'t tagged_urn_api \<Rightarrow> string \<Rightarrow> string \<Rightarrow> string \<Rightarrow> bool \<Rightarrow> bool \<Rightarrow> media_error + CSCapShapeInfo" where
  "CapShapeInfo_fromCapUrn api capUrn inSpec outSpec inputIsSequence outputIsSequence =
     (case MediaShape_fromMediaUrn api inSpec of
        Inl e \<Rightarrow> Inl e
      | Inr i \<Rightarrow>
          (case MediaShape_fromMediaUrn api outSpec of
             Inl e \<Rightarrow> Inl e
           | Inr out \<Rightarrow>
               Inr \<lparr>info_input =
                      (if inputIsSequence then i\<lparr>shape_cardinality := CSInputCardinalitySequence\<rparr> else i),
                    info_output =
                      (if outputIsSequence then out\<lparr>shape_cardinality := CSInputCardinalitySequence\<rparr> else out),
                    info_capUrn = capUrn\<rparr>))"

definition pattern_of :: "CSInputCardinality \<Rightarrow> CSInputCardinality \<Rightarrow> CSCardinalityPattern" where
  "pattern_of i out =
     (if i = CSInputCardinalitySingle \<and> out = CSInputCardinalitySingle then CSCardinalityPatternOneToOne
      else if i = CSInputCardinalitySingle \<and> out = CSInputCardinalitySequence then CSCardinalityPatternOneToMany
      else if i = CSInputCardinalitySequence \<and> out = CSInputCardinalitySingle then CSCardinalityPatternManyToOne
      else if i = CSInputCardinalitySequence \<and> out = CSInputCardinalitySequence then CSCardinalityPatternManyToMany
      else if i = CSInputCardinalityAtLeastOne \<and> out = CSInputCardinalitySingle then CSCardinalityPatternOneToOne
      else if i = CSInputCardinalityAtLeastOne \<and> out = CSInputCardinalitySequence then CSCardinalityPatternOneToMany
      else if i = CSInputCardinalitySingle \<and> out = CSInputCardinalityAtLeastOne then CSCardinalityPatternOneToOne
      else if i = CSInputCardinalitySequence \<and> out = CSInputCardinalityAtLeastOne then CSCardinalityPatternManyToMany
      else if i = CSInputCardinalityAtLeastOne \<and> out = CSInputCardinalityAtLeastOne then CSCardinalityPatternOneToOne
      else CSCardinalityPatternOneToOne)"

definition CapShapeInfo_cardinalityPattern :: "CSCapShapeInfo \<Rightarrow> CSCardinalityPattern" where
  "CapShapeInfo_cardinalityPattern info =
     pattern_of (shape_cardinality (info_input info)) (shape_cardinality (info_output info))"

definition CapShapeInfo_structuresMatch :: "CSCapShapeInfo \<Rightarrow> bool" where
  "CapShapeInfo_structuresMatch info \<longleftrightarrow>
     shape_structure (info_input info) = shape_structure (info_output info)"

definition CSCardinalityPatternProducesVector :: "CSCardinalityPattern \<Rightarrow> bool" where
  "CSCardinalityPatternProducesVector p \<longleftrightarrow>
     p = CSCardinalityPatternOneToMany \<or> p = CSCardinalityPatternManyToMany"

definition CSCardinalityPatternRequiresVector :: "CSCardinalityPattern \<Rightarrow> bool" where
  "CSCardinalityPatternRequiresVector p \<longleftrightarrow>
     p = CSCardinalityPatternManyToOne \<or> p = CSCardinalityPatternManyToMany"

section \<open>The analysis of a strand\<close>

record CSStrandShapeAnalysis =
  capInfos :: "CSCapShapeInfo list"
  fanOutPoints :: "nat list"
  fanInPoints :: "nat list"
  isValid :: bool
  analysis_error :: "(nat \<times> string) option"

text \<open>The loop carries the shape that flows and answers the fan-out points and the mismatch.\<close>

fun analyze_loop ::
    "nat \<Rightarrow> CSMediaShape \<Rightarrow> nat list \<Rightarrow> CSCapShapeInfo list \<Rightarrow> nat list \<times> (nat \<times> string) option" where
  "analyze_loop i current fanOut [] = (fanOut, None)"
| "analyze_loop i current fanOut (info # infos) =
     (case CSMediaShapeIsCompatibleWith (info_input info) current of
        CSShapeCompatibilityDirect \<Rightarrow> analyze_loop (i + 1) (info_output info) fanOut infos
      | CSShapeCompatibilityWrapInArray \<Rightarrow> analyze_loop (i + 1) (info_output info) fanOut infos
      | CSShapeCompatibilityRequiresFanOut \<Rightarrow>
          analyze_loop (i + 1) (info_output info) (fanOut @ [i]) infos
      | CSShapeCompatibilityIncompatible \<Rightarrow> (fanOut, Some (i, info_capUrn info)))"

definition StrandShapeAnalysis_analyze :: "CSCapShapeInfo list \<Rightarrow> CSStrandShapeAnalysis" where
  "StrandShapeAnalysis_analyze infos =
     (case infos of
        [] \<Rightarrow> \<lparr>capInfos = [], fanOutPoints = [], fanInPoints = [], isValid = True, analysis_error = None\<rparr>
      | first # _ \<Rightarrow>
          (case analyze_loop 0 (info_input first) [] infos of
             (fanOut, Some e) \<Rightarrow>
               \<lparr>capInfos = infos, fanOutPoints = fanOut, fanInPoints = [], isValid = False,
                analysis_error = Some e\<rparr>
           | (fanOut, None) \<Rightarrow>
               \<lparr>capInfos = infos, fanOutPoints = fanOut,
                fanInPoints = (if 0 < length fanOut then [length infos] else []), isValid = True,
                analysis_error = None\<rparr>))"

definition StrandShapeAnalysis_requiresTransformation :: "CSStrandShapeAnalysis \<Rightarrow> bool" where
  "StrandShapeAnalysis_requiresTransformation a \<longleftrightarrow>
     0 < length (fanOutPoints a) \<or> 0 < length (fanInPoints a)"

definition StrandShapeAnalysis_finalOutputShape :: "CSStrandShapeAnalysis \<Rightarrow> CSMediaShape option" where
  "StrandShapeAnalysis_finalOutputShape a =
     (if length (capInfos a) = 0 then None else Some (info_output (last (capInfos a))))"

section \<open>The analysis of cardinalities alone\<close>

record CSCapCardinalityInfo =
  card_input :: CSInputCardinality
  card_output :: CSInputCardinality
  card_capUrn :: string

definition CapCardinalityInfo_fromCapUrn :: "string \<Rightarrow> bool \<Rightarrow> bool \<Rightarrow> CSCapCardinalityInfo" where
  "CapCardinalityInfo_fromCapUrn capUrn inputIsSequence outputIsSequence =
     \<lparr>card_input = (if inputIsSequence then CSInputCardinalitySequence else CSInputCardinalitySingle),
      card_output = (if outputIsSequence then CSInputCardinalitySequence else CSInputCardinalitySingle),
      card_capUrn = capUrn\<rparr>"

definition CapCardinalityInfo_pattern :: "CSCapCardinalityInfo \<Rightarrow> CSCardinalityPattern" where
  "CapCardinalityInfo_pattern info = pattern_of (card_input info) (card_output info)"

record CSCardinalityChainAnalysis =
  initialInput :: CSInputCardinality
  finalOutput :: CSInputCardinality
  chain_fanOutPoints :: "nat list"

fun chain_loop :: "nat \<Rightarrow> CSInputCardinality \<Rightarrow> nat list \<Rightarrow> CSCapCardinalityInfo list \<Rightarrow> nat list" where
  "chain_loop i current fanOut [] = fanOut"
| "chain_loop i current fanOut (info # infos) =
     chain_loop (i + 1) (card_output info)
       (if CSInputCardinalityIsCompatibleWith (card_input info) current =
             CSCardinalityCompatibilityRequiresFanOut
        then fanOut @ [i] else fanOut) infos"

definition CardinalityChainAnalysis_analyzeChain ::
    "CSCapCardinalityInfo list \<Rightarrow> CSCardinalityChainAnalysis" where
  "CardinalityChainAnalysis_analyzeChain infos =
     (if length infos = 0 then
        \<lparr>initialInput = CSInputCardinalitySingle, finalOutput = CSInputCardinalitySingle,
         chain_fanOutPoints = []\<rparr>
      else
        \<lparr>initialInput = card_input (hd infos), finalOutput = card_output (last infos),
         chain_fanOutPoints = chain_loop 0 (card_input (hd infos)) [] infos\<rparr>)"

section \<open>Lemmas\<close>

lemma compatible_iff:
  "CSMediaShapeIsCompatibleWith target src = CSShapeCompatibilityIncompatible \<longleftrightarrow>
     shape_structure target \<noteq> shape_structure src"
  "CSMediaShapeIsCompatibleWith target src = CSShapeCompatibilityRequiresFanOut \<longleftrightarrow>
     shape_structure target = shape_structure src \<and> shape_cardinality target = CSInputCardinalitySingle \<and>
     shape_cardinality src = CSInputCardinalitySequence"
  by (cases "shape_cardinality target"; cases "shape_cardinality src";
      auto simp: CSMediaShapeIsCompatibleWith_def CSInputStructureIsCompatibleWith_def
        CSInputCardinalityIsCompatibleWith_def)+

text \<open>The shape that flows into a cap: the strand's input into the first, the previous output into
  the others.\<close>

definition flowing :: "CSMediaShape \<Rightarrow> CSCapShapeInfo list \<Rightarrow> nat \<Rightarrow> CSMediaShape" where
  "flowing start infos i = (case i of 0 \<Rightarrow> start | Suc j \<Rightarrow> info_output (infos ! j))"

definition mismatch :: "CSMediaShape \<Rightarrow> CSCapShapeInfo list \<Rightarrow> nat \<Rightarrow> bool" where
  "mismatch start infos i \<longleftrightarrow> shape_structure (info_input (infos ! i)) \<noteq> shape_structure (flowing start infos i)"

definition fans_out :: "CSMediaShape \<Rightarrow> CSCapShapeInfo list \<Rightarrow> nat \<Rightarrow> bool" where
  "fans_out start infos i \<longleftrightarrow>
     shape_cardinality (info_input (infos ! i)) = CSInputCardinalitySingle \<and>
     shape_cardinality (flowing start infos i) = CSInputCardinalitySequence"

lemma shift_Cons:
  "mismatch start (info # infos) (Suc i) = mismatch (info_output info) infos i"
  "fans_out start (info # infos) (Suc i) = fans_out (info_output info) infos i"
  by (simp_all add: mismatch_def fans_out_def flowing_def split: nat.splits)

text \<open>The first mismatch, if any, and the fan-outs before it.\<close>

definition first_mismatch :: "CSMediaShape \<Rightarrow> CSCapShapeInfo list \<Rightarrow> nat" where
  "first_mismatch start infos =
     length (takeWhile (\<lambda>i. \<not> mismatch start infos i) [0..<length infos])"

lemma upt_shift: "[0..<Suc n] = 0 # map Suc [0..<n]"
  by (simp add: map_Suc_upt upt_conv_Cons)

lemma analyze_loop_spec:
  "analyze_loop i current fanOut infos =
     (let k = first_mismatch current infos
      in (fanOut @ map ((+) i) (filter (fans_out current infos) [0..<k]),
          if k < length infos then Some (i + k, info_capUrn (infos ! k)) else None))"
proof (induction infos arbitrary: i current fanOut)
  case Nil
  then show ?case by (simp add: first_mismatch_def)
next
  case (Cons info infos)
  let ?k = "first_mismatch (info_output info) infos"
  have step: "first_mismatch current (info # infos) =
      (if mismatch current (info # infos) 0 then 0 else Suc ?k)"
    by (simp add: first_mismatch_def upt_shift takeWhile_map comp_def shift_Cons del: upt_Suc)
  have filt: "filter (fans_out current (info # infos)) [0..<Suc ?k] =
      (if fans_out current (info # infos) 0 then [0] else []) @
      map Suc (filter (fans_out (info_output info) infos) [0..<?k])"
    by (simp add: upt_shift filter_map comp_def shift_Cons del: upt_Suc)
  have at0: "mismatch current (info # infos) 0 \<longleftrightarrow>
      CSMediaShapeIsCompatibleWith (info_input info) current = CSShapeCompatibilityIncompatible"
    "\<not> mismatch current (info # infos) 0 \<Longrightarrow> fans_out current (info # infos) 0 \<longleftrightarrow>
      CSMediaShapeIsCompatibleWith (info_input info) current = CSShapeCompatibilityRequiresFanOut"
    by (auto simp: mismatch_def fans_out_def flowing_def compatible_iff)
  show ?case
    using at0 by (cases "CSMediaShapeIsCompatibleWith (info_input info) current")
      (simp_all add: Cons.IH step filt Let_def comp_def del: upt_Suc)
qed

lemma chain_loop_spec:
  "chain_loop i current fanOut infos =
     fanOut @ map ((+) i) (filter (\<lambda>j. card_input (infos ! j) = CSInputCardinalitySingle \<and>
       (case j of 0 \<Rightarrow> current | Suc l \<Rightarrow> card_output (infos ! l)) = CSInputCardinalitySequence)
     [0..<length infos])"
proof (induction infos arbitrary: i current fanOut)
  case (Cons info infos)
  have "CSInputCardinalityIsCompatibleWith (card_input info) current = CSCardinalityCompatibilityRequiresFanOut \<longleftrightarrow>
      card_input info = CSInputCardinalitySingle \<and> current = CSInputCardinalitySequence"
    by (cases "card_input info"; cases current) (simp_all add: CSInputCardinalityIsCompatibleWith_def)
  moreover have "(case Suc j of 0 \<Rightarrow> current | Suc l \<Rightarrow> card_output ((info # infos) ! l)) =
      (case j of 0 \<Rightarrow> card_output info | Suc l \<Rightarrow> card_output (infos ! l))" for j
    by (cases j) simp_all
  ultimately show ?case
    by (simp add: Cons.IH upt_shift filter_map comp_def del: upt_Suc)
qed simp

section \<open>What the analyses find\<close>

definition breaks :: "CSCapShapeInfo list \<Rightarrow> nat \<Rightarrow> bool" where
  "breaks infos i \<longleftrightarrow>
     0 < i \<and> shape_structure (info_output (infos ! (i - 1))) \<noteq> shape_structure (info_input (infos ! i))"

definition splits :: "CSCapShapeInfo list \<Rightarrow> nat \<Rightarrow> bool" where
  "splits infos i \<longleftrightarrow>
     0 < i \<and> shape_cardinality (info_output (infos ! (i - 1))) = CSInputCardinalitySequence \<and>
     shape_cardinality (info_input (infos ! i)) = CSInputCardinalitySingle"

definition cardinalities :: "CSCapShapeInfo \<Rightarrow> CSCapCardinalityInfo" where
  "cardinalities info =
     \<lparr>card_input = shape_cardinality (info_input info), card_output = shape_cardinality (info_output info),
      card_capUrn = info_capUrn info\<rparr>"

lemma strand_starts:
  assumes "infos = first # rest"
  shows "mismatch (info_input first) infos = breaks infos"
    and "fans_out (info_input first) infos = splits infos"
  using assms by (auto simp: fun_eq_iff mismatch_def fans_out_def breaks_def splits_def flowing_def split: nat.splits)

lemma find_upt:
  "find P [0..<n] =
     (let k = length (takeWhile (\<lambda>i. \<not> P i) [0..<n]) in if k < n then Some k else None)"
proof (induction n arbitrary: P)
  case (Suc n)
  have "find P (map Suc xs) = map_option Suc (find (P \<circ> Suc) xs)" for xs
    by (induction xs) auto
  then show ?case
    using Suc [of "P \<circ> Suc"] by (auto simp: upt_shift takeWhile_map comp_def Let_def simp del: upt_Suc)
qed simp

lemma takeWhile_upt: "takeWhile P [0..<n] = [0..<length (takeWhile P [0..<n])]"
  by (metis (no_types, lifting) add_0 le_trans length_takeWhile_le length_upt diff_zero
      min.absorb1 take_upt takeWhile_eq_take)

lemma chain_finds:
  "chain_fanOutPoints (CardinalityChainAnalysis_analyzeChain (map cardinalities infos)) =
     filter (splits infos) [0..<length infos]"
proof (cases "infos = []")
  case False
  then have hd: "hd infos = infos ! 0" by (rule hd_conv_nth)
  have "filter (\<lambda>j. card_input (map cardinalities infos ! j) = CSInputCardinalitySingle \<and>
      (case j of 0 \<Rightarrow> card_input (cardinalities (hd infos)) | Suc l \<Rightarrow> card_output (map cardinalities infos ! l))
        = CSInputCardinalitySequence) [0..<length infos] = filter (splits infos) [0..<length infos]"
    by (rule filter_cong [OF refl]) (auto simp: hd cardinalities_def splits_def split: nat.split)
  then show ?thesis
    using False by (simp add: CardinalityChainAnalysis_analyzeChain_def chain_loop_spec hd_map map_idI)
qed (simp add: CardinalityChainAnalysis_analyzeChain_def)

text \<open>The analysis of a strand: it is valid exactly when every cap takes the structure the cap before it
  gives; else the error names the first cap that does not.  A fan-out is recorded, in order, for each cap
  before the mismatch that takes one item where a sequence arrives, and one fan-in at the end of a valid
  strand that fans out.  The analysis of the cardinalities alone finds the same fan-outs, mismatch or not.\<close>
theorem strand_analysis_exact:
  "let a = StrandShapeAnalysis_analyze infos
   in isValid a = (\<not> (\<exists>i < length infos. breaks infos i)) \<and>
      analysis_error a =
        map_option (\<lambda>i. (i, info_capUrn (infos ! i))) (find (breaks infos) [0..<length infos]) \<and>
      fanOutPoints a =
        filter (splits infos) (takeWhile (\<lambda>i. \<not> breaks infos i) [0..<length infos]) \<and>
      fanInPoints a = (if isValid a \<and> fanOutPoints a \<noteq> [] then [length infos] else []) \<and>
      chain_fanOutPoints (CardinalityChainAnalysis_analyzeChain (map cardinalities infos)) =
        filter (splits infos) [0..<length infos]"
proof (cases infos)
  case Nil
  then show ?thesis
    by (simp add: StrandShapeAnalysis_analyze_def CardinalityChainAnalysis_analyzeChain_def)
next
  case (Cons first rest)
  let ?k = "length (takeWhile (\<lambda>i. \<not> breaks infos i) [0..<length infos])"
  have loop: "analyze_loop 0 (info_input first) [] infos =
      (filter (splits infos) [0..<?k], if ?k < length infos then Some (?k, info_capUrn (infos ! ?k)) else None)"
    by (simp add: analyze_loop_spec first_mismatch_def strand_starts [OF Cons] Let_def map_idI)
  have valid: "(\<exists>i < length infos. breaks infos i) \<longleftrightarrow> ?k < length infos"
    using length_takeWhile_le [of "\<lambda>i. \<not> breaks infos i" "[0..<length infos]"]
    by (metis (no_types, lifting) atLeastLessThan_iff length_upt diff_zero le_neq_implies_less
        nat_le_linear not_less0 set_takeWhileD set_upt takeWhile_eq_all_conv takeWhile_upt le0
        nth_upt add_0 nth_length_takeWhile)
  have analysis: "StrandShapeAnalysis_analyze infos =
      (case analyze_loop 0 (info_input first) [] infos of
             (fanOut, Some e) \<Rightarrow>
               \<lparr>capInfos = infos, fanOutPoints = fanOut, fanInPoints = [], isValid = False,
                analysis_error = Some e\<rparr>
           | (fanOut, None) \<Rightarrow>
               \<lparr>capInfos = infos, fanOutPoints = fanOut,
                fanInPoints = (if 0 < length fanOut then [length infos] else []), isValid = True,
                analysis_error = None\<rparr>)"
    unfolding StrandShapeAnalysis_analyze_def Cons list.case ..
  show ?thesis
    unfolding Let_def analysis loop valid find_upt chain_finds
    by (subst takeWhile_upt) (simp add: Let_def)
qed

end
