(* ===== verification/Arguments.thy ===== *)
theory Arguments
  imports Foundation Json
begin

text \<open>
  What a step's argument is bound to and how the binding becomes bytes
  (\<open>Planner/CSArgumentBinding.m\<close>).  A binding is an object of one class whose type says which of
  its fields mean something; resolving it answers an error, no argument (an optional slot nobody
  filled) or the bytes with the source they came from.

  Two functions are not the program's and
  are arguments of the model: \<open>show_double\<close>, the \<open>%.17g\<close> text of a double (given by its 64 bits), and
  \<open>serialize\<close>, the JSON text of an array or object (\<open>None\<close>: it cannot be serialized).
\<close>

section \<open>Input files\<close>

datatype CSSourceEntityType =
    CSSourceEntityTypeListing
  | CSSourceEntityTypeChip
  | CSSourceEntityTypeBlock
  | CSSourceEntityTypeCapOutput
  | CSSourceEntityTypeTemporary

record CSCapFileMetadata =
  meta_filename :: "string option"
  meta_sizeBytes :: "int option"
  meta_mimeType :: "string option"
  meta_extra :: "json option"

record CSCapInputFile =
  file_path :: string
  file_mediaUrn :: string
  file_metadata :: "CSCapFileMetadata option"
  file_sourceId :: "string option"
  file_sourceType :: CSSourceEntityType
  file_trackedFileId :: "string option"
  file_securityBookmark :: "string option"
  file_originalPath :: "string option"

definition CapInputFile_withFilePath :: "string \<Rightarrow> string \<Rightarrow> CSCapInputFile" where
  "CapInputFile_withFilePath path urn =
     \<lparr>file_path = path, file_mediaUrn = urn, file_metadata = None, file_sourceId = None,
      file_sourceType = CSSourceEntityTypeListing, file_trackedFileId = None,
      file_securityBookmark = None, file_originalPath = None\<rparr>"

definition CapInputFile_fromListingId :: "string \<Rightarrow> string \<Rightarrow> string \<Rightarrow> CSCapInputFile" where
  "CapInputFile_fromListingId listing path urn =
     (CapInputFile_withFilePath path urn)
       \<lparr>file_sourceId := Some listing, file_sourceType := CSSourceEntityTypeListing\<rparr>"

definition CapInputFile_fromChipId :: "string \<Rightarrow> string \<Rightarrow> string \<Rightarrow> CSCapInputFile" where
  "CapInputFile_fromChipId chip path urn =
     (CapInputFile_withFilePath path urn)
       \<lparr>file_sourceId := Some chip, file_sourceType := CSSourceEntityTypeChip\<rparr>"

definition CapInputFile_fromCapOutput :: "string \<Rightarrow> string \<Rightarrow> CSCapInputFile" where
  "CapInputFile_fromCapOutput path urn =
     (CapInputFile_withFilePath path urn)\<lparr>file_sourceType := CSSourceEntityTypeCapOutput\<rparr>"

definition CapInputFile_withMetadata :: "CSCapInputFile \<Rightarrow> CSCapFileMetadata \<Rightarrow> CSCapInputFile" where
  "CapInputFile_withMetadata f m = f\<lparr>file_metadata := Some m\<rparr>"

definition CapInputFile_withFileReference ::
    "CSCapInputFile \<Rightarrow> string \<Rightarrow> string \<Rightarrow> string \<Rightarrow> CSCapInputFile" where
  "CapInputFile_withFileReference f tracked bookmark original =
     f\<lparr>file_trackedFileId := Some tracked, file_securityBookmark := Some bookmark,
       file_originalPath := Some original\<rparr>"

definition CapInputFile_hasFileReference :: "CSCapInputFile \<Rightarrow> bool" where
  "CapInputFile_hasFileReference f \<longleftrightarrow>
     file_trackedFileId f \<noteq> None \<and> file_securityBookmark f \<noteq> None"

section \<open>Bindings\<close>

datatype CSArgumentSource =
    CSArgumentSourceInputFile
  | CSArgumentSourcePreviousOutput
  | CSArgumentSourceCapDefault
  | CSArgumentSourceCapSetting
  | CSArgumentSourceLiteral
  | CSArgumentSourceSlot
  | CSArgumentSourcePlanMetadata

datatype CSArgumentBindingType =
    CSArgumentBindingTypeInputFileIndex
  | CSArgumentBindingTypeInputFilePath
  | CSArgumentBindingTypeInputMediaUrn
  | CSArgumentBindingTypePreviousOutput
  | CSArgumentBindingTypeCapDefault
  | CSArgumentBindingTypeCapSetting
  | CSArgumentBindingTypeLiteral
  | CSArgumentBindingTypeSlot
  | CSArgumentBindingTypePlanMetadata

record CSArgumentBinding =
  bindingType :: CSArgumentBindingType
  inputFileIndex :: nat
  bound_nodeId :: "string option"
  settingUrn :: "string option"
  literalValue :: "json option"
  bound_slotName :: "string option"
  slotSchema :: "json option"
  metadataKey :: "string option"

definition ArgumentBinding_init :: CSArgumentBinding where
  "ArgumentBinding_init =
     \<lparr>bindingType = CSArgumentBindingTypeInputFileIndex, inputFileIndex = 0, bound_nodeId = None,
      settingUrn = None, literalValue = None, bound_slotName = None, slotSchema = None,
      metadataKey = None\<rparr>"

definition ArgumentBinding_inputFileAtIndex :: "nat \<Rightarrow> CSArgumentBinding" where
  "ArgumentBinding_inputFileAtIndex i =
     ArgumentBinding_init
       \<lparr>bindingType := CSArgumentBindingTypeInputFileIndex, inputFileIndex := i\<rparr>"

definition ArgumentBinding_inputFilePath :: CSArgumentBinding where
  "ArgumentBinding_inputFilePath =
     ArgumentBinding_init\<lparr>bindingType := CSArgumentBindingTypeInputFilePath\<rparr>"

definition ArgumentBinding_inputMediaUrn :: CSArgumentBinding where
  "ArgumentBinding_inputMediaUrn =
     ArgumentBinding_init\<lparr>bindingType := CSArgumentBindingTypeInputMediaUrn\<rparr>"

definition ArgumentBinding_previousOutputFromNode :: "string \<Rightarrow> CSArgumentBinding" where
  "ArgumentBinding_previousOutputFromNode node =
     ArgumentBinding_init
       \<lparr>bindingType := CSArgumentBindingTypePreviousOutput, bound_nodeId := Some node\<rparr>"

definition ArgumentBinding_capDefault :: CSArgumentBinding where
  "ArgumentBinding_capDefault =
     ArgumentBinding_init\<lparr>bindingType := CSArgumentBindingTypeCapDefault\<rparr>"

definition ArgumentBinding_capSetting :: "string \<Rightarrow> CSArgumentBinding" where
  "ArgumentBinding_capSetting urn =
     ArgumentBinding_init
       \<lparr>bindingType := CSArgumentBindingTypeCapSetting, settingUrn := Some urn\<rparr>"

definition ArgumentBinding_literalJson :: "json \<Rightarrow> CSArgumentBinding" where
  "ArgumentBinding_literalJson v =
     ArgumentBinding_init
       \<lparr>bindingType := CSArgumentBindingTypeLiteral, literalValue := Some v\<rparr>"

definition ArgumentBinding_literalString :: "string \<Rightarrow> CSArgumentBinding" where
  "ArgumentBinding_literalString s = ArgumentBinding_literalJson (JSON_string s)"

definition ArgumentBinding_literalNumber :: "int \<Rightarrow> CSArgumentBinding" where
  "ArgumentBinding_literalNumber i = ArgumentBinding_literalJson (JSON_int i)"

definition ArgumentBinding_literalBool :: "bool \<Rightarrow> CSArgumentBinding" where
  "ArgumentBinding_literalBool b = ArgumentBinding_literalJson (JSON_bool b)"

definition ArgumentBinding_slotNamed :: "string \<Rightarrow> json option \<Rightarrow> CSArgumentBinding" where
  "ArgumentBinding_slotNamed name schema =
     ArgumentBinding_init
       \<lparr>bindingType := CSArgumentBindingTypeSlot, bound_slotName := Some name, slotSchema := schema\<rparr>"

definition ArgumentBinding_planMetadata :: "string \<Rightarrow> CSArgumentBinding" where
  "ArgumentBinding_planMetadata key =
     ArgumentBinding_init
       \<lparr>bindingType := CSArgumentBindingTypePlanMetadata, metadataKey := Some key\<rparr>"

definition ArgumentBinding_requiresInput :: "CSArgumentBinding \<Rightarrow> bool" where
  "ArgumentBinding_requiresInput b \<longleftrightarrow> bindingType b = CSArgumentBindingTypeSlot"

definition ArgumentBinding_referencesPrevious :: "CSArgumentBinding \<Rightarrow> bool" where
  "ArgumentBinding_referencesPrevious b \<longleftrightarrow> bindingType b = CSArgumentBindingTypePreviousOutput"

section \<open>Resolving\<close>

record CSResolvedArgument =
  arg_name :: string
  arg_value :: string
  arg_source :: CSArgumentSource

record CSArgumentResolutionContext =
  inputFiles :: "CSCapInputFile list"
  currentFileIndex :: nat
  previousOutputs :: "string \<rightharpoonup> json"
  planMetadata :: "(string \<rightharpoonup> json) option"
  capSettings :: "(string \<rightharpoonup> (string \<rightharpoonup> json)) option"
  slotValues :: "(string \<rightharpoonup> string) option"

definition ArgumentResolutionContext_withInputFiles ::
    "CSCapInputFile list \<Rightarrow> CSArgumentResolutionContext" where
  "ArgumentResolutionContext_withInputFiles files =
     \<lparr>inputFiles = files, currentFileIndex = 0, previousOutputs = Map.empty, planMetadata = None,
      capSettings = None, slotValues = None\<rparr>"

definition ArgumentResolutionContext_currentFile ::
    "CSArgumentResolutionContext \<Rightarrow> CSCapInputFile option" where
  "ArgumentResolutionContext_currentFile ctx =
     (if currentFileIndex ctx < length (inputFiles ctx)
      then Some (inputFiles ctx ! currentFileIndex ctx) else None)"

text \<open>The failures of a resolution, each with what its message names.\<close>

datatype resolve_error =
    Input_file_index_out_of_bounds nat nat
  | No_current_input_file
  | No_output_from_node "string option"
  | No_default_value string
  | No_cap_settings
  | No_settings_for_cap string
  | Setting_not_found "string option" string
  | Missing_required_argument "string option" string
  | No_plan_metadata
  | Metadata_key_not_found "string option"

definition show_nil :: "string option \<Rightarrow> string" where
  "show_nil s = (case s of None \<Rightarrow> ''(null)'' | Some t \<Rightarrow> t)"

definition JSONValueToBytes ::
    "(64 word \<Rightarrow> string) \<Rightarrow> (json \<Rightarrow> string option) \<Rightarrow> json option \<Rightarrow> string" where
  "JSONValueToBytes show_double serialize v =
     (case v of
        None \<Rightarrow> ''''
      | Some (JSON_string s) \<Rightarrow> s
      | Some (JSON_bool b) \<Rightarrow> (if b then ''true'' else ''false'')
      | Some (JSON_double d) \<Rightarrow> show_double d
      | Some (JSON_int i) \<Rightarrow> string_of_int i
      | Some JSON_null \<Rightarrow> ''''
      | Some composite \<Rightarrow>
          (case serialize composite of None \<Rightarrow> '''' | Some txt \<Rightarrow> txt))"

definition resolved :: "string \<Rightarrow> CSArgumentSource \<Rightarrow> resolve_error + CSResolvedArgument option" where
  "resolved bytes source =
     Inr (Some \<lparr>arg_name = '''', arg_value = bytes, arg_source = source\<rparr>)"

definition slot_key :: "string \<Rightarrow> CSArgumentBinding \<Rightarrow> string" where
  "slot_key capUrn b = capUrn @ '':'' @ show_nil (bound_slotName b)"

definition setting_of ::
    "CSArgumentResolutionContext \<Rightarrow> string \<Rightarrow> string option \<Rightarrow> json option" where
  "setting_of ctx capUrn urn =
     (case capSettings ctx of
        None \<Rightarrow> None
      | Some settings \<Rightarrow>
          (case settings capUrn of None \<Rightarrow> None | Some s \<Rightarrow> lookup_opt s urn))"

definition CSResolveArgumentBinding ::
    "(64 word \<Rightarrow> string) \<Rightarrow> (json \<Rightarrow> string option) \<Rightarrow> CSArgumentBinding \<Rightarrow>
     CSArgumentResolutionContext \<Rightarrow> string \<Rightarrow> json option \<Rightarrow> bool \<Rightarrow>
     resolve_error + CSResolvedArgument option" where
  "CSResolveArgumentBinding show_double serialize b ctx capUrn defaultValue isRequired =
     (case bindingType b of
        CSArgumentBindingTypeInputFileIndex \<Rightarrow>
          (if length (inputFiles ctx) \<le> inputFileIndex b
           then Inl (Input_file_index_out_of_bounds (inputFileIndex b) (length (inputFiles ctx)))
           else resolved (file_path (inputFiles ctx ! inputFileIndex b)) CSArgumentSourceInputFile)
      | CSArgumentBindingTypeInputFilePath \<Rightarrow>
          (case ArgumentResolutionContext_currentFile ctx of
             None \<Rightarrow> Inl No_current_input_file
           | Some file \<Rightarrow> resolved (file_path file) CSArgumentSourceInputFile)
      | CSArgumentBindingTypeInputMediaUrn \<Rightarrow>
          (case ArgumentResolutionContext_currentFile ctx of
             None \<Rightarrow> Inl No_current_input_file
           | Some file \<Rightarrow> resolved (file_mediaUrn file) CSArgumentSourceInputFile)
      | CSArgumentBindingTypePreviousOutput \<Rightarrow>
          (case lookup_opt (previousOutputs ctx) (bound_nodeId b) of
             None \<Rightarrow> Inl (No_output_from_node (bound_nodeId b))
           | Some v \<Rightarrow>
               resolved (JSONValueToBytes show_double serialize (Some v))
                 CSArgumentSourcePreviousOutput)
      | CSArgumentBindingTypeCapDefault \<Rightarrow>
          (case defaultValue of
             None \<Rightarrow> Inl (No_default_value capUrn)
           | Some d \<Rightarrow>
               resolved (JSONValueToBytes show_double serialize (Some d)) CSArgumentSourceCapDefault)
      | CSArgumentBindingTypeCapSetting \<Rightarrow>
          (case capSettings ctx of
             None \<Rightarrow> Inl No_cap_settings
           | Some settings \<Rightarrow>
               (case settings capUrn of
                  None \<Rightarrow> Inl (No_settings_for_cap capUrn)
                | Some s \<Rightarrow>
                    (case lookup_opt s (settingUrn b) of
                       None \<Rightarrow> Inl (Setting_not_found (settingUrn b) capUrn)
                     | Some v \<Rightarrow>
                         resolved (JSONValueToBytes show_double serialize (Some v))
                           CSArgumentSourceCapSetting)))
      | CSArgumentBindingTypeLiteral \<Rightarrow>
          resolved (JSONValueToBytes show_double serialize (literalValue b)) CSArgumentSourceLiteral
      | CSArgumentBindingTypeSlot \<Rightarrow>
          (case Option.bind (slotValues ctx) (\<lambda>m. m (slot_key capUrn b)) of
             Some bytes \<Rightarrow> resolved bytes CSArgumentSourceSlot
           | None \<Rightarrow>
               (case setting_of ctx capUrn (bound_slotName b) of
                  Some v \<Rightarrow>
                    resolved (JSONValueToBytes show_double serialize (Some v))
                      CSArgumentSourceCapSetting
                | None \<Rightarrow>
                    (case defaultValue of
                       Some d \<Rightarrow>
                         resolved (JSONValueToBytes show_double serialize (Some d))
                           CSArgumentSourceCapDefault
                     | None \<Rightarrow>
                         (if isRequired
                          then Inl (Missing_required_argument (bound_slotName b) (slot_key capUrn b))
                          else Inr None))))
      | CSArgumentBindingTypePlanMetadata \<Rightarrow>
          (case planMetadata ctx of
             None \<Rightarrow> Inl No_plan_metadata
           | Some m \<Rightarrow>
               (case lookup_opt m (metadataKey b) of
                  None \<Rightarrow> Inl (Metadata_key_not_found (metadataKey b))
                | Some v \<Rightarrow>
                    resolved (JSONValueToBytes show_double serialize (Some v))
                      CSArgumentSourcePlanMetadata)))"

section \<open>What a binding can be resolved from\<close>

text \<open>The values a binding may take, each with its source, in the order in which they are tried.\<close>

definition candidates ::
    "(64 word \<Rightarrow> string) \<Rightarrow> (json \<Rightarrow> string option) \<Rightarrow> CSArgumentBinding \<Rightarrow>
     CSArgumentResolutionContext \<Rightarrow> string \<Rightarrow> json option \<Rightarrow> (string \<times> CSArgumentSource) list" where
  "candidates show_double serialize b ctx capUrn defaultValue =
     (let bytes = (\<lambda>v. JSONValueToBytes show_double serialize (Some v));
          from_json = (\<lambda>v source. case v of None \<Rightarrow> [] | Some j \<Rightarrow> [(bytes j, source)]);
          file = (\<lambda>part. case ArgumentResolutionContext_currentFile ctx of
                           None \<Rightarrow> [] | Some f \<Rightarrow> [(part f, CSArgumentSourceInputFile)])
      in case bindingType b of
           CSArgumentBindingTypeInputFileIndex \<Rightarrow>
             map (\<lambda>f. (file_path f, CSArgumentSourceInputFile)) (take (Suc 0) (drop (inputFileIndex b) (inputFiles ctx)))
         | CSArgumentBindingTypeInputFilePath \<Rightarrow> file file_path
         | CSArgumentBindingTypeInputMediaUrn \<Rightarrow> file file_mediaUrn
         | CSArgumentBindingTypePreviousOutput \<Rightarrow>
             from_json (lookup_opt (previousOutputs ctx) (bound_nodeId b)) CSArgumentSourcePreviousOutput
         | CSArgumentBindingTypeCapDefault \<Rightarrow> from_json defaultValue CSArgumentSourceCapDefault
         | CSArgumentBindingTypeCapSetting \<Rightarrow>
             from_json (setting_of ctx capUrn (settingUrn b)) CSArgumentSourceCapSetting
         | CSArgumentBindingTypeLiteral \<Rightarrow>
             [(JSONValueToBytes show_double serialize (literalValue b), CSArgumentSourceLiteral)]
         | CSArgumentBindingTypeSlot \<Rightarrow>
             (case slotValues ctx of
                None \<Rightarrow> []
              | Some m \<Rightarrow> (case m (slot_key capUrn b) of None \<Rightarrow> [] | Some v \<Rightarrow> [(v, CSArgumentSourceSlot)])) @
             from_json (setting_of ctx capUrn (bound_slotName b)) CSArgumentSourceCapSetting @
             from_json defaultValue CSArgumentSourceCapDefault
         | CSArgumentBindingTypePlanMetadata \<Rightarrow>
             from_json (Option.bind (planMetadata ctx) (\<lambda>m. lookup_opt m (metadataKey b)))
               CSArgumentSourcePlanMetadata)"

definition may_be_absent :: "CSArgumentBinding \<Rightarrow> bool \<Rightarrow> bool" where
  "may_be_absent b isRequired \<longleftrightarrow> bindingType b = CSArgumentBindingTypeSlot \<and> \<not> isRequired"

lemma take_drop_nth: "map f (take (Suc 0) (drop n xs)) = (if n < length xs then [f (xs ! n)] else [])"
  by (simp add: Cons_nth_drop_Suc [symmetric])

lemma resolve_candidates:
  "CSResolveArgumentBinding show_double serialize b ctx capUrn defaultValue isRequired = result \<Longrightarrow>
     (case candidates show_double serialize b ctx capUrn defaultValue of
        (v, src) # _ \<Rightarrow> result = resolved v src
      | [] \<Rightarrow> (if may_be_absent b isRequired then result = Inr None else (\<exists>e. result = Inl e)))"
  by (cases "bindingType b")
    (auto simp: CSResolveArgumentBinding_def candidates_def may_be_absent_def take_drop_nth setting_of_def
      Let_def split: option.splits)

text \<open>Resolving a binding gives the first value one of its sources has, with that source (of a slot: the
  value given for the slot, else the setting of the cap, else the default); where none has one, an
  optional slot is absent and anything else is an error.\<close>
theorem resolve_takes_first_candidate:
  "(let result = CSResolveArgumentBinding show_double serialize b ctx capUrn defaultValue isRequired;
        cs = candidates show_double serialize b ctx capUrn defaultValue
    in result = Inr None \<longleftrightarrow> cs = [] \<and> may_be_absent b isRequired) \<and>
   (let result = CSResolveArgumentBinding show_double serialize b ctx capUrn defaultValue isRequired;
        cs = candidates show_double serialize b ctx capUrn defaultValue
    in (\<exists>e. result = Inl e) \<longleftrightarrow> cs = [] \<and> \<not> may_be_absent b isRequired) \<and>
   (\<forall>a. CSResolveArgumentBinding show_double serialize b ctx capUrn defaultValue isRequired = Inr (Some a) \<longleftrightarrow>
      (\<exists>cs. candidates show_double serialize b ctx capUrn defaultValue = (arg_value a, arg_source a) # cs \<and>
         arg_name a = ''''))"
proof -
  let ?result = "CSResolveArgumentBinding show_double serialize b ctx capUrn defaultValue isRequired"
  note first = resolve_candidates [where result = ?result, OF refl]
  show ?thesis
  proof (cases "candidates show_double serialize b ctx capUrn defaultValue")
    case Nil
    then show ?thesis using first by (auto split: if_splits)
  next
    case (Cons c cs)
    then obtain v src where c: "c = (v, src)" by fastforce
    have "?result = resolved v src" using first Cons c by simp
    then show ?thesis using Cons c by (auto simp: resolved_def)
  qed
qed

end
