(* ===== verification/Plan.thy ===== *)
theory Plan
  imports Shapes Arguments "HOL-Library.Finite_Map"
begin

text \<open>
  Execution plans (\<open>Planner/CSPlan.m\<close>): the nodes and edges of a machine, how a plan is built, checked
  and put in an order to run.

  \<open>plan.nodes\<close>, an \<open>NSMutableDictionary\<close>, is a finite map.  Where the code runs through its keys the
  order is an argument, as in \<^theory_text>\<open>Foundation\<close>.  Node ids are ASCII strings, so \<open>compare:\<close> is the
  lexicographic order.  An array property that may be \<open>nil\<close> is an option; a message to \<open>nil\<close> finds
  nothing, so \<open>elems\<close> reads it.  A minted \<open>CSStepToken\<close> is a fresh UUID; the plan constructors take the
  tokens they mint as an argument, one per call.
\<close>

definition elems :: "'a list option \<Rightarrow> 'a list" where
  "elems xs = (case xs of None \<Rightarrow> [] | Some ys \<Rightarrow> ys)"

lemma elems_simps [simp]: "elems None = []" "elems (Some ys) = ys"
  by (simp_all add: elems_def)

section \<open>Step tokens and policies\<close>

datatype CSStepToken = StepToken (token_string: string)

definition StepToken_parse :: "string \<Rightarrow> CSStepToken option" where
  "StepToken_parse raw = (if length raw = 0 then None else Some (StepToken raw))"

datatype CSOnError = CSOnErrorFail | CSOnErrorAbsent

record CSStepPolicy =
  policy_retry :: "32 word"
  policy_onError :: CSOnError

definition StepPolicy_init :: "32 word \<Rightarrow> CSOnError \<Rightarrow> CSStepPolicy" where
  "StepPolicy_init retry e = \<lparr>policy_retry = retry, policy_onError = e\<rparr>"

definition StepPolicy_defaultPolicy :: CSStepPolicy where
  "StepPolicy_defaultPolicy = StepPolicy_init 0 CSOnErrorFail"

definition StepPolicy_isDefault :: "CSStepPolicy \<Rightarrow> bool" where
  "StepPolicy_isDefault p \<longleftrightarrow> policy_retry p = 0 \<and> policy_onError p = CSOnErrorFail"

definition StepPolicy_isEqual :: "CSStepPolicy \<Rightarrow> CSStepPolicy \<Rightarrow> bool" where
  "StepPolicy_isEqual p q \<longleftrightarrow> policy_retry q = policy_retry p \<and> policy_onError q = policy_onError p"

text \<open>\<open>NSUInteger\<close> is 64 bits wide; the retry count is widened before it is doubled.\<close>

definition on_error_code :: "CSOnError \<Rightarrow> 64 word" where
  "on_error_code e = (case e of CSOnErrorFail \<Rightarrow> 0 | CSOnErrorAbsent \<Rightarrow> 1)"

definition StepPolicy_hash :: "CSStepPolicy \<Rightarrow> 64 word" where
  "StepPolicy_hash p = ucast (policy_retry p) * 2 + on_error_code (policy_onError p)"

lemma StepPolicy_isDefault_iff: "StepPolicy_isDefault p \<longleftrightarrow> p = StepPolicy_defaultPolicy"
  by (cases p) (simp add: StepPolicy_isDefault_def StepPolicy_defaultPolicy_def StepPolicy_init_def)

lemma StepPolicy_isEqual_iff: "StepPolicy_isEqual p q \<longleftrightarrow> p = q"
  by (cases p; cases q) (auto simp: StepPolicy_isEqual_def)

section \<open>Edges\<close>

datatype CSEdgeType =
    CSEdgeTypeDirect
  | CSEdgeTypeArg
  | CSEdgeTypeIteration
  | CSEdgeTypeCollection

record CSMachinePlanEdge =
  fromNode :: string
  toNode :: string
  edgeType :: CSEdgeType
  argUrn :: "string option"

definition MachinePlanEdge_edgeFrom :: "string \<Rightarrow> string \<Rightarrow> CSEdgeType \<Rightarrow> CSMachinePlanEdge" where
  "MachinePlanEdge_edgeFrom f t ty = \<lparr>fromNode = f, toNode = t, edgeType = ty, argUrn = None\<rparr>"

definition MachinePlanEdge_directFrom :: "string \<Rightarrow> string \<Rightarrow> CSMachinePlanEdge" where
  "MachinePlanEdge_directFrom f t = MachinePlanEdge_edgeFrom f t CSEdgeTypeDirect"

definition MachinePlanEdge_argFrom :: "string \<Rightarrow> string \<Rightarrow> string \<Rightarrow> CSMachinePlanEdge" where
  "MachinePlanEdge_argFrom f t urn = (MachinePlanEdge_edgeFrom f t CSEdgeTypeArg)\<lparr>argUrn := Some urn\<rparr>"

definition MachinePlanEdge_iterationFrom :: "string \<Rightarrow> string \<Rightarrow> CSMachinePlanEdge" where
  "MachinePlanEdge_iterationFrom f t = MachinePlanEdge_edgeFrom f t CSEdgeTypeIteration"

definition MachinePlanEdge_collectionFrom :: "string \<Rightarrow> string \<Rightarrow> CSMachinePlanEdge" where
  "MachinePlanEdge_collectionFrom f t = MachinePlanEdge_edgeFrom f t CSEdgeTypeCollection"

section \<open>Nodes\<close>

record CSForEachSource =
  source_node :: string
  source_item :: string

definition ForEachSource_sourceWithNode :: "string \<Rightarrow> string \<Rightarrow> CSForEachSource" where
  "ForEachSource_sourceWithNode n i = \<lparr>source_node = n, source_item = i\<rparr>"

datatype CSExecutionNodeKind =
    CSExecutionNodeKindCap
  | CSExecutionNodeKindCapOutput
  | CSExecutionNodeKindForEach
  | CSExecutionNodeKindItem
  | CSExecutionNodeKindCollect
  | CSExecutionNodeKindInputSlot
  | CSExecutionNodeKindOutput

record CSMachineNode =
  nodeId :: string
  nodeDescription :: "string option"
  node_kind :: CSExecutionNodeKind
  node_tokenId :: "CSStepToken option"
  node_capUrn :: "string option"
  argBindings :: "(string \<rightharpoonup> CSArgumentBinding) option"
  node_preferredCap :: "string option"
  node_policy :: "CSStepPolicy option"
  capNode :: "string option"
  carriesInput :: bool
  outputMediaUrn :: "string option"
  node_sources :: "CSForEachSource list option"
  node_body :: "string list option"
  node_foreach :: "string option"
  node_source :: "string option"
  node_mediaUrn :: "string option"
  inputNodes :: "string list option"
  node_slotName :: "string option"
  expectedMediaUrn :: "string option"
  node_cardinality :: CSInputCardinality
  node_outputName :: "string option"
  sourceNode :: "string option"

text \<open>\<open>alloc\<close> zeroes an object: no object, \<open>NO\<close>, and the first value of the enumeration.\<close>

definition MachineNode_nodeWithId :: "string \<Rightarrow> CSExecutionNodeKind \<Rightarrow> CSMachineNode" where
  "MachineNode_nodeWithId i k =
     \<lparr>nodeId = i, nodeDescription = None, node_kind = k, node_tokenId = None, node_capUrn = None,
      argBindings = None, node_preferredCap = None, node_policy = None, capNode = None,
      carriesInput = False, outputMediaUrn = None, node_sources = None, node_body = None,
      node_foreach = None, node_source = None, node_mediaUrn = None, inputNodes = None,
      node_slotName = None, expectedMediaUrn = None, node_cardinality = CSInputCardinalitySingle,
      node_outputName = None, sourceNode = None\<rparr>"

definition MachineNode_capNode ::
    "string \<Rightarrow> string \<Rightarrow> (string \<rightharpoonup> CSArgumentBinding) \<Rightarrow> CSStepToken \<Rightarrow> CSMachineNode" where
  "MachineNode_capNode i urn bindings token =
     (MachineNode_nodeWithId i CSExecutionNodeKindCap)
       \<lparr>node_capUrn := Some urn, argBindings := Some bindings, node_tokenId := Some token,
        node_policy := Some StepPolicy_defaultPolicy\<rparr>"

definition MachineNode_capNode_preferred ::
    "string \<Rightarrow> string \<Rightarrow> (string \<rightharpoonup> CSArgumentBinding) \<Rightarrow> string option \<Rightarrow> CSStepToken \<Rightarrow> CSMachineNode" where
  "MachineNode_capNode_preferred i urn bindings preferred token =
     (MachineNode_capNode i urn bindings token)\<lparr>node_preferredCap := preferred\<rparr>"

definition MachineNode_forEachNode ::
    "string \<Rightarrow> CSForEachSource list \<Rightarrow> string list \<Rightarrow> CSStepToken \<Rightarrow> CSMachineNode" where
  "MachineNode_forEachNode i srcs members token =
     (MachineNode_nodeWithId i CSExecutionNodeKindForEach)
       \<lparr>node_sources := Some srcs, node_body := Some members, node_tokenId := Some token,
        nodeDescription := Some ''Map: run the body once per item''\<rparr>"

definition MachineNode_itemNode :: "string \<Rightarrow> string \<Rightarrow> string \<Rightarrow> string \<Rightarrow> CSMachineNode" where
  "MachineNode_itemNode i of_map src urn =
     (MachineNode_nodeWithId i CSExecutionNodeKindItem)
       \<lparr>node_foreach := Some of_map, node_source := Some src, node_mediaUrn := Some urn,
        nodeDescription := Some (''Item of '' @ src)\<rparr>"

definition MachineNode_capOutputNode ::
    "string \<Rightarrow> string \<Rightarrow> string \<Rightarrow> string \<Rightarrow> bool \<Rightarrow> CSMachineNode" where
  "MachineNode_capOutputNode i cap urn out carries =
     (MachineNode_nodeWithId i CSExecutionNodeKindCapOutput)
       \<lparr>capNode := Some cap, outputMediaUrn := Some urn, node_outputName := Some out,
        carriesInput := carries, nodeDescription := Some (''Output: '' @ out)\<rparr>"

definition MachineNode_collectNode :: "string \<Rightarrow> string list \<Rightarrow> string \<Rightarrow> CSMachineNode" where
  "MachineNode_collectNode i ins urn =
     (MachineNode_nodeWithId i CSExecutionNodeKindCollect)
       \<lparr>inputNodes := Some ins, outputMediaUrn := Some urn,
        nodeDescription := Some ''Gather: several values into one sequence''\<rparr>"

definition MachineNode_inputSlotNode ::
    "string \<Rightarrow> string \<Rightarrow> string \<Rightarrow> CSInputCardinality \<Rightarrow> CSMachineNode" where
  "MachineNode_inputSlotNode i slot urn c =
     (MachineNode_nodeWithId i CSExecutionNodeKindInputSlot)
       \<lparr>node_slotName := Some slot, expectedMediaUrn := Some urn, node_cardinality := c,
        nodeDescription := Some (''Input: '' @ slot)\<rparr>"

definition MachineNode_outputNode :: "string \<Rightarrow> string \<Rightarrow> string \<Rightarrow> CSMachineNode" where
  "MachineNode_outputNode i out src =
     (MachineNode_nodeWithId i CSExecutionNodeKindOutput)
       \<lparr>node_outputName := Some out, sourceNode := Some src,
        nodeDescription := Some (''Output: '' @ out)\<rparr>"

definition MachineNode_isCap :: "CSMachineNode \<Rightarrow> bool" where
  "MachineNode_isCap n \<longleftrightarrow> node_kind n = CSExecutionNodeKindCap"

definition MachineNode_isFanOut :: "CSMachineNode \<Rightarrow> bool" where
  "MachineNode_isFanOut n \<longleftrightarrow> node_kind n = CSExecutionNodeKindForEach"

definition MachineNode_isFanIn :: "CSMachineNode \<Rightarrow> bool" where
  "MachineNode_isFanIn n \<longleftrightarrow> node_kind n = CSExecutionNodeKindCollect"

section \<open>Plans\<close>

record CSMachinePlan =
  plan_name :: string
  nodes :: "(string, CSMachineNode) fmap"
  edges :: "CSMachinePlanEdge list"
  entryNodes :: "string list"
  outputNodes :: "string list"
  plan_metadata :: "(string \<rightharpoonup> json) option"

definition MachinePlan_planWithName :: "string \<Rightarrow> CSMachinePlan" where
  "MachinePlan_planWithName n =
     \<lparr>plan_name = n, nodes = fmempty, edges = [], entryNodes = [], outputNodes = [],
      plan_metadata = None\<rparr>"

definition MachinePlan_addNode :: "CSMachineNode \<Rightarrow> CSMachinePlan \<Rightarrow> CSMachinePlan" where
  "MachinePlan_addNode n p =
     (let p' = (case node_kind n of
                  CSExecutionNodeKindInputSlot \<Rightarrow> p\<lparr>entryNodes := entryNodes p @ [nodeId n]\<rparr>
                | CSExecutionNodeKindOutput \<Rightarrow> p\<lparr>outputNodes := outputNodes p @ [nodeId n]\<rparr>
                | _ \<Rightarrow> p)
      in p'\<lparr>nodes := fmupd (nodeId n) n (nodes p')\<rparr>)"

definition MachinePlan_addEdge :: "CSMachinePlanEdge \<Rightarrow> CSMachinePlan \<Rightarrow> CSMachinePlan" where
  "MachinePlan_addEdge e p = p\<lparr>edges := edges p @ [e]\<rparr>"

definition MachinePlan_getNode :: "CSMachinePlan \<Rightarrow> string \<Rightarrow> CSMachineNode option" where
  "MachinePlan_getNode p i = fmlookup (nodes p) i"

section \<open>Validation\<close>

datatype plan_error =
    Edge_from_not_found string
  | Edge_to_not_found string
  | Entry_not_found string
  | Output_not_found string
  | Names_unknown string string "string option"
  | Step_is_no_step string string
  | Item_not_listed string "string option" "string option"
  | Map_iterates_nothing string
  | Map_item_is_not_that string string string
  | Map_item_not_in_body string string
  | Map_lists_itself string
  | In_two_bodies string string string
  | Cycle_detected

text \<open>\<open>node:names:known:\<close>.  \<open>None\<close> is the \<open>nil\<close> error.\<close>

definition MachinePlan_names :: "CSMachinePlan \<Rightarrow> string \<Rightarrow> string \<Rightarrow> string option \<Rightarrow> plan_error option" where
  "MachinePlan_names p owner what i =
     (if lookup_opt (fmlookup (nodes p)) i \<noteq> None then None else Some (Names_unknown owner what i))"

fun validate_edges :: "CSMachinePlan \<Rightarrow> CSMachinePlanEdge list \<Rightarrow> plan_error option" where
  "validate_edges p [] = None"
| "validate_edges p (e # es) =
     (if fmlookup (nodes p) (fromNode e) = None then Some (Edge_from_not_found (fromNode e))
      else if fmlookup (nodes p) (toNode e) = None then Some (Edge_to_not_found (toNode e))
      else validate_edges p es)"

fun validate_listed :: "(string \<Rightarrow> plan_error) \<Rightarrow> CSMachinePlan \<Rightarrow> string list \<Rightarrow> plan_error option" where
  "validate_listed err p [] = None"
| "validate_listed err p (i # is) =
     (if fmlookup (nodes p) i = None then Some (err i) else validate_listed err p is)"

fun validate_gathered :: "CSMachinePlan \<Rightarrow> string \<Rightarrow> string list \<Rightarrow> plan_error option" where
  "validate_gathered p i [] = None"
| "validate_gathered p i (x # xs) =
     (case MachinePlan_names p i ''gathered node'' (Some x) of
        Some e \<Rightarrow> Some e
      | None \<Rightarrow> validate_gathered p i xs)"

fun validate_sources :: "CSMachinePlan \<Rightarrow> string \<Rightarrow> CSMachineNode \<Rightarrow> CSForEachSource list \<Rightarrow> plan_error option" where
  "validate_sources p i n [] = None"
| "validate_sources p i n (s # ss) =
     (case MachinePlan_names p i ''source'' (Some (source_node s)) of
        Some e \<Rightarrow> Some e
      | None \<Rightarrow>
     (case MachinePlan_names p i ''item'' (Some (source_item s)) of
        Some e \<Rightarrow> Some e
      | None \<Rightarrow>
     (case fmlookup (nodes p) (source_item s) of
        None \<Rightarrow> Some (Map_item_is_not_that i (source_item s) (source_node s))
      | Some item \<Rightarrow>
          if node_kind item \<noteq> CSExecutionNodeKindItem \<or> node_foreach item \<noteq> Some i \<or>
             node_source item \<noteq> Some (source_node s)
          then Some (Map_item_is_not_that i (source_item s) (source_node s))
          else if source_item s \<notin> set (elems (node_body n))
          then Some (Map_item_not_in_body i (source_item s))
          else validate_sources p i n ss)))"

fun validate_members ::
    "CSMachinePlan \<Rightarrow> string \<Rightarrow> (string \<rightharpoonup> string) \<Rightarrow> string list \<Rightarrow> plan_error + (string \<rightharpoonup> string)" where
  "validate_members p i inBody [] = Inr inBody"
| "validate_members p i inBody (x # xs) =
     (case MachinePlan_names p i ''body node'' (Some x) of
        Some e \<Rightarrow> Inl e
      | None \<Rightarrow>
          if x = i then Inl (Map_lists_itself i)
          else (case inBody x of
                  Some other \<Rightarrow> Inl (In_two_bodies x other i)
                | None \<Rightarrow> validate_members p i (inBody(x \<mapsto> i)) xs))"

definition validate_cap_output :: "CSMachinePlan \<Rightarrow> string \<Rightarrow> CSMachineNode \<Rightarrow> plan_error option" where
  "validate_cap_output p i n =
     (case MachinePlan_names p i ''step'' (capNode n) of
        Some e \<Rightarrow> Some e
      | None \<Rightarrow>
          (case capNode n of
             None \<Rightarrow> None
           | Some c \<Rightarrow>
               (case fmlookup (nodes p) c of
                  None \<Rightarrow> Some (Step_is_no_step i c)
                | Some m \<Rightarrow> if MachineNode_isCap m then None else Some (Step_is_no_step i c))))"

definition validate_item :: "CSMachinePlan \<Rightarrow> string \<Rightarrow> CSMachineNode \<Rightarrow> plan_error option" where
  "validate_item p i n =
     (case MachinePlan_names p i ''map'' (node_foreach n) of
        Some e \<Rightarrow> Some e
      | None \<Rightarrow>
          (let listed =
             (case lookup_opt (fmlookup (nodes p)) (node_foreach n) of
                None \<Rightarrow> False
              | Some m \<Rightarrow>
                  node_kind m = CSExecutionNodeKindForEach \<and>
                  (\<exists>s \<in> set (elems (node_sources m)).
                     source_item s = i \<and> Some (source_node s) = node_source n))
           in if listed then None else Some (Item_not_listed i (node_foreach n) (node_source n))))"

definition validate_node ::
    "CSMachinePlan \<Rightarrow> (string \<rightharpoonup> string) \<Rightarrow> string \<Rightarrow> CSMachineNode \<Rightarrow> plan_error + (string \<rightharpoonup> string)" where
  "validate_node p inBody i n =
     (let check = (\<lambda>e. case e of Some err \<Rightarrow> Inl err | None \<Rightarrow> Inr inBody)
      in case node_kind n of
           CSExecutionNodeKindCap \<Rightarrow> Inr inBody
         | CSExecutionNodeKindInputSlot \<Rightarrow> Inr inBody
         | CSExecutionNodeKindOutput \<Rightarrow> check (MachinePlan_names p i ''source'' (sourceNode n))
         | CSExecutionNodeKindCollect \<Rightarrow> check (validate_gathered p i (elems (inputNodes n)))
         | CSExecutionNodeKindCapOutput \<Rightarrow> check (validate_cap_output p i n)
         | CSExecutionNodeKindItem \<Rightarrow> check (validate_item p i n)
         | CSExecutionNodeKindForEach \<Rightarrow>
             (if elems (node_sources n) = [] then Inl (Map_iterates_nothing i)
              else case validate_sources p i n (elems (node_sources n)) of
                     Some e \<Rightarrow> Inl e
                   | None \<Rightarrow> validate_members p i inBody (elems (node_body n))))"

fun validate_nodes :: "CSMachinePlan \<Rightarrow> (string \<rightharpoonup> string) \<Rightarrow> string list \<Rightarrow> plan_error option" where
  "validate_nodes p inBody [] = None"
| "validate_nodes p inBody (i # is) =
     (case fmlookup (nodes p) i of
        None \<Rightarrow> validate_nodes p inBody is
      | Some n \<Rightarrow>
          (case validate_node p inBody i n of
             Inl e \<Rightarrow> Some e
           | Inr inBody' \<Rightarrow> validate_nodes p inBody' is))"

definition MachinePlan_validate :: "string list \<Rightarrow> CSMachinePlan \<Rightarrow> plan_error option" where
  "MachinePlan_validate allKeys p =
     (case validate_edges p (edges p) of
        Some e \<Rightarrow> Some e
      | None \<Rightarrow>
     (case validate_listed Entry_not_found p (entryNodes p) of
        Some e \<Rightarrow> Some e
      | None \<Rightarrow>
     (case validate_listed Output_not_found p (outputNodes p) of
        Some e \<Rightarrow> Some e
      | None \<Rightarrow> validate_nodes p Map.empty (sort_by compare_linorder allKeys))))"

section \<open>Maps\<close>

text \<open>The enumeration of the nodes decides which map wins where two list a node; a valid plan has none.\<close>

definition enclose :: "CSMachinePlan \<Rightarrow> (string \<rightharpoonup> string) \<Rightarrow> string \<Rightarrow> (string \<rightharpoonup> string)" where
  "enclose p enclosing i =
     (case fmlookup (nodes p) i of
        None \<Rightarrow> enclosing
      | Some n \<Rightarrow>
          if node_kind n \<noteq> CSExecutionNodeKindForEach then enclosing
          else foldl (\<lambda>m x. m(x \<mapsto> i)) enclosing (elems (node_body n)))"

definition MachinePlan_enclosingMaps :: "string list \<Rightarrow> CSMachinePlan \<Rightarrow> (string \<rightharpoonup> string)" where
  "MachinePlan_enclosingMaps keys p = foldl (enclose p) Map.empty keys"

definition body_of :: "CSMachinePlan \<Rightarrow> string \<Rightarrow> string list" where
  "body_of p i =
     (case fmlookup (nodes p) i of
        None \<Rightarrow> []
      | Some n \<Rightarrow> if node_kind n = CSExecutionNodeKindForEach then elems (node_body n) else [])"

fun add_members :: "string list \<Rightarrow> string set \<Rightarrow> string list \<Rightarrow> string set \<times> string list" where
  "add_members [] members pending = (members, pending)"
| "add_members (x # xs) members pending =
     (if x \<notin> members then add_members xs (insert x members) (pending @ [x])
      else add_members xs members pending)"

text \<open>Every node some map lists: what the members found so far are taken from.\<close>

definition listed_nodes :: "CSMachinePlan \<Rightarrow> string set" where
  "listed_nodes p = (\<Union>i \<in> fmdom' (nodes p). set (body_of p i))"

lemma finite_listed_nodes [simp]: "finite (listed_nodes p)"
  by (simp add: listed_nodes_def)

lemma body_of_listed: "set (body_of p i) \<subseteq> listed_nodes p"
proof (cases "fmlookup (nodes p) i")
  case None
  then show ?thesis by (simp add: body_of_def)
next
  case (Some n)
  then have "i \<in> fmdom' (nodes p)" by (simp add: fmdom'I)
  then show ?thesis unfolding listed_nodes_def by (rule UN_upper)
qed

lemma add_members_sets:
  "add_members xs members pending = (members', pending') \<Longrightarrow>
     members' = members \<union> set xs \<and> set pending' = set pending \<union> (set xs - members)"
  by (induction xs members pending rule: add_members.induct) (auto split: if_splits)

lemma add_members_same:
  "add_members xs members pending = (members', pending') \<Longrightarrow> members' = members \<Longrightarrow>
     pending' = pending"
proof (induction xs members pending rule: add_members.induct)
  case (2 x xs members pending)
  then show ?case
    using add_members_sets [of xs "insert x members" "pending @ [x]" members' pending']
    by (auto split: if_splits)
qed simp

text \<open>The loop of \<open>mapMembers:\<close>: the last pending id is taken; a member not seen before is recorded and
  pending in turn.\<close>

function mapMembers_loop :: "CSMachinePlan \<Rightarrow> string set \<Rightarrow> string list \<Rightarrow> string set" where
  "mapMembers_loop p members pending =
     (if pending = [] then members
      else let (members', pending') = add_members (body_of p (last pending)) members (butlast pending)
           in mapMembers_loop p members' pending')"
  by pat_completeness auto

termination
proof (relation "inv_image (finite_psubset <*lex*> less_than)
          (\<lambda>(p, members, pending). (listed_nodes p - members, length pending))", goal_cases)
  case 1
  then show ?case by (auto intro: wf_finite_psubset)
next
  case (2 p members pending r members' pending')
  then have step: "add_members (body_of p (last pending)) members (butlast pending) = (members', pending')"
    by simp
  have members': "members' = members \<union> set (body_of p (last pending))"
    using add_members_sets [OF step] by simp
  show ?case
  proof (cases "members' = members")
    case True
    then have "pending' = butlast pending" using add_members_same [OF step] by simp
    then show ?thesis using True 2(1) by simp
  next
    case False
    then have "listed_nodes p - members' \<subset> listed_nodes p - members"
      using members' body_of_listed [of p "last pending"] by auto
    then show ?thesis by (simp add: finite_psubset_def)
  qed
qed

declare mapMembers_loop.simps [simp del]

definition MachinePlan_mapMembers :: "CSMachinePlan \<Rightarrow> string \<Rightarrow> string set" where
  "MachinePlan_mapMembers p foreachId = mapMembers_loop p {} [foreachId]"

section \<open>Order\<close>

type_synonym degrees = "(string, int) fmap"

definition degree :: "degrees \<Rightarrow> string \<Rightarrow> int" where
  "degree d i = (case fmlookup d i of None \<Rightarrow> 0 | Some n \<Rightarrow> n)"

fun count_edges ::
    "CSMachinePlanEdge list \<Rightarrow> degrees \<times> (string, string list) fmap \<Rightarrow> degrees \<times> (string, string list) fmap" where
  "count_edges [] da = da"
| "count_edges (e # es) (d, adj) =
     count_edges es
       (if fmlookup d (toNode e) \<noteq> None then fmupd (toNode e) (degree d (toNode e) + 1) d else d,
        case fmlookup adj (fromNode e) of
          None \<Rightarrow> adj
        | Some xs \<Rightarrow> fmupd (fromNode e) (xs @ [toNode e]) adj)"

text \<open>One popped node: each neighbour loses a degree and is queued when none is left.  A neighbour the
  plan does not have reads as degree 0 and is recorded below it.\<close>

fun relax :: "string list \<Rightarrow> degrees \<times> string list \<Rightarrow> degrees \<times> string list" where
  "relax [] dq = dq"
| "relax (x # xs) (d, queue) =
     (let k = degree d x - 1
      in relax xs (fmupd x k d, if k = 0 then queue @ [x] else queue))"

definition neighbours :: "(string, string list) fmap \<Rightarrow> string \<Rightarrow> string list" where
  "neighbours adj i = elems (fmlookup adj i)"

definition open_degree :: "degrees \<Rightarrow> nat" where
  "open_degree d = (\<Sum>i \<in> fmdom' d. nat (degree d i))"

lemma degree_fmupd [simp]: "degree (fmupd i k d) j = (if j = i then k else degree d j)"
  by (simp add: degree_def)

lemma degree_outside: "i \<notin> fmdom' d \<Longrightarrow> degree d i = 0"
  by (simp add: degree_def fmdom'_notD)

lemma open_degree_fmupd:
  assumes "k \<le> degree d x"
  shows "open_degree (fmupd x k d) + (if k = 0 \<and> degree d x = 1 then 1 else 0) \<le> open_degree d"
proof -
  let ?rest = "\<Sum>i \<in> fmdom' d - {x}. nat (degree d i)"
  have new: "open_degree (fmupd x k d) = nat k + ?rest"
  proof -
    have "open_degree (fmupd x k d) = (\<Sum>i \<in> insert x (fmdom' d). nat (if i = x then k else degree d i))"
      by (simp add: open_degree_def)
    also have "\<dots> = nat k + (\<Sum>i \<in> fmdom' d - {x}. nat (if i = x then k else degree d i))"
      by (simp add: sum.insert_remove)
    also have "(\<Sum>i \<in> fmdom' d - {x}. nat (if i = x then k else degree d i)) = ?rest"
      by (rule sum.cong) auto
    finally show ?thesis .
  qed
  have old: "open_degree d = nat (degree d x) + ?rest"
  proof (cases "x \<in> fmdom' d")
    case True
    then show ?thesis by (simp add: open_degree_def sum.remove)
  next
    case False
    then show ?thesis by (simp add: open_degree_def degree_outside)
  qed
  show ?thesis using new old assms by auto
qed

lemma relax_measure:
  "relax xs (d, queue) = (d', queue') \<Longrightarrow>
     open_degree d' + length queue' \<le> open_degree d + length queue"
proof (induction xs arbitrary: d queue)
  case (Cons x xs)
  let ?k = "degree d x - 1"
  have "open_degree d' + length queue' \<le>
      open_degree (fmupd x ?k d) + length (if ?k = 0 then queue @ [x] else queue)"
    using Cons by (auto simp: Let_def)
  then show ?case using open_degree_fmupd [of ?k d x] by (auto split: if_splits)
qed simp

text \<open>The nodes taken from the queue, in order.\<close>

function kahn_loop ::
    "CSMachinePlan \<Rightarrow> (string, string list) fmap \<Rightarrow> degrees \<Rightarrow> string list \<Rightarrow> CSMachineNode list \<Rightarrow>
     CSMachineNode list" where
  "kahn_loop p adj d queue result =
     (case queue of
        [] \<Rightarrow> result
      | i # rest \<Rightarrow>
          (let result' = (case fmlookup (nodes p) i of Some n \<Rightarrow> result @ [n] | None \<Rightarrow> result);
               (d', queue') = relax (neighbours adj i) (d, rest)
           in kahn_loop p adj d' queue' result'))"
  by pat_completeness auto

termination
proof (relation "measure (\<lambda>(p, adj, d, queue, result). open_degree d + length queue)", goal_cases)
  case (2 p adj d queue result i rest result' r d' queue')
  then have "open_degree d' + length queue' \<le> open_degree d + length rest"
    using relax_measure by simp
  then show ?case using 2 by simp
qed simp

declare kahn_loop.simps [simp del]

definition MachinePlan_topologicalOrder ::
    "string list \<Rightarrow> CSMachinePlan \<Rightarrow> plan_error + CSMachineNode list" where
  "MachinePlan_topologicalOrder order p =
     (let (d, adj) = count_edges (edges p) (fmmap (\<lambda>_. 0) (nodes p), fmmap (\<lambda>_. []) (nodes p));
          queue = filter (\<lambda>i. degree d i = 0) order;
          result = kahn_loop p adj d queue []
      in if length result \<noteq> card (fmdom' (nodes p)) then Inl Cycle_detected else Inr result)"

section \<open>Ready-made plans\<close>

definition MachinePlan_singleCapPlan :: "CSStepToken \<Rightarrow> string \<Rightarrow> string \<Rightarrow> string \<Rightarrow> string \<Rightarrow> CSMachinePlan" where
  "MachinePlan_singleCapPlan token capUrn inputMedia outputMedia filePathArgName =
     (let p0 = MachinePlan_planWithName (''Single cap: '' @ capUrn);
          p1 = MachinePlan_addNode
                 (MachineNode_inputSlotNode ''input_slot'' ''input'' inputMedia CSInputCardinalitySingle) p0;
          bindings = [filePathArgName \<mapsto> ArgumentBinding_inputFilePath];
          p2 = MachinePlan_addNode (MachineNode_capNode ''cap_0'' capUrn bindings token) p1;
          p3 = MachinePlan_addEdge (MachinePlanEdge_directFrom ''input_slot'' ''cap_0'') p2;
          p4 = MachinePlan_addNode (MachineNode_outputNode ''output'' ''result'' ''cap_0'') p3
      in MachinePlan_addEdge (MachinePlanEdge_directFrom ''cap_0'' ''output'') p4)"

definition cap_id :: "nat \<Rightarrow> string" where
  "cap_id i = ''cap_'' @ string_of_nat i"

text \<open>The loop over the caps; \<open>mint i\<close> is the token minted in round \<open>i\<close>.\<close>

fun linear_loop ::
    "(nat \<Rightarrow> CSStepToken) \<Rightarrow> string list \<Rightarrow> nat \<Rightarrow> string list \<Rightarrow> string \<Rightarrow> CSMachinePlan \<Rightarrow>
     string \<times> CSMachinePlan" where
  "linear_loop mint args i [] prevId p = (prevId, p)"
| "linear_loop mint args i (urn # urns) prevId p =
     (let bindings = (if i < length args then [args ! i \<mapsto> ArgumentBinding_inputFilePath] else Map.empty);
          p1 = MachinePlan_addNode (MachineNode_capNode (cap_id i) urn bindings (mint i)) p;
          p2 = MachinePlan_addEdge (MachinePlanEdge_directFrom prevId (cap_id i)) p1
      in linear_loop mint args (Suc i) urns (cap_id i) p2)"

definition MachinePlan_linearChainPlan ::
    "(nat \<Rightarrow> CSStepToken) \<Rightarrow> string list \<Rightarrow> string \<Rightarrow> string \<Rightarrow> string list \<Rightarrow> CSMachinePlan" where
  "MachinePlan_linearChainPlan mint capUrns inputMedia outputMedia filePathArgNames =
     (let p0 = MachinePlan_planWithName ''Linear machine''
      in if capUrns = [] then p0
         else let p1 = MachinePlan_addNode
                         (MachineNode_inputSlotNode ''input_slot'' ''input'' inputMedia CSInputCardinalitySingle) p0;
                  (prevId, p2) = linear_loop mint filePathArgNames 0 capUrns ''input_slot'' p1;
                  p3 = MachinePlan_addNode (MachineNode_outputNode ''output'' ''result'' prevId) p2
              in MachinePlan_addEdge (MachinePlanEdge_directFrom prevId ''output'') p3)"

fun has_foreach_loop :: "CSMachinePlan \<Rightarrow> string list \<Rightarrow> bool" where
  "has_foreach_loop p [] = False"
| "has_foreach_loop p (i # is) =
     (case fmlookup (nodes p) i of
        Some n \<Rightarrow> if MachineNode_isFanOut n then True else has_foreach_loop p is
      | None \<Rightarrow> has_foreach_loop p is)"

definition MachinePlan_hasForeach :: "string list \<Rightarrow> CSMachinePlan \<Rightarrow> bool" where
  "MachinePlan_hasForeach keys p = has_foreach_loop p keys"

end
