(* ===== verification/PlanOrder.thy ===== *)
theory PlanOrder
  imports Plan
begin

text \<open>
  \<open>topologicalOrder:\<close> of a plan.  The loop keeps one invariant (\<open>kahn_inv\<close>): the ids taken so far and the
  queue hold every node once, the degree of a node counts the edges into it from nodes not taken yet, and
  a node was taken only after all its predecessors.  When the queue is empty the nodes left over each
  have a predecessor left over, so there is a cycle among them or an edge from outside the plan.
\<close>

abbreviation plan_ids :: "CSMachinePlan \<Rightarrow> string set" where
  "plan_ids p \<equiv> fmdom' (nodes p)"

definition plan_edges :: "CSMachinePlan \<Rightarrow> (string \<times> string) set" where
  "plan_edges p =
     {(fromNode e, toNode e) | e. e \<in> set (edges p) \<and> fromNode e \<in> plan_ids p \<and> toNode e \<in> plan_ids p}"

definition grounded :: "CSMachinePlan \<Rightarrow> bool" where
  "grounded p \<longleftrightarrow> (\<forall>e \<in> set (edges p). toNode e \<in> plan_ids p \<longrightarrow> fromNode e \<in> plan_ids p)"

definition precedes :: "'a list \<Rightarrow> 'a \<Rightarrow> 'a \<Rightarrow> bool" where
  "precedes xs a b \<longleftrightarrow> (\<exists>us vs ws. xs = us @ a # vs @ b # ws)"

definition edges_into :: "CSMachinePlan \<Rightarrow> string set \<Rightarrow> string \<Rightarrow> CSMachinePlanEdge list" where
  "edges_into p taken i = filter (\<lambda>e. toNode e = i \<and> fromNode e \<notin> taken) (edges p)"

section \<open>The tables\<close>

lemma count_edges_spec:
  assumes "count_edges es (d, adj) = (d', adj')"
  shows "fmdom' d' = fmdom' d"
    and "degree d' i =
           degree d i + (if i \<in> fmdom' d then int (length (filter (\<lambda>e. toNode e = i) es)) else 0)"
    and "neighbours adj' i =
           neighbours adj i @ (if i \<in> fmdom' adj then map toNode (filter (\<lambda>e. fromNode e = i) es) else [])"
proof -
  have "fmdom' d' = fmdom' d \<and>
    degree d' i = degree d i + (if i \<in> fmdom' d then int (length (filter (\<lambda>e. toNode e = i) es)) else 0) \<and>
    neighbours adj' i =
      neighbours adj i @ (if i \<in> fmdom' adj then map toNode (filter (\<lambda>e. fromNode e = i) es) else [])"
    using assms
  proof (induction es "(d, adj)" arbitrary: d adj rule: count_edges.induct)
    case (2 e es d adj)
    let ?d = "if fmlookup d (toNode e) \<noteq> None then fmupd (toNode e) (degree d (toNode e) + 1) d else d"
    let ?adj = "case fmlookup adj (fromNode e) of None \<Rightarrow> adj
                  | Some xs \<Rightarrow> fmupd (fromNode e) (xs @ [toNode e]) adj"
    have rec: "count_edges es (?d, ?adj) = (d', adj')" using 2(2) by simp
    have dom: "fmdom' ?d = fmdom' d" "fmdom' ?adj = fmdom' adj"
      by (auto simp: fmdom'I insert_absorb split: option.splits)
    have deg: "degree ?d i = degree d i + (if toNode e = i \<and> i \<in> fmdom' d then 1 else 0)"
      by (auto simp: fmdom'I fmlookup_dom'_iff)
    have neigh: "neighbours ?adj i =
        neighbours adj i @ (if fromNode e = i \<and> i \<in> fmdom' adj then [toNode e] else [])"
      by (auto simp: neighbours_def fmlookup_dom'_iff split: option.splits)
    show ?case using 2(1) [OF rec] unfolding dom deg neigh by simp
  qed simp
  then show "fmdom' d' = fmdom' d"
    and "degree d' i =
           degree d i + (if i \<in> fmdom' d then int (length (filter (\<lambda>e. toNode e = i) es)) else 0)"
    and "neighbours adj' i =
           neighbours adj i @ (if i \<in> fmdom' adj then map toNode (filter (\<lambda>e. fromNode e = i) es) else [])"
    by simp_all
qed

lemma relax_spec:
  assumes "relax xs (d, queue) = (d', queue')"
  shows "degree d' i = degree d i - int (count_list xs i)"
    and "\<exists>new. queue' = queue @ new \<and> distinct new \<and>
           (\<forall>j. j \<in> set new \<longleftrightarrow> 1 \<le> degree d j \<and> degree d j \<le> int (count_list xs j))"
proof -
  have "(\<forall>i. degree d' i = degree d i - int (count_list xs i)) \<and>
     (\<exists>new. queue' = queue @ new \<and> distinct new \<and>
        (\<forall>j. j \<in> set new \<longleftrightarrow> 1 \<le> degree d j \<and> degree d j \<le> int (count_list xs j)))"
    using assms
  proof (induction xs arbitrary: d queue)
    case (Cons x xs)
    let ?k = "degree d x - 1"
    let ?q = "if ?k = 0 then queue @ [x] else queue"
    have rec: "relax xs (fmupd x ?k d, ?q) = (d', queue')" using Cons.prems by (simp add: Let_def)
    obtain new where deg: "\<forall>i. degree d' i = degree (fmupd x ?k d) i - int (count_list xs i)"
      and new: "queue' = ?q @ new" "distinct new"
        "\<forall>j. j \<in> set new \<longleftrightarrow>
           1 \<le> degree (fmupd x ?k d) j \<and> degree (fmupd x ?k d) j \<le> int (count_list xs j)"
      using Cons.IH [OF rec] by blast
    have "\<exists>new'. queue' = queue @ new' \<and> distinct new' \<and>
        (\<forall>j. j \<in> set new' \<longleftrightarrow> 1 \<le> degree d j \<and> degree d j \<le> int (count_list (x # xs) j))"
    proof (cases "?k = 0")
      case True
      then show ?thesis using new by (intro exI [of _ "x # new"]) auto
    next
      case False
      then show ?thesis using new by (intro exI [of _ new]) auto
    qed
    then show ?case using deg by auto
  qed simp
  then show "degree d' i = degree d i - int (count_list xs i)"
    and "\<exists>new. queue' = queue @ new \<and> distinct new \<and>
           (\<forall>j. j \<in> set new \<longleftrightarrow> 1 \<le> degree d j \<and> degree d j \<le> int (count_list xs j))"
    by blast+
qed

section \<open>The loop\<close>

definition ordered :: "CSMachinePlan \<Rightarrow> string list \<Rightarrow> bool" where
  "ordered p taken \<longleftrightarrow>
     (\<forall>us x ws. taken = us @ x # ws \<longrightarrow> edges_into p (set us) x = [])"

definition kahn_inv :: "CSMachinePlan \<Rightarrow> string list \<Rightarrow> degrees \<Rightarrow> string list \<Rightarrow> bool" where
  "kahn_inv p taken d queue \<longleftrightarrow>
     distinct (taken @ queue) \<and> set (taken @ queue) \<subseteq> plan_ids p \<and>
     (\<forall>i \<in> plan_ids p. degree d i = int (length (edges_into p (set taken) i))) \<and>
     (\<forall>i. i \<notin> plan_ids p \<longrightarrow> degree d i \<le> 0) \<and>
     (\<forall>i \<in> plan_ids p. i \<in> set (taken @ queue) \<longleftrightarrow> degree d i = 0) \<and>
     ordered p taken"

lemma ordered_snoc: "ordered p taken \<Longrightarrow> edges_into p (set taken) x = [] \<Longrightarrow> ordered p (taken @ [x])"
  unfolding ordered_def
  by (auto simp: append_eq_append_conv2 append_eq_Cons_conv Cons_eq_append_conv)

lemma edges_into_split:
  assumes "x \<notin> taken"
  shows "int (length (edges_into p taken i)) - int (count_list (map toNode (filter (\<lambda>e. fromNode e = x) (edges p))) i)
           = int (length (edges_into p (insert x taken) i))"
proof -
  have "length (filter (\<lambda>e. toNode e = i \<and> fromNode e \<notin> taken) es) =
      count_list (map toNode (filter (\<lambda>e. fromNode e = x) es)) i +
      length (filter (\<lambda>e. toNode e = i \<and> fromNode e \<notin> insert x taken) es)" for es
    using assms by (induction es) auto
  from this [of "edges p"] show ?thesis by (simp add: edges_into_def)
qed

lemma kahn_step:
  assumes inv: "kahn_inv p taken d (x # queue)"
    and adj: "neighbours adj x = map toNode (filter (\<lambda>e. fromNode e = x) (edges p))"
    and relax: "relax (neighbours adj x) (d, queue) = (d', queue')"
  shows "kahn_inv p (taken @ [x]) d' queue'"
proof -
  let ?N = "plan_ids p"
  let ?c = "\<lambda>i. int (count_list (neighbours adj x) i)"
  from inv have dist: "distinct (taken @ x # queue)" and sub: "set (taken @ x # queue) \<subseteq> ?N"
    and deg: "\<And>i. i \<in> ?N \<Longrightarrow> degree d i = int (length (edges_into p (set taken) i))"
    and out: "\<And>i. i \<notin> ?N \<Longrightarrow> degree d i \<le> 0"
    and zero: "\<And>i. i \<in> ?N \<Longrightarrow> i \<in> set (taken @ x # queue) \<longleftrightarrow> degree d i = 0"
    and ord: "ordered p taken"
    unfolding kahn_inv_def by blast+
  have x: "x \<notin> set taken" "x \<in> ?N" using dist sub by auto
  obtain new where new: "queue' = queue @ new" "distinct new"
      "\<And>j. j \<in> set new \<longleftrightarrow> 1 \<le> degree d j \<and> degree d j \<le> ?c j"
    using relax_spec(2) [OF relax] by blast
  have deg': "degree d' i = degree d i - ?c i" for i by (rule relax_spec(1) [OF relax])
  have taken': "degree d' i = int (length (edges_into p (set (taken @ [x])) i))" if "i \<in> ?N" for i
    using deg' [of i] deg [OF that] edges_into_split [OF x(1), of p i] unfolding adj by simp
  have newN: "set new \<subseteq> ?N" using new(3) out by fastforce
  have "edges_into p (set taken) x = []" using deg [OF x(2)] zero [OF x(2)] by simp
  then have "ordered p (taken @ [x])" by (rule ordered_snoc [OF ord])
  moreover have "distinct ((taken @ [x]) @ queue')"
  proof -
    have "y \<notin> set new" if "y \<in> set (taken @ x # queue)" for y
      using that zero [of y] sub new(3) [of y] by auto
    then show ?thesis using dist new(1,2) by auto
  qed
  moreover have "i \<in> set ((taken @ [x]) @ queue') \<longleftrightarrow> degree d' i = 0" if "i \<in> ?N" for i
  proof (cases "degree d i = 0")
    case True
    then show ?thesis using zero [OF that] taken' [OF that] deg' [of i] new(1) by auto
  next
    case False
    then have "i \<in> set ((taken @ [x]) @ queue') \<longleftrightarrow> i \<in> set new" using zero [OF that] new(1) by auto
    then show ?thesis using False new(3) [of i] deg [OF that] deg' [of i] taken' [OF that] by auto
  qed
  moreover have "degree d' i \<le> 0" if "i \<notin> ?N" for i using deg' [of i] out [OF that] by simp
  ultimately show ?thesis using sub newN taken' new(1) unfolding kahn_inv_def by auto
qed

abbreviation node_at :: "CSMachinePlan \<Rightarrow> string \<Rightarrow> CSMachineNode" where
  "node_at p i \<equiv> the (fmlookup (nodes p) i)"

lemma kahn_loop_Nil [simp]: "kahn_loop p adj d [] result = result"
  by (simp add: kahn_loop.simps [of p adj d "[]"])

lemma kahn_loop_inv:
  assumes "kahn_inv p taken d queue"
    and "\<And>i. i \<in> plan_ids p \<Longrightarrow> neighbours adj i = map toNode (filter (\<lambda>e. fromNode e = i) (edges p))"
    and "result = map (node_at p) taken"
  shows "\<exists>all d'. kahn_loop p adj d queue result = map (node_at p) all \<and> kahn_inv p all d' []"
  using assms
proof (induction p adj d queue result arbitrary: taken rule: kahn_loop.induct)
  case (1 p adj d queue result)
  show ?case
  proof (cases queue)
    case Nil
    then show ?thesis using 1(2,4) by auto
  next
    case (Cons x rest)
    obtain d' queue' where relax: "relax (neighbours adj x) (d, rest) = (d', queue')" by fastforce
    have x: "x \<in> plan_ids p" using 1(2) Cons by (auto simp: kahn_inv_def)
    then obtain n where n: "fmlookup (nodes p) x = Some n" by (meson fmlookup_dom'_iff)
    have "kahn_inv p (taken @ [x]) d' queue'"
      using kahn_step 1(2) 1(3) [OF x] relax unfolding Cons by blast
    moreover have "result @ [n] = map (node_at p) (taken @ [x])" using 1(4) n by simp
    ultimately show ?thesis
      using 1(1) [OF Cons refl relax [symmetric] refl, of "taken @ [x]"] 1(3) n relax
      by (simp add: kahn_loop.simps [of p adj d "x # rest"] Cons)
  qed
qed

section \<open>The order\<close>

lemma precedes_rank:
  assumes "precedes xs a b" "distinct xs"
  shows "length (dropWhile (\<lambda>x. x \<noteq> b) xs) < length (dropWhile (\<lambda>x. x \<noteq> a) xs)"
proof -
  obtain us vs ws where xs: "xs = us @ a # vs @ b # ws" using assms(1) by (auto simp: precedes_def)
  have "dropWhile (\<lambda>x. x \<noteq> a) xs = a # vs @ b # ws"
    using assms(2) unfolding xs by (subst dropWhile_append2) auto
  moreover have "dropWhile (\<lambda>x. x \<noteq> b) xs = b # ws"
  proof -
    have "xs = (us @ a # vs) @ b # ws" by (simp add: xs)
    then show ?thesis using assms(2) by (simp only:) (subst dropWhile_append2; auto)
  qed
  ultimately show ?thesis by simp
qed

lemma finite_plan_edges: "finite (plan_edges p)"
proof -
  have "plan_edges p \<subseteq> (\<lambda>e. (fromNode e, toNode e)) ` set (edges p)" by (auto simp: plan_edges_def)
  then show ?thesis by (rule finite_subset) simp
qed

lemma ordered_precedes:
  assumes "ordered p all" "e \<in> set (edges p)" "toNode e \<in> set all"
  shows "precedes all (fromNode e) (toNode e)"
proof -
  obtain us ws where all: "all = us @ toNode e # ws" using assms(3) by (auto simp: in_set_conv_decomp)
  then have "edges_into p (set us) (toNode e) = []" using assms(1) by (auto simp: ordered_def)
  then have "fromNode e \<in> set us" using assms(2) by (auto simp: edges_into_def filter_empty_conv)
  then obtain ys zs where "us = ys @ fromNode e # zs" by (auto simp: in_set_conv_decomp)
  then have "all = ys @ fromNode e # zs @ toNode e # ws" by (simp add: all)
  then show ?thesis unfolding precedes_def by blast
qed

lemma kahn_done:
  assumes inv: "kahn_inv p all d []"
  shows "set all = plan_ids p \<longleftrightarrow> acyclic (plan_edges p) \<and> grounded p"
proof
  assume eq: "set all = plan_ids p"
  have ord: "ordered p all" and dist: "distinct all" using inv by (auto simp: kahn_inv_def)
  have before: "precedes all (fromNode e) (toNode e)" if "e \<in> set (edges p)" "toNode e \<in> plan_ids p" for e
    using ordered_precedes [OF ord that(1)] that(2) eq by simp
  have "fromNode e \<in> plan_ids p" if "precedes all (fromNode e) (toNode e)" for e
    using that eq unfolding precedes_def by fastforce
  then have "grounded p" using before by (auto simp: grounded_def)
  moreover have "acyclic (plan_edges p)"
    by (rule acyclicI_order [where f = "\<lambda>i. length (dropWhile (\<lambda>x. x \<noteq> i) all)"])
      (auto simp: plan_edges_def intro: precedes_rank [OF before dist])
  ultimately show "acyclic (plan_edges p) \<and> grounded p" by simp
next
  assume ok: "acyclic (plan_edges p) \<and> grounded p"
  have sub: "set all \<subseteq> plan_ids p" using inv by (auto simp: kahn_inv_def)
  show "set all = plan_ids p"
  proof (rule ccontr)
    assume "set all \<noteq> plan_ids p"
    then obtain r where "r \<in> plan_ids p - set all" using sub by blast
    moreover have "wf (plan_edges p)" using finite_acyclic_wf [OF finite_plan_edges] ok by blast
    ultimately obtain z where z: "z \<in> plan_ids p - set all"
      and least: "\<And>y. (y, z) \<in> plan_edges p \<Longrightarrow> y \<notin> plan_ids p - set all"
      using wfE_min [of "plan_edges p" r "plan_ids p - set all"] by blast
    have "length (edges_into p (set all) z) \<noteq> 0" using inv z by (auto simp: kahn_inv_def)
    then obtain e where "e \<in> set (edges_into p (set all) z)"
      by (metis length_0_conv list.set_intros(1) neq_Nil_conv)
    then have e: "e \<in> set (edges p)" "toNode e = z" "fromNode e \<notin> set all"
      by (auto simp: edges_into_def)
    then have "fromNode e \<in> plan_ids p" using ok z by (auto simp: grounded_def)
    then show False using least [of "fromNode e"] e z by (auto simp: plan_edges_def)
  qed
qed

lemma kahn_start:
  assumes order: "enumerates order (fmlookup (nodes p))"
    and tables: "count_edges (edges p) (fmmap (\<lambda>_. 0) (nodes p), fmmap (\<lambda>_. []) (nodes p)) = (d, adj)"
  shows "kahn_inv p [] d (filter (\<lambda>i. degree d i = 0) order)"
    and "i \<in> plan_ids p \<Longrightarrow> neighbours adj i = map toNode (filter (\<lambda>e. fromNode e = i) (edges p))"
proof -
  have zero: "degree (fmmap (\<lambda>_. 0) m) i = 0" for m :: "(string, CSMachineNode) fmap" and i
    by (auto simp: degree_def split: option.splits)
  have none: "neighbours (fmmap (\<lambda>_. []) m) i = []" for m :: "(string, CSMachineNode) fmap" and i
    by (cases "fmlookup m i") (auto simp: neighbours_def)
  have deg: "degree d i = (if i \<in> plan_ids p then int (length (edges_into p {} i)) else 0)" for i
    using count_edges_spec(2) [OF tables, of i] by (simp add: zero edges_into_def)
  have ids: "distinct order" "set order = plan_ids p"
    using order by (auto simp: enumerates_def fmlookup_dom'_iff)
  show "kahn_inv p [] d (filter (\<lambda>i. degree d i = 0) order)"
    unfolding kahn_inv_def using ids by (auto simp: deg ordered_def)
  show "neighbours adj i = map toNode (filter (\<lambda>e. fromNode e = i) (edges p))" if "i \<in> plan_ids p"
    using count_edges_spec(3) [OF tables, of i] that by (simp add: none)
qed

lemma topologicalOrder_ids:
  assumes "enumerates order (fmlookup (nodes p))"
  shows "\<exists>all d. kahn_inv p all d [] \<and>
           MachinePlan_topologicalOrder order p =
             (if set all = plan_ids p then Inr (map (node_at p) all) else Inl Cycle_detected)"
proof -
  obtain d adj where tables:
    "count_edges (edges p) (fmmap (\<lambda>_. 0) (nodes p), fmmap (\<lambda>_. []) (nodes p)) = (d, adj)"
    by fastforce
  let ?q = "filter (\<lambda>i. degree d i = 0) order"
  obtain all d' where all: "kahn_loop p adj d ?q [] = map (node_at p) all" and inv: "kahn_inv p all d' []"
    using kahn_loop_inv [OF kahn_start [OF assms tables]] by auto
  have "length all = card (set all)" "set all \<subseteq> plan_ids p"
    using inv by (auto simp: kahn_inv_def distinct_card)
  then have "length all = card (plan_ids p) \<longleftrightarrow> set all = plan_ids p"
    using card_subset_eq [of "plan_ids p" "set all"] by auto
  then have "MachinePlan_topologicalOrder order p =
      (if set all = plan_ids p then Inr (map (node_at p) all) else Inl Cycle_detected)"
    by (simp add: MachinePlan_topologicalOrder_def tables all)
  then show ?thesis using inv by blast
qed

text \<open>C29: Ordering a plan to run.  Whatever order the dictionary is enumerated in, an order is found
  exactly when the edges between the plan's nodes have no cycle and every edge into a node comes from a
  node; then it lists every node of the plan once, and no edge points backwards in it.  Otherwise the
  error is the cycle error, also where there is no cycle but an edge from outside the plan.\<close>
theorem topologicalOrder_correct:
  assumes "enumerates order (fmlookup (nodes p))"
  shows "case MachinePlan_topologicalOrder order p of
           Inr ns \<Rightarrow>
             acyclic (plan_edges p) \<and> grounded p \<and>
             (\<exists>ids. distinct ids \<and> set ids = fmdom' (nodes p) \<and> map Some ns = map (fmlookup (nodes p)) ids \<and>
                (\<forall>e \<in> set (edges p). toNode e \<in> set ids \<longrightarrow> precedes ids (fromNode e) (toNode e)))
         | Inl err \<Rightarrow> err = Cycle_detected \<and> \<not> (acyclic (plan_edges p) \<and> grounded p)"
proof -
  obtain all d where inv: "kahn_inv p all d []"
    and result: "MachinePlan_topologicalOrder order p =
        (if set all = plan_ids p then Inr (map (node_at p) all) else Inl Cycle_detected)"
    using topologicalOrder_ids [OF assms] by blast
  have ord: "ordered p all" and dist: "distinct all" using inv by (auto simp: kahn_inv_def)
  have "map Some (map (node_at p) all) = map (fmlookup (nodes p)) all" if "set all = plan_ids p"
    using that by (auto simp: fmlookup_dom'_iff)
  then show ?thesis
    using kahn_done [OF inv] ordered_precedes [OF ord] dist by (auto simp: result)
qed


text \<open>A plan of one cap, its nodes enumerated in the order of their ids, has an order.\<close>

definition sample_plan :: CSMachinePlan where
  "sample_plan = MachinePlan_singleCapPlan (StepToken ''t'') ''cap'' ''media:pdf'' ''media:text'' ''file''"

lemma sample_plan_enumerated:
  "enumerates [''cap_0'', ''input_slot'', ''output''] (fmlookup (nodes sample_plan))"
  unfolding enumerates_def sample_plan_def MachinePlan_singleCapPlan_def
  by (auto simp: Let_def MachinePlan_addNode_def MachinePlan_addEdge_def MachinePlan_planWithName_def
      MachineNode_inputSlotNode_def MachineNode_capNode_def MachineNode_outputNode_def
      MachineNode_nodeWithId_def split: if_splits)

theorem topologicalOrder_correct_witness:
  "acyclic (plan_edges sample_plan) \<and> grounded sample_plan"
proof -
  have "case MachinePlan_topologicalOrder [''cap_0'', ''input_slot'', ''output''] sample_plan of
      Inr ns \<Rightarrow> map nodeId ns = [''input_slot'', ''cap_0'', ''output''] | Inl err \<Rightarrow> False"
    by code_simp
  then show ?thesis
    using topologicalOrder_correct [OF sample_plan_enumerated] by (auto split: sum.splits)
qed

end
