(* ===== verification/PlanValid.thy ===== *)
theory PlanValid
  imports PlanOrder
begin

text \<open>
  What \<open>validate\<close> accepts (\<open>plan_ok\<close>: every name in the plan stands for a node of the kind it is named as,
  and the bodies of the maps share no node), that the order of the dictionary does not matter to it, and
  what \<open>enclosingMaps\<close> and \<open>mapMembers:\<close> return.
\<close>

section \<open>Well-formed plans\<close>

definition knows :: "CSMachinePlan \<Rightarrow> string option \<Rightarrow> bool" where
  "knows p i \<longleftrightarrow> (\<exists>j. i = Some j \<and> j \<in> plan_ids p)"

definition source_ok :: "CSMachinePlan \<Rightarrow> string \<Rightarrow> CSMachineNode \<Rightarrow> CSForEachSource \<Rightarrow> bool" where
  "source_ok p i n s \<longleftrightarrow>
     source_node s \<in> plan_ids p \<and> source_item s \<in> set (elems (node_body n)) \<and>
     (\<exists>item. fmlookup (nodes p) (source_item s) = Some item \<and>
        node_kind item = CSExecutionNodeKindItem \<and> node_foreach item = Some i \<and>
        node_source item = Some (source_node s))"

definition item_ok :: "CSMachinePlan \<Rightarrow> string \<Rightarrow> CSMachineNode \<Rightarrow> bool" where
  "item_ok p i n \<longleftrightarrow>
     (\<exists>m of_map. node_foreach n = Some m \<and> fmlookup (nodes p) m = Some of_map \<and>
        node_kind of_map = CSExecutionNodeKindForEach \<and>
        (\<exists>s \<in> set (elems (node_sources of_map)).
           source_item s = i \<and> node_source n = Some (source_node s)))"

definition map_ok :: "CSMachinePlan \<Rightarrow> string \<Rightarrow> CSMachineNode \<Rightarrow> bool" where
  "map_ok p i n \<longleftrightarrow>
     elems (node_sources n) \<noteq> [] \<and> (\<forall>s \<in> set (elems (node_sources n)). source_ok p i n s) \<and>
     set (elems (node_body n)) \<subseteq> plan_ids p \<and> i \<notin> set (elems (node_body n)) \<and>
     distinct (elems (node_body n))"

definition node_ok :: "CSMachinePlan \<Rightarrow> string \<Rightarrow> CSMachineNode \<Rightarrow> bool" where
  "node_ok p i n \<longleftrightarrow>
     (case node_kind n of
        CSExecutionNodeKindCap \<Rightarrow> True
      | CSExecutionNodeKindInputSlot \<Rightarrow> True
      | CSExecutionNodeKindOutput \<Rightarrow> knows p (sourceNode n)
      | CSExecutionNodeKindCollect \<Rightarrow> set (elems (inputNodes n)) \<subseteq> plan_ids p
      | CSExecutionNodeKindCapOutput \<Rightarrow>
          (\<exists>c m. capNode n = Some c \<and> fmlookup (nodes p) c = Some m \<and> node_kind m = CSExecutionNodeKindCap)
      | CSExecutionNodeKindItem \<Rightarrow> item_ok p i n
      | CSExecutionNodeKindForEach \<Rightarrow> map_ok p i n)"

definition plan_ok :: "CSMachinePlan \<Rightarrow> bool" where
  "plan_ok p \<longleftrightarrow>
     (\<forall>e \<in> set (edges p). fromNode e \<in> plan_ids p \<and> toNode e \<in> plan_ids p) \<and>
     set (entryNodes p) \<subseteq> plan_ids p \<and> set (outputNodes p) \<subseteq> plan_ids p \<and>
     (\<forall>i n. fmlookup (nodes p) i = Some n \<longrightarrow> node_ok p i n) \<and>
     (\<forall>i j. i \<noteq> j \<longrightarrow> set (body_of p i) \<inter> set (body_of p j) = {})"

section \<open>The checks of the code\<close>

lemma lookup_None_iff: "fmlookup m i = None \<longleftrightarrow> i \<notin> fmdom' m"
  by (auto simp: fmlookup_dom'_iff)

lemma names_iff: "MachinePlan_names p owner what i = None \<longleftrightarrow> knows p i"
  by (cases i) (auto simp: MachinePlan_names_def knows_def fmlookup_dom'_iff)

lemma validate_edges_iff:
  "validate_edges p es = None \<longleftrightarrow> (\<forall>e \<in> set es. fromNode e \<in> plan_ids p \<and> toNode e \<in> plan_ids p)"
  by (induction es) (auto simp: lookup_None_iff)

lemma validate_listed_iff: "validate_listed err p is = None \<longleftrightarrow> set is \<subseteq> plan_ids p"
  by (induction "is") (auto simp: lookup_None_iff)

lemma validate_gathered_iff: "validate_gathered p i xs = None \<longleftrightarrow> set xs \<subseteq> plan_ids p"
proof (induction xs)
  case (Cons x xs)
  then show ?case
    using names_iff [of p i "''gathered node''" "Some x"] by (auto simp: knows_def split: option.splits)
qed simp

lemma validate_cap_output_iff:
  "validate_cap_output p i n = None \<longleftrightarrow>
     (\<exists>c m. capNode n = Some c \<and> fmlookup (nodes p) c = Some m \<and> node_kind m = CSExecutionNodeKindCap)"
  using names_iff [of p i "''step''" "capNode n"]
  by (auto simp: validate_cap_output_def knows_def fmlookup_dom'_iff MachineNode_isCap_def
      split: option.splits)

lemma validate_item_iff: "validate_item p i n = None \<longleftrightarrow> item_ok p i n"
proof (cases "MachinePlan_names p i ''map'' (node_foreach n)")
  case None
  then have "knows p (node_foreach n)" by (simp only: names_iff)
  then obtain m of_map where "node_foreach n = Some m" "fmlookup (nodes p) m = Some of_map"
    by (auto simp: knows_def fmlookup_dom'_iff)
  then show ?thesis using None by (auto simp: validate_item_def item_ok_def Let_def split: if_splits)
next
  case (Some e)
  then have "\<not> knows p (node_foreach n)" using names_iff by (metis option.distinct(1))
  then show ?thesis
    using Some by (auto simp: validate_item_def item_ok_def knows_def fmlookup_dom'_iff)
qed

lemma validate_sources_iff:
  "validate_sources p i n ss = None \<longleftrightarrow> (\<forall>s \<in> set ss. source_ok p i n s)"
proof (induction ss)
  case (Cons s ss)
  have names: "MachinePlan_names p i what (Some x) = None \<longleftrightarrow> x \<in> plan_ids p" for what x
    by (simp add: names_iff knows_def)
  show ?case
  proof (cases "source_node s \<in> plan_ids p \<and> source_item s \<in> plan_ids p")
    case True
    then obtain item where "fmlookup (nodes p) (source_item s) = Some item"
      by (auto simp: fmlookup_dom'_iff)
    moreover have "MachinePlan_names p i ''source'' (Some (source_node s)) = None"
      "MachinePlan_names p i ''item'' (Some (source_item s)) = None" using True names by blast+
    ultimately show ?thesis using True Cons by (auto simp: source_ok_def)
  next
    case False
    then have "\<not> source_ok p i n s" by (auto simp: source_ok_def fmdom'I)
    moreover have "validate_sources p i n (s # ss) \<noteq> None"
      using False names [of "''source''"] names [of "''item''"] by (auto split: option.splits)
    ultimately show ?thesis by simp
  qed
qed simp

lemma validate_members_iff:
  "validate_members p i inBody xs = Inr inBody' \<longleftrightarrow>
     set xs \<subseteq> plan_ids p \<and> i \<notin> set xs \<and> distinct xs \<and> set xs \<inter> dom inBody = {} \<and>
     inBody' = inBody ++ (\<lambda>x. if x \<in> set xs then Some i else None)"
proof (induction xs arbitrary: inBody)
  case Nil
  then show ?case by (auto simp: map_add_def)
next
  case (Cons x xs)
  have names: "MachinePlan_names p i ''body node'' (Some x) = None \<longleftrightarrow> x \<in> plan_ids p"
    by (simp add: names_iff knows_def)
  have upd: "inBody(x \<mapsto> i) ++ (\<lambda>y. if y \<in> set xs then Some i else None) =
      inBody ++ (\<lambda>y. if y \<in> set (x # xs) then Some i else None)"
    by (auto simp: map_add_def)
  show ?case
  proof (cases "x \<in> plan_ids p \<and> x \<noteq> i \<and> inBody x = None")
    case True
    then have step: "validate_members p i inBody (x # xs) = validate_members p i (inBody(x \<mapsto> i)) xs"
      using names by simp
    have "dom (inBody(x \<mapsto> i)) = insert x (dom inBody)" by simp
    then show ?thesis unfolding step Cons upd using True by auto
  next
    case False
    then show ?thesis using names by (auto split: option.splits)
  qed
qed

lemma body_of_lookup:
  "fmlookup (nodes p) i = Some n \<Longrightarrow>
     body_of p i = (if node_kind n = CSExecutionNodeKindForEach then elems (node_body n) else [])"
  by (simp add: body_of_def)

lemma validate_node_iff:
  assumes n: "fmlookup (nodes p) i = Some n"
  shows "validate_node p inBody i n = Inr inBody' \<longleftrightarrow>
     node_ok p i n \<and> set (body_of p i) \<inter> dom inBody = {} \<and>
     inBody' = inBody ++ (\<lambda>x. if x \<in> set (body_of p i) then Some i else None)"
proof -
  have id: "inBody ++ (\<lambda>x. if x \<in> set [] then Some i else None) = inBody"
    by (auto simp: map_add_def)
  show ?thesis
  proof (cases "node_kind n")
    case CSExecutionNodeKindForEach
    then show ?thesis
      using validate_sources_iff [of p i n "elems (node_sources n)"]
      by (auto simp: validate_node_def node_ok_def map_ok_def body_of_lookup [OF n] validate_members_iff
          split: option.splits)
  qed (use names_iff [of p i "''source''" "sourceNode n"] validate_gathered_iff [of p i "elems (inputNodes n)"]
        validate_cap_output_iff [of p i n] validate_item_iff [of p i n] id in
      \<open>auto simp: validate_node_def node_ok_def body_of_lookup [OF n] split: option.splits\<close>)
qed

lemma pairs_insert:
  assumes sym: "\<And>j k. D j k \<Longrightarrow> D k j" and i: "i \<notin> S"
  shows "(\<forall>j \<in> insert i S. \<forall>k \<in> insert i S. j \<noteq> k \<longrightarrow> D j k) \<longleftrightarrow>
         (\<forall>j \<in> S. D i j) \<and> (\<forall>j \<in> S. \<forall>k \<in> S. j \<noteq> k \<longrightarrow> D j k)"
  (is "?all \<longleftrightarrow> ?first \<and> ?rest")
proof
  assume ?all
  then show "?first \<and> ?rest" using i by auto
next
  assume "?first \<and> ?rest"
  then show ?all using sym [of i] by auto
qed

lemma validate_nodes_iff:
  assumes "distinct is" "set is \<subseteq> plan_ids p"
  shows "validate_nodes p inBody is = None \<longleftrightarrow>
     (\<forall>i \<in> set is. node_ok p i (node_at p i) \<and> set (body_of p i) \<inter> dom inBody = {}) \<and>
     (\<forall>i \<in> set is. \<forall>j \<in> set is. i \<noteq> j \<longrightarrow> set (body_of p i) \<inter> set (body_of p j) = {})"
  using assms
proof (induction "is" arbitrary: inBody)
  case (Cons i "is")
  obtain n where n: "fmlookup (nodes p) i = Some n" using Cons.prems by (auto simp: fmlookup_dom'_iff)
  show ?case
  proof (cases "validate_node p inBody i n")
    case (Inl e)
    then have "\<not> (node_ok p i n \<and> set (body_of p i) \<inter> dom inBody = {})"
      using validate_node_iff [OF n, of inBody] by auto
    then show ?thesis using Inl n by auto
  next
    case (Inr inBody')
    then have ok: "node_ok p i n" "set (body_of p i) \<inter> dom inBody = {}"
      and dom: "dom inBody' = dom inBody \<union> set (body_of p i)"
      using validate_node_iff [OF n] by (auto simp: dom_if)
    have step: "validate_nodes p inBody (i # is) = validate_nodes p inBody' is" using n Inr by simp
    have disjoint: "set (body_of p j) \<inter> dom inBody' = {} \<longleftrightarrow>
        set (body_of p j) \<inter> dom inBody = {} \<and> set (body_of p i) \<inter> set (body_of p j) = {}" for j
      unfolding dom by blast
    have "i \<notin> set is" using Cons.prems by simp
    then have pairs: "(\<forall>j \<in> set (i # is). \<forall>k \<in> set (i # is). j \<noteq> k \<longrightarrow> set (body_of p j) \<inter> set (body_of p k) = {}) \<longleftrightarrow>
        (\<forall>j \<in> set is. set (body_of p i) \<inter> set (body_of p j) = {}) \<and>
        (\<forall>j \<in> set is. \<forall>k \<in> set is. j \<noteq> k \<longrightarrow> set (body_of p j) \<inter> set (body_of p k) = {})"
      using pairs_insert [of "\<lambda>j k. set (body_of p j) \<inter> set (body_of p k) = {}" i "set is"]
      by (simp add: Int_commute)
    have "validate_nodes p inBody' is = None \<longleftrightarrow>
        (\<forall>j \<in> set is. node_ok p j (node_at p j) \<and> set (body_of p j) \<inter> dom inBody' = {}) \<and>
        (\<forall>j \<in> set is. \<forall>k \<in> set is. j \<noteq> k \<longrightarrow> set (body_of p j) \<inter> set (body_of p k) = {})"
      using Cons.IH Cons.prems by simp
    then show ?thesis unfolding step pairs disjoint using ok n by auto
  qed
qed simp

lemma sort_ids:
  assumes "enumerates keys (fmlookup m)"
  shows "sort_by compare_linorder keys = sorted_list_of_set (fmdom' m)"
proof -
  have keys: "distinct keys" "set keys = fmdom' m"
    using assms by (auto simp: enumerates_def fmlookup_dom'_iff)
  have "distinct (sort_by compare_linorder keys)"
    using keys by (metis card_distinct distinct_card natural.length_sort_by natural.set_sort_by)
  then show ?thesis
    using keys natural.sorted_sort_by [of keys]
    by (intro sorted_distinct_set_unique) auto
qed

lemma validate_iff:
  assumes "enumerates keys (fmlookup (nodes p))"
  shows "MachinePlan_validate keys p = None \<longleftrightarrow> plan_ok p"
proof -
  let ?ids = "sorted_list_of_set (plan_ids p)"
  have none: "body_of p i = []" if "i \<notin> plan_ids p" for i
    using that by (simp add: body_of_def lookup_None_iff [symmetric])
  have "(\<forall>i \<in> plan_ids p. node_ok p i (node_at p i)) \<longleftrightarrow>
      (\<forall>i n. fmlookup (nodes p) i = Some n \<longrightarrow> node_ok p i n)"
    by (metis fmdom'I fmlookup_dom'_iff option.sel)
  moreover have "(\<forall>i \<in> plan_ids p. \<forall>j \<in> plan_ids p. i \<noteq> j \<longrightarrow> set (body_of p i) \<inter> set (body_of p j) = {}) \<longleftrightarrow>
      (\<forall>i j. i \<noteq> j \<longrightarrow> set (body_of p i) \<inter> set (body_of p j) = {})"
    using none by (metis empty_set inf_bot_left inf_bot_right)
  ultimately have "validate_nodes p Map.empty ?ids = None \<longleftrightarrow>
      (\<forall>i n. fmlookup (nodes p) i = Some n \<longrightarrow> node_ok p i n) \<and>
      (\<forall>i j. i \<noteq> j \<longrightarrow> set (body_of p i) \<inter> set (body_of p j) = {})"
    using validate_nodes_iff [of ?ids p Map.empty] by simp
  then show ?thesis
    using validate_edges_iff [of p "edges p"] validate_listed_iff [of Entry_not_found p "entryNodes p"]
      validate_listed_iff [of Output_not_found p "outputNodes p"]
    by (auto simp: MachinePlan_validate_def sort_ids [OF assms] plan_ok_def split: option.splits)
qed

text \<open>C30: \<open>validate\<close> accepts a plan exactly when it is well formed: every edge, entry and output names a
  node of the plan; what a node names is in the plan and is what it is named as, maps and their items
  naming each other; and no node is in two bodies, twice in one, or in its own.  The error is the same
  for every order of the dictionary.\<close>
theorem validate_exact:
  assumes "enumerates keys (fmlookup (nodes p))" and "enumerates keys' (fmlookup (nodes p))"
  shows "(MachinePlan_validate keys p = None \<longleftrightarrow> plan_ok p) \<and>
         MachinePlan_validate keys' p = MachinePlan_validate keys p"
  using validate_iff [OF assms(1)] unfolding MachinePlan_validate_def sort_ids [OF assms(1)] sort_ids [OF assms(2)]
  by (rule conjI [OF _ refl])

theorem validate_exact_witness:
  "plan_ok sample_plan \<and>
   MachinePlan_validate [''cap_0'', ''input_slot'', ''output''] sample_plan = None"
proof -
  have "MachinePlan_validate [''cap_0'', ''input_slot'', ''output''] sample_plan = None" by code_simp
  then show ?thesis using validate_exact [OF sample_plan_enumerated sample_plan_enumerated] by simp
qed

section \<open>Maps and what runs in them\<close>

definition inside :: "CSMachinePlan \<Rightarrow> (string \<times> string) set" where
  "inside p = {(i, x). x \<in> set (body_of p i)}"

lemma insideI: "x \<in> set (body_of p i) \<Longrightarrow> (i, x) \<in> inside p"
  by (simp add: inside_def)

definition closed_but :: "CSMachinePlan \<Rightarrow> string set \<Rightarrow> string set \<Rightarrow> bool" where
  "closed_but p pending members \<longleftrightarrow> (\<forall>m \<in> members. m \<in> pending \<or> set (body_of p m) \<subseteq> members)"

lemma mapMembers_loop_Nil [simp]: "mapMembers_loop p members [] = members"
  by (simp add: mapMembers_loop.simps [of p members "[]"])

text \<open>The induction over the loop, by what a round does to the two sets.\<close>

lemma mapMembers_loop_induct [case_names empty step]:
  assumes "\<And>members. P members [] members"
    and "\<And>members pending members' pending' q result.
           q \<in> set pending \<Longrightarrow> set pending \<subseteq> insert q (set pending') \<Longrightarrow>
           members' = members \<union> set (body_of p q) \<Longrightarrow>
           set (body_of p q) - members \<subseteq> set pending' \<Longrightarrow>
           set pending' \<subseteq> set pending \<union> set (body_of p q) \<Longrightarrow>
           P members' pending' result \<Longrightarrow> P members pending result"
  shows "P members pending (mapMembers_loop p members pending)"
proof -
  have "r = p \<Longrightarrow> P members pending (mapMembers_loop r members pending)" for r
  proof (induction r members pending rule: mapMembers_loop.induct)
    case (1 r members pending)
    show ?case
    proof (cases "pending = []")
      case True
      then show ?thesis using assms(1) by simp
    next
      case False
      let ?q = "last pending"
      obtain members' pending' where
        step: "add_members (body_of r ?q) members (butlast pending) = (members', pending')" by fastforce
      have sets: "members' = members \<union> set (body_of r ?q)"
          "set pending' = set (butlast pending) \<union> (set (body_of r ?q) - members)"
        using add_members_sets [OF step] by simp_all
      have pending: "set pending = insert ?q (set (butlast pending))"
        using False by (metis append_butlast_last_id list.set(2) rotate1.simps(2) set_rotate1)
      have loop: "mapMembers_loop r members pending = mapMembers_loop r members' pending'"
        using False step by (simp add: mapMembers_loop.simps [of r members pending])
      show ?thesis
        using 1(1) [OF False step [symmetric] refl 1(2)] 1(2) assms(2) [of ?q pending pending' members' members]
        unfolding loop using sets pending by auto
    qed
  qed
  then show ?thesis by simp
qed

lemma mapMembers_loop_closed:
  "closed_but p (set pending) members \<Longrightarrow>
     members \<subseteq> mapMembers_loop p members pending \<and>
     (\<forall>q \<in> set pending. set (body_of p q) \<subseteq> mapMembers_loop p members pending) \<and>
     closed_but p {} (mapMembers_loop p members pending)"
proof (induction rule: mapMembers_loop_induct)
  case (step members pending members' pending' q result)
  have "closed_but p (set pending') members'"
    using step(2,4,7) unfolding closed_but_def step(3) by blast
  then show ?case using step(2,3,6) by blast
qed simp

lemma mapMembers_loop_sound:
  "mapMembers_loop p members pending \<subseteq> members \<union> {x. \<exists>q \<in> set pending. (q, x) \<in> (inside p)\<^sup>+}"
proof (rule mapMembers_loop_induct [of "\<lambda>members pending result.
      result \<subseteq> members \<union> {x. \<exists>q \<in> set pending. (q, x) \<in> (inside p)\<^sup>+}"], goal_cases)
  case step: (2 members pending members' pending' q result)
  show ?case
  proof
    fix x
    assume "x \<in> result"
    then have "x \<in> members' \<or> (\<exists>r \<in> set pending'. (r, x) \<in> (inside p)\<^sup>+)" using step(6) by blast
    then show "x \<in> members \<union> {x. \<exists>q \<in> set pending. (q, x) \<in> (inside p)\<^sup>+}"
      using step(1,3,5) insideI [of _ p q] by (auto intro: trancl_into_trancl2)
  qed
qed simp

text \<open>\<open>mapMembers:\<close> returns exactly the nodes inside the map: its body, and the bodies of the maps opened
  inside it, to any depth (a node that is no map has none).\<close>
theorem mapMembers_exact:
  "MachinePlan_mapMembers p foreachId = {x. (foreachId, x) \<in> (inside p)\<^sup>+}"
proof
  let ?R = "MachinePlan_mapMembers p foreachId"
  have "closed_but p (set [foreachId]) {}" by (simp add: closed_but_def)
  from mapMembers_loop_closed [OF this] have first: "set (body_of p foreachId) \<subseteq> ?R"
    and closed: "closed_but p {} ?R" by (simp_all add: MachinePlan_mapMembers_def)
  show "{x. (foreachId, x) \<in> (inside p)\<^sup>+} \<subseteq> ?R"
  proof
    fix x
    assume "x \<in> {x. (foreachId, x) \<in> (inside p)\<^sup>+}"
    then have "(foreachId, x) \<in> (inside p)\<^sup>+" by simp
    then show "x \<in> ?R"
      by induction (use first closed in \<open>auto simp: inside_def closed_but_def\<close>)
  qed
  show "?R \<subseteq> {x. (foreachId, x) \<in> (inside p)\<^sup>+}"
    using mapMembers_loop_sound [of p "{}" "[foreachId]"] by (auto simp: MachinePlan_mapMembers_def)
qed

lemma enclose_body:
  "foldl (\<lambda>m x. m(x \<mapsto> i)) m xs = m ++ (\<lambda>x. if x \<in> set xs then Some i else None)"
  by (induction xs arbitrary: m) (auto simp: map_add_def fun_eq_iff)

lemma enclose_at:
  "enclose p m k x = (if x \<in> set (body_of p k) then Some k else m x)"
  by (auto simp: enclose_def enclose_body body_of_def map_add_def split: option.splits)

lemma enclosingMaps_loop:
  assumes unique: "\<forall>i j. x \<in> set (body_of p i) \<and> x \<in> set (body_of p j) \<longrightarrow> i = j"
  shows "foldl (enclose p) m keys x = Some i \<longleftrightarrow>
         (i \<in> set keys \<and> x \<in> set (body_of p i)) \<or>
         ((\<forall>j \<in> set keys. x \<notin> set (body_of p j)) \<and> m x = Some i)"
proof (induction keys arbitrary: m)
  case (Cons k keys)
  show ?case
  proof (cases "x \<in> set (body_of p k)")
    case True
    then have only: "x \<in> set (body_of p j) \<longleftrightarrow> j = k" for j using unique by blast
    have "enclose p m k x = Some k" using True by (simp add: enclose_at)
    then show ?thesis unfolding foldl_Cons Cons only by (cases "i = k") auto
  next
    case False
    then have "enclose p m k x = m x" by (simp add: enclose_at)
    then show ?thesis unfolding foldl_Cons Cons using False by (cases "i = k") simp_all
  qed
qed simp

text \<open>In a plan that passes \<open>validate\<close>, \<open>enclosingMaps\<close> gives each node the one map whose body lists it,
  and no other node an entry, whatever order the dictionary is enumerated in.\<close>
theorem enclosingMaps_exact:
  assumes "enumerates keys (fmlookup (nodes p))" and "MachinePlan_validate keys p = None"
  shows "MachinePlan_enclosingMaps keys p x = Some i \<longleftrightarrow> x \<in> set (body_of p i)"
proof -
  have "plan_ok p" using assms(2) validate_iff [OF assms(1)] by simp
  then have unique: "\<forall>i j. x \<in> set (body_of p i) \<and> x \<in> set (body_of p j) \<longrightarrow> i = j"
    unfolding plan_ok_def by blast
  have "i \<in> set keys" if "x \<in> set (body_of p i)"
  proof -
    have "fmlookup (nodes p) i \<noteq> None" using that by (cases "fmlookup (nodes p) i") (simp_all add: body_of_def)
    then show ?thesis using assms(1) by (auto simp: enumerates_def fmlookup_dom'_iff)
  qed
  then show ?thesis unfolding MachinePlan_enclosingMaps_def enclosingMaps_loop [OF unique] by auto
qed


text \<open>A map over the pages of a document: the page, as an item, goes through a cap.\<close>

definition paged_plan :: CSMachinePlan where
  "paged_plan =
     fold MachinePlan_addNode
       [MachineNode_inputSlotNode ''in'' ''input'' ''media:pages'' CSInputCardinalitySequence,
        MachineNode_forEachNode ''map'' [ForEachSource_sourceWithNode ''in'' ''page''] [''page'', ''step''] (StepToken ''m''),
        MachineNode_itemNode ''page'' ''map'' ''in'' ''media:page'',
        MachineNode_capNode ''step'' ''cap'' Map.empty (StepToken ''s'')]
       (MachinePlan_planWithName ''pages'')"

abbreviation paged_ids :: "string list" where
  "paged_ids \<equiv> [''in'', ''map'', ''page'', ''step'']"

lemma paged_plan_enumerated: "enumerates paged_ids (fmlookup (nodes paged_plan))"
  unfolding enumerates_def paged_plan_def
  by (auto simp: MachinePlan_addNode_def MachinePlan_planWithName_def MachineNode_inputSlotNode_def
      MachineNode_forEachNode_def MachineNode_itemNode_def MachineNode_capNode_def
      MachineNode_nodeWithId_def split: if_splits)

theorem enclosingMaps_exact_witness:
  "MachinePlan_enclosingMaps paged_ids paged_plan ''step'' = Some ''map'' \<and>
   MachinePlan_validate paged_ids paged_plan = None"
proof -
  have ok: "MachinePlan_validate paged_ids paged_plan = None" by code_simp
  have "''step'' \<in> set (body_of paged_plan ''map'')" by code_simp
  then show ?thesis using ok enclosingMaps_exact [OF paged_plan_enumerated ok, of "''step''"] by simp
qed

end
