(* ===== verification/PlanChain.thy ===== *)
theory PlanChain
  imports PlanValid
begin

text \<open>
  The ready-made plans.  A plan is only ever grown by \<open>addNode:\<close> and \<open>addEdge:\<close> (\<open>built\<close>), which keep the
  tables of a plan in step with each other; the plan of a chain of caps passes \<open>validate\<close> and has one
  order, the order of the chain.
\<close>

section \<open>Plans under construction\<close>

inductive built :: "CSMachinePlan \<Rightarrow> bool" where
  start: "built (MachinePlan_planWithName s)"
| node: "built p \<Longrightarrow> built (MachinePlan_addNode n p)"
| edge: "built p \<Longrightarrow> built (MachinePlan_addEdge e p)"

definition tables_ok :: "CSMachinePlan \<Rightarrow> bool" where
  "tables_ok p \<longleftrightarrow>
     (\<forall>i n. fmlookup (nodes p) i = Some n \<longrightarrow>
        nodeId n = i \<and>
        (node_kind n = CSExecutionNodeKindInputSlot \<longrightarrow> i \<in> set (entryNodes p)) \<and>
        (node_kind n = CSExecutionNodeKindOutput \<longrightarrow> i \<in> set (outputNodes p))) \<and>
     set (entryNodes p) \<subseteq> plan_ids p \<and> set (outputNodes p) \<subseteq> plan_ids p"

named_theorems plan_simps \<open>a plan after an operation\<close>

lemma planWithName_simps [plan_simps]:
  "nodes (MachinePlan_planWithName s) = fmempty" "edges (MachinePlan_planWithName s) = []"
  "entryNodes (MachinePlan_planWithName s) = []" "outputNodes (MachinePlan_planWithName s) = []"
  by (simp_all add: MachinePlan_planWithName_def)

lemma addEdge_simps [plan_simps]:
  "nodes (MachinePlan_addEdge e p) = nodes p" "edges (MachinePlan_addEdge e p) = edges p @ [e]"
  "entryNodes (MachinePlan_addEdge e p) = entryNodes p"
  "outputNodes (MachinePlan_addEdge e p) = outputNodes p"
  by (simp_all add: MachinePlan_addEdge_def)

lemma addNode_simps [plan_simps]:
  "nodes (MachinePlan_addNode n p) = fmupd (nodeId n) n (nodes p)"
  "edges (MachinePlan_addNode n p) = edges p"
  "entryNodes (MachinePlan_addNode n p) =
     entryNodes p @ (if node_kind n = CSExecutionNodeKindInputSlot then [nodeId n] else [])"
  "outputNodes (MachinePlan_addNode n p) =
     outputNodes p @ (if node_kind n = CSExecutionNodeKindOutput then [nodeId n] else [])"
  by (simp_all add: MachinePlan_addNode_def split: CSExecutionNodeKind.split)



section \<open>Chains\<close>

fun chain_edges :: "string list \<Rightarrow> CSMachinePlanEdge list" where
  "chain_edges (a # b # is) = MachinePlanEdge_directFrom a b # chain_edges (b # is)"
| "chain_edges is = []"

lemma edge_ends [simp]:
  "fromNode (MachinePlanEdge_directFrom a b) = a" "toNode (MachinePlanEdge_directFrom a b) = b"
  by (simp_all add: MachinePlanEdge_directFrom_def MachinePlanEdge_edgeFrom_def)

lemma chain_edges_successively:
  "(\<forall>e \<in> set (chain_edges is). Q (fromNode e) (toNode e)) \<longleftrightarrow> successively Q is"
  by (induction "is" rule: chain_edges.induct) simp_all

lemma chain_edges_snoc:
  "is \<noteq> [] \<Longrightarrow> chain_edges (is @ [x]) = chain_edges is @ [MachinePlanEdge_directFrom (last is) x]"
  by (induction "is" rule: chain_edges.induct) auto

text \<open>A chain has one order.\<close>

lemma sorted_by_rank_unique:
  fixes f :: "'a \<Rightarrow> nat"
  assumes "sorted_wrt (\<lambda>a b. f b < f a) xs" "sorted_wrt (\<lambda>a b. f b < f a) ys" "set xs = set ys"
  shows "xs = ys"
  using assms
proof (induction xs arbitrary: ys)
  case (Cons x xs)
  then obtain y ys' where ys: "ys = y # ys'" by (cases ys) auto
  have "x = y"
  proof (rule ccontr)
    assume "x \<noteq> y"
    then have "x \<in> set ys'" "y \<in> set xs" using Cons.prems(3) ys by auto
    then have "f x < f y" "f y < f x" using Cons.prems ys by auto
    then show False by simp
  qed
  moreover have "x \<notin> set xs" "y \<notin> set ys'" using Cons.prems ys by auto
  ultimately have "set xs = set ys'" using Cons.prems(3) ys by auto
  then show ?case using Cons ys \<open>x = y\<close> by simp
qed simp

lemma rank_sorted:
  "distinct xs \<Longrightarrow>
     sorted_wrt (\<lambda>a b. length (dropWhile (\<lambda>x. x \<noteq> b) xs) < length (dropWhile (\<lambda>x. x \<noteq> a) xs)) xs"
proof (induction xs)
  case (Cons y ys)
  have "length (dropWhile (\<lambda>x. x \<noteq> b) ys) < Suc (length ys)" for b
    by (simp add: length_dropWhile_le le_imp_less_Suc)
  moreover have "sorted_wrt (\<lambda>a b. length (dropWhile (\<lambda>x. x \<noteq> b) (y # ys)) < length (dropWhile (\<lambda>x. x \<noteq> a) (y # ys))) ys"
    using Cons by (auto elim!: sorted_wrt_mono_rel [rotated])
  ultimately show ?case using Cons.prems by auto
qed simp

lemma chain_order_unique:
  assumes "distinct xs" "set xs = set ids" "\<forall>e \<in> set (chain_edges ids). precedes xs (fromNode e) (toNode e)"
  shows "xs = ids"
proof -
  let ?f = "\<lambda>a. length (dropWhile (\<lambda>x. x \<noteq> a) xs)"
  have "successively (\<lambda>a b. ?f b < ?f a) ids"
    using assms(3) precedes_rank [OF _ assms(1)] unfolding chain_edges_successively
    by (auto elim!: successively_mono)
  moreover have "transp (\<lambda>a b. ?f b < ?f a)" by (auto intro: transpI)
  ultimately have "sorted_wrt (\<lambda>a b. ?f b < ?f a) ids" by (simp add: successively_conv_sorted_wrt)
  then show ?thesis using sorted_by_rank_unique [OF rank_sorted [OF assms(1)] _ assms(2)] by simp
qed

lemma cap_id_inject [simp]: "cap_id i = cap_id j \<longleftrightarrow> i = j"
  by (simp add: cap_id_def)

lemma cap_id_neq [simp]:
  "cap_id i \<noteq> ''input_slot''" "cap_id i \<noteq> ''output''" "''input_slot'' \<noteq> cap_id i" "''output'' \<noteq> cap_id i"
  by (simp_all add: cap_id_def)

abbreviation cap_ids :: "nat \<Rightarrow> nat \<Rightarrow> string list" where
  "cap_ids i n \<equiv> map cap_id [i..<i + n]"

definition chain_bindings :: "string list \<Rightarrow> nat \<Rightarrow> (string \<rightharpoonup> CSArgumentBinding)" where
  "chain_bindings args i = (if i < length args then [args ! i \<mapsto> ArgumentBinding_inputFilePath] else Map.empty)"

lemma node_fields [simp]:
  "nodeId (MachineNode_capNode i urn b t) = i"
  "node_kind (MachineNode_capNode i urn b t) = CSExecutionNodeKindCap"
  "node_capUrn (MachineNode_capNode i urn b t) = Some urn"
  "argBindings (MachineNode_capNode i urn b t) = Some b"
  "nodeId (MachineNode_inputSlotNode i slot urn c) = i"
  "node_kind (MachineNode_inputSlotNode i slot urn c) = CSExecutionNodeKindInputSlot"
  "nodeId (MachineNode_outputNode i out src) = i"
  "node_kind (MachineNode_outputNode i out src) = CSExecutionNodeKindOutput"
  "sourceNode (MachineNode_outputNode i out src) = Some src"
  by (simp_all add: MachineNode_capNode_def MachineNode_inputSlotNode_def MachineNode_outputNode_def
      MachineNode_nodeWithId_def)

lemma linear_loop_spec:
  assumes "linear_loop mint args i urns prev p = (prev', p')"
  shows "prev' = last (prev # cap_ids i (length urns)) \<and>
         edges p' = edges p @ chain_edges (prev # cap_ids i (length urns)) \<and>
         entryNodes p' = entryNodes p \<and> outputNodes p' = outputNodes p \<and>
         (\<forall>j. j \<notin> set (cap_ids i (length urns)) \<longrightarrow> fmlookup (nodes p') j = fmlookup (nodes p) j) \<and>
         (\<forall>k < length urns. fmlookup (nodes p') (cap_id (i + k)) =
            Some (MachineNode_capNode (cap_id (i + k)) (urns ! k) (chain_bindings args (i + k)) (mint (i + k))))"
  using assms
proof (induction urns arbitrary: i prev p)
  case Nil
  then show ?case by simp
next
  case (Cons urn urns)
  let ?n = "MachineNode_capNode (cap_id i) urn (chain_bindings args i) (mint i)"
  let ?p = "MachinePlan_addEdge (MachinePlanEdge_directFrom prev (cap_id i)) (MachinePlan_addNode ?n p)"
  have rec: "linear_loop mint args (Suc i) urns (cap_id i) ?p = (prev', p')"
    using Cons.prems by (simp add: Let_def chain_bindings_def)
  have ids: "cap_ids i (length (urn # urns)) = cap_id i # cap_ids (Suc i) (length urns)"
    by (simp add: upt_conv_Cons del: upt_Suc)
  note IH = Cons.IH [OF rec]
  have "fmlookup (nodes p') (cap_id (i + k)) =
      Some (MachineNode_capNode (cap_id (i + k)) ((urn # urns) ! k) (chain_bindings args (i + k)) (mint (i + k)))"
    if "k < length (urn # urns)" for k
  proof (cases k)
    case 0
    have "cap_id i \<notin> set (cap_ids (Suc i) (length urns))" by auto
    then have "fmlookup (nodes p') (cap_id i) = Some ?n" using IH by (simp add: plan_simps)
    then show ?thesis using 0 by simp
  next
    case (Suc k')
    then show ?thesis using IH that by simp
  qed
  then show ?case using IH unfolding ids by (simp add: plan_simps)
qed

section \<open>The plan of a chain\<close>

definition chain_ids :: "string list \<Rightarrow> string list" where
  "chain_ids urns = ''input_slot'' # cap_ids 0 (length urns) @ [''output'']"

lemma linearChainPlan_spec:
  assumes "urns \<noteq> []" and p: "p = MachinePlan_linearChainPlan mint urns inMedia outMedia args"
  shows "edges p = chain_edges (chain_ids urns)"
    and "entryNodes p = [''input_slot'']" "outputNodes p = [''output'']"
    and "plan_ids p = set (chain_ids urns)"
    and "fmlookup (nodes p) ''input_slot'' =
           Some (MachineNode_inputSlotNode ''input_slot'' ''input'' inMedia CSInputCardinalitySingle)"
    and "fmlookup (nodes p) ''output'' =
           Some (MachineNode_outputNode ''output'' ''result'' (cap_id (length urns - 1)))"
    and "k < length urns \<Longrightarrow> fmlookup (nodes p) (cap_id k) =
           Some (MachineNode_capNode (cap_id k) (urns ! k) (chain_bindings args k) (mint k))"
proof -
  let ?p1 = "MachinePlan_addNode
      (MachineNode_inputSlotNode ''input_slot'' ''input'' inMedia CSInputCardinalitySingle)
      (MachinePlan_planWithName ''Linear machine'')"
  obtain prev p2 where loop: "linear_loop mint args 0 urns ''input_slot'' ?p1 = (prev, p2)" by fastforce
  note spec = linear_loop_spec [OF loop]
  have p': "p = MachinePlan_addEdge (MachinePlanEdge_directFrom prev ''output'')
      (MachinePlan_addNode (MachineNode_outputNode ''output'' ''result'' prev) p2)"
    using assms loop by (simp add: MachinePlan_linearChainPlan_def)
  have last: "last (cap_ids 0 (length urns)) = cap_id (length urns - 1)"
    using assms(1) by (simp add: last_map)
  then have prev: "prev = cap_id (length urns - 1)" using spec assms(1) by simp
  show "edges p = chain_edges (chain_ids urns)"
    using spec chain_edges_snoc [of "''input_slot'' # cap_ids 0 (length urns)" "''output''"]
    by (simp add: p' plan_simps chain_ids_def)
  show "entryNodes p = [''input_slot'']" "outputNodes p = [''output'']"
    using spec by (simp_all add: p' plan_simps)
  have in2: "fmlookup (nodes p2) ''input_slot'' =
      Some (MachineNode_inputSlotNode ''input_slot'' ''input'' inMedia CSInputCardinalitySingle)"
  proof -
    have "''input_slot'' \<notin> set (cap_ids 0 (length urns))" by auto
    then show ?thesis using spec by (simp add: plan_simps)
  qed
  then show "fmlookup (nodes p) ''input_slot'' =
      Some (MachineNode_inputSlotNode ''input_slot'' ''input'' inMedia CSInputCardinalitySingle)"
    by (simp add: p' plan_simps)
  show "fmlookup (nodes p) ''output'' =
      Some (MachineNode_outputNode ''output'' ''result'' (cap_id (length urns - 1)))"
    by (simp add: p' plan_simps prev)
  show cap: "fmlookup (nodes p) (cap_id k) =
      Some (MachineNode_capNode (cap_id k) (urns ! k) (chain_bindings args k) (mint k))"
    if "k < length urns" for k
    using spec that by (simp add: p' plan_simps)
  have none: "fmlookup (nodes p) j = None" if "j \<notin> set (chain_ids urns)" for j
    using spec that by (auto simp: p' plan_simps chain_ids_def)
  show "plan_ids p = set (chain_ids urns)"
  proof
    show "plan_ids p \<subseteq> set (chain_ids urns)" using none by (force simp: fmlookup_dom'_iff)
    show "set (chain_ids urns) \<subseteq> plan_ids p"
      using in2 cap by (auto simp: chain_ids_def fmlookup_dom'_iff p' plan_simps)
  qed
qed


lemma distinct_chain_ids: "distinct (chain_ids urns)"
  by (auto simp: chain_ids_def distinct_map inj_on_def)

lemma chain_edges_ends:
  "e \<in> set (chain_edges is) \<Longrightarrow> fromNode e \<in> set is \<and> toNode e \<in> set is"
  by (induction "is" rule: chain_edges.induct) auto

lemma chain_precedes:
  "\<forall>e \<in> set (chain_edges is). precedes is (fromNode e) (toNode e)"
proof (induction "is" rule: chain_edges.induct)
  case (1 a b "is")
  have "precedes (a # xs) x y" if "precedes xs x y" for xs and x y :: string
    using that unfolding precedes_def by (metis append_Cons)
  moreover have "precedes (a # b # is) a b"
    unfolding precedes_def by (metis append_Nil)
  ultimately show ?case using 1 by auto
qed simp_all

lemma chain_lookup:
  assumes "urns \<noteq> []" and p: "p = MachinePlan_linearChainPlan mint urns inMedia outMedia args"
    and "fmlookup (nodes p) i = Some n"
  shows "i = ''input_slot'' \<and> node_kind n = CSExecutionNodeKindInputSlot \<or>
         i = ''output'' \<and> node_kind n = CSExecutionNodeKindOutput \<and> sourceNode n = Some (cap_id (length urns - 1)) \<or>
         (\<exists>k < length urns. i = cap_id k \<and> node_kind n = CSExecutionNodeKindCap)"
proof -
  note spec = linearChainPlan_spec [OF assms(1) p]
  have "i \<in> set (chain_ids urns)" using assms(3) spec(4) by (metis fmdom'I)
  then consider "i = ''input_slot''" | "i = ''output''" | k where "k < length urns" "i = cap_id k"
    by (auto simp: chain_ids_def)
  then show ?thesis
  proof cases
    case 1 then show ?thesis using assms(3) spec(5) by auto
  next
    case 2 then show ?thesis using assms(3) spec(6) by auto
  next
    case 3 then show ?thesis using assms(3) spec(7) by auto
  qed
qed

lemma chain_plan_ok:
  assumes "urns \<noteq> []" and p: "p = MachinePlan_linearChainPlan mint urns inMedia outMedia args"
  shows "plan_ok p"
proof -
  note spec = linearChainPlan_spec [OF assms]
  have "cap_id (length urns - 1) \<in> plan_ids p" using assms(1) spec(7) [of "length urns - 1"] by (auto simp: fmdom'I)
  then have "node_ok p i n" if "fmlookup (nodes p) i = Some n" for i n
    using chain_lookup [OF assms that] by (auto simp: node_ok_def knows_def)
  moreover have "body_of p i = []" for i
    using chain_lookup [OF assms, of i] by (fastforce simp: body_of_def split: option.splits)
  moreover have "fromNode e \<in> plan_ids p \<and> toNode e \<in> plan_ids p" if "e \<in> set (edges p)" for e
    using that spec(1,4) chain_edges_ends by simp
  moreover have "{''input_slot'', ''output''} \<subseteq> plan_ids p" using spec(4) by (simp add: chain_ids_def)
  ultimately show ?thesis unfolding plan_ok_def using spec(2,3) by simp
qed

text \<open>The plan of a chain of caps passes \<open>validate\<close>, and its order is the chain, whatever order the
  dictionary is enumerated in: the input slot, one node per cap URN, in the order of the URNs and with
  the file argument of its position, then the output; it contains no map.\<close>
theorem linearChainPlan_runs_in_order:
  assumes "urns \<noteq> []" and "p = MachinePlan_linearChainPlan mint urns inMedia outMedia args"
    and "enumerates keys (fmlookup (nodes p))"
  shows "MachinePlan_validate keys p = None \<and> \<not> MachinePlan_hasForeach keys p \<and>
         MachinePlan_topologicalOrder keys p =
           Inr (MachineNode_inputSlotNode ''input_slot'' ''input'' inMedia CSInputCardinalitySingle #
                map (\<lambda>k. MachineNode_capNode (cap_id k) (urns ! k) (chain_bindings args k) (mint k))
                    [0..<length urns] @
                [MachineNode_outputNode ''output'' ''result'' (cap_id (length urns - 1))])"
proof -
  note spec = linearChainPlan_spec [OF assms(1,2)]
  obtain all d where inv: "kahn_inv p all d []" and result: "MachinePlan_topologicalOrder keys p =
      (if set all = plan_ids p then Inr (map (node_at p) all) else Inl Cycle_detected)"
    using topologicalOrder_ids [OF assms(3)] by blast
  have ends: "fromNode e \<in> plan_ids p \<and> toNode e \<in> plan_ids p" if "e \<in> set (edges p)" for e
    using that spec(1,4) chain_edges_ends by simp
  have "\<forall>e \<in> set (chain_edges (chain_ids urns)). precedes (chain_ids urns) (fromNode e) (toNode e)"
    by (rule chain_precedes)
  then have "acyclic (plan_edges p)"
    by (intro acyclicI_order [where f = "\<lambda>i. length (dropWhile (\<lambda>x. x \<noteq> i) (chain_ids urns))"])
      (auto simp: plan_edges_def spec(1) intro: precedes_rank distinct_chain_ids)
  then have all: "set all = plan_ids p" using kahn_done [OF inv] ends by (auto simp: grounded_def)
  have "all = chain_ids urns"
  proof (rule chain_order_unique)
    show "distinct all" using inv by (simp add: kahn_inv_def)
    show "set all = set (chain_ids urns)" using all spec(4) by simp
    show "\<forall>e \<in> set (chain_edges (chain_ids urns)). precedes all (fromNode e) (toNode e)"
      using ordered_precedes [of p all] inv all ends by (auto simp: spec(1) [symmetric] kahn_inv_def)
  qed
  then have "MachinePlan_topologicalOrder keys p = Inr (map (node_at p) (chain_ids urns))"
    using result all by simp
  moreover have "MachinePlan_validate keys p = None"
    using chain_plan_ok [OF assms(1,2)] validate_iff [OF assms(3)] by simp
  moreover have "\<not> has_foreach_loop p ks" for ks
    by (induction ks) (use chain_lookup [OF assms(1,2)] in
        \<open>fastforce simp: MachineNode_isFanOut_def split: option.splits\<close>)+
  ultimately show ?thesis using spec(5-7) by (simp add: chain_ids_def MachinePlan_hasForeach_def)
qed

theorem linearChainPlan_runs_in_order_witness:
  "MachinePlan_validate [''output'', ''cap_0'', ''input_slot'', ''cap_1'']
     (MachinePlan_linearChainPlan (\<lambda>_. StepToken ''t'') [''a'', ''b''] ''media:pdf'' ''media:text'' [''file'']) = None"
proof -
  let ?p = "MachinePlan_linearChainPlan (\<lambda>_. StepToken ''t'') [''a'', ''b''] ''media:pdf'' ''media:text'' [''file'']"
  have "plan_ids ?p = {''output'', ''cap_0'', ''input_slot'', ''cap_1''}" by code_simp
  then have "enumerates [''output'', ''cap_0'', ''input_slot'', ''cap_1''] (fmlookup (nodes ?p))"
    by (simp add: enumerates_def)
  then show ?thesis using linearChainPlan_runs_in_order [OF _ refl, of "[''a'', ''b'']"] by blast
qed

end
