(* ===== verification/Printing.thy ===== *)
theory Printing
  imports LeanList Numerals
begin

text \<open>
  The printing library the program contains (\<open>Init-Data-Repr.c\<close>, \<open>Init-Data-Int-Repr.c\<close>,
  \<open>Init-Data-Format-Basic.c\<close>, \<open>Init-Data-Format-Syntax.c\<close>, \<open>Init-Meta-Defs.c\<close>): numerals, quoted
  strings and the documents (\<open>Format\<close>) the \<open>Repr\<close> instances of the program's types build.

  \<open>Format\<close> is Lean's \<open>Std.Format\<close>: the C builds its constructors by tag (\<open>nil\<close> is the box 0, \<open>line\<close> the
  box 1, \<open>text\<close> 3, \<open>nest\<close> 4, \<open>append\<close> 5, \<open>group\<close> 6 with its behaviour in a byte).  A string is the
  bytes of its UTF-8 encoding; \<open>quoteCore\<close> copies every character above 127, so it copies the bytes of
  its encoding.
\<close>

section \<open>Documents\<close>

datatype FlattenBehavior = FlattenBehavior_allOrNone | FlattenBehavior_fill

datatype Format =
    Format_nil
  | Format_line
  | Format_align bool
  | Format_text string
  | Format_nest int Format
  | Format_append Format Format
  | Format_group Format FlattenBehavior
  | Format_tag nat Format

definition Std_Format_fill :: "Format \<Rightarrow> Format" where
  "Std_Format_fill f = Format_group f FlattenBehavior_fill"

definition Repr_addAppParen :: "Format \<Rightarrow> nat \<Rightarrow> Format" where
  "Repr_addAppParen f prec =
     (if 1024 \<le> prec then
        Format_group
          (Format_nest 1
            (Format_append (Format_append (Format_text ''('') f) (Format_text '')'')))
          FlattenBehavior_allOrNone
      else f)"

definition Bool_repr :: "bool \<Rightarrow> Format" where
  "Bool_repr b = (if b then Format_text ''true'' else Format_text ''false'')"

text \<open>The two documents every derived instance builds: a constructor with its arguments, and a structure
  with its fields, each with the indentation of its value.\<close>

definition constr_repr :: "string \<Rightarrow> Format list \<Rightarrow> nat \<Rightarrow> Format" where
  "constr_repr name args prec =
     Repr_addAppParen
       (Format_group
         (Format_nest (if 1024 \<le> prec then 1 else 2)
           (foldl (\<lambda>f a. Format_append (Format_append f Format_line) a) (Format_text name) args))
         FlattenBehavior_allOrNone)
       prec"

definition field_repr :: "Format \<Rightarrow> string \<times> int \<times> Format \<Rightarrow> Format" where
  "field_repr before x =
     (case x of (name, indent, value) \<Rightarrow>
        Format_append
          (Format_append (Format_append before (Format_text name)) (Format_text '' := ''))
          (Format_group (Format_nest indent value) FlattenBehavior_allOrNone))"

definition struct_repr :: "string \<times> int \<times> Format \<Rightarrow> (string \<times> int \<times> Format) list \<Rightarrow> Format" where
  "struct_repr x xs =
     Format_group
       (Format_nest 2
         (Format_append
           (Format_append (Format_text ''{ '')
             (foldl (\<lambda>f y. field_repr (Format_append (Format_append f (Format_text '','')) Format_line) y)
               (field_repr Format_nil x) xs))
           (Format_text '' }'')))
       FlattenBehavior_allOrNone"

definition list_repr :: "(Format \<Rightarrow> Format) \<Rightarrow> Format \<Rightarrow> Format" where
  "list_repr grouped items =
     grouped
       (Format_nest 1
         (Format_append (Format_append (Format_text ''['') items) (Format_text '']'')))"

fun joinSep_loop :: "Format \<Rightarrow> Format \<Rightarrow> Format list \<Rightarrow> Format" where
  "joinSep_loop sep acc [] = acc"
| "joinSep_loop sep acc (f # fs) = joinSep_loop sep (Format_append (Format_append acc sep) f) fs"

fun joinSep :: "Format list \<Rightarrow> Format \<Rightarrow> Format" where
  "joinSep [] sep = Format_nil"
| "joinSep [f] sep = f"
| "joinSep (f # g # fs) sep = joinSep_loop sep f (g # fs)"

fun joinSep_pair_loop :: "Format \<Rightarrow> Format \<Rightarrow> Format list \<Rightarrow> Format" where
  "joinSep_pair_loop sep acc [] = acc"
| "joinSep_pair_loop sep acc (f # fs) =
     joinSep_pair_loop sep (Format_append (Format_append acc sep) f) fs"

fun joinSep_pair :: "Format list \<Rightarrow> Format \<Rightarrow> Format" where
  "joinSep_pair [] sep = Format_nil"
| "joinSep_pair [f] sep = f"
| "joinSep_pair (f # g # fs) sep = joinSep_pair_loop sep f (g # fs)"

section \<open>Numerals\<close>

definition Nat_digitChar :: "nat \<Rightarrow> char" where
  "Nat_digitChar n =
     char_of
        ((if n = 0 then 48 else if n = 1 then 49 else if n = 2 then 50 else if n = 3 then 51 else
         if n = 4 then 52 else if n = 5 then 53 else if n = 6 then 54 else if n = 7 then 55 else
         if n = 8 then 56 else if n = 9 then 57 else if n = 10 then 97 else if n = 11 then 98 else
         if n = 12 then 99 else if n = 13 then 100 else if n = 14 then 101 else if n = 15 then 102 else
         42) :: nat)"

fun Nat_toDigitsCore :: "nat \<Rightarrow> nat \<Rightarrow> nat \<Rightarrow> char list \<Rightarrow> char list" where
  "Nat_toDigitsCore base fuel n ds =
     (if fuel = 0 then ds
      else if n div base = 0 then Nat_digitChar (n mod base) # ds
      else Nat_toDigitsCore base (fuel - 1) (n div base) (Nat_digitChar (n mod base) # ds))"

declare Nat_toDigitsCore.simps [simp del]

definition Nat_toDigits :: "nat \<Rightarrow> nat \<Rightarrow> char list" where
  "Nat_toDigits base n = Nat_toDigitsCore base (n + 1) n []"

text \<open>\<open>USize.repr\<close> calls the runtime, which prints a \<open>size_t\<close> in decimal.\<close>

definition USize_repr :: "nat \<Rightarrow> string" where
  "USize_repr n = string_of_nat n"

definition USize_ofNat :: "nat \<Rightarrow> nat \<Rightarrow> nat" where
  "USize_ofNat bits n = n mod 2 ^ bits"

fun Nat_reprArray_loop :: "nat \<Rightarrow> nat list \<Rightarrow> string list \<Rightarrow> string list" where
  "Nat_reprArray_loop bits [] acc = List_reverse acc"
| "Nat_reprArray_loop bits (n # ns) acc =
     Nat_reprArray_loop bits ns (USize_repr (USize_ofNat bits n) # acc)"

definition Nat_reprArray :: "nat \<Rightarrow> string list" where
  "Nat_reprArray bits = Nat_reprArray_loop bits (List_range 128) []"

definition Nat_reprFast_at :: "nat \<Rightarrow> nat \<Rightarrow> string" where
  "Nat_reprFast_at bits n =
     (if n < length (Nat_reprArray bits) then Nat_reprArray bits ! n
      else if n < 2 ^ bits then USize_repr n
      else Nat_toDigits 10 n)"

text \<open>The platforms the package is built for have a \<open>size_t\<close> of 64 bits.\<close>

definition System_Platform_numBits :: nat where
  "System_Platform_numBits = 64"

definition Nat_reprFast :: "nat \<Rightarrow> string" where
  "Nat_reprFast n = Nat_reprFast_at System_Platform_numBits n"

definition Int_repr :: "int \<Rightarrow> string" where
  "Int_repr i =
     (if i < 0 then ''-'' @ Nat_reprFast (nat \<bar>i\<bar> - 1 + 1) else Nat_reprFast (nat \<bar>i\<bar>))"

section \<open>Quoted strings\<close>

definition hexDigitRepr :: "nat \<Rightarrow> string" where
  "hexDigitRepr n = '''' @ [Nat_digitChar n]"

definition smallCharToHex :: "char \<Rightarrow> string" where
  "smallCharToHex c =
     (let n = of_char c in hexDigitRepr (n div 2 ^ 4) @ hexDigitRepr (n mod 16))"

definition Char_quoteCore :: "char \<Rightarrow> bool \<Rightarrow> string" where
  "Char_quoteCore c inString =
     (let n = of_char c :: nat in
      if n = 10 then [CHR 92, CHR ''n'']
      else if n = 9 then [CHR 92, CHR ''t'']
      else if n = 92 then [CHR 92, CHR 92]
      else if n = 34 then [CHR 92, CHR 34]
      else if \<not> inString \<and> n = 39 then [CHR 92, CHR 39]
      else if n \<le> 31 \<or> n = 127 then [CHR 92, CHR ''x''] @ smallCharToHex c
      else [c])"

definition String_quote_step :: "bool \<Rightarrow> string \<Rightarrow> char \<Rightarrow> string" where
  "String_quote_step inString acc c = acc @ Char_quoteCore c inString"

definition String_quote :: "string \<Rightarrow> string" where
  "String_quote s =
     (if s = [] then [CHR 34, CHR 34]
      else foldl (String_quote_step True) [CHR 34] s @ [CHR 34])"

section \<open>Numerals are decimal\<close>

lemma Nat_digitChar_digit: "n < 10 \<Longrightarrow> Nat_digitChar n = digit_char n"
proof -
  assume "n < 10"
  then have "n \<in> {0, 1, 2, 3, 4, 5, 6, 7, 8, 9}" by auto
  then show ?thesis by (auto simp: Nat_digitChar_def digit_char_def)
qed

lemma Nat_toDigitsCore_eq: "n < fuel \<Longrightarrow> Nat_toDigitsCore 10 fuel n ds = string_of_nat n @ ds"
proof (induction fuel arbitrary: n ds)
  case 0
  then show ?case by simp
next
  case (Suc fuel)
  show ?case
  proof (cases "n < 10")
    case True
    then show ?thesis
      by (simp add: Nat_toDigitsCore.simps [of 10 "Suc fuel"] string_of_nat.simps [of n]
          Nat_digitChar_digit)
  next
    case False
    then have "n div 10 < fuel" using Suc.prems by linarith
    moreover have "n div 10 \<noteq> 0" using False by simp
    ultimately show ?thesis using Suc.IH False
      by (simp add: Nat_toDigitsCore.simps [of 10 "Suc fuel"] string_of_nat.simps [of n]
          Nat_digitChar_digit)
  qed
qed

lemma Nat_reprArray_loop_eq:
  "Nat_reprArray_loop bits ns acc = rev acc @ map (\<lambda>n. string_of_nat (n mod 2 ^ bits)) ns"
  by (induction ns arbitrary: acc) (simp_all add: USize_repr_def USize_ofNat_def)

lemma Nat_reprArray_eq:
  assumes "7 \<le> bits"
  shows "Nat_reprArray bits = map string_of_nat [0..<128]"
proof -
  have "(2::nat) ^ 7 \<le> 2 ^ bits" using assms by (rule power_increasing) simp
  then have "n mod 2 ^ bits = n" if "n < 128" for n :: nat using that by simp
  then show ?thesis by (simp add: Nat_reprArray_def Nat_reprArray_loop_eq)
qed

lemma Nat_reprFast_at_eq: "7 \<le> bits \<Longrightarrow> Nat_reprFast_at bits n = string_of_nat n"
  by (simp add: Nat_reprFast_at_def Nat_reprArray_eq USize_repr_def Nat_toDigits_def
      Nat_toDigitsCore_eq)

lemma Nat_reprFast_eq [simp]: "Nat_reprFast n = string_of_nat n"
  by (simp add: Nat_reprFast_def System_Platform_numBits_def Nat_reprFast_at_eq)

lemma Int_repr_eq: "Int_repr i = string_of_int i"
proof (cases "i < 0")
  case True
  then have "nat \<bar>i\<bar> - 1 + 1 = nat (- i)" by simp
  then show ?thesis using True by (simp add: Int_repr_def string_of_int_def)
qed (simp add: Int_repr_def string_of_int_def)

section \<open>Quoting can be undone\<close>

text \<open>What one character becomes says which character it was, and where it ends.\<close>

lemma Nat_digitChar_inject: "m < 16 \<Longrightarrow> n < 16 \<Longrightarrow> Nat_digitChar m = Nat_digitChar n \<Longrightarrow> m = n"
proof -
  assume "m < 16" "n < 16" and eq: "Nat_digitChar m = Nat_digitChar n"
  have "map Nat_digitChar [0..<16] = ''0123456789abcdef''"
    by (simp add: Nat_digitChar_def upt_rec char_of_def bit_iff_odd)
  then have "distinct (map Nat_digitChar [0..<16])" by simp
  then have "inj_on Nat_digitChar {..<16}" by (simp add: distinct_map atLeast0LessThan)
  then show ?thesis using \<open>m < 16\<close> \<open>n < 16\<close> eq by (auto simp: inj_on_def)
qed

lemma smallCharToHex_eq:
  "smallCharToHex c = [Nat_digitChar (of_char c div 16), Nat_digitChar (of_char c mod 16)]"
  by (simp add: smallCharToHex_def hexDigitRepr_def Let_def)

lemma smallCharToHex_inject: "smallCharToHex c = smallCharToHex d \<Longrightarrow> c = d"
proof -
  assume "smallCharToHex c = smallCharToHex d"
  then have "Nat_digitChar (of_char c div 16) = Nat_digitChar (of_char d div 16)"
    and "Nat_digitChar (of_char c mod 16) = Nat_digitChar (of_char d mod 16)"
    by (simp_all add: smallCharToHex_eq)
  moreover have "of_char e div 16 < (16::nat)" for e
    using of_char_mod_256 [of e, where ?'a = nat] by (metis less_mult_imp_div_less mod_less_divisor
        numeral_times_numeral semiring_norm(12) zero_less_numeral mult_num_simps)
  moreover have "of_char e mod 16 < (16::nat)" for e by simp
  ultimately have "(of_char c :: nat) div 16 = of_char d div 16"
    and "(of_char c :: nat) mod 16 = of_char d mod 16"
    by (metis Nat_digitChar_inject)+
  then have "(of_char c :: nat) = of_char d" by (metis mult_div_mod_eq)
  then show ?thesis by simp
qed

lemma String_quote_eq:
  "String_quote s = [CHR 34] @ concat (map (\<lambda>c. Char_quoteCore c True) s) @ [CHR 34]"
proof -
  have "foldl (String_quote_step True) acc s = acc @ concat (map (\<lambda>c. Char_quoteCore c True) s)" for acc
    by (induction s arbitrary: acc) (simp_all add: String_quote_step_def)
  then show ?thesis by (simp add: String_quote_def)
qed

end
