(* ===== verification/Layouts.thy ===== *)
theory Layouts
  imports Printing
begin

text \<open>
  What a document can look like on paper, and when two documents can look the same.

  The program builds documents and hands them to Lean's pretty printer, which is not part of it.
  Whatever widths it breaks lines at, it prints one of the \<open>layouts\<close>: a line is one space or a new
  line with any indentation, an alignment is blank, groups and nesting only say where lines are
  broken.  \<open>agree A B P\<close> says that wherever a string of \<open>A\<close> and a string of \<open>B\<close> start at the same
  place of a text and both are followed by a delimiter, they are the same string and \<open>P\<close> holds.  Its
  rules follow the shape of the documents the program builds; \<open>readable\<close> is the contract of a
  printing function and is closed under the list, option and pair printers.
\<close>

section \<open>Layouts\<close>

definition blanks :: "string set" where
  "blanks = insert [CHR '' ''] {CHR 10 # replicate n (CHR '' '') | n. True}"

definition cat :: "string set \<Rightarrow> string set \<Rightarrow> string set" where
  "cat A B = {a @ b | a b. a \<in> A \<and> b \<in> B}"

primrec layouts :: "Format \<Rightarrow> string set" where
  "layouts Format_nil = {[]}"
| "layouts Format_line = blanks"
| "layouts (Format_align force) = {replicate n (CHR '' '') | n. True} \<union> blanks"
| "layouts (Format_text s) = {s}"
| "layouts (Format_nest n f) = layouts f"
| "layouts (Format_append f g) = cat (layouts f) (layouts g)"
| "layouts (Format_group f b) = layouts f"
| "layouts (Format_tag n f) = layouts f"

lemma cat_assoc [simp]: "cat (cat A B) C = cat A (cat B C)"
  by (auto simp: cat_def) (metis append.assoc)+

lemma cat_Nil [simp]: "cat {[]} A = A" "cat A {[]} = A"
  by (auto simp: cat_def)

lemma cat_literal: "cat {u @ v} A = cat {u} (cat {v} A)"
  by (auto simp: cat_def)

lemma cat_empty: "A \<noteq> {} \<Longrightarrow> B \<noteq> {} \<Longrightarrow> cat A B \<noteq> {}"
  by (auto simp: cat_def)

lemma layouts_not_empty: "layouts f \<noteq> {}"
  by (induction f) (auto simp: blanks_def cat_empty)

section \<open>Delimiters\<close>

definition delimiters :: "char set" where
  "delimiters = insert (CHR 10) (set '', ])'')"

definition stops :: "string \<Rightarrow> bool" where
  "stops r \<longleftrightarrow> r = [] \<or> hd r \<in> delimiters"

definition starts :: "string set \<Rightarrow> bool" where
  "starts A \<longleftrightarrow> (\<forall>s \<in> A. \<not> stops s)"

definition closes :: "string set \<Rightarrow> bool" where
  "closes A \<longleftrightarrow> (\<forall>s \<in> A. stops s)"

definition word :: "string \<Rightarrow> bool" where
  "word s \<longleftrightarrow> s \<noteq> [] \<and> set s \<inter> delimiters = {}"

definition agree :: "string set \<Rightarrow> string set \<Rightarrow> bool \<Rightarrow> bool" where
  "agree A B P \<longleftrightarrow>
     (\<forall>s \<in> A. \<forall>t \<in> B. \<forall>r r'. stops r \<longrightarrow> stops r' \<longrightarrow> s @ r = t @ r' \<longrightarrow> s = t \<and> P)"

lemma stops_simps [simp]: "stops []" "stops (c # r) \<longleftrightarrow> c \<in> delimiters"
  by (simp_all add: stops_def)

lemma stops_append: "stops (s @ r) \<longleftrightarrow> (if s = [] then stops r else stops s)"
  by (simp add: stops_def)

lemma starts_cat [simp]: "starts A \<Longrightarrow> starts (cat A B)"
  unfolding starts_def cat_def by (auto simp: stops_append split: if_splits)

lemma starts_word [simp]: "word w \<Longrightarrow> starts {w}"
  by (cases w) (auto simp: starts_def word_def)

lemma starts_literal [simp]: "c \<notin> delimiters \<Longrightarrow> starts {c # u}"
  by (simp add: starts_def)

lemma closes_Nil [simp]: "closes {[]}"
  by (simp add: closes_def)

lemma closes_cat: "closes A \<Longrightarrow> closes B \<Longrightarrow> closes (cat A B)"
  unfolding closes_def cat_def by (auto simp: stops_append)

lemma closes_blanks [simp]: "closes (cat blanks A)" "closes blanks"
  by (auto simp: closes_def cat_def blanks_def stops_def delimiters_def)

lemma closes_literal [simp]: "c \<in> delimiters \<Longrightarrow> closes (cat {c # u} A)"
  by (auto simp: closes_def cat_def)

lemma closes_char [simp]: "c \<in> delimiters \<Longrightarrow> closes {c # u}"
  by (auto simp: closes_def)

lemma agree_mono: "agree A B P \<Longrightarrow> (P \<Longrightarrow> Q) \<Longrightarrow> agree A B Q"
  unfolding agree_def by blast

lemma agree_Nil: "agree {[]} {[]} True"
  by (simp add: agree_def)

lemma agree_same: "agree {s} {s} True"
  by (simp add: agree_def)

lemma agree_cat:
  assumes "agree A B P" and "P \<Longrightarrow> agree C D Q" and "closes C" and "closes D"
  shows "agree (cat A C) (cat B D) (P \<and> Q)"
  unfolding agree_def
proof (intro ballI allI impI)
  fix s t r r' assume "s \<in> cat A C" "t \<in> cat B D" and r: "stops r" "stops r'" and eq: "s @ r = t @ r'"
  then obtain a c b d where s: "s = a @ c" "a \<in> A" "c \<in> C" and t: "t = b @ d" "b \<in> B" "d \<in> D"
    by (auto simp: cat_def)
  have "stops (c @ r)" "stops (d @ r')" using s t r assms(3,4) by (simp_all add: closes_def stops_append)
  then have "a = b \<and> P" using assms(1) s t eq unfolding agree_def by (metis append.assoc)
  moreover from this have "c = d \<and> Q" using assms(2) s t eq r unfolding agree_def by auto
  ultimately show "s = t \<and> P \<and> Q" using s t by simp
qed

lemma agree_prefix: "agree C D Q \<Longrightarrow> agree (cat {w} C) (cat {w} D) Q"
  unfolding agree_def cat_def by auto

lemma agree_mismatch: "a \<noteq> b \<Longrightarrow> agree (cat {a # u} C) (cat {b # v} D) Q"
  unfolding agree_def cat_def by auto

lemma agree_blanks:
  assumes "agree C D Q" and "starts C" and "starts D"
  shows "agree (cat blanks C) (cat blanks D) Q"
  unfolding agree_def
proof (intro ballI allI impI)
  fix s t r r' assume st: "s \<in> cat blanks C" "t \<in> cat blanks D"
    and r: "stops r" "stops r'" and eq: "s @ r = t @ r'"
  let ?blank = "\<lambda>c. c = CHR '' '' \<or> c = CHR 10"
  have split: "\<exists>l c. u = l @ c \<and> c \<in> X \<and> takeWhile ?blank (u @ v) = l" if "u \<in> cat blanks X" "starts X" for u X v
  proof -
    obtain l c where u: "u = l @ c" "l \<in> blanks" "c \<in> X" using \<open>u \<in> cat blanks X\<close> by (auto simp: cat_def)
    then have "\<not> stops c" using \<open>starts X\<close> by (simp add: starts_def)
    then have "c \<noteq> []" "\<not> ?blank (hd c)" by (auto simp: stops_def delimiters_def)
    moreover have "\<forall>x \<in> set l. ?blank x" using u(2) by (auto simp: blanks_def)
    ultimately have "takeWhile ?blank (u @ v) = l"
      unfolding u(1) by (cases c) (simp_all add: takeWhile_append2)
    then show ?thesis using u by blast
  qed
  obtain l c where s: "s = l @ c" "c \<in> C" "takeWhile ?blank (s @ r) = l" using split st(1) assms(2) by blast
  obtain m d where t: "t = m @ d" "d \<in> D" "takeWhile ?blank (t @ r') = m" using split st(2) assms(3) by blast
  have "l = m" using s(3) t(3) eq by simp
  then show "s = t \<and> Q" using s t eq r assms(1) unfolding agree_def by auto
qed

lemma agree_words:
  assumes "word v" and "word w"
  shows "agree {v} {w} (v = w)"
proof -
  have "takeWhile (\<lambda>c. c \<notin> delimiters) (u @ r) = u" if "word u" "stops r" for u r
    using that by (cases r) (auto simp: word_def takeWhile_append2 disjoint_iff)
  then show ?thesis using assms unfolding agree_def by (metis singletonD)
qed

lemma agree_sym: "agree A B P \<Longrightarrow> agree B A P"
  unfolding agree_def by metis

lemma agree_never:
  assumes "closes A" and "[] \<notin> A" and "starts B"
  shows "agree A B P"
  unfolding agree_def
proof (intro ballI allI impI)
  fix s t r r' assume "s \<in> A" "t \<in> B" and eq: "s @ r = t @ r'"
  then have "stops s" "s \<noteq> []" "\<not> stops t" using assms by (auto simp: closes_def starts_def)
  then have "stops (s @ r)" "\<not> stops (t @ r')" by (auto simp: stops_append)
  then show "s = t \<and> P" using eq by simp
qed

definition heads :: "string set \<Rightarrow> char \<Rightarrow> bool" where
  "heads A c \<longleftrightarrow> (\<forall>s \<in> A. \<exists>u. s = c # u)"

lemma heads_literal [simp]: "heads {c # u} c" "heads (cat {c # u} A) c"
  by (auto simp: heads_def cat_def)

lemma agree_heads: "heads A a \<Longrightarrow> heads B b \<Longrightarrow> a \<noteq> b \<Longrightarrow> agree A B P"
  unfolding agree_def heads_def by fastforce

section \<open>Constructors and structures\<close>

fun args_layouts :: "Format list \<Rightarrow> string set" where
  "args_layouts [] = {[]}"
| "args_layouts (f # fs) = cat blanks (cat (layouts f) (args_layouts fs))"

fun fields_layouts :: "(string \<times> int \<times> Format) list \<Rightarrow> string set" where
  "fields_layouts [] = {'' }''}"
| "fields_layouts ((n, k, f) # fs) =
     cat {'',''} (cat blanks (cat {n} (cat {'' := ''} (cat (layouts f) (fields_layouts fs)))))"

lemma layouts_addAppParen:
  "layouts (Repr_addAppParen f p) =
     (if 1024 \<le> p then cat {''(''} (cat (layouts f) {'')''}) else layouts f)"
  by (simp add: Repr_addAppParen_def)

lemma layouts_args:
  "layouts (foldl (\<lambda>f a. Format_append (Format_append f Format_line) a) g args) =
     cat (layouts g) (args_layouts args)"
  by (induction args arbitrary: g) simp_all

lemma layouts_constr:
  "layouts (constr_repr n args p) =
     (if 1024 \<le> p then cat {''(''} (cat {n} (cat (args_layouts args) {'')''}))
      else cat {n} (args_layouts args))"
  by (simp add: constr_repr_def layouts_addAppParen layouts_args)

lemma layouts_field:
  "layouts (field_repr g (n, k, f)) = cat (layouts g) (cat {n} (cat {'' := ''} (layouts f)))"
  by (simp add: field_repr_def)

lemma layouts_fields:
  "cat (layouts (foldl (\<lambda>f y. field_repr (Format_append (Format_append f (Format_text '','')) Format_line) y)
      g xs)) {'' }''} = cat (layouts g) (fields_layouts xs)"
proof (induction xs arbitrary: g)
  case (Cons x xs)
  then show ?case by (cases x) (simp add: layouts_field)
qed simp

lemma layouts_struct:
  "layouts (struct_repr (n, k, f) xs) =
     cat {''{ ''} (cat {n} (cat {'' := ''} (cat (layouts f) (fields_layouts xs))))"
  by (simp add: struct_repr_def layouts_fields layouts_field)

lemma closes_args [simp]: "closes (args_layouts fs)" "closes (cat (args_layouts fs) {'')''})"
proof -
  have "closes {'')''}" by (simp add: delimiters_def)
  then show "closes (args_layouts fs)" "closes (cat (args_layouts fs) {'')''})"
    by (cases fs; simp)+
qed

lemma closes_fields [simp]: "closes (fields_layouts xs)"
  by (cases xs rule: fields_layouts.cases) (simp_all add: delimiters_def)

lemma agree_args:
  assumes "agree (layouts f) (layouts g) P" and "agree (args_layouts fs) (args_layouts gs) Q"
    and "starts (layouts f)" and "starts (layouts g)"
  shows "agree (args_layouts (f # fs)) (args_layouts (g # gs)) (P \<and> Q)"
  using assms by (simp add: agree_blanks agree_cat)

lemma agree_constr:
  assumes "word n" and "word m" and "n = m \<Longrightarrow> agree (args_layouts fs) (args_layouts gs) Q"
  shows "agree (layouts (constr_repr n fs p)) (layouts (constr_repr m gs p)) (n = m \<and> Q)"
proof -
  have c: "closes {'')''}" by (simp add: delimiters_def)
  have "agree (cat (args_layouts fs) {'')''}) (cat (args_layouts gs) {'')''}) Q" if "n = m"
    using agree_cat [OF assms(3) agree_same c c] that by simp
  then show ?thesis using assms
    by (auto simp: layouts_constr intro!: agree_prefix agree_cat agree_words)
qed

lemma starts_constr: "word n \<Longrightarrow> starts (layouts (constr_repr n fs p))"
  by (simp add: layouts_constr delimiters_def)

lemma agree_field:
  assumes "agree (layouts f) (layouts g) P" and "agree (fields_layouts xs) (fields_layouts ys) Q"
    and "word n"
  shows "agree (fields_layouts ((n, k, f) # xs)) (fields_layouts ((n, k', g) # ys)) (P \<and> Q)"
  using assms by (simp add: agree_prefix agree_blanks agree_cat)

lemma agree_fields_Nil: "agree (fields_layouts []) (fields_layouts []) True"
  by (simp add: agree_same)

lemma agree_struct:
  assumes "agree (layouts f) (layouts g) P" and "agree (fields_layouts xs) (fields_layouts ys) Q"
  shows "agree (layouts (struct_repr (n, k, f) xs)) (layouts (struct_repr (n, k', g) ys)) (P \<and> Q)"
  using assms by (simp add: layouts_struct agree_prefix agree_cat)

lemma starts_struct: "starts (layouts (struct_repr x xs))"
  by (cases x) (simp add: layouts_struct delimiters_def)

lemma agree_args_Nil: "agree (args_layouts []) (args_layouts []) True"
  by (simp add: agree_Nil)

lemmas agree_rules =
  agree_args agree_args_Nil agree_field agree_fields_Nil agree_struct

section \<open>Printing functions\<close>

locale readable =
  fixes pr :: "'a \<Rightarrow> Format"
  assumes reads: "agree (layouts (pr x)) (layouts (pr y)) (x = y)"
    and begins: "starts (layouts (pr x))"
begin

lemma same_layout: "layouts (pr x) \<inter> layouts (pr y) \<noteq> {} \<longleftrightarrow> x = y"
proof
  assume "layouts (pr x) \<inter> layouts (pr y) \<noteq> {}"
  then obtain s where "s \<in> layouts (pr x)" "s \<in> layouts (pr y)" by blast
  then show "x = y" using reads [of x y] unfolding agree_def by (metis stops_simps(1))
qed (use layouts_not_empty in simp)

lemma same_document: "pr x = pr y \<longleftrightarrow> x = y"
  using same_layout layouts_not_empty by (metis inf.idem)

end

lemma readable_word:
  assumes "\<And>x. word (f x)" and "inj f"
  shows "readable (\<lambda>x. Format_text (f x))"
  using assms by unfold_locales (auto simp: inj_eq intro: agree_mono [OF agree_words])

section \<open>Numerals, truth values and quoted strings\<close>

lemma word_string_of_nat: "word (string_of_nat n)"
proof -
  have "digit_char d \<notin> delimiters" if "d < 10" for d
  proof -
    have "of_char (digit_char d) \<ge> (48::nat) \<and> of_char (digit_char d) < (58::nat)"
      using that by (simp add: of_char_digit)
    moreover have "\<forall>c \<in> delimiters. of_char c < (48::nat) \<or> of_char c \<ge> (58::nat)"
      by (simp add: delimiters_def of_char_def)
    ultimately show ?thesis by force
  qed
  then show ?thesis by (auto simp: word_def dest: string_of_nat_digits)
qed

interpretation nat_text: readable "\<lambda>n. Format_text (Nat_reprFast n)"
  by (rule readable_word) (simp_all add: word_string_of_nat inj_def)

interpretation bool_text: readable Bool_repr
proof -
  have "readable (\<lambda>b. Format_text (if b then ''true'' else ''false''))"
    by (rule readable_word) (simp_all add: word_def delimiters_def inj_def)
  moreover have "Bool_repr = (\<lambda>b. Format_text (if b then ''true'' else ''false''))"
    by (auto simp: Bool_repr_def)
  ultimately show "readable Bool_repr" by simp
qed

lemma quoteCore_cases:
  "Char_quoteCore c True =
     (if c = CHR 10 then [CHR 92, CHR ''n''] else if c = CHR 9 then [CHR 92, CHR ''t'']
      else if c = CHR 92 then [CHR 92, CHR 92] else if c = CHR 34 then [CHR 92, CHR 34]
      else if of_char c \<le> (31::nat) \<or> of_char c = (127::nat)
        then CHR 92 # CHR ''x'' # smallCharToHex c
      else [c])"
proof -
  have "of_char c = (of_char d :: nat) \<longleftrightarrow> c = d" for d by simp
  from this [of "CHR 10"] this [of "CHR 9"] this [of "CHR 92"] this [of "CHR 34"]
  show ?thesis by (simp add: Char_quoteCore_def Let_def of_char_def)
qed

lemma quoteCore_prefix_free:
  assumes "Char_quoteCore c True @ u = Char_quoteCore d True @ v"
  shows "c = d"
  using assms by (auto simp: quoteCore_cases smallCharToHex_eq split: if_splits
      intro: smallCharToHex_inject)

lemma quoteCore_no_quote: "\<exists>x xs. Char_quoteCore c True = x # xs \<and> x \<noteq> CHR 34"
  by (simp add: quoteCore_cases)

lemma quoted_inject:
  assumes "concat (map (\<lambda>c. Char_quoteCore c True) s) @ CHR 34 # r =
    concat (map (\<lambda>c. Char_quoteCore c True) t) @ CHR 34 # r'"
  shows "s = t"
  using assms
proof (induction s arbitrary: t)
  case Nil
  show ?case
  proof (cases t)
    case (Cons d t')
    then show ?thesis using Nil quoteCore_no_quote [of d] by auto
  qed simp
next
  case (Cons c s)
  show ?case
  proof (cases t)
    case Nil
    then show ?thesis using Cons.prems quoteCore_no_quote [of c] by auto
  next
    case (Cons d t')
    then have "c = d" using Cons.prems quoteCore_prefix_free by simp
    then show ?thesis using Cons Cons.prems Cons.IH by simp
  qed
qed

interpretation string_text: readable "\<lambda>s. Format_text (String_quote s)"
proof
  fix s t
  show "agree (layouts (Format_text (String_quote s))) (layouts (Format_text (String_quote t))) (s = t)"
    by (auto simp: agree_def String_quote_eq dest: quoted_inject)
  show "starts (layouts (Format_text (String_quote s)))"
    by (simp add: String_quote_eq delimiters_def)
qed

section \<open>Options, pairs and lists\<close>

lemma agree_paren:
  assumes "agree (layouts f) (layouts g) P"
  shows "agree (layouts (Repr_addAppParen f p)) (layouts (Repr_addAppParen g p)) P"
proof -
  have c: "closes {'')''}" by (simp add: delimiters_def)
  have "agree (cat (layouts f) {'')''}) (cat (layouts g) {'')''}) P"
    using agree_cat [OF assms agree_same c c] by simp
  then show ?thesis using assms by (simp add: layouts_addAppParen agree_prefix)
qed

text \<open>An option printer prints \<open>none\<close>, or \<open>some\<close> and the value, in parentheses where an argument needs
  them.\<close>

locale option_printer = readable pr for pr :: "'a \<Rightarrow> Format" +
  fixes show_opt :: "'a option \<Rightarrow> nat \<Rightarrow> Format"
  assumes show_None: "show_opt None p = Format_text ''none''"
    and show_Some: "show_opt (Some x) p =
      Repr_addAppParen (Format_append (Format_text ''some '') (pr x)) p"
begin

lemma some_layouts:
  "\<exists>c. c \<noteq> CHR ''n'' \<and> c \<notin> delimiters \<and> heads (layouts (show_opt (Some x) p)) c"
proof (cases "1024 \<le> p")
  case True
  then have "heads (layouts (show_opt (Some x) p)) (CHR ''('')"
    by (simp add: show_Some layouts_addAppParen)
  then show ?thesis by (intro exI [of _ "CHR ''(''"]) (simp add: delimiters_def)
next
  case False
  then have "heads (layouts (show_opt (Some x) p)) (CHR ''s'')"
    by (simp add: show_Some layouts_addAppParen)
  then show ?thesis by (intro exI [of _ "CHR ''s''"]) (simp add: delimiters_def)
qed

lemma option_reads: "agree (layouts (show_opt x p)) (layouts (show_opt y p)) (x = y)"
proof (cases x; cases y)
  fix a b assume xy: "x = Some a" "y = Some b"
  have "agree (layouts (Format_append (Format_text ''some '') (pr a)))
      (layouts (Format_append (Format_text ''some '') (pr b))) (a = b)"
    using reads by (simp add: agree_prefix)
  then show ?thesis unfolding xy show_Some by (simp add: agree_paren)
next
  fix b assume "x = None" "y = Some b"
  then show ?thesis using some_layouts [of b p]
    by (metis agree_heads heads_literal(1) layouts.simps(4) show_None)
next
  fix a assume "x = Some a" "y = None"
  then show ?thesis using some_layouts [of a p]
    by (metis agree_heads heads_literal(1) layouts.simps(4) show_None)
qed (simp add: show_None agree_same)

lemma option_begins: "starts (layouts (show_opt x p))"
proof (cases x)
  case None
  then show ?thesis by (simp add: show_None delimiters_def)
next
  case (Some a)
  obtain c where "c \<notin> delimiters" "heads (layouts (show_opt (Some a) p)) c"
    using some_layouts by blast
  then show ?thesis unfolding Some starts_def heads_def by fastforce
qed

end

sublocale option_printer \<subseteq> opt: readable "\<lambda>x. show_opt x p"
  by unfold_locales (rule option_reads, rule option_begins)

locale pair_printer = left: readable pr_fst + right: readable pr_snd
  for pr_fst :: "'a \<Rightarrow> Format" and pr_snd :: "'b \<Rightarrow> Format" +
  fixes show_pair :: "'a \<times> 'b \<Rightarrow> Format"
  assumes pair_layouts: "layouts (show_pair x) =
    cat {''(''} (cat (layouts (pr_fst (fst x))) (cat {'',''} (cat blanks
      (cat (layouts (pr_snd (snd x))) {'')''}))))"

sublocale pair_printer \<subseteq> pair: readable show_pair
proof
  fix x y :: "'a \<times> 'b"
  have c: "closes {'')''}" by (simp add: delimiters_def)
  have "agree (cat (layouts (pr_snd (snd x))) {'')''}) (cat (layouts (pr_snd (snd y))) {'')''})
      (snd x = snd y)"
    using agree_cat [OF right.reads agree_same c c] by simp
  then have "agree (cat {'',''} (cat blanks (cat (layouts (pr_snd (snd x))) {'')''})))
      (cat {'',''} (cat blanks (cat (layouts (pr_snd (snd y))) {'')''}))) (snd x = snd y)"
    by (intro agree_prefix agree_blanks) (simp_all add: right.begins)
  then have "agree (layouts (show_pair x)) (layouts (show_pair y)) (fst x = fst y \<and> snd x = snd y)"
    unfolding pair_layouts
    by (rule agree_prefix [OF agree_cat [OF left.reads]]) (simp_all add: delimiters_def)
  then show "agree (layouts (show_pair x)) (layouts (show_pair y)) (x = y)"
    by (simp add: prod_eq_iff)
  show "starts (layouts (show_pair x))" by (simp add: pair_layouts delimiters_def)
qed

text \<open>The program specialises \<open>joinSep\<close> and the fold in it for every list it prints.\<close>

fun rest_layouts :: "('a \<Rightarrow> Format) \<Rightarrow> 'a list \<Rightarrow> string set" where
  "rest_layouts pr [] = {[]}"
| "rest_layouts pr (x # xs) =
     cat {'',''} (cat blanks (cat (layouts (pr x)) (rest_layouts pr xs)))"

locale list_printer = readable pr for pr :: "'a \<Rightarrow> Format" +
  fixes loop :: "Format \<Rightarrow> Format \<Rightarrow> 'a list \<Rightarrow> Format"
    and first :: "Format \<Rightarrow> Format \<Rightarrow> 'a list \<Rightarrow> Format"
    and joined :: "'a list \<Rightarrow> Format \<Rightarrow> Format"
    and show_list :: "'a list \<Rightarrow> Format"
  assumes loop_Nil: "loop sep acc [] = acc"
    and loop_Cons: "loop sep acc (x # xs) =
      loop sep (Format_append (Format_append acc sep) (pr x)) xs"
    and first_Nil: "first sep acc [] = acc"
    and first_Cons: "first sep acc (x # xs) =
      loop sep (Format_append (Format_append acc sep) (pr x)) xs"
    and joined_single: "joined [x] sep = pr x"
    and joined_more: "joined (x # y # ys) sep = first sep (pr x) (y # ys)"
    and show_Nil: "layouts (show_list []) = {''[]''}"
    and show_Cons: "layouts (show_list (x # xs)) = cat {''[''} (cat
      (layouts (joined (x # xs) (Format_append (Format_text '','') Format_line))) {'']''})"
begin

lemma joined_layouts:
  "layouts (joined (x # xs) (Format_append (Format_text '','') Format_line)) =
     cat (layouts (pr x)) (rest_layouts pr xs)"
proof -
  have loop: "layouts (loop (Format_append (Format_text '','') Format_line) acc ys) =
      cat (layouts acc) (rest_layouts pr ys)" for acc ys
    by (induction ys arbitrary: acc) (simp_all add: loop_Nil loop_Cons)
  show ?thesis
    by (cases xs) (simp_all add: joined_single joined_more first_Cons loop)
qed

lemma rest_reads:
  "agree (cat (rest_layouts pr xs) {'']''}) (cat (rest_layouts pr ys) {'']''}) (xs = ys)"
proof (induction xs arbitrary: ys)
  case Nil
  show ?case
  proof (cases ys)
    case (Cons y zs)
    show ?thesis unfolding Cons
      by (rule agree_heads [where a = "CHR '']''" and b = "CHR '',''"]) simp_all
  qed (simp add: agree_same)
next
  case (Cons x xs)
  show ?case
  proof (cases ys)
    case Nil
    show ?thesis unfolding Nil
      by (rule agree_heads [where a = "CHR '',''" and b = "CHR '']''"]) simp_all
  next
    case (Cons y zs)
    have c: "closes (cat (rest_layouts pr us) {'']''})" for us
      by (cases us) (simp_all add: delimiters_def)
    have "agree (cat (layouts (pr x)) (cat (rest_layouts pr xs) {'']''}))
        (cat (layouts (pr y)) (cat (rest_layouts pr zs) {'']''})) (x = y \<and> xs = zs)"
      by (intro agree_cat reads Cons.IH c)
    then show ?thesis unfolding Cons
      by (simp add: agree_prefix agree_blanks begins)
  qed
qed

lemma list_reads: "agree (layouts (show_list xs)) (layouts (show_list ys)) (xs = ys)"
proof -
  have c: "closes (cat (rest_layouts pr us) {'']''})" for us
    by (cases us) (simp_all add: delimiters_def)
  have nil: "{''[]''} = cat {''[''} {'']''}" by (simp add: cat_def)
  have never: "agree {'']''} (cat (layouts (pr x)) A) P" for x A P
    by (rule agree_never) (simp_all add: begins delimiters_def)
  show ?thesis
  proof (cases xs; cases ys)
    fix y zs assume "xs = []" "ys = y # zs"
    then show ?thesis using never
      by (simp add: show_Nil show_Cons joined_layouts nil agree_prefix)
  next
    fix x zs assume "xs = x # zs" "ys = []"
    then show ?thesis using never [THEN agree_sym]
      by (simp add: show_Nil show_Cons joined_layouts nil agree_prefix)
  next
    fix x us y vs assume xy: "xs = x # us" "ys = y # vs"
    have "agree (cat (layouts (pr x)) (cat (rest_layouts pr us) {'']''}))
        (cat (layouts (pr y)) (cat (rest_layouts pr vs) {'']''})) (x = y \<and> us = vs)"
      by (intro agree_cat reads rest_reads c)
    then show ?thesis by (simp add: xy show_Cons joined_layouts agree_prefix)
  qed (simp add: show_Nil agree_same)
qed

lemma list_begins: "starts (layouts (show_list xs))"
  by (cases xs) (simp_all add: show_Nil show_Cons delimiters_def)

end

sublocale list_printer \<subseteq> list: readable show_list
  by unfold_locales (rule list_reads, rule list_begins)

section \<open>Rules for the derived instances\<close>

lemma agree_argsI:
  assumes "agree (layouts f) (layouts g) P"
    and "P \<Longrightarrow> agree (args_layouts fs) (args_layouts gs) R"
    and "starts (layouts f)" and "starts (layouts g)"
  shows "agree (args_layouts (f # fs)) (args_layouts (g # gs)) R"
proof -
  have "agree (cat (layouts f) (args_layouts fs)) (cat (layouts g) (args_layouts gs)) (P \<and> R)"
    using assms(1,2) by (rule agree_cat) simp_all
  then show ?thesis using assms(3,4) by (auto intro: agree_blanks agree_mono)
qed

lemma agree_args_end: "R \<Longrightarrow> agree (args_layouts []) (args_layouts []) R"
  using agree_args_Nil by (rule agree_mono)

lemma agree_fieldI:
  assumes "agree (layouts f) (layouts g) P"
    and "P \<Longrightarrow> agree (fields_layouts xs) (fields_layouts ys) R"
    and "word n"
  shows "agree (fields_layouts ((n, k, f) # xs)) (fields_layouts ((n, k, g) # ys)) R"
proof -
  have "agree (cat (layouts f) (fields_layouts xs)) (cat (layouts g) (fields_layouts ys)) (P \<and> R)"
    using assms(1,2) by (rule agree_cat) simp_all
  then have "agree (cat (layouts f) (fields_layouts xs)) (cat (layouts g) (fields_layouts ys)) R"
    by (rule agree_mono) simp
  then show ?thesis using assms(3) by (simp add: agree_prefix agree_blanks)
qed

lemma agree_fields_end: "R \<Longrightarrow> agree (fields_layouts []) (fields_layouts []) R"
  using agree_fields_Nil by (rule agree_mono)

lemma agree_structI:
  assumes "agree (layouts f) (layouts g) P"
    and "P \<Longrightarrow> agree (fields_layouts xs) (fields_layouts ys) R"
  shows "agree (layouts (struct_repr (n, k, f) xs)) (layouts (struct_repr (n, k, g) ys)) R"
proof -
  have "agree (cat (layouts f) (fields_layouts xs)) (cat (layouts g) (fields_layouts ys)) (P \<and> R)"
    using assms by (rule agree_cat) simp_all
  then have "agree (cat (layouts f) (fields_layouts xs)) (cat (layouts g) (fields_layouts ys)) R"
    by (rule agree_mono) simp
  then show ?thesis by (simp add: layouts_struct agree_prefix)
qed

text \<open>A derived instance of a type with constructors prints a label and the arguments; of an
  enumeration, the label.\<close>

locale derived =
  fixes label :: "'a \<Rightarrow> string" and args :: "'a \<Rightarrow> Format list" and pr :: "'a \<Rightarrow> nat \<Rightarrow> Format"
  assumes label_word: "word (label x)"
    and label_args: "label x = label y \<Longrightarrow>
      agree (args_layouts (args x)) (args_layouts (args y)) (x = y)"
    and pr_eq: "pr x prec = constr_repr (label x) (args x) prec"

sublocale derived \<subseteq> readable "\<lambda>x. pr x prec"
proof
  fix x y
  have "agree (layouts (pr x prec)) (layouts (pr y prec)) (label x = label y \<and> x = y)"
    unfolding pr_eq by (intro agree_constr label_word label_args)
  then show "agree (layouts (pr x prec)) (layouts (pr y prec)) (x = y)"
    by (rule agree_mono) simp
  show "starts (layouts (pr x prec))"
    unfolding pr_eq by (rule starts_constr) (rule label_word)
qed

lemma derived_enum:
  assumes "\<And>x. word (label x)" and "\<And>x y. label x = label y \<Longrightarrow> x = y"
    and "\<And>x prec. pr x prec = constr_repr (label x) [] prec"
  shows "derived label (\<lambda>_. []) pr"
  using assms by unfold_locales (simp_all add: agree_Nil)

lemmas agree_intros =
  agree_argsI agree_args_end agree_fieldI agree_fields_end agree_structI
  nat_text.reads [unfolded Nat_reprFast_eq] nat_text.begins [unfolded Nat_reprFast_eq] string_text.reads string_text.begins bool_text.reads
  bool_text.begins

lemmas word_simps = word_def delimiters_def

lemma readable_struct:
  assumes "\<And>x. pr x = struct_repr (h x) (fs x)"
    and "\<And>x y. agree (layouts (struct_repr (h x) (fs x))) (layouts (struct_repr (h y) (fs y))) (x = y)"
  shows "readable pr"
  using assms by unfold_locales (simp_all add: starts_struct)

lemma derived_mixed:
  assumes "\<And>x. word (label x)"
    and "\<And>x y. label x = label y \<Longrightarrow> agree (args_layouts (args x)) (args_layouts (args y)) (x = y)"
    and "\<And>x prec. pr x prec = constr_repr (label x) (args x) prec"
  shows "derived label args pr"
  using assms by unfold_locales simp_all

end
