(* ===== verification/PrintCaps.thy ===== *)
theory PrintCaps
  imports Layouts Query
begin

text \<open>
  The \<open>Repr\<close> instances of constraints, URNs, caps and queries (\<open>TaggedUrn-Constraint.c\<close>,
  \<open>TaggedUrn-Urn.c\<close>, \<open>CapDAG-Cap.c\<close>, \<open>CapDAG-Query.c\<close>), and that what they print can be read back:
  two values that can look the same are the same.  A structure is printed with its fields, a
  constructor with its full name and its arguments; the names are the closed terms of the C.
\<close>

section \<open>URNs\<close>

fun Constraint_label :: "Constraint \<Rightarrow> string" where
  "Constraint_label Constraint_missing = ''TaggedUrn.Constraint.missing''"
| "Constraint_label Constraint_unconstrained = ''TaggedUrn.Constraint.unconstrained''"
| "Constraint_label (Constraint_optionalNot _) = ''TaggedUrn.Constraint.optionalNot''"
| "Constraint_label Constraint_present = ''TaggedUrn.Constraint.present''"
| "Constraint_label (Constraint_presentNot _) = ''TaggedUrn.Constraint.presentNot''"
| "Constraint_label (Constraint_exact _) = ''TaggedUrn.Constraint.exact''"
| "Constraint_label Constraint_absent = ''TaggedUrn.Constraint.absent''"

fun Constraint_args :: "Constraint \<Rightarrow> Format list" where
  "Constraint_args Constraint_missing = []"
| "Constraint_args Constraint_unconstrained = []"
| "Constraint_args (Constraint_optionalNot a) = [Format_text (String_quote a)]"
| "Constraint_args Constraint_present = []"
| "Constraint_args (Constraint_presentNot a) = [Format_text (String_quote a)]"
| "Constraint_args (Constraint_exact a) = [Format_text (String_quote a)]"
| "Constraint_args Constraint_absent = []"

definition instReprConstraint_repr :: "Constraint \<Rightarrow> nat \<Rightarrow> Format" where
  "instReprConstraint_repr x prec = constr_repr (Constraint_label x) (Constraint_args x) prec"

definition tag_repr :: "string \<times> Constraint \<Rightarrow> Format" where
  "tag_repr x =
     Format_group
       (Format_nest 1
         (Format_append
           (Format_append (Format_text ''('')
             (joinSep_pair (List_reverse [instReprConstraint_repr (snd x) 0, Format_text (String_quote (fst x))])
               (Format_append (Format_text '','') Format_line)))
           (Format_text '')'')))
       FlattenBehavior_allOrNone"

fun tags_loop :: "Format \<Rightarrow> Format \<Rightarrow> (string \<times> Constraint) list \<Rightarrow> Format" where
  "tags_loop sep acc [] = acc"
| "tags_loop sep acc (x # xs) =
     tags_loop sep (Format_append (Format_append acc sep) (tag_repr x)) xs"

fun tags_first :: "Format \<Rightarrow> Format \<Rightarrow> (string \<times> Constraint) list \<Rightarrow> Format" where
  "tags_first sep acc [] = acc"
| "tags_first sep acc (x # xs) =
     tags_loop sep (Format_append (Format_append acc sep) (tag_repr x)) xs"

fun tags_join :: "(string \<times> Constraint) list \<Rightarrow> Format \<Rightarrow> Format" where
  "tags_join [] sep = Format_nil"
| "tags_join [x] sep = tag_repr x"
| "tags_join (x # y # ys) sep = tags_first sep (tag_repr x) (y # ys)"

definition tags_repr :: "(string \<times> Constraint) list \<Rightarrow> Format" where
  "tags_repr xs =
     (case xs of
        [] \<Rightarrow> Format_text ''[]''
      | _ \<Rightarrow> list_repr (\<lambda>f. Format_group f FlattenBehavior_allOrNone)
               (tags_join xs (Format_append (Format_text '','') Format_line)))"

definition instReprUrn_repr :: "Urn \<Rightarrow> Format" where
  "instReprUrn_repr x =
     struct_repr (''scheme'', 10, Format_text (String_quote (scheme x)))
       [(''tags'', 8, tags_repr (tags x))]"

section \<open>Caps and queries\<close>

fun Effect_label :: "Effect \<Rightarrow> string" where
  "Effect_label Effect_unspecified = ''CapDAG.Effect.unspecified''"
| "Effect_label Effect_declared = ''CapDAG.Effect.declared''"
| "Effect_label Effect_none = ''CapDAG.Effect.none''"
| "Effect_label Effect_patch = ''CapDAG.Effect.patch''"

definition instReprEffect_repr :: "Effect \<Rightarrow> nat \<Rightarrow> Format" where
  "instReprEffect_repr x prec = constr_repr (Effect_label x) [] prec"

fun CapKind_label :: "CapKind \<Rightarrow> string" where
  "CapKind_label CapKind_identity = ''CapDAG.CapKind.identity''"
| "CapKind_label CapKind_source = ''CapDAG.CapKind.source''"
| "CapKind_label CapKind_sink = ''CapDAG.CapKind.sink''"
| "CapKind_label CapKind_effect = ''CapDAG.CapKind.effect''"
| "CapKind_label CapKind_transform = ''CapDAG.CapKind.transform''"

definition instReprCapKind_repr :: "CapKind \<Rightarrow> nat \<Rightarrow> Format" where
  "instReprCapKind_repr x prec = constr_repr (CapKind_label x) [] prec"

definition instReprCap_repr :: "Cap \<Rightarrow> Format" where
  "instReprCap_repr x =
     struct_repr (''input'', 9, instReprUrn_repr (cap_input x))
       [(''output'', 10, instReprUrn_repr (cap_output x)),
        (''other'', 9, instReprUrn_repr (cap_other x)),
        (''effect'', 10, instReprEffect_repr (cap_effect x) 0)]"

fun Ask_label :: "Ask \<Rightarrow> string" where
  "Ask_label Ask_unknown = ''CapDAG.Ask.unknown''"
| "Ask_label (Ask_within _) = ''CapDAG.Ask.within''"
| "Ask_label (Ask_covers _) = ''CapDAG.Ask.covers''"
| "Ask_label (Ask_same _) = ''CapDAG.Ask.same''"

fun Ask_args :: "Ask \<Rightarrow> Format list" where
  "Ask_args Ask_unknown = []"
| "Ask_args (Ask_within a) = [instReprUrn_repr a]"
| "Ask_args (Ask_covers a) = [instReprUrn_repr a]"
| "Ask_args (Ask_same a) = [instReprUrn_repr a]"

definition instReprAsk_repr :: "Ask \<Rightarrow> nat \<Rightarrow> Format" where
  "instReprAsk_repr x prec = constr_repr (Ask_label x) (Ask_args x) prec"

fun Grade_label :: "Grade \<Rightarrow> string" where
  "Grade_label Grade_exact = ''CapDAG.Grade.exact''"
| "Grade_label Grade_guaranteed = ''CapDAG.Grade.guaranteed''"
| "Grade_label Grade_possible = ''CapDAG.Grade.possible''"
| "Grade_label Grade_none = ''CapDAG.Grade.none''"

definition instReprGrade_repr :: "Grade \<Rightarrow> nat \<Rightarrow> Format" where
  "instReprGrade_repr x prec = constr_repr (Grade_label x) [] prec"

definition instReprQuery_repr :: "Query \<Rightarrow> Format" where
  "instReprQuery_repr x =
     struct_repr (''input'', 9, instReprAsk_repr (query_input x) 0)
       [(''output'', 10, instReprAsk_repr (query_output x) 0),
        (''tags'', 8, instReprUrn_repr (query_tags x)),
        (''effect'', 10, instReprEffect_repr (query_effect x) 0)]"

section \<open>What is printed can be read back\<close>

interpretation Constraint_print: derived Constraint_label Constraint_args instReprConstraint_repr
proof (rule derived_mixed)
  show "word (Constraint_label x)" for x by (cases x) (simp_all add: word_simps)
  show "agree (args_layouts (Constraint_args x)) (args_layouts (Constraint_args y)) (x = y)"
    if "Constraint_label x = Constraint_label y" for x y
    using that by (cases x; cases y)
      (auto simp del: layouts.simps args_layouts.simps
        intro!: agree_intros)
qed (rule instReprConstraint_repr_def)

interpretation tag_print: pair_printer "\<lambda>s. Format_text (String_quote s)" "\<lambda>c. instReprConstraint_repr c 0" tag_repr
  by unfold_locales (simp add: tag_repr_def)

interpretation tags_print: list_printer tag_repr tags_loop tags_first tags_join tags_repr
  by unfold_locales (simp_all add: tags_repr_def list_repr_def Std_Format_fill_def)

interpretation Urn_print: readable instReprUrn_repr
  by (rule readable_struct [OF instReprUrn_repr_def])
    (auto simp del: layouts.simps fields_layouts.simps simp: word_simps
      intro!: agree_intros tags_print.list.reads tags_print.list.begins)

interpretation Effect_print: derived Effect_label "\<lambda>_. []" instReprEffect_repr
proof (rule derived_enum)
  show "word (Effect_label x)" for x by (cases x) (simp_all add: word_simps)
  show "x = y" if "Effect_label x = Effect_label y" for x y using that by (cases x; cases y) simp_all
qed (rule instReprEffect_repr_def)

interpretation CapKind_print: derived CapKind_label "\<lambda>_. []" instReprCapKind_repr
proof (rule derived_enum)
  show "word (CapKind_label x)" for x by (cases x) (simp_all add: word_simps)
  show "x = y" if "CapKind_label x = CapKind_label y" for x y using that by (cases x; cases y) simp_all
qed (rule instReprCapKind_repr_def)

interpretation Cap_print: readable instReprCap_repr
  by (rule readable_struct [OF instReprCap_repr_def])
    (auto simp del: layouts.simps fields_layouts.simps simp: word_simps
      intro!: agree_intros
        Urn_print.reads Urn_print.begins Effect_print.reads Effect_print.begins)

interpretation Ask_print: derived Ask_label Ask_args instReprAsk_repr
proof (rule derived_mixed)
  show "word (Ask_label x)" for x by (cases x) (simp_all add: word_simps)
  show "agree (args_layouts (Ask_args x)) (args_layouts (Ask_args y)) (x = y)"
    if "Ask_label x = Ask_label y" for x y
    using that by (cases x; cases y)
      (auto simp del: layouts.simps args_layouts.simps
        intro!: agree_intros Urn_print.reads Urn_print.begins)
qed (rule instReprAsk_repr_def)

interpretation Grade_print: derived Grade_label "\<lambda>_. []" instReprGrade_repr
proof (rule derived_enum)
  show "word (Grade_label x)" for x by (cases x) (simp_all add: word_simps)
  show "x = y" if "Grade_label x = Grade_label y" for x y using that by (cases x; cases y) simp_all
qed (rule instReprGrade_repr_def)

interpretation Query_print: readable instReprQuery_repr
  by (rule readable_struct [OF instReprQuery_repr_def])
    (auto simp del: layouts.simps fields_layouts.simps simp: word_simps
      intro!: agree_intros
        Ask_print.reads Ask_print.begins Urn_print.reads Urn_print.begins Effect_print.reads Effect_print.begins)

text \<open>C40: What is printed of a cap or a query can be read back.  Wherever lines are broken and however far
  they are indented, two caps that can look the same on paper are the same cap, and two queries the
  same query: the quotes, brackets and commas of one value never run into those of the next, whatever
  characters its URNs contain.\<close>

theorem printed_caps_distinct:
  "((\<exists>s. s \<in> layouts (instReprCap_repr c) \<and> s \<in> layouts (instReprCap_repr d)) = (c = d)) \<and>
   ((\<exists>s. s \<in> layouts (instReprQuery_repr q) \<and> s \<in> layouts (instReprQuery_repr r)) = (q = r))"
  using Cap_print.same_layout [of c d] Query_print.same_layout [of q r]
  by (simp add: disjoint_iff)

end
