(* ===== verification/PrintBifaci.thy ===== *)
theory PrintBifaci
  imports Layouts Credit Flow Pools Request
begin

text \<open>
  The \<open>Repr\<close> instances of the protocol's types (\<open>CapDAG-Bifaci-Credit.c\<close>, \<open>CapDAG-Bifaci-Flow.c\<close>,
  \<open>CapDAG-Bifaci-Pools.c\<close>, \<open>CapDAG-Bifaci-Request.c\<close>), and that what they print can be read back.
\<close>

section \<open>Credit\<close>

fun Option_nat_repr :: "nat option \<Rightarrow> nat \<Rightarrow> Format" where
  "Option_nat_repr None prec = Format_text ''none''"
| "Option_nat_repr (Some x) prec =
     Repr_addAppParen (Format_append (Format_text ''some '') (Format_text (Nat_reprFast x))) prec"

fun Option_string_repr :: "string option \<Rightarrow> nat \<Rightarrow> Format" where
  "Option_string_repr None prec = Format_text ''none''"
| "Option_string_repr (Some x) prec =
     Repr_addAppParen (Format_append (Format_text ''some '') (Format_text (String_quote x))) prec"

definition instReprGate_repr :: "Gate \<Rightarrow> Format" where
  "instReprGate_repr x =
     struct_repr (''available'', 13, Format_text (Nat_reprFast (available x)))
       [(''closed'', 10, Option_string_repr (closed x) 0)]"

fun Acquire_label :: "Acquire \<Rightarrow> string" where
  "Acquire_label (Acquire_acquired _) = ''CapDAG.Bifaci.Credit.Acquire.acquired''"
| "Acquire_label Acquire_wait = ''CapDAG.Bifaci.Credit.Acquire.wait''"
| "Acquire_label (Acquire_closed _) = ''CapDAG.Bifaci.Credit.Acquire.closed''"

fun Acquire_args :: "Acquire \<Rightarrow> Format list" where
  "Acquire_args (Acquire_acquired a) = [instReprGate_repr a]"
| "Acquire_args Acquire_wait = []"
| "Acquire_args (Acquire_closed a) = [Format_text (String_quote a)]"

definition instReprAcquire_repr :: "Acquire \<Rightarrow> nat \<Rightarrow> Format" where
  "instReprAcquire_repr x prec = constr_repr (Acquire_label x) (Acquire_args x) prec"

definition instReprWindow_repr :: "Window \<Rightarrow> Format" where
  "instReprWindow_repr x =
     struct_repr (''remaining'', 13, Format_text (Nat_reprFast (remaining x)))
       [(''pending'', 11, Format_text (Nat_reprFast (pending x))),
        (''batch'', 9, Format_text (Nat_reprFast (batch x)))]"

fun Arrival_label :: "Arrival \<Rightarrow> string" where
  "Arrival_label (Arrival_accepted _) = ''CapDAG.Bifaci.Credit.Arrival.accepted''"
| "Arrival_label Arrival_violation = ''CapDAG.Bifaci.Credit.Arrival.violation''"

fun Arrival_args :: "Arrival \<Rightarrow> Format list" where
  "Arrival_args (Arrival_accepted a) = [instReprWindow_repr a]"
| "Arrival_args Arrival_violation = []"

definition instReprArrival_repr :: "Arrival \<Rightarrow> nat \<Rightarrow> Format" where
  "instReprArrival_repr x prec = constr_repr (Arrival_label x) (Arrival_args x) prec"

definition instReprGranted_repr :: "Granted \<Rightarrow> Format" where
  "instReprGranted_repr x =
     struct_repr (''window'', 10, instReprWindow_repr (granted_window x))
       [(''grant'', 9, Format_text (Nat_reprFast (granted_grant x)))]"

section \<open>Frame types and reordering\<close>

fun FrameType_label :: "FrameType \<Rightarrow> string" where
  "FrameType_label FrameType_hello = ''CapDAG.Bifaci.Flow.FrameType.hello''"
| "FrameType_label FrameType_req = ''CapDAG.Bifaci.Flow.FrameType.req''"
| "FrameType_label FrameType_chunk = ''CapDAG.Bifaci.Flow.FrameType.chunk''"
| "FrameType_label FrameType_fin = ''CapDAG.Bifaci.Flow.FrameType.fin''"
| "FrameType_label FrameType_log = ''CapDAG.Bifaci.Flow.FrameType.log''"
| "FrameType_label FrameType_err = ''CapDAG.Bifaci.Flow.FrameType.err''"
| "FrameType_label FrameType_heartbeat = ''CapDAG.Bifaci.Flow.FrameType.heartbeat''"
| "FrameType_label FrameType_streamStart = ''CapDAG.Bifaci.Flow.FrameType.streamStart''"
| "FrameType_label FrameType_streamEnd = ''CapDAG.Bifaci.Flow.FrameType.streamEnd''"
| "FrameType_label FrameType_relayNotify = ''CapDAG.Bifaci.Flow.FrameType.relayNotify''"
| "FrameType_label FrameType_relayState = ''CapDAG.Bifaci.Flow.FrameType.relayState''"
| "FrameType_label FrameType_cancel = ''CapDAG.Bifaci.Flow.FrameType.cancel''"
| "FrameType_label FrameType_credit = ''CapDAG.Bifaci.Flow.FrameType.credit''"
| "FrameType_label FrameType_closeStream = ''CapDAG.Bifaci.Flow.FrameType.closeStream''"
| "FrameType_label FrameType_policy = ''CapDAG.Bifaci.Flow.FrameType.policy''"

definition instReprFrameType_repr :: "FrameType \<Rightarrow> nat \<Rightarrow> Format" where
  "instReprFrameType_repr x prec = constr_repr (FrameType_label x) [] prec"

fun held_loop :: "Format \<Rightarrow> Format \<Rightarrow> nat list \<Rightarrow> Format" where
  "held_loop sep acc [] = acc"
| "held_loop sep acc (x # xs) =
     held_loop sep (Format_append (Format_append acc sep) (Format_text (Nat_reprFast x))) xs"

fun held_first :: "Format \<Rightarrow> Format \<Rightarrow> nat list \<Rightarrow> Format" where
  "held_first sep acc [] = acc"
| "held_first sep acc (x # xs) =
     held_loop sep (Format_append (Format_append acc sep) (Format_text (Nat_reprFast x))) xs"

fun held_join :: "nat list \<Rightarrow> Format \<Rightarrow> Format" where
  "held_join [] sep = Format_nil"
| "held_join [x] sep = Format_text (Nat_reprFast x)"
| "held_join (x # y # ys) sep = held_first sep (Format_text (Nat_reprFast x)) (y # ys)"

definition held_repr :: "nat list \<Rightarrow> Format" where
  "held_repr xs =
     (case xs of
        [] \<Rightarrow> Format_text ''[]''
      | _ \<Rightarrow> list_repr Std_Format_fill
               (held_join xs (Format_append (Format_text '','') Format_line)))"

definition instReprReorder_repr :: "Reorder \<Rightarrow> Format" where
  "instReprReorder_repr x =
     struct_repr (''expected'', 12, Format_text (Nat_reprFast (expected x)))
       [(''held'', 8, held_repr (held x))]"

fun Accepted_label :: "Accepted \<Rightarrow> string" where
  "Accepted_label (Accepted_deliver _ _) = ''CapDAG.Bifaci.Flow.Accepted.deliver''"
| "Accepted_label (Accepted_hold _) = ''CapDAG.Bifaci.Flow.Accepted.hold''"
| "Accepted_label Accepted_stale = ''CapDAG.Bifaci.Flow.Accepted.stale''"
| "Accepted_label Accepted_duplicate = ''CapDAG.Bifaci.Flow.Accepted.duplicate''"
| "Accepted_label Accepted_overflow = ''CapDAG.Bifaci.Flow.Accepted.overflow''"

fun Accepted_args :: "Accepted \<Rightarrow> Format list" where
  "Accepted_args (Accepted_deliver a b) = [instReprReorder_repr a, held_repr b]"
| "Accepted_args (Accepted_hold a) = [instReprReorder_repr a]"
| "Accepted_args Accepted_stale = []"
| "Accepted_args Accepted_duplicate = []"
| "Accepted_args Accepted_overflow = []"

definition instReprAccepted_repr :: "Accepted \<Rightarrow> nat \<Rightarrow> Format" where
  "instReprAccepted_repr x prec = constr_repr (Accepted_label x) (Accepted_args x) prec"

section \<open>Pools\<close>

fun strings_loop :: "Format \<Rightarrow> Format \<Rightarrow> string list \<Rightarrow> Format" where
  "strings_loop sep acc [] = acc"
| "strings_loop sep acc (x # xs) =
     strings_loop sep (Format_append (Format_append acc sep) (Format_text (String_quote x))) xs"

fun strings_first :: "Format \<Rightarrow> Format \<Rightarrow> string list \<Rightarrow> Format" where
  "strings_first sep acc [] = acc"
| "strings_first sep acc (x # xs) =
     strings_loop sep (Format_append (Format_append acc sep) (Format_text (String_quote x))) xs"

fun strings_join :: "string list \<Rightarrow> Format \<Rightarrow> Format" where
  "strings_join [] sep = Format_nil"
| "strings_join [x] sep = Format_text (String_quote x)"
| "strings_join (x # y # ys) sep = strings_first sep (Format_text (String_quote x)) (y # ys)"

definition strings_repr :: "string list \<Rightarrow> Format" where
  "strings_repr xs =
     (case xs of
        [] \<Rightarrow> Format_text ''[]''
      | _ \<Rightarrow> list_repr Std_Format_fill
               (strings_join xs (Format_append (Format_text '','') Format_line)))"

definition instReprPool_repr :: "Pool \<Rightarrow> Format" where
  "instReprPool_repr x =
     struct_repr (''name'', 8, Format_text (String_quote (pool_name x)))
       [(''capacity'', 12, Format_text (Nat_reprFast (capacity x))),
        (''active'', 10, Format_text (Nat_reprFast (active x)))]"

fun pools_loop :: "Format \<Rightarrow> Format \<Rightarrow> Pool list \<Rightarrow> Format" where
  "pools_loop sep acc [] = acc"
| "pools_loop sep acc (x # xs) =
     pools_loop sep (Format_append (Format_append acc sep) (instReprPool_repr x)) xs"

fun pools_first :: "Format \<Rightarrow> Format \<Rightarrow> Pool list \<Rightarrow> Format" where
  "pools_first sep acc [] = acc"
| "pools_first sep acc (x # xs) =
     pools_loop sep (Format_append (Format_append acc sep) (instReprPool_repr x)) xs"

fun pools_join :: "Pool list \<Rightarrow> Format \<Rightarrow> Format" where
  "pools_join [] sep = Format_nil"
| "pools_join [x] sep = instReprPool_repr x"
| "pools_join (x # y # ys) sep = pools_first sep (instReprPool_repr x) (y # ys)"

definition pools_repr :: "Pool list \<Rightarrow> Format" where
  "pools_repr xs =
     (case xs of
        [] \<Rightarrow> Format_text ''[]''
      | _ \<Rightarrow> list_repr (\<lambda>f. Format_group f FlattenBehavior_allOrNone)
               (pools_join xs (Format_append (Format_text '','') Format_line)))"

definition instReprWaiter_repr :: "Waiter \<Rightarrow> Format" where
  "instReprWaiter_repr x =
     struct_repr (''ticket'', 10, Format_text (Nat_reprFast (ticket x)))
       [(''chain'', 9, strings_repr (waiter_chain x))]"

fun queue_loop :: "Format \<Rightarrow> Format \<Rightarrow> Waiter list \<Rightarrow> Format" where
  "queue_loop sep acc [] = acc"
| "queue_loop sep acc (x # xs) =
     queue_loop sep (Format_append (Format_append acc sep) (instReprWaiter_repr x)) xs"

fun queue_first :: "Format \<Rightarrow> Format \<Rightarrow> Waiter list \<Rightarrow> Format" where
  "queue_first sep acc [] = acc"
| "queue_first sep acc (x # xs) =
     queue_loop sep (Format_append (Format_append acc sep) (instReprWaiter_repr x)) xs"

fun queue_join :: "Waiter list \<Rightarrow> Format \<Rightarrow> Format" where
  "queue_join [] sep = Format_nil"
| "queue_join [x] sep = instReprWaiter_repr x"
| "queue_join (x # y # ys) sep = queue_first sep (instReprWaiter_repr x) (y # ys)"

definition queue_repr :: "Waiter list \<Rightarrow> Format" where
  "queue_repr xs =
     (case xs of
        [] \<Rightarrow> Format_text ''[]''
      | _ \<Rightarrow> list_repr (\<lambda>f. Format_group f FlattenBehavior_allOrNone)
               (queue_join xs (Format_append (Format_text '','') Format_line)))"

definition instReprState_repr :: "State \<Rightarrow> Format" where
  "instReprState_repr x =
     struct_repr (''pools'', 9, pools_repr (pools x))
       [(''queue'', 9, queue_repr (queue x)),
        (''next'', 8, Format_text (Nat_reprFast (next_ticket x)))]"

fun PoolArrival_label :: "PoolArrival \<Rightarrow> string" where
  "PoolArrival_label (Arrival_admitted _) = ''CapDAG.Bifaci.Pools.Arrival.admitted''"
| "PoolArrival_label (Arrival_queued _ _ _) = ''CapDAG.Bifaci.Pools.Arrival.queued''"
| "PoolArrival_label (Arrival_unknownPool _) = ''CapDAG.Bifaci.Pools.Arrival.unknownPool''"

fun PoolArrival_args :: "PoolArrival \<Rightarrow> Format list" where
  "PoolArrival_args (Arrival_admitted a) = [instReprState_repr a]"
| "PoolArrival_args (Arrival_queued a b c) = [instReprState_repr a, Format_text (Nat_reprFast b), Format_text (Nat_reprFast c)]"
| "PoolArrival_args (Arrival_unknownPool a) = [Format_text (String_quote a)]"

definition instReprPoolArrival_repr :: "PoolArrival \<Rightarrow> nat \<Rightarrow> Format" where
  "instReprPoolArrival_repr x prec = constr_repr (PoolArrival_label x) (PoolArrival_args x) prec"

fun Patience_label :: "Patience \<Rightarrow> string" where
  "Patience_label Patience_unbounded = ''CapDAG.Bifaci.Pools.Patience.unbounded''"
| "Patience_label (Patience_atMost _) = ''CapDAG.Bifaci.Pools.Patience.atMost''"
| "Patience_label Patience_exhausted = ''CapDAG.Bifaci.Pools.Patience.exhausted''"

fun Patience_args :: "Patience \<Rightarrow> Format list" where
  "Patience_args Patience_unbounded = []"
| "Patience_args (Patience_atMost a) = [Format_text (Nat_reprFast a)]"
| "Patience_args Patience_exhausted = []"

definition instReprPatience_repr :: "Patience \<Rightarrow> nat \<Rightarrow> Format" where
  "instReprPatience_repr x prec = constr_repr (Patience_label x) (Patience_args x) prec"

section \<open>Requests\<close>

fun Phase_label :: "Phase \<Rightarrow> string" where
  "Phase_label Phase_created = ''CapDAG.Bifaci.Request.Phase.created''"
| "Phase_label Phase_streaming = ''CapDAG.Bifaci.Request.Phase.streaming''"

definition instReprPhase_repr :: "Phase \<Rightarrow> nat \<Rightarrow> Format" where
  "instReprPhase_repr x prec = constr_repr (Phase_label x) [] prec"

fun Disposition_label :: "Disposition \<Rightarrow> string" where
  "Disposition_label Disposition_route = ''CapDAG.Bifaci.Request.Disposition.route''"
| "Disposition_label Disposition_straggler = ''CapDAG.Bifaci.Request.Disposition.straggler''"
| "Disposition_label Disposition_noRoute = ''CapDAG.Bifaci.Request.Disposition.noRoute''"

definition instReprDisposition_repr :: "Disposition \<Rightarrow> nat \<Rightarrow> Format" where
  "instReprDisposition_repr x prec = constr_repr (Disposition_label x) [] prec"

fun Terminal_label :: "Terminal \<Rightarrow> string" where
  "Terminal_label Terminal_finished = ''CapDAG.Bifaci.Request.Terminal.finished''"
| "Terminal_label Terminal_failed = ''CapDAG.Bifaci.Request.Terminal.failed''"
| "Terminal_label Terminal_cancelled = ''CapDAG.Bifaci.Request.Terminal.cancelled''"
| "Terminal_label Terminal_masterDied = ''CapDAG.Bifaci.Request.Terminal.masterDied''"

definition instReprTerminal_repr :: "Terminal \<Rightarrow> nat \<Rightarrow> Format" where
  "instReprTerminal_repr x prec = constr_repr (Terminal_label x) [] prec"

fun Emitted_label :: "Emitted \<Rightarrow> string" where
  "Emitted_label (Emitted_streamStart _) = ''CapDAG.Bifaci.Request.Emitted.streamStart''"
| "Emitted_label (Emitted_chunk _ _) = ''CapDAG.Bifaci.Request.Emitted.chunk''"
| "Emitted_label (Emitted_streamEnd _ _) = ''CapDAG.Bifaci.Request.Emitted.streamEnd''"
| "Emitted_label Emitted_fin = ''CapDAG.Bifaci.Request.Emitted.fin''"
| "Emitted_label Emitted_err = ''CapDAG.Bifaci.Request.Emitted.err''"
| "Emitted_label Emitted_other = ''CapDAG.Bifaci.Request.Emitted.other''"

fun Emitted_args :: "Emitted \<Rightarrow> Format list" where
  "Emitted_args (Emitted_streamStart a) = [Format_text (String_quote a)]"
| "Emitted_args (Emitted_chunk a b) = [Format_text (String_quote a), Format_text (Nat_reprFast b)]"
| "Emitted_args (Emitted_streamEnd a b) = [Format_text (String_quote a), Option_nat_repr b 1024]"
| "Emitted_args Emitted_fin = []"
| "Emitted_args Emitted_err = []"
| "Emitted_args Emitted_other = []"

definition instReprEmitted_repr :: "Emitted \<Rightarrow> nat \<Rightarrow> Format" where
  "instReprEmitted_repr x prec = constr_repr (Emitted_label x) (Emitted_args x) prec"

fun Violation_label :: "Violation \<Rightarrow> string" where
  "Violation_label Violation_afterEnd = ''CapDAG.Bifaci.Request.Violation.afterEnd''"
| "Violation_label (Violation_streamRestarted _) = ''CapDAG.Bifaci.Request.Violation.streamRestarted''"
| "Violation_label (Violation_streamNotOpen _) = ''CapDAG.Bifaci.Request.Violation.streamNotOpen''"
| "Violation_label (Violation_chunkOutOfPlace _ _ _) = ''CapDAG.Bifaci.Request.Violation.chunkOutOfPlace''"
| "Violation_label (Violation_chunkCountWrong _ _ _) = ''CapDAG.Bifaci.Request.Violation.chunkCountWrong''"
| "Violation_label (Violation_endWithOpenStream _) = ''CapDAG.Bifaci.Request.Violation.endWithOpenStream''"

fun Violation_args :: "Violation \<Rightarrow> Format list" where
  "Violation_args Violation_afterEnd = []"
| "Violation_args (Violation_streamRestarted a) = [Format_text (String_quote a)]"
| "Violation_args (Violation_streamNotOpen a) = [Format_text (String_quote a)]"
| "Violation_args (Violation_chunkOutOfPlace a b c) = [Format_text (String_quote a), Format_text (Nat_reprFast b), Format_text (Nat_reprFast c)]"
| "Violation_args (Violation_chunkCountWrong a b c) = [Format_text (String_quote a), Format_text (Nat_reprFast b), Format_text (Nat_reprFast c)]"
| "Violation_args (Violation_endWithOpenStream a) = [Format_text (String_quote a)]"

definition instReprViolation_repr :: "Violation \<Rightarrow> nat \<Rightarrow> Format" where
  "instReprViolation_repr x prec = constr_repr (Violation_label x) (Violation_args x) prec"

fun Write_label :: "Write \<Rightarrow> string" where
  "Write_label (Write_send _) = ''CapDAG.Bifaci.Request.Write.send''"
| "Write_label Write_suppress = ''CapDAG.Bifaci.Request.Write.suppress''"

fun Write_args :: "Write \<Rightarrow> Format list" where
  "Write_args (Write_send a) = [Bool_repr a]"
| "Write_args Write_suppress = []"

definition instReprWrite_repr :: "Write \<Rightarrow> nat \<Rightarrow> Format" where
  "instReprWrite_repr x prec = constr_repr (Write_label x) (Write_args x) prec"

definition stream_repr :: "string \<times> nat \<Rightarrow> Format" where
  "stream_repr x =
     Format_group
       (Format_nest 1
         (Format_append
           (Format_append (Format_text ''('')
             (joinSep (List_reverse [Format_text (Nat_reprFast (snd x)), Format_text (String_quote (fst x))])
               (Format_append (Format_text '','') Format_line)))
           (Format_text '')'')))
       FlattenBehavior_allOrNone"

fun streams_loop :: "Format \<Rightarrow> Format \<Rightarrow> (string \<times> nat) list \<Rightarrow> Format" where
  "streams_loop sep acc [] = acc"
| "streams_loop sep acc (x # xs) =
     streams_loop sep (Format_append (Format_append acc sep) (stream_repr x)) xs"

fun streams_first :: "Format \<Rightarrow> Format \<Rightarrow> (string \<times> nat) list \<Rightarrow> Format" where
  "streams_first sep acc [] = acc"
| "streams_first sep acc (x # xs) =
     streams_loop sep (Format_append (Format_append acc sep) (stream_repr x)) xs"

fun streams_join :: "(string \<times> nat) list \<Rightarrow> Format \<Rightarrow> Format" where
  "streams_join [] sep = Format_nil"
| "streams_join [x] sep = stream_repr x"
| "streams_join (x # y # ys) sep = streams_first sep (stream_repr x) (y # ys)"

definition streams_repr :: "(string \<times> nat) list \<Rightarrow> Format" where
  "streams_repr xs =
     (case xs of
        [] \<Rightarrow> Format_text ''[]''
      | _ \<Rightarrow> list_repr (\<lambda>f. Format_group f FlattenBehavior_allOrNone)
               (streams_join xs (Format_append (Format_text '','') Format_line)))"

definition instReprEmission_repr :: "Emission \<Rightarrow> Format" where
  "instReprEmission_repr x =
     struct_repr (''streams'', 11, streams_repr (open_streams x))
       [(''ended'', 9, strings_repr (closed_streams x)),
        (''over'', 8, Bool_repr (over x))]"

definition live_pair_repr :: "string \<times> string \<Rightarrow> Format" where
  "live_pair_repr x =
     Format_group
       (Format_nest 1
         (Format_append
           (Format_append (Format_text ''('')
             (joinSep (List_reverse [Format_text (String_quote (snd x)), Format_text (String_quote (fst x))])
               (Format_append (Format_text '','') Format_line)))
           (Format_text '')'')))
       FlattenBehavior_allOrNone"

fun live_loop :: "Format \<Rightarrow> Format \<Rightarrow> (string \<times> string) list \<Rightarrow> Format" where
  "live_loop sep acc [] = acc"
| "live_loop sep acc (x # xs) =
     live_loop sep (Format_append (Format_append acc sep) (live_pair_repr x)) xs"

fun live_first :: "Format \<Rightarrow> Format \<Rightarrow> (string \<times> string) list \<Rightarrow> Format" where
  "live_first sep acc [] = acc"
| "live_first sep acc (x # xs) =
     live_loop sep (Format_append (Format_append acc sep) (live_pair_repr x)) xs"

fun live_join :: "(string \<times> string) list \<Rightarrow> Format \<Rightarrow> Format" where
  "live_join [] sep = Format_nil"
| "live_join [x] sep = live_pair_repr x"
| "live_join (x # y # ys) sep = live_first sep (live_pair_repr x) (y # ys)"

definition live_repr :: "(string \<times> string) list \<Rightarrow> Format" where
  "live_repr xs =
     (case xs of
        [] \<Rightarrow> Format_text ''[]''
      | _ \<Rightarrow> list_repr (\<lambda>f. Format_group f FlattenBehavior_allOrNone)
               (live_join xs (Format_append (Format_text '','') Format_line)))"

definition instReprTable_repr :: "Table \<Rightarrow> Format" where
  "instReprTable_repr x =
     struct_repr (''live'', 8, live_repr (live x))
       [(''ended'', 9, strings_repr (ended x)),
        (''registered'', 14, Format_text (Nat_reprFast (registered x)))]"

section \<open>What is printed can be read back\<close>

interpretation Option_nat_print: option_printer "\<lambda>n. Format_text (Nat_reprFast n)" Option_nat_repr
  by unfold_locales simp_all

interpretation Option_string_print: option_printer "\<lambda>s. Format_text (String_quote s)" Option_string_repr
  by unfold_locales simp_all

interpretation Gate_print: readable instReprGate_repr
  by (rule readable_struct [OF instReprGate_repr_def])
    (auto simp del: layouts.simps fields_layouts.simps simp: word_simps
      intro!: agree_intros Option_string_print.opt.reads Option_string_print.opt.begins)

interpretation Acquire_print: derived Acquire_label Acquire_args instReprAcquire_repr
proof (rule derived_mixed)
  show "word (Acquire_label x)" for x by (cases x) (simp_all add: word_simps)
  show "agree (args_layouts (Acquire_args x)) (args_layouts (Acquire_args y)) (x = y)"
    if "Acquire_label x = Acquire_label y" for x y
    using that by (cases x; cases y)
      (auto simp del: layouts.simps args_layouts.simps
        intro!: agree_intros Gate_print.reads Gate_print.begins)
qed (rule instReprAcquire_repr_def)

interpretation Window_print: readable instReprWindow_repr
  by (rule readable_struct [OF instReprWindow_repr_def])
    (auto simp del: layouts.simps fields_layouts.simps simp: word_simps
      intro!: agree_intros)

interpretation Arrival_print: derived Arrival_label Arrival_args instReprArrival_repr
proof (rule derived_mixed)
  show "word (Arrival_label x)" for x by (cases x) (simp_all add: word_simps)
  show "agree (args_layouts (Arrival_args x)) (args_layouts (Arrival_args y)) (x = y)"
    if "Arrival_label x = Arrival_label y" for x y
    using that by (cases x; cases y)
      (auto simp del: layouts.simps args_layouts.simps
        intro!: agree_intros Window_print.reads Window_print.begins)
qed (rule instReprArrival_repr_def)

interpretation Granted_print: readable instReprGranted_repr
  by (rule readable_struct [OF instReprGranted_repr_def])
    (auto simp del: layouts.simps fields_layouts.simps simp: word_simps
      intro!: agree_intros Window_print.reads Window_print.begins)

interpretation FrameType_print: derived FrameType_label "\<lambda>_. []" instReprFrameType_repr
proof (rule derived_enum)
  show "word (FrameType_label x)" for x by (cases x) (simp_all add: word_simps)
  show "x = y" if "FrameType_label x = FrameType_label y" for x y using that by (cases x; cases y) simp_all
qed (rule instReprFrameType_repr_def)

interpretation held_print: list_printer "\<lambda>n. Format_text (Nat_reprFast n)" held_loop held_first held_join held_repr
  by unfold_locales (simp_all add: held_repr_def list_repr_def Std_Format_fill_def)

interpretation Reorder_print: readable instReprReorder_repr
  by (rule readable_struct [OF instReprReorder_repr_def])
    (auto simp del: layouts.simps fields_layouts.simps simp: word_simps
      intro!: agree_intros held_print.list.reads held_print.list.begins)

interpretation Accepted_print: derived Accepted_label Accepted_args instReprAccepted_repr
proof (rule derived_mixed)
  show "word (Accepted_label x)" for x by (cases x) (simp_all add: word_simps)
  show "agree (args_layouts (Accepted_args x)) (args_layouts (Accepted_args y)) (x = y)"
    if "Accepted_label x = Accepted_label y" for x y
    using that by (cases x; cases y)
      (auto simp del: layouts.simps args_layouts.simps
        intro!: agree_intros
        Reorder_print.reads Reorder_print.begins held_print.list.reads held_print.list.begins)
qed (rule instReprAccepted_repr_def)

interpretation strings_print: list_printer "\<lambda>s. Format_text (String_quote s)" strings_loop strings_first strings_join strings_repr
  by unfold_locales (simp_all add: strings_repr_def list_repr_def Std_Format_fill_def)

interpretation Pool_print: readable instReprPool_repr
  by (rule readable_struct [OF instReprPool_repr_def])
    (auto simp del: layouts.simps fields_layouts.simps simp: word_simps
      intro!: agree_intros)

interpretation pools_print: list_printer instReprPool_repr pools_loop pools_first pools_join pools_repr
  by unfold_locales (simp_all add: pools_repr_def list_repr_def Std_Format_fill_def)

interpretation Waiter_print: readable instReprWaiter_repr
  by (rule readable_struct [OF instReprWaiter_repr_def])
    (auto simp del: layouts.simps fields_layouts.simps simp: word_simps
      intro!: agree_intros strings_print.list.reads strings_print.list.begins)

interpretation queue_print: list_printer instReprWaiter_repr queue_loop queue_first queue_join queue_repr
  by unfold_locales (simp_all add: queue_repr_def list_repr_def Std_Format_fill_def)

interpretation State_print: readable instReprState_repr
  by (rule readable_struct [OF instReprState_repr_def])
    (auto simp del: layouts.simps fields_layouts.simps simp: word_simps
      intro!: agree_intros
        pools_print.list.reads pools_print.list.begins queue_print.list.reads queue_print.list.begins)

interpretation PoolArrival_print: derived PoolArrival_label PoolArrival_args instReprPoolArrival_repr
proof (rule derived_mixed)
  show "word (PoolArrival_label x)" for x by (cases x) (simp_all add: word_simps)
  show "agree (args_layouts (PoolArrival_args x)) (args_layouts (PoolArrival_args y)) (x = y)"
    if "PoolArrival_label x = PoolArrival_label y" for x y
    using that by (cases x; cases y)
      (auto simp del: layouts.simps args_layouts.simps
        intro!: agree_intros State_print.reads State_print.begins)
qed (rule instReprPoolArrival_repr_def)

interpretation Patience_print: derived Patience_label Patience_args instReprPatience_repr
proof (rule derived_mixed)
  show "word (Patience_label x)" for x by (cases x) (simp_all add: word_simps)
  show "agree (args_layouts (Patience_args x)) (args_layouts (Patience_args y)) (x = y)"
    if "Patience_label x = Patience_label y" for x y
    using that by (cases x; cases y)
      (auto simp del: layouts.simps args_layouts.simps
        intro!: agree_intros)
qed (rule instReprPatience_repr_def)

interpretation Phase_print: derived Phase_label "\<lambda>_. []" instReprPhase_repr
proof (rule derived_enum)
  show "word (Phase_label x)" for x by (cases x) (simp_all add: word_simps)
  show "x = y" if "Phase_label x = Phase_label y" for x y using that by (cases x; cases y) simp_all
qed (rule instReprPhase_repr_def)

interpretation Disposition_print: derived Disposition_label "\<lambda>_. []" instReprDisposition_repr
proof (rule derived_enum)
  show "word (Disposition_label x)" for x by (cases x) (simp_all add: word_simps)
  show "x = y" if "Disposition_label x = Disposition_label y" for x y using that by (cases x; cases y) simp_all
qed (rule instReprDisposition_repr_def)

interpretation Terminal_print: derived Terminal_label "\<lambda>_. []" instReprTerminal_repr
proof (rule derived_enum)
  show "word (Terminal_label x)" for x by (cases x) (simp_all add: word_simps)
  show "x = y" if "Terminal_label x = Terminal_label y" for x y using that by (cases x; cases y) simp_all
qed (rule instReprTerminal_repr_def)

interpretation Emitted_print: derived Emitted_label Emitted_args instReprEmitted_repr
proof (rule derived_mixed)
  show "word (Emitted_label x)" for x by (cases x) (simp_all add: word_simps)
  show "agree (args_layouts (Emitted_args x)) (args_layouts (Emitted_args y)) (x = y)"
    if "Emitted_label x = Emitted_label y" for x y
    using that by (cases x; cases y)
      (auto simp del: layouts.simps args_layouts.simps
        intro!: agree_intros
        Option_nat_print.opt.reads Option_nat_print.opt.begins)
qed (rule instReprEmitted_repr_def)

interpretation Violation_print: derived Violation_label Violation_args instReprViolation_repr
proof (rule derived_mixed)
  show "word (Violation_label x)" for x by (cases x) (simp_all add: word_simps)
  show "agree (args_layouts (Violation_args x)) (args_layouts (Violation_args y)) (x = y)"
    if "Violation_label x = Violation_label y" for x y
    using that by (cases x; cases y)
      (auto simp del: layouts.simps args_layouts.simps
        intro!: agree_intros)
qed (rule instReprViolation_repr_def)

interpretation Write_print: derived Write_label Write_args instReprWrite_repr
proof (rule derived_mixed)
  show "word (Write_label x)" for x by (cases x) (simp_all add: word_simps)
  show "agree (args_layouts (Write_args x)) (args_layouts (Write_args y)) (x = y)"
    if "Write_label x = Write_label y" for x y
    using that by (cases x; cases y)
      (auto simp del: layouts.simps args_layouts.simps
        intro!: agree_intros)
qed (rule instReprWrite_repr_def)

interpretation stream_print: pair_printer "\<lambda>s. Format_text (String_quote s)" "\<lambda>n. Format_text (Nat_reprFast n)" stream_repr
  by unfold_locales (simp add: stream_repr_def)

interpretation streams_print: list_printer stream_repr streams_loop streams_first streams_join streams_repr
  by unfold_locales (simp_all add: streams_repr_def list_repr_def Std_Format_fill_def)

interpretation Emission_print: readable instReprEmission_repr
  by (rule readable_struct [OF instReprEmission_repr_def])
    (auto simp del: layouts.simps fields_layouts.simps simp: word_simps
      intro!: agree_intros
        streams_print.list.reads streams_print.list.begins strings_print.list.reads strings_print.list.begins)

interpretation live_pair_print: pair_printer "\<lambda>s. Format_text (String_quote s)" "\<lambda>s. Format_text (String_quote s)" live_pair_repr
  by unfold_locales (simp add: live_pair_repr_def)

interpretation live_print: list_printer live_pair_repr live_loop live_first live_join live_repr
  by unfold_locales (simp_all add: live_repr_def list_repr_def Std_Format_fill_def)

interpretation Table_print: readable instReprTable_repr
  by (rule readable_struct [OF instReprTable_repr_def])
    (auto simp del: layouts.simps fields_layouts.simps simp: word_simps
      intro!: agree_intros
        live_print.list.reads live_print.list.begins strings_print.list.reads strings_print.list.begins)

text \<open>What is printed of the protocol's state can be read back.  Two pool states, two emissions, two
  request tables or two windows that can look the same on paper, wherever lines are broken, are the
  same; so a printed state names every pool and waiter, with their numbers, in order.\<close>

theorem printed_states_distinct:
  "((\<exists>s. s \<in> layouts (instReprState_repr a) \<and> s \<in> layouts (instReprState_repr b)) = (a = b)) \<and>
   ((\<exists>s. s \<in> layouts (instReprEmission_repr e) \<and> s \<in> layouts (instReprEmission_repr f)) = (e = f)) \<and>
   ((\<exists>s. s \<in> layouts (instReprTable_repr t) \<and> s \<in> layouts (instReprTable_repr u)) = (t = u)) \<and>
   ((\<exists>s. s \<in> layouts (instReprWindow_repr v) \<and> s \<in> layouts (instReprWindow_repr w)) = (v = w))"
  using State_print.same_layout [of a b] Emission_print.same_layout [of e f]
    Table_print.same_layout [of t u] Window_print.same_layout [of v w]
  by (simp add: disjoint_iff)

end
