(* ===== verification/CapLaws.thy ===== *)
theory CapLaws
  imports CapUrn
begin

text \<open>
  Which caps the constructors make, and that every operation keeps to them.  The locale \<open>urn_package\<close>
  says what of the \<open>TaggedUrn\<close> package this rests on: keys are lower case and values kept as they are
  given; a URN is made of any tags each of which is valid; it is printed behind its prefix, and its
  text is read back as the same URN; a tag's value says which constraint it is, by the table in the
  comment on the score in \<open>CSCapUrn.m\<close>.
\<close>

section \<open>What the caps rely on\<close>

definition text_constraint :: "string \<Rightarrow> Constraint" where
  "text_constraint v =
     (if v = ''?'' then Constraint_unconstrained
      else if v = ''*'' then Constraint_present
      else if v = ''!'' then Constraint_absent
      else if hasPrefix v ''?='' then Constraint_optionalNot (drop 2 v)
      else if hasPrefix v ''!='' then Constraint_presentNot (drop 2 v)
      else Constraint_exact v)"

definition lower_keys :: "(string, string) fmap \<Rightarrow> bool" where
  "lower_keys m \<longleftrightarrow> (\<forall>k v. fmlookup m k = Some v \<longrightarrow> lowercase k = k)"

text \<open>A URN the package has made of a dictionary or a text.\<close>

definition made_urn :: "('t, 'd) tagged_urn_package \<Rightarrow> 't \<Rightarrow> bool" where
  "made_urn pkg u \<longleftrightarrow>
     (\<exists>m. tu_fromPrefix pkg ''cap'' m = Inr u) \<or> (\<exists>s. tu_fromString (urns pkg) s = Inr u)"

locale urn_package = decided_urns pkg for pkg :: "('t, 'd) tagged_urn_package" +
  fixes valid_tag :: "string \<Rightarrow> string \<Rightarrow> bool"
  assumes fromPrefix_valid: "lower_keys m \<Longrightarrow>
      (\<exists>u. tu_fromPrefix pkg ''cap'' m = Inr u) \<longleftrightarrow> (\<forall>k v. fmlookup m k = Some v \<longrightarrow> valid_tag k v)"
    and structural_valid: "is_structural k \<Longrightarrow> v \<noteq> [] \<Longrightarrow> valid_tag k v"
    and fromPrefix_prefix: "tu_fromPrefix pkg ''cap'' m = Inr u \<Longrightarrow> tu_prefix (urns pkg) u = ''cap''"
    and fromPrefix_tags: "tu_fromPrefix pkg ''cap'' m = Inr u \<Longrightarrow> lower_keys m \<Longrightarrow> tags_of pkg u = m"
    and print_parse: "tu_fromPrefix pkg ''cap'' m = Inr u \<Longrightarrow>
      tu_fromString (urns pkg) (tu_toString (urns pkg) u) = Inr u"
    and print_prefix: "tu_fromPrefix pkg ''cap'' m = Inr u \<Longrightarrow>
      hasPrefix (tu_toString (urns pkg) u) ''cap:''"
    and made_keys: "made_urn pkg u \<Longrightarrow> distinct (map fst (tu_tags (urns pkg) u)) \<and>
      list_all (\<lambda>k. lowercase k = k) (map fst (tu_tags (urns pkg) u))"
    and made_formal: "made_urn pkg u \<Longrightarrow>
      scheme (tu_formalValue (urns pkg) u) = lowercase (tu_prefix (urns pkg) u) \<and>
      Urn_wf (tu_formalValue (urns pkg) u)"
    and formal_tags: "tags (tu_formalValue (urns pkg) u) =
      map (\<lambda>(k, v). (k, text_constraint v)) (tu_tags (urns pkg) u)"
    and getTag_lookup: "tu_getTag (urns pkg) u k = map_of (tu_tags (urns pkg) u) (lowercase k)"

section \<open>The caps that are made\<close>

text \<open>A cap is a declared one when its fields, given to the constructor, make this very cap, and its
  tags hold none of the structural keys.\<close>

definition plain_tags :: "(string, string) fmap \<Rightarrow> bool" where
  "plain_tags m \<longleftrightarrow> (\<forall>k v. fmlookup m k = Some v \<longrightarrow> lowercase k = k \<and> \<not> is_structural k)"

definition declared_cap :: "('t, 'd) tagged_urn_package \<Rightarrow> CSCapUrn \<Rightarrow> bool" where
  "declared_cap pkg c \<longleftrightarrow>
     CapUrn_fromInSpec pkg (Some (inSpec c)) (Some (outSpec c)) (Some (effectSpec c)) (mutableTags c) =
       Inr c \<and> plain_tags (mutableTags c)"

lemma plain_lower: "plain_tags m \<Longrightarrow> lower_keys m"
  by (auto simp: plain_tags_def lower_keys_def)

lemma plain_tags_simps [simp]:
  "plain_tags fmempty"
  "plain_tags m \<Longrightarrow> lowercase k = k \<Longrightarrow> \<not> is_structural k \<Longrightarrow> plain_tags (fmupd k v m)"
  "plain_tags m \<Longrightarrow> plain_tags (fmdrop k m)"
  "plain_tags m \<Longrightarrow> plain_tags n \<Longrightarrow> plain_tags (m ++\<^sub>f n)"
  by (auto simp: plain_tags_def)

lemma plain_not_structural: "plain_tags m \<Longrightarrow> fmlookup m k = Some v \<Longrightarrow> \<not> is_structural k"
  by (simp add: plain_tags_def)

lemma lower_keys_simps [simp]:
  "lower_keys fmempty"
  "lower_keys m \<Longrightarrow> lowercase k = k \<Longrightarrow> lower_keys (fmupd k v m)"
  by (auto simp: lower_keys_def)

lemma fmupd_twice [simp]: "fmupd k v (fmupd k w m) = fmupd k v m"
  by (rule fmap_ext) simp

section \<open>The constructor, step by step\<close>

lemma processSpec_Inr:
  "CapUrn_processSpec err spec = Inr s \<Longrightarrow>
     s \<noteq> ''*'' \<and> s \<noteq> [] \<and> CapUrn_processSpec err' (Some s) = Inr s"
  by (auto simp: CapUrn_processSpec_def split: option.splits if_splits)

lemma NormalizeEffect_Inr:
  "CSCapNormalizeEffectValue raw = Inr e \<Longrightarrow>
     e \<in> {''declared'', ''none'', ''patch'', ''?''} \<and> CSCapNormalizeEffectValue (Some e) = Inr e"
  by (auto simp: CSCapNormalizeEffectValue_def split: option.splits if_splits)

text \<open>Everything that has succeeded when the constructor answers a cap.\<close>

definition constructed ::
    "('t, 'd) tagged_urn_package \<Rightarrow> string \<Rightarrow> string \<Rightarrow> string \<Rightarrow> 't \<Rightarrow> CSCapUrn \<Rightarrow> bool" where
  "constructed pkg i out eff u c \<longleftrightarrow>
     CapUrn_checkSpec pkg CSCapUrnErrorInvalidInSpec i = Inr () \<and>
     CapUrn_checkSpec pkg CSCapUrnErrorInvalidOutSpec out = Inr () \<and>
     CapUrn_validateAdmissible pkg i out eff (tags_of pkg u) = Inr () \<and>
     CapUrn_init pkg i out eff u = Inr c"

lemma fromInSpec_Inr:
  "CapUrn_fromInSpec pkg i_spec out_spec raw ts = Inr c \<longleftrightarrow>
     (\<exists>i out eff u. CapUrn_processSpec CSCapUrnErrorInvalidInSpec i_spec = Inr i \<and>
        CapUrn_processSpec CSCapUrnErrorInvalidOutSpec out_spec = Inr out \<and>
        CSCapNormalizeEffectValue raw = Inr eff \<and> tu_fromPrefix pkg ''cap'' ts = Inr u \<and>
        constructed pkg i out eff u c)"
  by (auto simp: CapUrn_fromInSpec_def constructed_def split: sum.splits)

lemma init_fields:
  assumes "CapUrn_init pkg i out eff u = Inr c"
  shows "inSpec c = i" "outSpec c = out" "effectSpec c = eff" "mutableTags c = tags_of pkg u"
  using assms by (auto simp: CapUrn_init_def split: sum.splits)

lemma constructed_fields:
  assumes "constructed pkg i out eff u c"
  shows "inSpec c = i" "outSpec c = out" "effectSpec c = eff" "mutableTags c = tags_of pkg u"
  using assms init_fields by (auto simp: constructed_def)

lemma validate_Inr:
  "CapUrn_validateAdmissible pkg i out eff ts = Inr () \<Longrightarrow>
     \<exists>im om e. MediaUrn_fromString (urns pkg) i = Inr im \<and> MediaUrn_fromString (urns pkg) out = Inr om \<and>
       CSCapEffectFromString eff = Inr e \<and>
       (e = CSCapEffectNone \<longrightarrow> MediaUrn_conformsTo (urns pkg) im om)"
  by (auto simp: CapUrn_validateAdmissible_def split: sum.splits if_splits)

text \<open>More tags never make a declaration inadmissible.\<close>

lemma validate_more_tags:
  "CapUrn_validateAdmissible pkg i out eff ts = Inr () \<Longrightarrow> (ts = fmempty \<longleftrightarrow> ts' = fmempty) \<or> ts' \<noteq> fmempty \<Longrightarrow>
     CapUrn_validateAdmissible pkg i out eff ts' = Inr ()"
  by (auto simp: CapUrn_validateAdmissible_def split: sum.splits if_splits)

lemma init_total:
  assumes "CapUrn_validateAdmissible pkg i out eff ts = Inr ()"
  shows "\<exists>c. CapUrn_init pkg i out eff u = Inr c"
  using validate_Inr [OF assms]
  by (auto simp: CapUrn_init_def CSCapModelMedia_def CSCapModelEffect_def split: CSCapEffect.splits)

lemma fromString_Inr:
  "CapUrn_fromString pkg s = Inr c \<Longrightarrow>
     \<exists>i out eff u. CapUrn_fromInSpec pkg (Some i) (Some out) (Some eff)
       (CapUrn_remainingTags (tu_tags (urns pkg) u) fmempty) = Inr c"
  unfolding CapUrn_fromString_def by (simp split: if_splits sum.splits) blast

lemma fromTags_Inr:
  "CapUrn_fromTags pkg entries = Inr c \<Longrightarrow>
     \<exists>i out eff. CapUrn_fromInSpec pkg (Some i) (Some out) (Some eff)
       (fmfilter (\<lambda>k. \<not> is_structural k) (CapUrn_normalizedTags entries fmempty)) = Inr c"
  unfolding CapUrn_fromTags_def Let_def by (simp split: sum.splits) blast

lemma mustCreate_Inr:
  "CapUrn_mustCreate pkg i out eff ts = Inr c \<longleftrightarrow>
     CapUrn_fromInSpec pkg (Some i) (Some out) (Some eff) ts = Inr c"
  by (auto simp: CapUrn_mustCreate_def split: sum.splits urn_failure.splits)

section \<open>Every constructor makes declared caps\<close>

context urn_package
begin

lemma made_of_prefix: "tu_fromPrefix pkg ''cap'' m = Inr u \<Longrightarrow> made_urn pkg u"
  by (auto simp: made_urn_def)

lemma fromInSpec_declared:
  assumes "CapUrn_fromInSpec pkg i_spec out_spec raw ts = Inr c" and "plain_tags ts"
  shows "declared_cap pkg c" and "mutableTags c = ts"
proof -
  obtain i out eff u where steps: "CapUrn_processSpec CSCapUrnErrorInvalidInSpec i_spec = Inr i"
      "CapUrn_processSpec CSCapUrnErrorInvalidOutSpec out_spec = Inr out"
      "CSCapNormalizeEffectValue raw = Inr eff" "tu_fromPrefix pkg ''cap'' ts = Inr u"
      "constructed pkg i out eff u c"
    using assms(1) unfolding fromInSpec_Inr by blast
  have tags: "tags_of pkg u = ts"
    using fromPrefix_tags [OF steps(4) plain_lower [OF assms(2)]] .
  note fields = constructed_fields [OF steps(5)] tags
  then show "mutableTags c = ts" by simp
  moreover have "CapUrn_fromInSpec pkg (Some i) (Some out) (Some eff) ts = Inr c"
    using processSpec_Inr [OF steps(1)] processSpec_Inr [OF steps(2)] NormalizeEffect_Inr [OF steps(3)]
      steps(4,5) unfolding fromInSpec_Inr by blast
  ultimately show "declared_cap pkg c"
    using assms(2) fields by (simp add: declared_cap_def)
qed

lemma mustCreate_declared:
  "CapUrn_mustCreate pkg i out eff ts = Inr c \<Longrightarrow> plain_tags ts \<Longrightarrow> declared_cap pkg c"
  using fromInSpec_declared by (simp add: mustCreate_Inr)

lemma remainingTags_plain:
  "plain_tags acc \<Longrightarrow> plain_tags (CapUrn_remainingTags kvs acc)"
  by (induction kvs acc rule: CapUrn_remainingTags.induct) simp_all

lemma normalizedTags_lower:
  "lower_keys acc \<Longrightarrow> lower_keys (CapUrn_normalizedTags kvs acc)"
  by (induction kvs acc rule: CapUrn_normalizedTags.induct) simp_all

lemma subset_loop_plain:
  "plain_tags (mutableTags c) \<Longrightarrow> plain_tags acc \<Longrightarrow> plain_tags (CapUrn_subset_loop c keys acc)"
  by (induction c keys acc rule: CapUrn_subset_loop.induct)
    (auto simp: plain_not_structural split: option.splits)

lemma fromString_declared: "CapUrn_fromString pkg s = Inr c \<Longrightarrow> declared_cap pkg c"
  using fromString_Inr fromInSpec_declared(1) remainingTags_plain plain_tags_simps(1) by metis

lemma fromTags_declared:
  assumes "CapUrn_fromTags pkg entries = Inr c"
  shows "declared_cap pkg c"
proof -
  have "lower_keys (CapUrn_normalizedTags entries fmempty)" by (simp add: normalizedTags_lower)
  then have "plain_tags (fmfilter (\<lambda>k. \<not> is_structural k) (CapUrn_normalizedTags entries fmempty))"
    by (auto simp: plain_tags_def lower_keys_def split: if_splits)
  then show ?thesis using fromTags_Inr [OF assms] fromInSpec_declared(1) by blast
qed

lemma declared_copy: "declared_cap pkg c \<Longrightarrow> CapUrn_copy pkg c = Inr c"
  by (simp add: CapUrn_copy_def mustCreate_Inr declared_cap_def)

lemma edits_declared:
  assumes "declared_cap pkg c"
  shows "CapUrn_withTag pkg c key v = Inr c' \<Longrightarrow> declared_cap pkg c'"
    and "CapUrn_withInSpec pkg c spec = Inr c' \<Longrightarrow> declared_cap pkg c'"
    and "CapUrn_withOutSpec pkg c spec = Inr c' \<Longrightarrow> declared_cap pkg c'"
    and "CapUrn_withEffect pkg c eff = Inr c' \<Longrightarrow> declared_cap pkg c'"
    and "CapUrn_withoutTag pkg c key = Inr c' \<Longrightarrow> declared_cap pkg c'"
    and "CapUrn_subset pkg c keys = Inr c' \<Longrightarrow> declared_cap pkg c'"
    and "declared_cap pkg d \<Longrightarrow> CapUrn_merge pkg c d = Inr c' \<Longrightarrow> declared_cap pkg c'"
  using assms
  by (auto simp: CapUrn_withTag_def CapUrn_withInSpec_def CapUrn_withOutSpec_def CapUrn_withEffect_def
      CapUrn_withoutTag_def CapUrn_subset_def CapUrn_merge_def declared_cap_def [of _ c]
      declared_cap_def [of _ d] split: if_splits intro!: mustCreate_declared subset_loop_plain)

lemma withWildcardTag_declared:
  assumes "declared_cap pkg c" "CapUrn_withWildcardTag pkg c key = Inr c'"
  shows "declared_cap pkg c'"
  using assms edits_declared [OF assms(1)]
  by (auto simp: CapUrn_withWildcardTag_def split: if_splits option.splits)

lemma initWithCoder_encode:
  assumes "declared_cap pkg c"
  shows "CapUrn_initWithCoder pkg (CapUrn_encode c) = Inr c"
proof -
  have made: "CapUrn_fromInSpec pkg (Some (inSpec c)) (Some (outSpec c)) (Some (effectSpec c)) (mutableTags c) = Inr c"
    using assms by (simp add: declared_cap_def)
  then obtain i out eff u where steps: "tu_fromPrefix pkg ''cap'' (mutableTags c) = Inr u"
      "constructed pkg i out eff u c" unfolding fromInSpec_Inr by blast
  from constructed_fields [OF steps(2)] steps(2)
  have "CapUrn_init pkg (inSpec c) (outSpec c) (effectSpec c) u = Inr c"
    by (simp add: constructed_def)
  with made steps(1) show ?thesis
    by (simp add: CapUrn_initWithCoder_def CapUrn_encode_def)
qed

end

section \<open>Merging, printing and reading back\<close>

lemma fmlookup_add_case:
  "fmlookup (m ++\<^sub>f n) k = (case fmlookup n k of None \<Rightarrow> fmlookup m k | Some v \<Rightarrow> Some v)"
  by (auto split: option.splits dest: fmdomI)

lemma fmadd_empty_iff: "m ++\<^sub>f n = fmempty \<longleftrightarrow> m = fmempty \<and> n = fmempty"
proof
  assume "m ++\<^sub>f n = fmempty"
  then have "fmlookup (m ++\<^sub>f n) k = None" for k by simp
  then have "fmlookup m k = None \<and> fmlookup n k = None" for k
    unfolding fmlookup_add_case by (metis option.case_eq_if option.collapse option.simps(5))
  then show "m = fmempty \<and> n = fmempty" by (auto intro: fmap_ext)
qed simp

text \<open>The structural part of what is printed, read as the tags constructor reads it.\<close>

lemma allTags_lookups:
  assumes "plain_tags (mutableTags c)"
  shows "fmlookup (CapUrn_allTags c) ''in'' = (if inSpec c = ''media:'' then None else Some (inSpec c))"
    and "fmlookup (CapUrn_allTags c) ''out'' = (if outSpec c = ''media:'' then None else Some (outSpec c))"
    and "fmlookup (CapUrn_allTags c) ''effect'' =
      (if effectSpec c = ''declared'' then None else Some (effectSpec c))"
proof -
  have none: "is_structural k \<Longrightarrow> fmlookup (mutableTags c) k = None" for k
    using assms plain_not_structural by (metis option.exhaust)
  show "fmlookup (CapUrn_allTags c) ''in'' = (if inSpec c = ''media:'' then None else Some (inSpec c))"
    and "fmlookup (CapUrn_allTags c) ''out'' = (if outSpec c = ''media:'' then None else Some (outSpec c))"
    and "fmlookup (CapUrn_allTags c) ''effect'' =
      (if effectSpec c = ''declared'' then None else Some (effectSpec c))"
    using none [of "''in''"] none [of "''out''"] none [of "''effect''"]
    by (simp_all add: CapUrn_allTags_def Let_def is_structural_def)
qed

lemma allTags_rest:
  assumes "plain_tags (mutableTags c)"
  shows "fmfilter (\<lambda>k. \<not> is_structural k) (CapUrn_allTags c) = mutableTags c"
proof (rule fmap_ext)
  fix k
  have "is_structural k \<Longrightarrow> fmlookup (mutableTags c) k = None"
    using assms plain_not_structural by (metis option.exhaust)
  then show "fmlookup (fmfilter (\<lambda>k. \<not> is_structural k) (CapUrn_allTags c)) k = fmlookup (mutableTags c) k"
    by (auto simp: CapUrn_allTags_def Let_def is_structural_def)
qed

lemma structural_lower: "is_structural k \<Longrightarrow> lowercase k = k"
  by (auto simp: is_structural_def lowercase_def lowercase_char_def)

lemma allTags_lower: "plain_tags (mutableTags c) \<Longrightarrow> lower_keys (CapUrn_allTags c)"
  using structural_lower
  by (simp add: CapUrn_allTags_def Let_def is_structural_def plain_lower)

lemma allTags_cases:
  "fmlookup (CapUrn_allTags c) k = Some v \<Longrightarrow>
     is_structural k \<and> v \<in> {inSpec c, outSpec c, effectSpec c} \<or> fmlookup (mutableTags c) k = Some v"
  by (auto simp: CapUrn_allTags_def Let_def is_structural_def split: if_splits)

lemma normalizedTags_id:
  assumes "list_all (\<lambda>k. lowercase k = k) (map fst kvs)" and "distinct (map fst kvs)"
  shows "CapUrn_normalizedTags kvs acc = acc ++\<^sub>f fmap_of_list kvs"
  using assms
proof (induction kvs acc rule: CapUrn_normalizedTags.induct)
  case (1 acc)
  then show ?case by simp
next
  case (2 k v kvs acc)
  then have "CapUrn_normalizedTags kvs (fmupd k v acc) = fmupd k v acc ++\<^sub>f fmap_of_list kvs"
    by simp
  moreover have "fmupd k v acc ++\<^sub>f fmap_of_list kvs = acc ++\<^sub>f fmap_of_list ((k, v) # kvs)"
  proof (rule fmap_ext)
    fix x
    have "map_of kvs k = None" using 2(3) by (simp add: map_of_eq_None_iff)
    then show "fmlookup (fmupd k v acc ++\<^sub>f fmap_of_list kvs) x =
        fmlookup (acc ++\<^sub>f fmap_of_list ((k, v) # kvs)) x"
      by (cases "x = k") (simp_all add: fmlookup_add_case fmlookup_of_list del: fmlookup_add fmap_of_list_simps
          split: option.splits)
  qed
  ultimately show ?case using 2(2) by simp
qed

lemma remainingTags_filter:
  assumes "list_all (\<lambda>k. lowercase k = k) (map fst kvs)" and "distinct (map fst kvs)"
  shows "CapUrn_remainingTags kvs acc = acc ++\<^sub>f fmfilter (\<lambda>k. \<not> is_structural k) (fmap_of_list kvs)"
  using assms
proof (induction kvs acc rule: CapUrn_remainingTags.induct)
  case (1 acc)
  then show ?case
    by (intro fmap_ext) (simp add: fmlookup_add_case fmlookup_of_list del: fmlookup_add)
next
  case (2 k v kvs acc)
  show ?case
  proof (rule fmap_ext)
    fix x
    have "map_of kvs k = None" using 2(4) by (simp add: map_of_eq_None_iff)
    then show "fmlookup (CapUrn_remainingTags ((k, v) # kvs) acc) x =
        fmlookup (acc ++\<^sub>f fmfilter (\<lambda>k. \<not> is_structural k) (fmap_of_list ((k, v) # kvs))) x"
      using 2 by (cases "x = k")
        (simp_all add: fmlookup_add_case fmlookup_of_list del: fmlookup_add fmap_of_list_simps
          split: option.splits)
  qed
qed

context urn_package
begin

lemma declared_steps:
  assumes "declared_cap pkg c"
  obtains u where "tu_fromPrefix pkg ''cap'' (mutableTags c) = Inr u"
    and "constructed pkg (inSpec c) (outSpec c) (effectSpec c) u c"
    and "CapUrn_processSpec CSCapUrnErrorInvalidInSpec (Some (inSpec c)) = Inr (inSpec c)"
    and "CapUrn_processSpec CSCapUrnErrorInvalidOutSpec (Some (outSpec c)) = Inr (outSpec c)"
    and "CSCapNormalizeEffectValue (Some (effectSpec c)) = Inr (effectSpec c)"
proof -
  from assms obtain i out eff u where steps:
      "CapUrn_processSpec CSCapUrnErrorInvalidInSpec (Some (inSpec c)) = Inr i"
      "CapUrn_processSpec CSCapUrnErrorInvalidOutSpec (Some (outSpec c)) = Inr out"
      "CSCapNormalizeEffectValue (Some (effectSpec c)) = Inr eff"
      "tu_fromPrefix pkg ''cap'' (mutableTags c) = Inr u" "constructed pkg i out eff u c"
    unfolding declared_cap_def fromInSpec_Inr by blast
  from constructed_fields [OF steps(5)] steps that show ?thesis by metis
qed

lemma declared_specs:
  assumes "declared_cap pkg c"
  obtains im om e where "MediaUrn_fromString (urns pkg) (inSpec c) = Inr im"
    and "MediaUrn_fromString (urns pkg) (outSpec c) = Inr om"
    and "CSCapEffectFromString (effectSpec c) = Inr e"
    and "e = CSCapEffectNone \<Longrightarrow> MediaUrn_conformsTo (urns pkg) im om"
proof -
  from assms obtain u where "constructed pkg (inSpec c) (outSpec c) (effectSpec c) u c"
    by (rule declared_steps)
  then have "CapUrn_validateAdmissible pkg (inSpec c) (outSpec c) (effectSpec c) (tags_of pkg u) = Inr ()"
    by (simp add: constructed_def)
  from validate_Inr [OF this] that show ?thesis by blast
qed

lemma merge_total:
  assumes "declared_cap pkg c" and "declared_cap pkg d"
  shows "\<exists>m. CapUrn_merge pkg c d = Inr m"
proof -
  let ?ts = "mutableTags c ++\<^sub>f mutableTags d"
  from assms(1) obtain u where c: "tu_fromPrefix pkg ''cap'' (mutableTags c) = Inr u"
    by (rule declared_steps)
  from assms(2) obtain w where d: "tu_fromPrefix pkg ''cap'' (mutableTags d) = Inr w"
      "constructed pkg (inSpec d) (outSpec d) (effectSpec d) w d"
      "CapUrn_processSpec CSCapUrnErrorInvalidInSpec (Some (inSpec d)) = Inr (inSpec d)"
      "CapUrn_processSpec CSCapUrnErrorInvalidOutSpec (Some (outSpec d)) = Inr (outSpec d)"
      "CSCapNormalizeEffectValue (Some (effectSpec d)) = Inr (effectSpec d)"
    by (rule declared_steps)
  have plain: "plain_tags (mutableTags c)" "plain_tags (mutableTags d)"
    using assms by (simp_all add: declared_cap_def)
  then have low: "lower_keys ?ts" by (simp add: plain_lower)
  have "\<forall>k v. fmlookup (mutableTags c) k = Some v \<longrightarrow> valid_tag k v"
    using fromPrefix_valid [OF plain_lower [OF plain(1)]] c by blast
  moreover have "\<forall>k v. fmlookup (mutableTags d) k = Some v \<longrightarrow> valid_tag k v"
    using fromPrefix_valid [OF plain_lower [OF plain(2)]] d(1) by blast
  ultimately have "\<forall>k v. fmlookup ?ts k = Some v \<longrightarrow> valid_tag k v"
    by (simp add: fmlookup_add_case split: option.splits)
  with fromPrefix_valid [OF low] obtain n where n: "tu_fromPrefix pkg ''cap'' ?ts = Inr n" by blast
  have "tags_of pkg w = mutableTags d" "tags_of pkg n = ?ts"
    using fromPrefix_tags [OF d(1) plain_lower [OF plain(2)]] fromPrefix_tags [OF n low] .
  with validate_more_tags d(2)
  have ok: "CapUrn_validateAdmissible pkg (inSpec d) (outSpec d) (effectSpec d) (tags_of pkg n) = Inr ()"
    unfolding constructed_def by (metis fmadd_empty_iff)
  from init_total [OF this, of n]
  obtain m where "CapUrn_init pkg (inSpec d) (outSpec d) (effectSpec d) n = Inr m" by blast
  with d(2) ok have "constructed pkg (inSpec d) (outSpec d) (effectSpec d) n m"
    by (simp add: constructed_def)
  with d(3,4,5) n show ?thesis
    unfolding CapUrn_merge_def mustCreate_Inr fromInSpec_Inr by blast
qed

lemma merge_fields:
  assumes "declared_cap pkg c" and "declared_cap pkg d" and "CapUrn_merge pkg c d = Inr m"
  shows "inSpec m = inSpec d" "outSpec m = outSpec d" "effectSpec m = effectSpec d"
    "mutableTags m = mutableTags c ++\<^sub>f mutableTags d"
proof -
  let ?ts = "mutableTags c ++\<^sub>f mutableTags d"
  have made: "CapUrn_fromInSpec pkg (Some (inSpec d)) (Some (outSpec d)) (Some (effectSpec d)) ?ts = Inr m"
    using assms(3) by (simp add: CapUrn_merge_def mustCreate_Inr)
  have "plain_tags ?ts" using assms by (simp add: declared_cap_def)
  then show "mutableTags m = ?ts" using fromInSpec_declared(2) [OF made] by simp
  from assms(2) obtain w where d:
      "CapUrn_processSpec CSCapUrnErrorInvalidInSpec (Some (inSpec d)) = Inr (inSpec d)"
      "CapUrn_processSpec CSCapUrnErrorInvalidOutSpec (Some (outSpec d)) = Inr (outSpec d)"
      "CSCapNormalizeEffectValue (Some (effectSpec d)) = Inr (effectSpec d)"
    by (rule declared_steps)
  with made obtain u where "constructed pkg (inSpec d) (outSpec d) (effectSpec d) u m"
    unfolding fromInSpec_Inr by auto
  from constructed_fields [OF this]
  show "inSpec m = inSpec d" "outSpec m = outSpec d" "effectSpec m = effectSpec d" by simp_all
qed

lemma toString_total:
  assumes "declared_cap pkg c"
  obtains u where "tu_fromPrefix pkg ''cap'' (CapUrn_allTags c) = Inr u"
    and "CapUrn_toString pkg c = Inr (tu_toString (urns pkg) u)"
proof -
  from assms obtain w where d: "tu_fromPrefix pkg ''cap'' (mutableTags c) = Inr w"
      "CapUrn_processSpec CSCapUrnErrorInvalidInSpec (Some (inSpec c)) = Inr (inSpec c)"
      "CapUrn_processSpec CSCapUrnErrorInvalidOutSpec (Some (outSpec c)) = Inr (outSpec c)"
      "CSCapNormalizeEffectValue (Some (effectSpec c)) = Inr (effectSpec c)"
    by (rule declared_steps)
  have plain: "plain_tags (mutableTags c)" using assms by (simp add: declared_cap_def)
  have "inSpec c \<noteq> []" "outSpec c \<noteq> []" "effectSpec c \<noteq> []"
    using processSpec_Inr [OF d(2)] processSpec_Inr [OF d(3)] NormalizeEffect_Inr [OF d(4)] by auto
  moreover have "\<forall>k v. fmlookup (mutableTags c) k = Some v \<longrightarrow> valid_tag k v"
    using fromPrefix_valid [OF plain_lower [OF plain]] d(1) by blast
  ultimately have "\<forall>k v. fmlookup (CapUrn_allTags c) k = Some v \<longrightarrow> valid_tag k v"
    using structural_valid by (blast dest: allTags_cases)
  with fromPrefix_valid [OF allTags_lower [OF plain]] that show ?thesis
    by (auto simp: CapUrn_toString_def)
qed

end

section \<open>Two ways of making one cap\<close>

context urn_package
begin

lemma processDirectionTag_spec:
  "CapUrn_processDirectionTag pkg u ''in'' =
     CapUrn_processSpec CSCapUrnErrorInvalidInSpec (tu_getTag (urns pkg) u ''in'')"
  "CapUrn_processDirectionTag pkg u ''out'' =
     CapUrn_processSpec CSCapUrnErrorInvalidOutSpec (tu_getTag (urns pkg) u ''out'')"
  by (simp_all add: CapUrn_processDirectionTag_def CapUrn_processSpec_def)

lemma fromString_is_fromTags:
  assumes "tu_fromString (urns pkg) s = Inr u" and "lowercase (take 4 s) = ''cap:''"
    and "lowercase (tu_prefix (urns pkg) u) = ''cap''"
  shows "CapUrn_fromString pkg s = CapUrn_fromTags pkg (tu_tags (urns pkg) u)"
proof -
  let ?kvs = "tu_tags (urns pkg) u"
  have "made_urn pkg u" using assms(1) by (auto simp: made_urn_def)
  then have keys: "list_all (\<lambda>k. lowercase k = k) (map fst ?kvs)" "distinct (map fst ?kvs)"
    using made_keys by blast+
  have "length (lowercase (take 4 s)) = 4" using assms(2) by simp
  then have long: "\<not> length s < 4" "s \<noteq> []" by (auto simp: lowercase_def)
  have tag: "tu_getTag (urns pkg) u k = fmlookup (CapUrn_normalizedTags ?kvs fmempty) k"
    if "is_structural k" for k
    using that by (simp add: getTag_lookup structural_lower normalizedTags_id [OF keys] fmlookup_of_list)
  have structural: "is_structural ''in''" "is_structural ''out''" "is_structural ''effect''"
    by (simp_all add: is_structural_def)
  have "CapUrn_remainingTags ?kvs fmempty =
      fmfilter (\<lambda>k. \<not> is_structural k) (CapUrn_normalizedTags ?kvs fmempty)"
    unfolding normalizedTags_id [OF keys] remainingTags_filter [OF keys] by simp
  with long structural [THEN tag] show ?thesis
    unfolding CapUrn_fromString_def CapUrn_fromTags_def Let_def
    by (simp add: assms processDirectionTag_spec cong: sum.case_cong)
qed

lemma fromTags_of_fields:
  assumes "list_all (\<lambda>k. lowercase k = k) (map fst kvs)" "distinct (map fst kvs)"
    and "fmap_of_list kvs = CapUrn_allTags c" and "declared_cap pkg c"
  shows "CapUrn_fromTags pkg kvs = Inr c"
proof -
  from assms(4) obtain w where d: "constructed pkg (inSpec c) (outSpec c) (effectSpec c) w c"
      "CapUrn_processSpec CSCapUrnErrorInvalidInSpec (Some (inSpec c)) = Inr (inSpec c)"
      "CapUrn_processSpec CSCapUrnErrorInvalidOutSpec (Some (outSpec c)) = Inr (outSpec c)"
      "CSCapNormalizeEffectValue (Some (effectSpec c)) = Inr (effectSpec c)"
    by (rule declared_steps)
  have plain: "plain_tags (mutableTags c)"
    and made: "CapUrn_fromInSpec pkg (Some (inSpec c)) (Some (outSpec c)) (Some (effectSpec c)) (mutableTags c) = Inr c"
    using assms(4) by (simp_all add: declared_cap_def)
  have tags: "CapUrn_normalizedTags kvs fmempty = CapUrn_allTags c"
    by (simp add: normalizedTags_id [OF assms(1,2)] assms(3))
  have "CapUrn_processSpec CSCapUrnErrorInvalidInSpec (fmlookup (CapUrn_allTags c) ''in'') = Inr (inSpec c)"
    "CapUrn_processSpec CSCapUrnErrorInvalidOutSpec (fmlookup (CapUrn_allTags c) ''out'') = Inr (outSpec c)"
    "CSCapNormalizeEffectValue (fmlookup (CapUrn_allTags c) ''effect'') = Inr (effectSpec c)"
    using d(2,3,4) allTags_lookups [OF plain]
    by (simp_all add: CapUrn_processSpec_def CSCapNormalizeEffectValue_def)
  moreover have "CapUrn_checkSpec pkg CSCapUrnErrorInvalidInSpec (inSpec c) = Inr ()"
    "CapUrn_checkSpec pkg CSCapUrnErrorInvalidOutSpec (outSpec c) = Inr ()"
    using d(1) by (simp_all add: constructed_def)
  ultimately show ?thesis
    by (simp add: CapUrn_fromTags_def tags allTags_rest [OF plain] made)
qed

lemma print_read:
  assumes "declared_cap pkg c"
  shows "\<exists>s. CapUrn_toString pkg c = Inr s \<and> CapUrn_fromString pkg s = Inr c"
proof -
  from assms obtain u where u: "tu_fromPrefix pkg ''cap'' (CapUrn_allTags c) = Inr u"
      "CapUrn_toString pkg c = Inr (tu_toString (urns pkg) u)"
    by (rule toString_total)
  let ?s = "tu_toString (urns pkg) u"
  have plain: "plain_tags (mutableTags c)" using assms by (simp add: declared_cap_def)
  have keys: "list_all (\<lambda>k. lowercase k = k) (map fst (tu_tags (urns pkg) u))"
    "distinct (map fst (tu_tags (urns pkg) u))"
    using made_keys [OF made_of_prefix [OF u(1)]] by blast+
  have "fmap_of_list (tu_tags (urns pkg) u) = CapUrn_allTags c"
    using fromPrefix_tags [OF u(1) allTags_lower [OF plain]] by (simp add: tags_of_def)
  from fromTags_of_fields [OF keys this assms]
  have "CapUrn_fromTags pkg (tu_tags (urns pkg) u) = Inr c" .
  moreover have "lowercase (take 4 ?s) = ''cap:''"
    using print_prefix [OF u(1)]
    by (simp add: hasPrefix_def numeral_eq_Suc) (simp add: lowercase_def lowercase_char_def)
  moreover have "lowercase (tu_prefix (urns pkg) u) = ''cap''"
    using fromPrefix_prefix [OF u(1)] by (simp add: lowercase_def lowercase_char_def)
  ultimately show ?thesis
    using fromString_is_fromTags [OF print_parse [OF u(1)]] u(2) by simp
qed

text \<open>The value the generated program is given is a well-formed one.\<close>

lemma media_formal:
  assumes "MediaUrn_fromString (urns pkg) s = Inr m"
  shows "scheme (tu_formalValue (urns pkg) (inner m)) = ''media''"
    and "Urn_wf (tu_formalValue (urns pkg) (inner m))"
proof -
  from assms obtain u where "tu_fromString (urns pkg) s = Inr u" and m: "m = CSMediaUrn u"
      "lowercase (tu_prefix (urns pkg) u) = ''media''"
    by (auto simp: MediaUrn_fromString_def MediaUrn_fromTaggedUrn_def split: sum.splits if_splits)
  then have "made_urn pkg u" by (auto simp: made_urn_def)
  with made_formal m show "scheme (tu_formalValue (urns pkg) (inner m)) = ''media''"
    and "Urn_wf (tu_formalValue (urns pkg) (inner m))" by simp_all
qed

lemma declared_formal:
  assumes "declared_cap pkg c"
  obtains im om eff w where "MediaUrn_fromString (urns pkg) (inSpec c) = Inr im"
    and "MediaUrn_fromString (urns pkg) (outSpec c) = Inr om"
    and "tu_fromPrefix pkg ''cap'' (mutableTags c) = Inr w"
    and "CSCapModelEffect (effectSpec c) = Inr eff"
    and "cap_formal c = \<lparr>wf_input = tu_formalValue (urns pkg) (inner im),
      wf_output = tu_formalValue (urns pkg) (inner om), wf_other = tu_formalValue (urns pkg) w,
      wf_effect = eff\<rparr>"
proof -
  from assms obtain w where w: "tu_fromPrefix pkg ''cap'' (mutableTags c) = Inr w"
      "constructed pkg (inSpec c) (outSpec c) (effectSpec c) w c"
    by (rule declared_steps)
  from w(2) have "CapUrn_init pkg (inSpec c) (outSpec c) (effectSpec c) w = Inr c"
    by (simp add: constructed_def)
  then obtain im om eff where parts: "MediaUrn_fromString (urns pkg) (inSpec c) = Inr im"
      "MediaUrn_fromString (urns pkg) (outSpec c) = Inr om"
      "CSCapModelEffect (effectSpec c) = Inr eff"
    and c: "c = \<lparr>inSpec = inSpec c, outSpec = outSpec c, effectSpec = effectSpec c,
        mutableTags = tags_of pkg w,
        cap_formal = \<lparr>wf_input = tu_formalValue (urns pkg) (inner im),
          wf_output = tu_formalValue (urns pkg) (inner om), wf_other = tu_formalValue (urns pkg) w,
          wf_effect = eff\<rparr>\<rparr>"
    by (auto simp: CapUrn_init_def CSCapModelMedia_def split: sum.splits)
  have "cap_formal c = \<lparr>wf_input = tu_formalValue (urns pkg) (inner im),
      wf_output = tu_formalValue (urns pkg) (inner om), wf_other = tu_formalValue (urns pkg) w,
      wf_effect = eff\<rparr>"
    by (subst c) simp
  with parts w(1) that show ?thesis by blast
qed

lemma declared_ok: "declared_cap pkg c \<Longrightarrow> WfCap_ok (cap_formal c)"
  by (erule declared_formal)
    (simp add: WfCap_ok_def media_formal(2) made_formal made_of_prefix)

end

end
