(* ===== verification/TextUrns.thy ===== *)
theory TextUrns
  imports CapLaws
begin

text \<open>
  A tagged URN package in the format the header \<open>CSCapUrn.h\<close> describes: a prefix and a colon, then the
  tags in the order of their keys, separated by semicolons; a tag with the value \<open>*\<close> is its key alone,
  every other one its key and its value in quotes, with a backslash before a quote and before a
  backslash.  The laws the cap URNs rest on hold of it.
\<close>

section \<open>The format\<close>

definition key_char :: "char \<Rightarrow> bool" where
  "key_char c \<longleftrightarrow> lowercase_char c = c \<and> c \<noteq> CHR '';'' \<and> c \<noteq> CHR ''=''"

definition tag_text :: "string \<times> string \<Rightarrow> string" where
  "tag_text kv =
     (if snd kv = ''*'' then fst kv
      else fst kv @ CHR ''='' # quote_char # escaped (snd kv) @ [quote_char])"

fun tags_text :: "(string \<times> string) list \<Rightarrow> string" where
  "tags_text [] = []"
| "tags_text [kv] = tag_text kv"
| "tags_text (kv # kvs) = tag_text kv @ CHR '';'' # tags_text kvs"

text \<open>What is left of a tag after its key: its value, and the text of the tags that follow.\<close>

definition tag_value :: "string \<Rightarrow> (string \<times> string) option" where
  "tag_value s =
     (case s of
        [] \<Rightarrow> Some (''*'', [])
      | c # r \<Rightarrow>
          (if c = CHR '';'' then Some (''*'', r)
           else
             (case r of
                [] \<Rightarrow> None
              | d # t \<Rightarrow>
                  (if c \<noteq> CHR ''='' then None
                   else if d \<noteq> quote_char then
                     Some (takeWhile (\<lambda>x. x \<noteq> CHR '';'') r, drop 1 (dropWhile (\<lambda>x. x \<noteq> CHR '';'') r))
                   else
                     (case unquoted t of
                        None \<Rightarrow> None
                      | Some (v, []) \<Rightarrow> Some (v, [])
                      | Some (v, e # q) \<Rightarrow> (if e = CHR '';'' then Some (v, q) else None))))))"

lemma tag_value_shorter: "tag_value s = Some (v, r) \<Longrightarrow> length r \<le> length s"
proof -
  have "length (dropWhile P xs) - Suc 0 \<le> Suc (Suc (length xs))" for P and xs :: string
    using length_dropWhile_le [of P xs] by linarith
  then show "tag_value s = Some (v, r) \<Longrightarrow> length r \<le> length s"
    by (auto simp: tag_value_def split: list.splits if_splits option.splits prod.splits
        dest!: unquoted_shorter)
qed

function tags_parsed :: "string \<Rightarrow> (string \<times> string) list option" where
  "tags_parsed s =
     (if s = [] then Some []
      else if takeWhile key_char s = [] then None
      else
        (case tag_value (dropWhile key_char s) of
           None \<Rightarrow> None
         | Some (v, r) \<Rightarrow>
             (case tags_parsed r of
                None \<Rightarrow> None
              | Some kvs \<Rightarrow> Some ((takeWhile key_char s, v) # kvs))))"
  by pat_completeness auto

termination
proof (relation "measure length")
  fix s p v r
  assume "takeWhile key_char s \<noteq> []" and tag: "tag_value (dropWhile key_char s) = Some p" "(v, r) = p"
  then have "length (takeWhile key_char s) > 0" by simp
  moreover have "length (takeWhile key_char s) + length (dropWhile key_char s) = length s"
    by (metis length_append takeWhile_dropWhile_id)
  moreover have "length r \<le> length (dropWhile key_char s)"
    using tag tag_value_shorter by (metis)
  ultimately have "length r < length s" by linarith
  then show "(r, s) \<in> measure length" by simp
qed simp

declare tags_parsed.simps [simp del]

section \<open>Reading what is printed\<close>

definition valid_entry :: "string \<Rightarrow> string \<Rightarrow> bool" where
  "valid_entry k v \<longleftrightarrow> k \<noteq> [] \<and> list_all key_char k \<and> v \<noteq> []"

lemma key_split:
  assumes "list_all key_char k" and "s = [] \<or> \<not> key_char (hd s)"
  shows "takeWhile key_char (k @ s) = k" and "dropWhile key_char (k @ s) = s"
  using assms by (auto simp: list_all_iff takeWhile_append dropWhile_append dest: hd_in_set)
    (cases s; simp)+

lemma tags_parsed_text:
  "list_all (\<lambda>(k, v). valid_entry k v) kvs \<Longrightarrow> tags_parsed (tags_text kvs) = Some kvs"
proof (induction kvs rule: tags_text.induct)
  case 1
  then show ?case by (simp add: tags_parsed.simps)
next
  case (2 kv)
  obtain k v where kv: "kv = (k, v)" by (cases kv)
  let ?s = "if v = ''*'' then [] else CHR ''='' # quote_char # escaped v @ [quote_char]"
  have key: "list_all key_char k" "k \<noteq> []" using 2 kv by (simp_all add: valid_entry_def)
  have printed: "tags_text [kv] = k @ ?s" by (simp add: kv tag_text_def)
  have "tag_value ?s = Some (v, [])"
    using unquoted_escaped [of v "[]"] by (simp add: tag_value_def)
  moreover have "?s = [] \<or> \<not> key_char (hd ?s)" by (simp add: key_char_def)
  ultimately show ?case
    using key_split [OF key(1)] key(2) unfolding printed
    by (subst tags_parsed.simps) (simp add: kv tags_parsed.simps [of "[]"])
next
  case (3 kv kv' kvs)
  obtain k v where kv: "kv = (k, v)" by (cases kv)
  let ?rest = "tags_text (kv' # kvs)"
  let ?s = "(if v = ''*'' then [] else CHR ''='' # quote_char # escaped v @ [quote_char]) @ CHR '';'' # ?rest"
  have key: "list_all key_char k" "k \<noteq> []" using 3(2) kv by (simp_all add: valid_entry_def)
  have printed: "tags_text (kv # kv' # kvs) = k @ ?s" by (simp add: kv tag_text_def)
  have "tag_value ?s = Some (v, ?rest)"
    using unquoted_escaped [of v "CHR '';'' # ?rest"] by (simp add: tag_value_def)
  moreover have "?s = [] \<or> \<not> key_char (hd ?s)" by (simp add: key_char_def)
  moreover have "tags_parsed ?rest = Some (kv' # kvs)" using 3 by simp
  ultimately show ?case
    using key_split [OF key(1)] key(2) unfolding printed
    by (subst tags_parsed.simps) (simp add: kv)
qed

section \<open>The package\<close>

record text_urn =
  text_prefix :: string
  text_tags :: "(string \<times> string) list"

type_synonym text_delta = "(string, string) fmap \<times> string list"

definition text_keys :: "(string, string) fmap \<Rightarrow> string list" where
  "text_keys m = sorted_list_of_fset (fmdom m)"

definition text_make :: "string \<Rightarrow> (string, string) fmap \<Rightarrow> text_urn" where
  "text_make p m =
     \<lparr>text_prefix = p,
      text_tags = map (\<lambda>k. (k, the (fmlookup m k))) (text_keys m)\<rparr>"

definition text_formal :: "text_urn \<Rightarrow> Urn" where
  "text_formal u =
     \<lparr>scheme = text_prefix u, tags = map (\<lambda>(k, v). (k, text_constraint v)) (text_tags u)\<rparr>"

definition text_read :: "string \<Rightarrow> string + text_urn" where
  "text_read s =
     (case dropWhile (\<lambda>c. c \<noteq> CHR '':'') s of
        [] \<Rightarrow> Inl ''missing prefix''
      | _ # r \<Rightarrow>
          (case tags_parsed r of
             None \<Rightarrow> Inl ''invalid character''
           | Some kvs \<Rightarrow>
               (if \<not> distinct (map fst kvs) then Inl ''duplicate key''
                else if \<not> list_all (\<lambda>(k, v). valid_entry k v) kvs then Inl ''missing value''
                else Inr (text_make (lowercase (takeWhile (\<lambda>c. c \<noteq> CHR '':'') s)) (fmap_of_list kvs)))))"

definition text_print :: "text_urn \<Rightarrow> string" where
  "text_print u = text_prefix u @ CHR '':'' # tags_text (text_tags u)"

definition text_fromPrefix :: "string \<Rightarrow> (string, string) fmap \<Rightarrow> string + text_urn" where
  "text_fromPrefix p m =
     (if list_all (\<lambda>(k, v). valid_entry k v) (text_tags (text_make p m)) then Inr (text_make p m)
      else Inl ''missing value'')"

definition text_map :: "text_urn \<Rightarrow> (string, string) fmap" where
  "text_map u = fmap_of_list (text_tags u)"

definition text_difference :: "text_urn \<Rightarrow> text_urn \<Rightarrow> text_delta" where
  "text_difference u base =
     (fmfilter (\<lambda>k. fmlookup (text_map base) k \<noteq> fmlookup (text_map u) k) (text_map u),
      filter (\<lambda>k. fmlookup (text_map u) k = None) (map fst (text_tags base)))"

definition text_apply :: "text_urn \<Rightarrow> text_delta \<Rightarrow> text_urn" where
  "text_apply u d =
     text_make (text_prefix u) (fmfilter (\<lambda>k. k \<notin> set (snd d)) (text_map u) ++\<^sub>f fst d)"

definition text_urns :: "(text_urn, text_delta) tagged_urn_package" where
  "text_urns =
     \<lparr>urns =
        \<lparr>tu_fromString = text_read, tu_prefix = text_prefix, tu_tags = text_tags,
         tu_getTag = (\<lambda>u k. map_of (text_tags u) (lowercase k)), tu_toString = text_print,
         tu_conformsTo = (\<lambda>u v. instDecidableRefines (text_formal u) (text_formal v)),
         tu_accepts = (\<lambda>u v. instDecidableRefines (text_formal v) (text_formal u)),
         tu_formalValue = text_formal\<rparr>,
      tu_fromPrefix = text_fromPrefix,
      tu_satisfies = (\<lambda>u v. instDecidableRefinesClosed (text_formal u) (text_formal v)),
      tu_meets = (\<lambda>u v. instDecidableMeets (text_formal u) (text_formal v)),
      tu_maySatisfy = (\<lambda>u v. instDecidableMeetsClosed (text_formal u) (text_formal v)),
      tu_deltaFrom = (\<lambda>u base. Some (text_difference u base)),
      tu_applyDelta = (\<lambda>u d. Some (text_apply u d)),
      tu_withTag = (\<lambda>u k v. text_make (text_prefix u) (fmupd k v (text_map u))),
      tu_withoutTag = (\<lambda>u k. text_make (text_prefix u) (fmdrop k (text_map u))),
      tu_specificity = (\<lambda>u. urnScore (text_formal u)),
      tu_leastUpperBound = (\<lambda>p us. Some \<lparr>text_prefix = p, text_tags = []\<rparr>)\<rparr>"

section \<open>It keeps the laws\<close>

lemma map_of_graph: "map_of (map (\<lambda>k. (k, f k)) ks) k = (if k \<in> set ks then Some (f k) else None)"
  by (induction ks) auto

lemma sorted_keys:
  "set (text_keys m) = {k. fmlookup m k \<noteq> None}"
  "distinct (text_keys m)"
  "sorted_wrt (<) (text_keys m)"
  by (auto simp: text_keys_def sorted_list_of_fset.rep_eq fmdom'_alt_def [symmetric] fmlookup_dom'_iff)

lemma text_make_lookup: "map_of (text_tags (text_make p m)) k = fmlookup m k"
  by (simp add: text_make_def map_of_graph sorted_keys)

lemma text_make_map [simp]: "text_map (text_make p m) = m"
  by (rule fmap_ext) (simp add: text_map_def fmlookup_of_list text_make_lookup)

lemma text_make_keys: "map fst (text_tags (text_make p m)) = text_keys m"
  by (simp add: text_make_def comp_def)

lemma text_make_distinct: "distinct (map fst (text_tags (text_make p m)))"
  by (simp add: text_make_keys sorted_keys)

lemma text_make_valid:
  "list_all (\<lambda>(k, v). valid_entry k v) (text_tags (text_make p m)) \<longleftrightarrow>
     (\<forall>k v. fmlookup m k = Some v \<longrightarrow> valid_entry k v)"
  by (auto simp: text_make_def list_all_iff sorted_keys)

lemma text_make_again: "text_make p (fmap_of_list (text_tags (text_make p m))) = text_make p m"
  using text_make_map [of p m] by (simp add: text_map_def)

lemma text_make_wf: "Urn_wf (text_formal (text_make p m))"
proof -
  show ?thesis
    using sorted_keys(3) [of m]
    by (simp add: Urn_wf_def sorted_tags_def text_formal_def text_make_def sorted_wrt_map)
qed

lemma valid_lower: "valid_entry k v \<Longrightarrow> lowercase k = k"
  by (auto simp: valid_entry_def key_char_def lowercase_def list_all_iff intro: map_idI)

lemma text_read_print:
  assumes "text_fromPrefix ''cap'' m = Inr u"
  shows "text_read (text_print u) = Inr u"
proof -
  have u: "u = text_make ''cap'' m"
    and valid: "list_all (\<lambda>(k, v). valid_entry k v) (text_tags u)"
    using assms by (auto simp: text_fromPrefix_def split: if_splits)
  then have "tags_parsed (tags_text (text_tags u)) = Some (text_tags u)"
    by (simp add: tags_parsed_text)
  moreover have "text_prefix u = ''cap''" by (simp add: u text_make_def)
  moreover have "lowercase ''cap'' = ''cap''" by (simp add: lowercase_def lowercase_char_def)
  ultimately show ?thesis
    using valid text_make_distinct [of "''cap''" m] text_make_again [of "''cap''" m]
    by (simp add: text_read_def text_print_def u)
qed

lemma text_read_made:
  assumes "text_read s = Inr u"
  shows "\<exists>p m. u = text_make (lowercase p) m \<and> (\<forall>k v. fmlookup m k = Some v \<longrightarrow> valid_entry k v)"
proof -
  obtain kvs where kvs: "list_all (\<lambda>(k, v). valid_entry k v) kvs"
    and u: "u = text_make (lowercase (takeWhile (\<lambda>c. c \<noteq> CHR '':'') s)) (fmap_of_list kvs)"
    using assms by (auto simp: text_read_def split: list.splits option.splits if_splits)
  from kvs have "fmlookup (fmap_of_list kvs) k = Some v \<Longrightarrow> valid_entry k v" for k v
    by (auto simp: fmlookup_of_list list_all_iff dest: map_of_SomeD)
  with u show ?thesis by blast
qed

lemma text_made:
  assumes "made_urn text_urns u"
  obtains p m where "u = text_make (lowercase p) m" and "\<forall>k v. fmlookup m k = Some v \<longrightarrow> valid_entry k v"
proof -
  from assms consider m where "text_fromPrefix ''cap'' m = Inr u" | s where "text_read s = Inr u"
    by (auto simp: made_urn_def text_urns_def)
  then show thesis
  proof cases
    case 1
    have "lowercase ''cap'' = ''cap''" by (simp add: lowercase_def lowercase_char_def)
    with 1 that [of "''cap''" m] show thesis
      by (auto simp: text_fromPrefix_def text_make_valid split: if_splits)
  next
    case 2
    with text_read_made that show thesis by blast
  qed
qed

interpretation texts: decided_urns text_urns
  by unfold_locales (simp_all add: text_urns_def)

lemma text_fields [simp]:
  "tu_fromString (urns text_urns) = text_read" "tu_prefix (urns text_urns) = text_prefix"
  "tu_tags (urns text_urns) = text_tags" "tu_toString (urns text_urns) = text_print"
  "tu_formalValue (urns text_urns) = text_formal" "tu_fromPrefix text_urns = text_fromPrefix"
  "tu_getTag (urns text_urns) u k = map_of (text_tags u) (lowercase k)"
  by (simp_all add: text_urns_def)

lemma fromPrefix_Inr:
  "text_fromPrefix p m = Inr u \<longleftrightarrow>
     u = text_make p m \<and> (\<forall>k v. fmlookup m k = Some v \<longrightarrow> valid_entry k v)"
  by (auto simp: text_fromPrefix_def text_make_valid)

interpretation texts: urn_package text_urns valid_entry
proof (unfold_locales, goal_cases)
  case (1 m)
  then show ?case by (simp add: fromPrefix_Inr)
next
  case (2 k v)
  then show ?case
    by (auto simp: is_structural_def valid_entry_def key_char_def lowercase_char_def)
next
  case (3 m u)
  then show ?case by (auto simp: fromPrefix_Inr text_make_def)
next
  case (4 m u)
  then show ?case using text_make_map by (auto simp: fromPrefix_Inr tags_of_def text_map_def)
next
  case (5 m u)
  then show ?case by (simp add: text_read_print)
next
  case (6 m u)
  then have "text_prefix u = ''cap''" by (auto simp: fromPrefix_Inr text_make_def)
  then show ?case by (simp add: text_print_def hasPrefix_def)
next
  case (7 u)
  then obtain p m where u: "u = text_make (lowercase p) m"
    and valid: "\<forall>k v. fmlookup m k = Some v \<longrightarrow> valid_entry k v" by (rule text_made)
  from valid have "list_all (\<lambda>k. lowercase k = k) (map fst (text_tags u))"
    using valid_lower by (auto simp: u text_make_keys list_all_iff sorted_keys)
  with u text_make_distinct show ?case by simp
next
  case (8 u)
  then obtain p m where u: "u = text_make (lowercase p) m" by (rule text_made)
  then show ?case using text_make_wf by (simp add: text_formal_def text_make_def)
next
  case (9 u)
  then show ?case by (simp add: text_formal_def)
next
  case (10 u k)
  then show ?case by simp
qed

end
