(* ===== verification/CapQuery.thy ===== *)
theory CapQuery
  imports CapUrn
begin

text \<open>
  Questions about caps (\<open>Urn/CSCapQuery.m\<close>): a request or a pattern read as a question, and the
  questions no cap URN can spell.  A question is the generated program's value with a text that says
  what was asked; every answer is the program's.
\<close>

datatype CSMatchGrade =
    CSMatchGradeExact | CSMatchGradeGuaranteed | CSMatchGradePossible | CSMatchGradeNone

definition CSMatchGradeName :: "CSMatchGrade \<Rightarrow> string" where
  "CSMatchGradeName g =
     (case g of
        CSMatchGradeExact \<Rightarrow> ''exact''
      | CSMatchGradeGuaranteed \<Rightarrow> ''guaranteed''
      | CSMatchGradePossible \<Rightarrow> ''possible''
      | CSMatchGradeNone \<Rightarrow> ''none'')"

record CSCapQuery =
  query_formal :: WfQuery
  asked :: string

definition CSCapQueryTagPattern ::
    "('t, 'd) tagged_urn_package \<Rightarrow> (string, string) fmap option \<Rightarrow> urn_failure + Urn" where
  "CSCapQueryTagPattern pkg ts =
     (case tu_fromPrefix pkg ''cap'' (case ts of None \<Rightarrow> fmempty | Some t \<Rightarrow> t) of
        Inl _ \<Rightarrow> Inl (Raises NSInvalidArgumentException)
      | Inr pattern \<Rightarrow> Inr (tu_formalValue (urns pkg) pattern))"

definition CapQuery_fromRequest ::
    "('t, 'd) tagged_urn_package \<Rightarrow> CSCapUrn \<Rightarrow> urn_failure + CSCapQuery" where
  "CapQuery_fromRequest pkg request =
     (case CapUrn_toString pkg request of
        Inl e \<Rightarrow> Inl e
      | Inr s \<Rightarrow> Inr \<lparr>query_formal = queryOfRequest (cap_formal request), asked = ''request '' @ s\<rparr>)"

definition CapQuery_fromPattern ::
    "('t, 'd) tagged_urn_package \<Rightarrow> CSCapUrn \<Rightarrow> urn_failure + CSCapQuery" where
  "CapQuery_fromPattern pkg pattern =
     (case CapUrn_toString pkg pattern of
        Inl e \<Rightarrow> Inl e
      | Inr s \<Rightarrow> Inr \<lparr>query_formal = queryOfPattern (cap_formal pattern), asked = ''pattern '' @ s\<rparr>)"

definition CapQuery_producing ::
    "('t, 'd) tagged_urn_package \<Rightarrow> 't CSMediaUrn \<Rightarrow> (string, string) fmap option \<Rightarrow>
     urn_failure + CSCapQuery" where
  "CapQuery_producing pkg out ts =
     (case CSCapQueryTagPattern pkg ts of
        Inl e \<Rightarrow> Inl e
      | Inr pattern \<Rightarrow>
          Inr \<lparr>query_formal = queryProducing (tu_formalValue (urns pkg) (inner out)) pattern,
               asked = ''anything giving '' @ MediaUrn_toString (urns pkg) out\<rparr>)"

definition CapQuery_consuming ::
    "('t, 'd) tagged_urn_package \<Rightarrow> 't CSMediaUrn \<Rightarrow> (string, string) fmap option \<Rightarrow>
     urn_failure + CSCapQuery" where
  "CapQuery_consuming pkg i ts =
     (case CSCapQueryTagPattern pkg ts of
        Inl e \<Rightarrow> Inl e
      | Inr pattern \<Rightarrow>
          Inr \<lparr>query_formal = queryConsuming (tu_formalValue (urns pkg) (inner i)) pattern,
               asked = ''anything taking '' @ MediaUrn_toString (urns pkg) i\<rparr>)"

definition CapQuery_betweenInput ::
    "('t, 'd) tagged_urn_package \<Rightarrow> 't CSMediaUrn \<Rightarrow> 't CSMediaUrn \<Rightarrow>
     (string, string) fmap option \<Rightarrow> urn_failure + CSCapQuery" where
  "CapQuery_betweenInput pkg i out ts =
     (case CSCapQueryTagPattern pkg ts of
        Inl e \<Rightarrow> Inl e
      | Inr pattern \<Rightarrow>
          Inr \<lparr>query_formal = queryBetween (tu_formalValue (urns pkg) (inner i))
                 (tu_formalValue (urns pkg) (inner out)) pattern,
               asked = ''anything taking '' @ MediaUrn_toString (urns pkg) i @ '' and giving '' @
                 MediaUrn_toString (urns pkg) out\<rparr>)"

definition CapQuery_admits :: "CSCapQuery \<Rightarrow> CSCapUrn \<Rightarrow> bool" where
  "CapQuery_admits q cap = queryAdmits (query_formal q) (cap_formal cap)"

definition CapQuery_mayAdmit :: "CSCapQuery \<Rightarrow> CSCapUrn \<Rightarrow> bool" where
  "CapQuery_mayAdmit q cap = queryMayAdmit (query_formal q) (cap_formal cap)"

definition CapQuery_grade :: "CSCapQuery \<Rightarrow> CSCapUrn \<Rightarrow> CSMatchGrade" where
  "CapQuery_grade q cap =
     (case queryGrade (query_formal q) (cap_formal cap) of
        Grade_exact \<Rightarrow> CSMatchGradeExact
      | Grade_guaranteed \<Rightarrow> CSMatchGradeGuaranteed
      | Grade_possible \<Rightarrow> CSMatchGradePossible
      | Grade_none \<Rightarrow> CSMatchGradeNone)"

end
