(* ===== verification/CapRules.thy ===== *)
theory CapRules
  imports TextUrns CapQuery
begin

text \<open>
  What the cap URN class promises: a cap is read back from its text and from its archive; the
  operations make only caps the constructor would make; a string and a dictionary of tags with one
  content make one cap; the kind is the generated program's; what a cap gives at run time is inferred
  and audited as its effect declares; and a cap that is dispatched to a request takes the request's
  inputs and gives what the request asked for.  The sample cap of the witnesses is made with the
  package of \<open>TextUrns\<close>.
\<close>

section \<open>A sample cap\<close>

lemma text_make_sorted:
  assumes "sorted_wrt (<) (map fst kvs)"
  shows "text_make p (fmap_of_list kvs) = \<lparr>text_prefix = p, text_tags = kvs\<rparr>"
proof -
  have "set (text_keys (fmap_of_list kvs)) = set (map fst kvs)"
    by (auto simp: sorted_keys fmlookup_of_list map_of_eq_None_iff)
  then have keys: "text_keys (fmap_of_list kvs) = map fst kvs"
    using sorted_keys(3) assms by (metis strict_sorted_equal)
  have "distinct (map fst kvs)" using assms by (simp add: strict_sorted_iff)
  then have "map (\<lambda>k. (k, the (fmlookup (fmap_of_list kvs) k))) (map fst kvs) = kvs"
    by (auto simp: fmlookup_of_list comp_def intro!: map_idI)
  with keys show ?thesis by (simp add: text_make_def)
qed

definition pdf_urn :: text_urn where
  "pdf_urn = \<lparr>text_prefix = ''media'', text_tags = [(''pdf'', ''*'')]\<rparr>"

definition text_medium :: text_urn where
  "text_medium = \<lparr>text_prefix = ''media'', text_tags = [(''text'', ''*'')]\<rparr>"

lemma text_read_marker:
  assumes "list_all key_char k" and "k \<noteq> []"
  shows "text_read (''media:'' @ k) = Inr \<lparr>text_prefix = ''media'', text_tags = [(k, ''*'')]\<rparr>"
proof -
  have "tags_parsed (tags_text [(k, ''*'')]) = Some [(k, ''*'')]"
    using assms by (intro tags_parsed_text) (simp add: valid_entry_def)
  then have "tags_parsed k = Some [(k, ''*'')]" by (simp add: tag_text_def)
  moreover have "text_make ''media'' (fmap_of_list [(k, ''*'')]) = \<lparr>text_prefix = ''media'', text_tags = [(k, ''*'')]\<rparr>"
    by (rule text_make_sorted) simp
  ultimately show ?thesis
    using assms by (simp add: text_read_def valid_entry_def lowercase_def lowercase_char_def)
qed

lemma sample_media:
  "MediaUrn_fromString (urns text_urns) ''media:pdf'' = Inr (CSMediaUrn pdf_urn)"
  "MediaUrn_fromString (urns text_urns) ''media:text'' = Inr (CSMediaUrn text_medium)"
  using text_read_marker [of "''pdf''"] text_read_marker [of "''text''"]
  by (simp_all add: MediaUrn_fromString_def MediaUrn_fromTaggedUrn_def pdf_urn_def text_medium_def
      lowercase_def lowercase_char_def key_char_def)

definition extract_urn :: text_urn where
  "extract_urn = \<lparr>text_prefix = ''cap'', text_tags = [(''extract'', ''*'')]\<rparr>"

definition extract_cap :: CSCapUrn where
  "extract_cap =
     \<lparr>inSpec = ''media:pdf'', outSpec = ''media:text'', effectSpec = ''declared'',
      mutableTags = fmupd ''extract'' ''*'' fmempty,
      cap_formal = \<lparr>wf_input = text_formal pdf_urn, wf_output = text_formal text_medium,
        wf_other = text_formal extract_urn, wf_effect = Effect_declared\<rparr>\<rparr>"

lemma extract_declared: "declared_cap text_urns extract_cap"
proof -
  have made: "text_fromPrefix ''cap'' (fmupd ''extract'' ''*'' fmempty) = Inr extract_urn"
    using text_make_sorted [of "[(''extract'', ''*'')]" "''cap''"]
    by (auto simp: fromPrefix_Inr extract_urn_def valid_entry_def key_char_def lowercase_char_def
        split: if_splits)
  show ?thesis
    by (simp add: declared_cap_def CapUrn_fromInSpec_def CapUrn_processSpec_def CapUrn_checkSpec_def
        CSCapNormalizeEffectValue_def CapUrn_validateAdmissible_def CapUrn_init_def CSCapModelMedia_def
        CSCapModelEffect_def CSCapEffectFromString_def sample_media made extract_cap_def tags_of_def
        MediaUrn_isTop_def pdf_urn_def)
      (simp add: extract_urn_def plain_tags_def is_structural_def lowercase_def lowercase_char_def)
qed

section \<open>The caps a caller can have\<close>

text \<open>A builder that has been given nothing but what its operations let through, and the caps made by
  reading, building, editing, merging, copying and decoding what was encoded.\<close>

inductive building :: "CSCapUrnBuilder \<Rightarrow> bool" where
  fresh: "building CapUrnBuilder_builder"
| taking: "building b \<Longrightarrow> building (CapUrnBuilder_inSpec b spec)"
| giving: "building b \<Longrightarrow> building (CapUrnBuilder_outSpec b spec)"
| having: "building b \<Longrightarrow> building (CapUrnBuilder_effect b eff)"
| tagged: "building b \<Longrightarrow> CapUrnBuilder_tag b key v = Inr b' \<Longrightarrow> building b'"
| marked: "building b \<Longrightarrow> CapUrnBuilder_marker b key = Inr b' \<Longrightarrow> building b'"

inductive obtained :: "('t, 'd) tagged_urn_package \<Rightarrow> CSCapUrn \<Rightarrow> bool" for pkg where
  read: "CapUrn_fromString pkg s = Inr c \<Longrightarrow> obtained pkg c"
| from_tags: "CapUrn_fromTags pkg entries = Inr c \<Longrightarrow> obtained pkg c"
| built: "building b \<Longrightarrow> CapUrnBuilder_build pkg b = Inr c \<Longrightarrow> obtained pkg c"
| with_tag: "obtained pkg c \<Longrightarrow> CapUrn_withTag pkg c key v = Inr c' \<Longrightarrow> obtained pkg c'"
| without_tag: "obtained pkg c \<Longrightarrow> CapUrn_withoutTag pkg c key = Inr c' \<Longrightarrow> obtained pkg c'"
| with_input: "obtained pkg c \<Longrightarrow> CapUrn_withInSpec pkg c spec = Inr c' \<Longrightarrow> obtained pkg c'"
| with_output: "obtained pkg c \<Longrightarrow> CapUrn_withOutSpec pkg c spec = Inr c' \<Longrightarrow> obtained pkg c'"
| with_effect: "obtained pkg c \<Longrightarrow> CapUrn_withEffect pkg c eff = Inr c' \<Longrightarrow> obtained pkg c'"
| wildcard: "obtained pkg c \<Longrightarrow> CapUrn_withWildcardTag pkg c key = Inr c' \<Longrightarrow> obtained pkg c'"
| subset: "obtained pkg c \<Longrightarrow> CapUrn_subset pkg c keys = Inr c' \<Longrightarrow> obtained pkg c'"
| merged: "obtained pkg c \<Longrightarrow> obtained pkg d \<Longrightarrow> CapUrn_merge pkg c d = Inr c' \<Longrightarrow> obtained pkg c'"
| copied: "obtained pkg c \<Longrightarrow> CapUrn_copy pkg c = Inr c' \<Longrightarrow> obtained pkg c'"
| decoded: "obtained pkg c \<Longrightarrow> CapUrn_initWithCoder pkg (CapUrn_encode c) = Inr c' \<Longrightarrow> obtained pkg c'"

lemma building_plain: "building b \<Longrightarrow> plain_tags (builderTags b)"
  by (induction rule: building.induct)
    (auto simp: CapUrnBuilder_builder_def CapUrnBuilder_inSpec_def CapUrnBuilder_outSpec_def
      CapUrnBuilder_effect_def CapUrnBuilder_tag_def CapUrnBuilder_marker_def split: if_splits)

context urn_package
begin

lemma build_declared:
  assumes "building b" and "CapUrnBuilder_build pkg b = Inr c"
  shows "declared_cap pkg c"
  using assms(2) fromInSpec_declared(1) building_plain [OF assms(1)]
  by (auto simp: CapUrnBuilder_build_def split: option.splits)

lemma obtained_declared: "obtained pkg c \<Longrightarrow> declared_cap pkg c"
proof (induction rule: obtained.induct)
  case (copied c c')
  then show ?case using declared_copy by fastforce
next
  case (decoded c c')
  then show ?case using initWithCoder_encode by fastforce
qed (auto intro: fromString_declared fromTags_declared build_declared edits_declared
    withWildcardTag_declared)

end

lemma extract_obtained: "obtained text_urns extract_cap"
  using texts.print_read [OF extract_declared] obtained.read by blast

section \<open>Reading back, and the operations\<close>

text \<open>C11: A cap is what its text says: whatever cap a caller has, it is printed without a failed
  assertion, and reading its text gives the same cap, fields and model value; so do copying it, and
  decoding its archive.\<close>

theorem cap_text_roundtrip:
  assumes "urn_package pkg valid" and "obtained pkg c"
  shows "(\<exists>s. CapUrn_toString pkg c = Inr s \<and> CapUrn_fromString pkg s = Inr c) \<and>
    CapUrn_copy pkg c = Inr c \<and> CapUrn_initWithCoder pkg (CapUrn_encode c) = Inr c"
proof -
  note cap = urn_package.obtained_declared [OF assms]
  show ?thesis
    using urn_package.print_read [OF assms(1) cap] urn_package.declared_copy [OF assms(1) cap]
      urn_package.initWithCoder_encode [OF assms(1) cap] by blast
qed

lemma cap_text_roundtrip_witness:
  "\<exists>s. CapUrn_toString text_urns extract_cap = Inr s \<and> CapUrn_fromString text_urns s = Inr extract_cap"
  using cap_text_roundtrip [OF texts.urn_package_axioms extract_obtained] by blast

text \<open>C10: Whatever a caller does to caps, it only ever has caps the constructor makes of their own
  fields, with lower-case tags beside the structural ones, with media URNs on both sides and with a
  well-formed model value; and merging two of them never raises: it gives the direction and the effect
  of the other cap and the tags of both, the other's winning.\<close>

theorem cap_operations_declared:
  assumes "urn_package pkg valid" and "obtained pkg c" and "obtained pkg d"
  shows "CapUrn_fromInSpec pkg (Some (inSpec c)) (Some (outSpec c)) (Some (effectSpec c)) (mutableTags c) =
      Inr c \<and> plain_tags (mutableTags c) \<and> WfCap_ok (cap_formal c) \<and>
    (\<exists>m. CapUrn_merge pkg c d = Inr m \<and> inSpec m = inSpec d \<and> outSpec m = outSpec d \<and>
       effectSpec m = effectSpec d \<and> mutableTags m = mutableTags c ++\<^sub>f mutableTags d)"
proof -
  note caps = assms(2,3) [THEN urn_package.obtained_declared [OF assms(1)]]
  show ?thesis
    using caps(1) urn_package.declared_ok [OF assms(1) caps(1)]
      urn_package.merge_total [OF assms(1) caps] urn_package.merge_fields [OF assms(1) caps]
    unfolding declared_cap_def by blast
qed

lemma cap_operations_declared_witness:
  "\<exists>m. CapUrn_merge text_urns extract_cap extract_cap = Inr m \<and> inSpec m = ''media:pdf''"
  using cap_operations_declared [OF texts.urn_package_axioms extract_obtained extract_obtained]
  by (auto simp: extract_cap_def)

text \<open>C12: A string and a dictionary make caps one way.  A string that is empty or not behind \<open>cap:\<close> (in
  whatever case) is refused, one the package cannot parse is refused with the code its message stands
  for, and any other is the cap, or the refusal, of the dictionary of its tags.\<close>

theorem fromString_reads_tags:
  assumes "urn_package pkg valid"
  shows "CapUrn_fromString pkg s =
    (if s = [] then Inl (Returns_nil CSCapUrnErrorInvalidFormat)
     else if lowercase (take 4 s) \<noteq> ''cap:'' then Inl (Returns_nil CSCapUrnErrorMissingCapPrefix)
     else case tu_fromString (urns pkg) s of
       Inl msg \<Rightarrow> Inl (Returns_nil (CapUrn_capUrnErrorFromTaggedUrnError msg))
     | Inr u \<Rightarrow>
         (if lowercase (tu_prefix (urns pkg) u) = ''cap'' then CapUrn_fromTags pkg (tu_tags (urns pkg) u)
          else Inl (Returns_nil CSCapUrnErrorMissingCapPrefix)))"
proof (cases "lowercase (take 4 s) = ''cap:''")
  case True
  then have "length (lowercase (take 4 s)) = 4" by simp
  then have "\<not> length s < 4" "s \<noteq> []" by (auto simp: lowercase_def)
  with True show ?thesis
    using urn_package.fromString_is_fromTags [OF assms _ True]
    by (cases "tu_fromString (urns pkg) s") (simp_all add: CapUrn_fromString_def)
next
  case False
  then show ?thesis by (simp add: CapUrn_fromString_def)
qed

lemma fromString_reads_tags_witness:
  "CapUrn_fromString text_urns ''media:pdf'' = Inl (Returns_nil CSCapUrnErrorMissingCapPrefix)"
  using fromString_reads_tags [OF texts.urn_package_axioms, of "''media:pdf''"]
  by (simp add: lowercase_def lowercase_char_def)

section \<open>The kind\<close>

definition kind_of :: "CapKind \<Rightarrow> CSCapKind" where
  "kind_of k =
     (case k of
        CapKind_identity \<Rightarrow> CSCapKindIdentity
      | CapKind_source \<Rightarrow> CSCapKindSource
      | CapKind_sink \<Rightarrow> CSCapKindSink
      | CapKind_effect \<Rightarrow> CSCapKindEffect
      | CapKind_transform \<Rightarrow> CSCapKindTransform)"

text \<open>A medium that is void by the marker, or not void.\<close>

definition plainly_void :: "('t, 'd) tagged_urn_package \<Rightarrow> string \<Rightarrow> bool" where
  "plainly_void pkg s \<longleftrightarrow>
     (\<forall>m v. MediaUrn_fromString (urns pkg) s = Inr m \<and>
        MediaUrn_getTag (urns pkg) m ''void'' = Some v \<longrightarrow> v = ''*'')"

context urn_package
begin

lemma media_top:
  assumes "MediaUrn_fromString (urns pkg) s = Inr m"
  shows "MediaUrn_isTop (urns pkg) m \<longleftrightarrow> tu_formalValue (urns pkg) (inner m) = mediaTop"
  using media_formal(1) [OF assms] formal_tags [of "inner m"]
  by (auto simp: MediaUrn_isTop_def mediaTop_def intro: Urn.equality)

lemma media_void:
  assumes "MediaUrn_fromString (urns pkg) s = Inr m" and "plainly_void pkg s"
  shows "MediaUrn_isVoid (urns pkg) m \<longleftrightarrow> tu_formalValue (urns pkg) (inner m) = mediaVoid"
proof -
  have void: "lowercase ''void'' = ''void''" by (simp add: lowercase_def lowercase_char_def)
  show ?thesis
  proof
    assume "MediaUrn_isVoid (urns pkg) m"
    then obtain v where v: "MediaUrn_getTag (urns pkg) m ''void'' = Some v"
      by (auto simp: MediaUrn_isVoid_def)
    then have "map_of (tu_tags (urns pkg) (inner m)) ''void'' = Some v"
      by (simp add: MediaUrn_getTag_def getTag_lookup void)
    from MediaUrn_void_atomic [OF assms(1) this]
    have "tu_tags (urns pkg) (inner m) = [(''void'', v)]" .
    moreover have "v = ''*''" using assms v by (auto simp: plainly_void_def)
    ultimately have "tags (tu_formalValue (urns pkg) (inner m)) = [(''void'', Constraint_present)]"
      by (simp add: formal_tags text_constraint_def)
    then show "tu_formalValue (urns pkg) (inner m) = mediaVoid"
      using media_formal(1) [OF assms(1)] by (auto simp: mediaVoid_def intro: Urn.equality)
  next
    assume "tu_formalValue (urns pkg) (inner m) = mediaVoid"
    then have "map (\<lambda>(k, v). (k, text_constraint v)) (tu_tags (urns pkg) (inner m)) =
        [(''void'', Constraint_present)]"
      using formal_tags [of "inner m"] by (simp add: mediaVoid_def)
    then show "MediaUrn_isVoid (urns pkg) m"
      by (auto simp: MediaUrn_isVoid_def MediaUrn_getTag_def getTag_lookup void map_eq_Cons_conv)
  qed
qed

lemma no_tags_formal:
  assumes "tu_fromPrefix pkg ''cap'' (mutableTags c) = Inr w" and "plain_tags (mutableTags c)"
  shows "mutableTags c = fmempty \<longleftrightarrow> tags (tu_formalValue (urns pkg) w) = []"
proof -
  have eq: "fmap_of_list (tu_tags (urns pkg) w) = mutableTags c"
    using fromPrefix_tags [OF assms(1) plain_lower [OF assms(2)]] by (simp add: tags_of_def)
  have "fmap_of_list (tu_tags (urns pkg) w) = fmempty \<longleftrightarrow> tu_tags (urns pkg) w = []"
    by (cases "tu_tags (urns pkg) w") (auto dest: arg_cong [where f = "\<lambda>m. fmlookup m (fst (hd (tu_tags (urns pkg) w)))"])
  then show ?thesis by (simp add: eq [symmetric] formal_tags)
qed

lemma kind_formal:
  assumes "declared_cap pkg c" and "plainly_void pkg (inSpec c)" and "plainly_void pkg (outSpec c)"
  shows "CapUrn_kind pkg c = Inr (kind_of (Cap_kind (WfCap_toCap (cap_formal c))))"
proof -
  from assms(1) obtain im om eff w where
      media: "MediaUrn_fromString (urns pkg) (inSpec c) = Inr im" "MediaUrn_fromString (urns pkg) (outSpec c) = Inr om"
    and w: "tu_fromPrefix pkg ''cap'' (mutableTags c) = Inr w"
    and eff: "CSCapModelEffect (effectSpec c) = Inr eff"
    and formal: "cap_formal c = \<lparr>wf_input = tu_formalValue (urns pkg) (inner im),
      wf_output = tu_formalValue (urns pkg) (inner om), wf_other = tu_formalValue (urns pkg) w,
      wf_effect = eff\<rparr>"
    by (rule declared_formal)
  obtain e where e: "CSCapEffectFromString (effectSpec c) = Inr e" "e = CSCapEffectNone \<longleftrightarrow> eff = Effect_none"
    using eff by (auto simp: CSCapModelEffect_def split: sum.splits CSCapEffect.splits)
  have "plain_tags (mutableTags c)" using assms(1) by (simp add: declared_cap_def)
  note no_tags = no_tags_formal [OF w this]
  have "mediaTop \<noteq> mediaVoid" by (simp add: mediaTop_def mediaVoid_def)
  then show ?thesis
    unfolding CapUrn_kind_def Cap_kind_def
    by (simp add: media e CapUrn_effect_def Let_def media_top [OF media(1)] media_top [OF media(2)]
        media_void [OF media(1) assms(2)] media_void [OF media(2) assms(3)] no_tags formal kind_of_def
        decide_simps)
qed

end

text \<open>C13: The kind of a cap, which the class works out from its media URNs, its effect and its tags, is
  the kind the generated program gives its model value, wherever void is written as the marker (the
  class takes any tag of that name for void, also one that rules void out); and the assertions on the
  way hold.\<close>

theorem cap_kind_agrees:
  assumes "urn_package pkg valid" and "obtained pkg c"
    and "plainly_void pkg (inSpec c)" and "plainly_void pkg (outSpec c)"
  shows "CapUrn_kind pkg c = Inr (kind_of (Cap_kind (WfCap_toCap (cap_formal c))))"
  using urn_package.kind_formal [OF assms(1) urn_package.obtained_declared [OF assms(1,2)] assms(3,4)] .

lemma cap_kind_agrees_witness: "CapUrn_kind text_urns extract_cap = Inr CSCapKindTransform"
proof -
  have "plainly_void text_urns (inSpec extract_cap)" "plainly_void text_urns (outSpec extract_cap)"
    by (auto simp: plainly_void_def extract_cap_def sample_media MediaUrn_getTag_def pdf_urn_def
        text_medium_def lowercase_def lowercase_char_def split: if_splits)
  from cap_kind_agrees [OF texts.urn_package_axioms extract_obtained this]
  show ?thesis
    by (simp add: extract_cap_def Cap_kind_def kind_of_def text_formal_def pdf_urn_def text_medium_def
        mediaTop_def mediaVoid_def decide_simps Let_def)
qed

section \<open>What a cap gives at run time\<close>

text \<open>A medium whose tags all say something: none is the unconstrained one.\<close>

definition says_something :: "('t, 'd) tagged_urn_package \<Rightarrow> 't CSMediaUrn \<Rightarrow> bool" where
  "says_something pkg m \<longleftrightarrow>
     list_all (\<lambda>(k, c). c \<noteq> Constraint_unconstrained) (tags (tu_formalValue (urns pkg) (inner m)))"

lemma tag_of_says: "list_all (\<lambda>(k, c). c \<noteq> Constraint_unconstrained) ts \<Longrightarrow> tag_of ts k \<noteq> Constraint_unconstrained"
  by (induction ts) (auto simp: tag_of_Cons)

lemma tagMatch_mutual:
  assumes "tagMatch a b" "tagMatch b a" "a \<noteq> Constraint_unconstrained"
    and "tagMatch (Constraint_closed b) d"
  shows "tagMatch (Constraint_closed a) d"
  using assms
  by (cases a; cases b; cases d) (simp_all add: tagMatch_def Constraint_closed_def split: if_splits)

context decided_urns
begin

lemma equivalent_satisfies:
  assumes "MediaUrn_isEquivalentTo (urns pkg) m n" and "says_something pkg m"
    and "MediaUrn_satisfies pkg n p"
  shows "MediaUrn_satisfies pkg m p"
proof -
  let ?f = "\<lambda>m. tu_formalValue (urns pkg) (inner m)"
  have both: "instDecidableRefines (?f m) (?f n)" "instDecidableRefines (?f n) (?f m)"
    and right: "instDecidableRefinesClosed (?f n) (?f p)"
    using assms(1,3)
    by (simp_all add: equivalent_iff MediaUrn_conformsTo_def MediaUrn_satisfies_def conforms_formal
        satisfies_formal)
  have "tagMatch (Constraint_closed (tag_of (tags (?f m)) k)) (tag_of (tags (?f p)) k)" for k
  proof (rule tagMatch_mutual)
    show "tag_of (tags (?f m)) k \<noteq> Constraint_unconstrained"
      using assms(2) tag_of_says by (simp add: says_something_def)
    show "tagMatch (tag_of (tags (?f m)) k) (tag_of (tags (?f n)) k)"
      and "tagMatch (tag_of (tags (?f n)) k) (tag_of (tags (?f m)) k)"
      using both by (simp_all add: Refines_iff)
    show "tagMatch (Constraint_closed (tag_of (tags (?f n)) k)) (tag_of (tags (?f p)) k)"
      using right by (simp add: RefinesClosed_iff)
  qed
  with both right show ?thesis
    by (simp add: MediaUrn_satisfies_def satisfies_formal Refines_iff RefinesClosed_iff)
qed

lemma infer_cases:
  assumes "MediaUrn_fromString (urns pkg) (inSpec c) = Inr din"
    and "MediaUrn_fromString (urns pkg) (outSpec c) = Inr dout" and "CapUrn_effect c = Inr e"
  shows "CapUrn_inferRuntimeOutputMedia pkg c rin = Inr m \<longleftrightarrow>
    MediaUrn_satisfies pkg rin din \<and> MediaUrn_satisfies pkg m dout \<and>
    (case e of
       CSCapEffectDeclared \<Rightarrow> m = dout
     | CSCapEffectNone \<Rightarrow> m = rin
     | CSCapEffectPatch \<Rightarrow>
         (\<exists>d. MediaUrn_deltaFrom pkg dout din = Some d \<and> MediaUrn_applyDelta pkg rin d = Some m)
     | CSCapEffectAny \<Rightarrow> False)"
  using assms satisfies_refl
  by (cases e) (auto simp: CapUrn_inferRuntimeOutputMedia_def Let_def split: option.splits if_splits)

lemma audit_cases:
  assumes "CapUrn_inferRuntimeOutputMedia pkg c rin = Inr m" and "CapUrn_effect c = Inr e"
    and "e \<noteq> CSCapEffectAny"
  shows "CapUrn_isConformantRuntimeOutput pkg c rin rout =
    Inr (if e = CSCapEffectDeclared then MediaUrn_satisfies pkg rout m
         else MediaUrn_isEquivalentTo (urns pkg) rout m)"
  using assms by (cases e) (simp_all add: CapUrn_isConformantRuntimeOutput_def)

lemma audit_inferred:
  assumes "MediaUrn_fromString (urns pkg) (inSpec c) = Inr din"
    and "MediaUrn_fromString (urns pkg) (outSpec c) = Inr dout" and "CapUrn_effect c = Inr e"
    and "CapUrn_inferRuntimeOutputMedia pkg c rin = Inr m"
  shows "CapUrn_isConformantRuntimeOutput pkg c rin m = Inr True"
  using audit_cases [OF assms(4,3), of m] assms(4) [unfolded infer_cases [OF assms(1,2,3)]]
    satisfies_refl [of m] equivalent_refl [of m] by (cases e) auto

lemma audit_sound:
  assumes "MediaUrn_fromString (urns pkg) (inSpec c) = Inr din"
    and "MediaUrn_fromString (urns pkg) (outSpec c) = Inr dout" and "CapUrn_effect c = Inr e"
    and "CapUrn_isConformantRuntimeOutput pkg c rin rout = Inr True" and "says_something pkg rout"
  shows "MediaUrn_satisfies pkg rin din \<and> MediaUrn_satisfies pkg rout dout"
proof -
  obtain m where m: "CapUrn_inferRuntimeOutputMedia pkg c rin = Inr m"
    using assms(4) by (auto simp: CapUrn_isConformantRuntimeOutput_def split: sum.splits)
  note cases = m [unfolded infer_cases [OF assms(1,2,3)]]
  have "e \<noteq> CSCapEffectAny" using cases by auto
  with audit_cases [OF m assms(3)] assms(4) have "(e = CSCapEffectDeclared \<and> MediaUrn_satisfies pkg rout m) \<or>
      MediaUrn_isEquivalentTo (urns pkg) rout m"
    by (simp split: if_splits)
  then have "MediaUrn_satisfies pkg rout dout"
    using cases equivalent_satisfies [OF _ assms(5)] by auto
  with cases show ?thesis by simp
qed

end

text \<open>C9: What a cap gives at run time is what its effect declares, of every cap a caller has.  The
  output is inferred only for inputs that satisfy the declared input.  Of those, \<open>none\<close> gives the input
  itself and \<open>declared\<close> the declared output, for every one (that \<open>none\<close> never fails is what the
  constructor's check is for), \<open>?\<close> nothing.  An inferred output satisfies the declared output and
  passes the audit; and an output that passes the audit, and whose tags all say something, satisfies
  the declared output.\<close>

theorem runtime_output_sound:
  assumes "urn_package pkg valid" and "obtained pkg c"
  shows "\<exists>din dout e. MediaUrn_fromString (urns pkg) (inSpec c) = Inr din \<and>
    MediaUrn_fromString (urns pkg) (outSpec c) = Inr dout \<and> CapUrn_effect c = Inr e \<and>
    (\<forall>rin. MediaUrn_satisfies pkg rin din \<longrightarrow>
       (e = CSCapEffectNone \<longrightarrow> CapUrn_inferRuntimeOutputMedia pkg c rin = Inr rin) \<and>
       (e = CSCapEffectDeclared \<longrightarrow> CapUrn_inferRuntimeOutputMedia pkg c rin = Inr dout)) \<and>
    (\<forall>rin m. CapUrn_inferRuntimeOutputMedia pkg c rin = Inr m \<longrightarrow>
       MediaUrn_satisfies pkg rin din \<and> MediaUrn_satisfies pkg m dout \<and> e \<noteq> CSCapEffectAny \<and>
       CapUrn_isConformantRuntimeOutput pkg c rin m = Inr True) \<and>
    (\<forall>rin rout. CapUrn_isConformantRuntimeOutput pkg c rin rout = Inr True \<and> says_something pkg rout \<longrightarrow>
       MediaUrn_satisfies pkg rin din \<and> MediaUrn_satisfies pkg rout dout)"
proof -
  note decided = urn_package.axioms(1) [OF assms(1)]
  from urn_package.obtained_declared [OF assms] obtain din dout e where
      parts: "MediaUrn_fromString (urns pkg) (inSpec c) = Inr din"
      "MediaUrn_fromString (urns pkg) (outSpec c) = Inr dout" "CapUrn_effect c = Inr e"
    and none: "e = CSCapEffectNone \<Longrightarrow> MediaUrn_conformsTo (urns pkg) din dout"
    using urn_package.declared_specs [OF assms(1)] unfolding CapUrn_effect_def by metis
  note infer = decided_urns.infer_cases [OF decided parts]
  have "CapUrn_inferRuntimeOutputMedia pkg c rin = Inr rin"
    if "MediaUrn_satisfies pkg rin din" "e = CSCapEffectNone" for rin
    using decided_urns.satisfies_conforms [OF decided] none that unfolding infer by force
  moreover have "CapUrn_inferRuntimeOutputMedia pkg c rin = Inr dout"
    if "MediaUrn_satisfies pkg rin din" "e = CSCapEffectDeclared" for rin
    using decided_urns.satisfies_refl [OF decided] that unfolding infer by force
  moreover have "MediaUrn_satisfies pkg rin din \<and> MediaUrn_satisfies pkg m dout \<and> e \<noteq> CSCapEffectAny"
    if "CapUrn_inferRuntimeOutputMedia pkg c rin = Inr m" for rin m
    using that unfolding infer by auto
  ultimately show ?thesis
    using parts decided_urns.audit_inferred [OF decided parts] decided_urns.audit_sound [OF decided parts]
    by blast
qed

lemma extract_specs:
  "MediaUrn_fromString (urns text_urns) (inSpec extract_cap) = Inr (CSMediaUrn pdf_urn)"
  "MediaUrn_fromString (urns text_urns) (outSpec extract_cap) = Inr (CSMediaUrn text_medium)"
  "CapUrn_effect extract_cap = Inr CSCapEffectDeclared"
  by (simp_all add: extract_cap_def sample_media CapUrn_effect_def CSCapEffectFromString_def)

lemma runtime_output_sound_witness:
  "CapUrn_inferRuntimeOutputMedia text_urns extract_cap (CSMediaUrn pdf_urn) = Inr (CSMediaUrn text_medium)"
proof -
  obtain din dout e where parts: "MediaUrn_fromString (urns text_urns) (inSpec extract_cap) = Inr din"
      "MediaUrn_fromString (urns text_urns) (outSpec extract_cap) = Inr dout"
      "CapUrn_effect extract_cap = Inr e"
    and infer: "\<And>rin. MediaUrn_satisfies text_urns rin din \<Longrightarrow> e = CSCapEffectDeclared \<Longrightarrow>
      CapUrn_inferRuntimeOutputMedia text_urns extract_cap rin = Inr dout"
    using runtime_output_sound [OF texts.urn_package_axioms extract_obtained] by blast
  have "din = CSMediaUrn pdf_urn" "dout = CSMediaUrn text_medium" "e = CSCapEffectDeclared"
    using parts extract_specs by simp_all
  with infer texts.satisfies_refl show ?thesis by blast
qed

section \<open>From dispatch to the output\<close>

context urn_package
begin

lemma dispatch_sides:
  assumes "declared_cap pkg c" and "declared_cap pkg r" and "CapUrn_isDispatchable c r"
    and "\<not> Exec_unconstrained (wf_input (cap_formal r))"
    and "MediaUrn_fromString (urns pkg) (inSpec r) = Inr asked_in"
    and "MediaUrn_fromString (urns pkg) (outSpec r) = Inr asked_out"
    and "MediaUrn_fromString (urns pkg) (inSpec c) = Inr din"
    and "MediaUrn_fromString (urns pkg) (outSpec c) = Inr dout"
  shows "MediaUrn_conformsTo (urns pkg) asked_in din \<and> MediaUrn_conformsTo (urns pkg) dout asked_out"
proof -
  note ok = assms(1,2) [THEN declared_ok]
  have formal: "wf_input (cap_formal x) = tu_formalValue (urns pkg) (inner i) \<and>
      wf_output (cap_formal x) = tu_formalValue (urns pkg) (inner out)"
    if "declared_cap pkg x" "MediaUrn_fromString (urns pkg) (inSpec x) = Inr i"
      "MediaUrn_fromString (urns pkg) (outSpec x) = Inr out" for x i out
    using declared_formal [OF that(1)] that(2,3) by fastforce
  have "instDecidableServes (WfCap_toCap (cap_formal c)) (WfCap_toCap (cap_formal r))"
    using assms(3) dispatch_spec [OF ok] by (simp add: CapUrn_isDispatchable_def)
  moreover have "\<not> instDecidableUnconstrainedMedia (wf_input (cap_formal r))"
    using assms(4) ok(2) unconstrained_spec by (simp add: WfCap_ok_def)
  ultimately show ?thesis
    using formal [OF assms(1) assms(7,8)] formal [OF assms(2) assms(5,6)]
    by (simp add: Serves_iff MediaUrn_conformsTo_def conforms_formal)
qed

end

text \<open>C8: A cap that is dispatched to a request delivers.  When the request's input is not left open,
  every runtime input that satisfies it is one the cap takes (a cap whose effect is \<open>declared\<close> or
  \<open>none\<close> infers an output of it), and every output that the audit of the cap lets through, and whose
  tags all say something, satisfies what the request asked for.\<close>

theorem dispatched_cap_delivers:
  assumes "urn_package pkg valid" and "obtained pkg c" and "obtained pkg r"
    and "CapUrn_isDispatchable c r" and "\<not> Exec_unconstrained (wf_input (cap_formal r))"
    and "MediaUrn_fromString (urns pkg) (inSpec r) = Inr asked_in"
    and "MediaUrn_fromString (urns pkg) (outSpec r) = Inr asked_out"
    and "MediaUrn_satisfies pkg rin asked_in"
  shows "(CapUrn_effect c \<in> {Inr CSCapEffectDeclared, Inr CSCapEffectNone} \<longrightarrow>
      (\<exists>m. CapUrn_inferRuntimeOutputMedia pkg c rin = Inr m)) \<and>
    (\<forall>rout. CapUrn_isConformantRuntimeOutput pkg c rin rout = Inr True \<and> says_something pkg rout \<longrightarrow>
      MediaUrn_satisfies pkg rout asked_out)"
proof -
  note decided = urn_package.axioms(1) [OF assms(1)]
  note caps = assms(2,3) [THEN urn_package.obtained_declared [OF assms(1)]]
  from caps(1) obtain din dout e where
      parts: "MediaUrn_fromString (urns pkg) (inSpec c) = Inr din"
      "MediaUrn_fromString (urns pkg) (outSpec c) = Inr dout" "CapUrn_effect c = Inr e"
    and none: "e = CSCapEffectNone \<Longrightarrow> MediaUrn_conformsTo (urns pkg) din dout"
    using urn_package.declared_specs [OF assms(1)] unfolding CapUrn_effect_def by metis
  note sides = urn_package.dispatch_sides [OF assms(1) caps assms(4-7) parts(1,2)]
  note satisfies = decided_urns.satisfies_conforms [OF decided]
  have takes: "MediaUrn_satisfies pkg rin din" using satisfies [OF assms(8)] sides by blast
  have "\<exists>m. CapUrn_inferRuntimeOutputMedia pkg c rin = Inr m" if "e \<in> {CSCapEffectDeclared, CSCapEffectNone}"
    using that takes decided_urns.satisfies_refl [OF decided] satisfies [OF takes] none
    unfolding decided_urns.infer_cases [OF decided parts] by force
  moreover have "MediaUrn_satisfies pkg rout asked_out"
    if "CapUrn_isConformantRuntimeOutput pkg c rin rout = Inr True" "says_something pkg rout" for rout
    using decided_urns.audit_sound [OF decided parts that] satisfies sides by blast
  ultimately show ?thesis using parts(3) by simp
qed

lemma extract_closed: "\<not> Exec_unconstrained (wf_input (cap_formal extract_cap))"
proof -
  have "Urn_wf (text_formal pdf_urn)" by (simp add: Urn_wf_def text_formal_def pdf_urn_def)
  then show ?thesis
    by (simp add: extract_cap_def unconstrained_spec instDecidableUnconstrainedMedia_def mediaTop_def
        instDecidableRefines_def text_formal_def pdf_urn_def text_constraint_def hasPrefix_def Urn_keys_def
        Urn_tag_def tagMatch_def)
qed

lemma extract_serves_itself: "CapUrn_isDispatchable extract_cap extract_cap"
  using texts.declared_ok [OF extract_declared]
  by (simp add: CapUrn_isDispatchable_def dispatch_spec Serves_iff accepting.below_refl
      Refines_RefinesClosed)

lemma dispatched_cap_delivers_witness:
  "\<exists>m. CapUrn_inferRuntimeOutputMedia text_urns extract_cap (CSMediaUrn pdf_urn) = Inr m"
proof -
  show ?thesis
    using dispatched_cap_delivers [OF texts.urn_package_axioms extract_obtained extract_obtained
        extract_serves_itself extract_closed extract_specs(1,2) texts.satisfies_refl]
    by (simp add: extract_specs(3))
qed

section \<open>Questions\<close>

text \<open>Asking a cap and asking the question it is read as are one: the grades are the levels of the
  answers.\<close>

lemma request_as_question:
  assumes "urn_package pkg valid" and "obtained pkg c" and "obtained pkg r"
  shows "\<exists>q. CapQuery_fromRequest pkg r = Inr q \<and> CapUrn_isDispatchable c r = CapQuery_admits q c \<and>
    CapUrn_mayDispatch c r = CapQuery_mayAdmit q c \<and>
    (CapUrn_isDispatchable c r \<longleftrightarrow> CapQuery_grade q c \<in> {CSMatchGradeExact, CSMatchGradeGuaranteed}) \<and>
    (CapUrn_mayDispatch c r \<longleftrightarrow> CapQuery_grade q c \<noteq> CSMatchGradeNone)"
proof -
  note caps = assms(2,3) [THEN urn_package.obtained_declared [OF assms(1)]]
  note ok = caps [THEN urn_package.declared_ok [OF assms(1)]]
  let ?q = "queryOfRequest (cap_formal r)"
  obtain s where s: "CapUrn_toString pkg r = Inr s"
    using urn_package.print_read [OF assms(1) caps(2)] by blast
  have "queryAdmits (WfQuery_exactly ?q) (cap_formal c) \<Longrightarrow> queryAdmits ?q (cap_formal c)"
    "queryAdmits ?q (cap_formal c) \<Longrightarrow> queryMayAdmit ?q (cap_formal c)"
    using Admits_1_exactly Admits_1_MayAdmit_1
    by (simp_all add: query_specs ok)
  then show ?thesis
    by (auto simp: CapQuery_fromRequest_def s CapUrn_isDispatchable_def CapUrn_mayDispatch_def
        Exec_dispatch_def Exec_mayDispatch_def CapQuery_admits_def CapQuery_mayAdmit_def
        CapQuery_grade_def queryGrade_def)
qed

end
