(* ===== verification/CapMatcher.thy ===== *)
theory CapMatcher
  imports CapRules
begin

text \<open>
  Choosing among caps (\<open>Cap/CSCapMatcher.m\<close>): the caps a request accepts, the most specific first, then
  those with more tags, then in the order of their texts.  A cap a caller can have is printed
  (\<open>cap_text_roundtrip\<close>); for one that is not, whose text is the failure of an assertion, the text is
  empty here.
\<close>

section \<open>The matcher\<close>

definition cap_text :: "('t, 'd) tagged_urn_package \<Rightarrow> CSCapUrn \<Rightarrow> string" where
  "cap_text pkg c = (case CapUrn_toString pkg c of Inl _ \<Rightarrow> '''' | Inr s \<Rightarrow> s)"

definition tag_count :: "CSCapUrn \<Rightarrow> nat" where
  "tag_count c = fcard (fmdom (mutableTags c))"

definition CapMatcher_compare ::
    "('t, 'd) tagged_urn_package \<Rightarrow> CSCapUrn \<Rightarrow> CSCapUrn \<Rightarrow> NSComparisonResult" where
  "CapMatcher_compare pkg cap1 cap2 =
     (let spec1 = CapUrn_specificity cap1; spec2 = CapUrn_specificity cap2;
          count1 = tag_count cap1; count2 = tag_count cap2
      in if spec1 \<noteq> spec2 then (if spec2 < spec1 then NSOrderedAscending else NSOrderedDescending)
         else if count1 \<noteq> count2 then (if count2 < count1 then NSOrderedAscending else NSOrderedDescending)
         else compare_linorder (cap_text pkg cap1) (cap_text pkg cap2))"

definition CapMatcher_sortCapsBySpecificity ::
    "('t, 'd) tagged_urn_package \<Rightarrow> CSCapUrn list \<Rightarrow> CSCapUrn list" where
  "CapMatcher_sortCapsBySpecificity pkg caps = sort_by (CapMatcher_compare pkg) caps"

definition CapMatcher_findAllMatches ::
    "('t, 'd) tagged_urn_package \<Rightarrow> CSCapUrn list \<Rightarrow> CSCapUrn \<Rightarrow> CSCapUrn list" where
  "CapMatcher_findAllMatches pkg caps request =
     CapMatcher_sortCapsBySpecificity pkg (filter (\<lambda>cap. CapUrn_accepts request (Some cap)) caps)"

definition CapMatcher_findBestMatch ::
    "('t, 'd) tagged_urn_package \<Rightarrow> CSCapUrn list \<Rightarrow> CSCapUrn \<Rightarrow> CSCapUrn option" where
  "CapMatcher_findBestMatch pkg caps request =
     (case CapMatcher_findAllMatches pkg caps request of [] \<Rightarrow> None | c # _ \<Rightarrow> Some c)"

definition CapMatcher_acceptsRequest :: "CSCapUrn \<Rightarrow> CSCapUrn \<Rightarrow> (string \<rightharpoonup> 'v) option \<Rightarrow> bool" where
  "CapMatcher_acceptsRequest cap request ctx =
     (if \<not> CapUrn_accepts request (Some cap) then False else if ctx = None then True else True)"

section \<open>The order\<close>

definition match_le :: "('t, 'd) tagged_urn_package \<Rightarrow> CSCapUrn \<Rightarrow> CSCapUrn \<Rightarrow> bool" where
  "match_le pkg c d \<longleftrightarrow>
     CapUrn_specificity d < CapUrn_specificity c \<or>
     CapUrn_specificity d = CapUrn_specificity c \<and>
       (tag_count d < tag_count c \<or> tag_count d = tag_count c \<and> cap_text pkg c \<le> cap_text pkg d)"

interpretation by_match: comparator "CapMatcher_compare pkg" "match_le pkg" for pkg
  by unfold_locales (auto simp: CapMatcher_compare_def match_le_def compare_linorder_def Let_def)

lemma all_matches_set:
  "set (CapMatcher_findAllMatches pkg caps request) =
    {c \<in> set caps. CapUrn_accepts request (Some c)}"
  by (simp add: CapMatcher_findAllMatches_def CapMatcher_sortCapsBySpecificity_def)

lemma all_matches_sorted: "sorted_wrt (match_le pkg) (CapMatcher_findAllMatches pkg caps request)"
  by (simp add: CapMatcher_findAllMatches_def CapMatcher_sortCapsBySpecificity_def by_match.sorted_sort_by)

context urn_package
begin

lemma same_text:
  assumes "declared_cap pkg c" and "declared_cap pkg d" and "cap_text pkg c = cap_text pkg d"
  shows "c = d"
proof -
  obtain s t where "CapUrn_toString pkg c = Inr s" "CapUrn_fromString pkg s = Inr c"
      "CapUrn_toString pkg d = Inr t" "CapUrn_fromString pkg t = Inr d"
    using print_read [OF assms(1)] print_read [OF assms(2)] by blast
  then show ?thesis using assms(3) by (simp add: cap_text_def)
qed

lemma matches_order:
  assumes "list_all (declared_cap pkg) caps" and "mset caps = mset caps'"
  shows "CapMatcher_findAllMatches pkg caps request = CapMatcher_findAllMatches pkg caps' request"
  unfolding CapMatcher_findAllMatches_def CapMatcher_sortCapsBySpecificity_def
proof (rule by_match.sort_by_order)
  show "mset (filter (\<lambda>c. CapUrn_accepts request (Some c)) caps) =
      mset (filter (\<lambda>c. CapUrn_accepts request (Some c)) caps')"
    using assms(2) by simp
  fix c d
  assume "c \<in> set (filter (\<lambda>c. CapUrn_accepts request (Some c)) caps)"
    "d \<in> set (filter (\<lambda>c. CapUrn_accepts request (Some c)) caps)"
    and "match_le pkg c d" "match_le pkg d c"
  then show "c = d"
    using assms(1) by (intro same_text) (auto simp: list_all_iff match_le_def)
qed

end

section \<open>The match\<close>

text \<open>The match for a request is well chosen.  There is one exactly when the request accepts one of the
  caps.  It is then one of the caps and accepted, no accepted cap is more specific, and none as specific
  has more tags; and it is the same in whatever order the caps are given, as are all the matches.\<close>

theorem best_match_chosen:
  assumes "urn_package pkg valid" and "list_all (obtained pkg) caps" and "mset caps' = mset caps"
  shows "CapMatcher_findAllMatches pkg caps' request = CapMatcher_findAllMatches pkg caps request \<and>
    CapMatcher_findBestMatch pkg caps' request = CapMatcher_findBestMatch pkg caps request \<and>
    (case CapMatcher_findBestMatch pkg caps request of
       None \<Rightarrow> list_all (\<lambda>d. \<not> CapUrn_accepts request (Some d)) caps
     | Some c \<Rightarrow> c \<in> set caps \<and> CapUrn_accepts request (Some c) \<and>
         list_all (\<lambda>d. CapUrn_accepts request (Some d) \<longrightarrow>
           CapUrn_specificity d < CapUrn_specificity c \<or>
           CapUrn_specificity d = CapUrn_specificity c \<and> tag_count d \<le> tag_count c) caps)"
proof -
  have "list_all (declared_cap pkg) caps'"
    using assms(2) urn_package.obtained_declared [OF assms(1)] mset_eq_setD [OF assms(3)]
    by (auto simp: list_all_iff)
  then have same: "CapMatcher_findAllMatches pkg caps' request = CapMatcher_findAllMatches pkg caps request"
    using urn_package.matches_order [OF assms(1)] assms(3) by blast
  have "case CapMatcher_findBestMatch pkg caps request of
       None \<Rightarrow> list_all (\<lambda>d. \<not> CapUrn_accepts request (Some d)) caps
     | Some c \<Rightarrow> c \<in> set caps \<and> CapUrn_accepts request (Some c) \<and>
         list_all (\<lambda>d. CapUrn_accepts request (Some d) \<longrightarrow>
           CapUrn_specificity d < CapUrn_specificity c \<or>
           CapUrn_specificity d = CapUrn_specificity c \<and> tag_count d \<le> tag_count c) caps"
  proof (cases "CapMatcher_findAllMatches pkg caps request")
    case Nil
    then show ?thesis
      using all_matches_set [of pkg caps request] by (auto simp: CapMatcher_findBestMatch_def list_all_iff)
  next
    case (Cons c cs)
    have "c \<in> {c \<in> set caps. CapUrn_accepts request (Some c)}"
      using Cons all_matches_set [of pkg caps request] by (metis list.set_intros(1))
    moreover have "match_le pkg c d" if "d \<in> set caps" "CapUrn_accepts request (Some d)" for d
    proof -
      have "d \<in> set (c # cs)" using that Cons all_matches_set [of pkg caps request] by auto
      then show ?thesis
        using all_matches_sorted [of pkg caps request] Cons by (auto simp: match_le_def)
    qed
    ultimately show ?thesis
      using Cons by (fastforce simp: CapMatcher_findBestMatch_def list_all_iff match_le_def)
  qed
  then show ?thesis using same by (simp add: CapMatcher_findBestMatch_def)
qed

lemma extract_accepts_itself: "CapUrn_accepts extract_cap (Some extract_cap)"
  by (simp add: CapUrn_accepts_def Exec_accepts_def) code_simp

lemma best_match_chosen_witness:
  "CapMatcher_findBestMatch text_urns [extract_cap] extract_cap = Some extract_cap"
proof -
  have "list_all (obtained text_urns) [extract_cap]" using extract_obtained by simp
  from best_match_chosen [OF texts.urn_package_axioms this refl, of extract_cap]
  show ?thesis using extract_accepts_itself by (auto split: option.splits)
qed


text \<open>The header says that the matches can handle the request.  What the code asks is whether the request,
  as a pattern, accepts the cap: a cap that takes more than the request gives serves the request and is
  not accepted.\<close>

definition taking_anything :: CSCapUrn where
  "taking_anything =
     extract_cap\<lparr>inSpec := ''media:'',
       cap_formal := (cap_formal extract_cap)\<lparr>wf_input := text_formal \<lparr>text_prefix = ''media'', text_tags = []\<rparr>\<rparr>\<rparr>"

text \<open>A cap that serves a request need not match it.  The cap that takes any media and otherwise is the
  requested one can be dispatched to the request, but it is no match for it: the best match among it and
  nothing else is none.\<close>

theorem serving_cap_not_matched:
  "CapUrn_isDispatchable taking_anything extract_cap \<and>
   CapMatcher_findBestMatch text_urns [taking_anything] extract_cap = None"
proof
  show "CapUrn_isDispatchable taking_anything extract_cap"
    by (simp add: CapUrn_isDispatchable_def) code_simp
  have "\<not> CapUrn_accepts extract_cap (Some taking_anything)"
    by (simp add: CapUrn_accepts_def) code_simp
  then show "CapMatcher_findBestMatch text_urns [taking_anything] extract_cap = None"
    by (simp add: CapMatcher_findBestMatch_def CapMatcher_findAllMatches_def
        CapMatcher_sortCapsBySpecificity_def)
qed

end
