(* ===== verification/Packets.thy ===== *)
theory Packets
  imports Main "HOL-Library.Word"
begin

unbundle bit_operations_syntax

text \<open>
  The framing of the packets cartridges talk in (\<open>CSPacket.m\<close>): four bytes of length, the most
  significant first, then the payload.  Lengths are 32-bit words, as in the code; what a file handle
  does is its documented behaviour: reading answers as many bytes as asked for, or those that are left
  before the end, and reading and writing may raise an exception.
\<close>

section \<open>Handles\<close>

type_synonym byte = "8 word"

text \<open>A handle to read from: what is left of the stream, and after how many more reads it breaks.\<close>

record in_handle =
  pending_bytes :: "byte list"
  reads_left :: "nat option"

definition readDataOfLength :: "in_handle \<Rightarrow> nat \<Rightarrow> (byte list \<times> in_handle) option" where
  "readDataOfLength h n =
     (if reads_left h = Some 0 then None
      else Some (take n (pending_bytes h),
        h\<lparr>pending_bytes := drop n (pending_bytes h), reads_left := map_option (\<lambda>k. k - 1) (reads_left h)\<rparr>))"

text \<open>A handle to write to: what has been written, after how many more writes it breaks, and whether
  making the data durable fails.\<close>

record out_handle =
  written_bytes :: "byte list"
  writes_left :: "nat option"
  sync_fails :: bool

definition writeData :: "out_handle \<Rightarrow> byte list \<Rightarrow> out_handle option" where
  "writeData h bs =
     (if writes_left h = Some 0 then None
      else Some (h\<lparr>written_bytes := written_bytes h @ bs,
                   writes_left := map_option (\<lambda>k. k - 1) (writes_left h)\<rparr>))"

section \<open>Reading\<close>

definition CSPacketMaxSize :: "32 word" where
  "CSPacketMaxSize = 16 * 1024 * 1024"

datatype CSPacketErrorCode =
    CSPacketErrorCodeIOError
  | CSPacketErrorCodePacketTooLarge
  | CSPacketErrorCodeUnexpectedEOF
  | CSPacketErrorCodeInvalidPacket

text \<open>What reading answers: a payload, \<open>nil\<close> without an error at the end of the stream, or \<open>nil\<close>
  with one.\<close>

datatype packet_read = Packet "byte list" | End_of_stream | Read_error CSPacketErrorCode

definition packet_length :: "byte \<Rightarrow> byte \<Rightarrow> byte \<Rightarrow> byte \<Rightarrow> 32 word" where
  "packet_length b0 b1 b2 b3 =
     push_bit 24 (ucast b0) OR push_bit 16 (ucast b1) OR push_bit 8 (ucast b2) OR ucast b3"

definition PacketReader_readPacket :: "in_handle \<Rightarrow> packet_read \<times> in_handle" where
  "PacketReader_readPacket h =
     (case readDataOfLength h 4 of
        None \<Rightarrow> (Read_error CSPacketErrorCodeIOError, h)
      | Some (lengthData, h1) \<Rightarrow>
          (if length lengthData = 0 then (End_of_stream, h1)
           else if length lengthData < 4 then (Read_error CSPacketErrorCodeUnexpectedEOF, h1)
           else
             (let len = packet_length (lengthData ! 0) (lengthData ! 1) (lengthData ! 2) (lengthData ! 3)
              in if CSPacketMaxSize < len then (Read_error CSPacketErrorCodePacketTooLarge, h1)
                 else if len = 0 then (Packet [], h1)
                 else
                   (case readDataOfLength h1 (unat len) of
                      None \<Rightarrow> (Read_error CSPacketErrorCodeIOError, h1)
                    | Some (payload, h2) \<Rightarrow>
                        (if length payload < unat len
                         then (Read_error CSPacketErrorCodeUnexpectedEOF, h2)
                         else (Packet payload, h2))))))"

section \<open>Writing\<close>

definition packet_header :: "32 word \<Rightarrow> byte list" where
  "packet_header len =
     [ucast (drop_bit 24 len AND 0xFF), ucast (drop_bit 16 len AND 0xFF),
      ucast (drop_bit 8 len AND 0xFF), ucast (len AND 0xFF)]"

text \<open>For a caller that asks for the error: the length is cut to 32 bits, and an error of making the data
  durable is the file system's own.\<close>

datatype packet_write = Written | Write_error CSPacketErrorCode | Sync_error

definition PacketWriter_writePacket :: "out_handle \<Rightarrow> byte list \<Rightarrow> packet_write \<times> out_handle" where
  "PacketWriter_writePacket h payload =
     (let len = word_of_nat (length payload)
      in if CSPacketMaxSize < len then (Write_error CSPacketErrorCodePacketTooLarge, h)
         else
           (case writeData h (packet_header len) of
              None \<Rightarrow> (Write_error CSPacketErrorCodeIOError, h)
            | Some h1 \<Rightarrow>
                (case (if 0 < length payload then writeData h1 payload else Some h1) of
                   None \<Rightarrow> (Write_error CSPacketErrorCodeIOError, h1)
                 | Some h2 \<Rightarrow> (if sync_fails h2 then (Sync_error, h2) else (Written, h2)))))"

section \<open>Headers\<close>

lemma packet_header_length [simp]: "length (packet_header len) = 4"
  by (simp add: packet_header_def)

lemma packet_length_header:
  "packet_length (packet_header len ! 0) (packet_header len ! 1) (packet_header len ! 2)
     (packet_header len ! 3) = len"
proof (rule bit_word_eqI)
  fix n
  assume n: "n < LENGTH(32)"
  have mask: "bit (255 :: int) i \<longleftrightarrow> i < 8" for i
    using bit_mask_iff [of 8 i, where 'a = int] by (simp add: mask_eq_exp_minus_1)
  consider "n < 8" | "8 \<le> n" "n < 16" | "16 \<le> n" "n < 24" | "24 \<le> n" using n by linarith
  then show "bit (packet_length (packet_header len ! 0) (packet_header len ! 1) (packet_header len ! 2)
     (packet_header len ! 3)) n = bit len n"
    using n by cases (auto simp: packet_length_def packet_header_def bit_simps mask)
qed

lemma packet_header_inject [simp]: "packet_header m = packet_header n \<longleftrightarrow> m = n"
  using packet_length_header by metis

lemmas packet_length_simps [simp] = packet_length_header [simplified]

lemma packet_header_not_empty [simp]: "packet_header len \<noteq> []"
  by (simp add: packet_header_def)

section \<open>A stream of packets\<close>

text \<open>Writing packets one after the other until one fails, and reading until there is no packet.\<close>

fun write_packets :: "out_handle \<Rightarrow> byte list list \<Rightarrow> bool \<times> out_handle" where
  "write_packets h [] = (True, h)"
| "write_packets h (p # ps) =
     (case PacketWriter_writePacket h p of
        (Written, h') \<Rightarrow> write_packets h' ps
      | (_, h') \<Rightarrow> (False, h'))"

fun read_packets :: "nat \<Rightarrow> in_handle \<Rightarrow> byte list list \<times> packet_read option" where
  "read_packets 0 h = ([], None)"
| "read_packets (Suc n) h =
     (case PacketReader_readPacket h of
        (Packet p, h') \<Rightarrow> (case read_packets n h' of (ps, end) \<Rightarrow> (p # ps, end))
      | (other, h') \<Rightarrow> ([], Some other))"

definition frame :: "byte list \<Rightarrow> byte list" where
  "frame p = packet_header (word_of_nat (length p)) @ p"

definition sendable :: "byte list \<Rightarrow> bool" where
  "sendable p \<longleftrightarrow> length p \<le> 16 * 1024 * 1024"

abbreviation stream_of :: "byte list \<Rightarrow> in_handle" where
  "stream_of bs \<equiv> \<lparr>pending_bytes = bs, reads_left = None\<rparr>"

lemma sendable_word:
  assumes "sendable p"
  shows "unat (word_of_nat (length p) :: 32 word) = length p"
    and "\<not> CSPacketMaxSize < word_of_nat (length p)"
    and "(word_of_nat (length p) :: 32 word) = 0 \<longleftrightarrow> p = []"
proof -
  show len: "unat (word_of_nat (length p) :: 32 word) = length p"
    using assms by (simp add: sendable_def unat_of_nat)
  then show "\<not> CSPacketMaxSize < word_of_nat (length p)"
    using assms by (simp add: sendable_def CSPacketMaxSize_def word_less_nat_alt)
  show "(word_of_nat (length p) :: 32 word) = 0 \<longleftrightarrow> p = []"
    using len by (cases p) (auto simp del: of_nat_Suc)
qed

lemma length_frame [simp]: "length (frame p) = length p + 4"
  by (simp add: frame_def)

lemma frame_not_empty [simp]: "frame p \<noteq> []"
  by (simp add: frame_def)

lemma read_frame:
  assumes "sendable p"
  shows "PacketReader_readPacket (stream_of (frame p @ r)) = (Packet p, stream_of r)"
proof -
  have "take 4 (frame p @ r) = packet_header (word_of_nat (length p))"
    "drop 4 (frame p @ r) = p @ r" by (simp_all add: frame_def)
  then show ?thesis
    using sendable_word [OF assms]
    by (simp add: PacketReader_readPacket_def readDataOfLength_def Let_def del: word_of_nat_eq_0_iff)
qed

lemma read_cut_frame:
  assumes "sendable p" and "0 < k" and "k < length (frame p)"
  shows "fst (PacketReader_readPacket (stream_of (take k (frame p)))) =
    Read_error CSPacketErrorCodeUnexpectedEOF"
proof (cases "k < 4")
  case True
  then show ?thesis
    using assms by (simp add: PacketReader_readPacket_def readDataOfLength_def)
next
  case False
  then have "take 4 (take k (frame p)) = packet_header (word_of_nat (length p))"
    "drop 4 (take k (frame p)) = take (k - 4) p"
    by (simp_all add: frame_def)
  moreover have "(word_of_nat (length p) :: 32 word) \<noteq> 0"
    using assms False sendable_word(1) [OF assms(1)] by auto
  ultimately show ?thesis
    using sendable_word [OF assms(1)] assms(2,3) False
    by (simp add: PacketReader_readPacket_def readDataOfLength_def Let_def)
qed

lemma read_nothing [simp]:
  "PacketReader_readPacket (stream_of []) = (End_of_stream, stream_of [])"
  by (simp add: PacketReader_readPacket_def readDataOfLength_def)

lemma write_frame:
  assumes "sendable p"
  shows "PacketWriter_writePacket \<lparr>written_bytes = bs, writes_left = None, sync_fails = False\<rparr> p =
    (Written, \<lparr>written_bytes = bs @ frame p, writes_left = None, sync_fails = False\<rparr>)"
  using sendable_word(2) [OF assms]
  by (simp add: PacketWriter_writePacket_def writeData_def Let_def frame_def)

lemma write_packets_frames:
  "list_all sendable ps \<Longrightarrow>
     write_packets \<lparr>written_bytes = bs, writes_left = None, sync_fails = False\<rparr> ps =
     (True, \<lparr>written_bytes = bs @ concat (map frame ps), writes_left = None, sync_fails = False\<rparr>)"
  by (induction ps arbitrary: bs) (simp_all add: write_frame)

lemma read_cut_packets:
  assumes "list_all sendable ps" and "k \<le> length (concat (map frame ps))" and "length ps < fuel"
  shows "\<exists>n \<le> length ps. length (concat (map frame (take n ps))) \<le> k \<and>
    (n < length ps \<longrightarrow> k < length (concat (map frame (take (Suc n) ps)))) \<and>
    read_packets fuel (stream_of (take k (concat (map frame ps)))) =
      (take n ps, Some (if k = length (concat (map frame (take n ps))) then End_of_stream
                        else Read_error CSPacketErrorCodeUnexpectedEOF))"
  using assms
proof (induction ps arbitrary: k fuel)
  case Nil
  then show ?case
    by (cases fuel) (simp_all add: PacketReader_readPacket_def readDataOfLength_def)
next
  case (Cons p ps)
  obtain f where fuel: "fuel = Suc f" using Cons.prems(3) by (cases fuel) auto
  have p: "sendable p" using Cons.prems(1) by simp
  show ?case
  proof (cases "length (frame p) \<le> k")
    case True
    let ?j = "k - length (frame p)"
    have "?j \<le> length (concat (map frame ps))" using Cons.prems(2) True by simp
    moreover have "list_all sendable ps" "length ps < f" using Cons.prems fuel by simp_all
    ultimately obtain n where n: "n \<le> length ps" "length (concat (map frame (take n ps))) \<le> ?j"
        "n < length ps \<longrightarrow> ?j < length (concat (map frame (take (Suc n) ps)))"
        "read_packets f (stream_of (take ?j (concat (map frame ps)))) =
          (take n ps, Some (if ?j = length (concat (map frame (take n ps))) then End_of_stream
                            else Read_error CSPacketErrorCodeUnexpectedEOF))"
      using Cons.IH by blast
    have "take k (concat (map frame (p # ps))) = frame p @ take ?j (concat (map frame ps))"
      using True by simp
    then have "read_packets fuel (stream_of (take k (concat (map frame (p # ps))))) =
        (p # take n ps, Some (if ?j = length (concat (map frame (take n ps))) then End_of_stream
                            else Read_error CSPacketErrorCodeUnexpectedEOF))"
      using n(4) by (simp add: fuel read_frame [OF p] del: length_frame)
    moreover have "?j = length (concat (map frame (take n ps))) \<longleftrightarrow>
        k = length (concat (map frame (take (Suc n) (p # ps))))" using True by auto
    ultimately show ?thesis
      using n(1,2,3) True by (intro exI [of _ "Suc n"]) (auto simp del: length_frame)
  next
    case False
    then have "take k (concat (map frame (p # ps))) = take k (frame p)" by simp
    moreover obtain r h where r: "PacketReader_readPacket (stream_of (take k (frame p))) = (r, h)"
      by fastforce
    have "r = (if k = 0 then End_of_stream else Read_error CSPacketErrorCodeUnexpectedEOF)"
      using read_cut_frame [OF p, of k] False r by (cases "k = 0") (auto simp del: length_frame)
    ultimately show ?thesis
      using False r by (intro exI [of _ 0]) (auto simp: fuel)
  qed
qed


section \<open>What the reader accepts\<close>

lemma packet_header_of_length: "packet_header (packet_length b0 b1 b2 b3) = [b0, b1, b2, b3]"
proof -
  have mask: "bit (255 :: int) i \<longleftrightarrow> i < 8" for i
    using bit_mask_iff [of 8 i, where 'a = int] by (simp add: mask_eq_exp_minus_1)
  have high: "\<not> bit b n" if "8 \<le> n" for n and b :: byte
    using that bit_imp_le_length [of b n] by fastforce
  show ?thesis
    by (auto simp: packet_header_def packet_length_def bit_eq_iff bit_simps mask high)
qed

lemma four_bytes:
  assumes "4 \<le> length bs"
  obtains len where "take 4 bs = packet_header len"
    and "packet_length (take 4 bs ! 0) (take 4 bs ! 1) (take 4 bs ! 2) (take 4 bs ! 3) = len"
proof -
  obtain b0 b1 b2 b3 r where "bs = b0 # b1 # b2 # b3 # r"
    using assms by (auto simp: numeral_eq_Suc Suc_le_length_iff)
  then show thesis
    by (intro that [of "packet_length b0 b1 b2 b3"]) (simp_all add: packet_header_of_length)
qed

lemma read_behind_header:
  "PacketReader_readPacket (stream_of (packet_header len @ r)) =
      (if CSPacketMaxSize < len then (Read_error CSPacketErrorCodePacketTooLarge, stream_of r)
       else if len = 0 then (Packet [], stream_of r)
       else if length r < unat len then (Read_error CSPacketErrorCodeUnexpectedEOF, stream_of [])
       else (Packet (take (unat len) r), stream_of (drop (unat len) r)))"
  by (auto simp: PacketReader_readPacket_def readDataOfLength_def Let_def)

text \<open>The two sides, as one case distinction over the bytes.\<close>

lemma readPacket_cases:
  obtains (at_end) "bs = []" "PacketReader_readPacket (stream_of bs) = (End_of_stream, stream_of [])"
  | (packet) p r where "sendable p" "bs = frame p @ r"
      "PacketReader_readPacket (stream_of bs) = (Packet p, stream_of r)"
  | (cut_header) "bs \<noteq> []" "length bs < 4"
      "PacketReader_readPacket (stream_of bs) = (Read_error CSPacketErrorCodeUnexpectedEOF, stream_of [])"
  | (too_large) len r where "bs = packet_header len @ r" "CSPacketMaxSize < len"
      "PacketReader_readPacket (stream_of bs) = (Read_error CSPacketErrorCodePacketTooLarge, stream_of r)"
  | (cut_payload) len r where "bs = packet_header len @ r" "len \<le> CSPacketMaxSize" "length r < unat len"
      "PacketReader_readPacket (stream_of bs) = (Read_error CSPacketErrorCodeUnexpectedEOF, stream_of [])"
proof (cases "length bs < 4")
  case True
  then show thesis
    using at_end cut_header
    by (cases "bs = []") (auto simp: PacketReader_readPacket_def readDataOfLength_def)
next
  case False
  then obtain len where len: "take 4 bs = packet_header len"
      "packet_length (take 4 bs ! 0) (take 4 bs ! 1) (take 4 bs ! 2) (take 4 bs ! 3) = len"
    by (meson four_bytes linorder_not_le)
  define r where "r = drop 4 bs"
  have bs: "bs = packet_header len @ r" using len(1) unfolding r_def by (metis append_take_drop_id)
  note read = read_behind_header [of len r, folded bs]
  consider "CSPacketMaxSize < len" | "len \<le> CSPacketMaxSize" "length r < unat len"
    | "len \<le> CSPacketMaxSize" "unat len \<le> length r" by fastforce
  then show thesis
  proof cases
    case 1
    then show thesis using too_large bs read by simp
  next
    case 2
    then show thesis using cut_payload bs read by (cases "len = 0") auto
  next
    case 3
    let ?p = "take (unat len) r"
    have "length ?p = unat len" using 3 by simp
    then have "sendable ?p" "bs = frame ?p @ drop (unat len) r"
      using 3(1) bs by (auto simp: sendable_def frame_def CSPacketMaxSize_def word_le_nat_alt)
    moreover have "PacketReader_readPacket (stream_of bs) = (Packet ?p, stream_of (drop (unat len) r))"
      using 3 read by auto
    ultimately show thesis by (rule packet)
  qed
qed


section \<open>Packets arrive\<close>

abbreviation fresh_handle :: out_handle where
  "fresh_handle \<equiv> \<lparr>written_bytes = [], writes_left = None, sync_fails = False\<rparr>"

text \<open>C15: Packets arrive whole, in order and nothing else.  Packets within the limit are all written.
  Whatever part of what was written is there to read, the reader gives exactly the packets that lie
  before the cut (the next one, where there is one, is not complete), and after them the end of the
  stream if the cut is between two packets, and an unexpected end if it is inside one.\<close>

theorem packets_arrive:
  assumes "list_all sendable ps" and "k \<le> length (written_bytes (snd (write_packets fresh_handle ps)))"
    and "length ps < fuel"
  shows "fst (write_packets fresh_handle ps) \<and>
    (\<exists>n. n \<le> length ps \<and> length (concat (map frame (take n ps))) \<le> k \<and>
      (n = length ps \<or> k < length (concat (map frame (take (Suc n) ps)))) \<and>
      read_packets fuel (stream_of (take k (written_bytes (snd (write_packets fresh_handle ps))))) =
        (take n ps, Some (if k = length (concat (map frame (take n ps))) then End_of_stream
                          else Read_error CSPacketErrorCodeUnexpectedEOF)))"
proof -
  have sent: "write_packets fresh_handle ps =
      (True, fresh_handle\<lparr>written_bytes := concat (map frame ps)\<rparr>)"
    using write_packets_frames [OF assms(1), of "[]"] by simp
  then have "k \<le> length (concat (map frame ps))" using assms(2) by simp
  from read_cut_packets [OF assms(1) this assms(3)] sent show ?thesis by (auto simp del: length_concat)
qed

lemma packets_arrive_witness:
  "read_packets 4 (stream_of (take 12 (written_bytes (snd (write_packets fresh_handle [[1, 2], [], [3]]))))) =
    ([[1, 2], []], Some (Read_error CSPacketErrorCodeUnexpectedEOF))"
proof -
  let ?ps = "[[1, 2], [], [3]] :: byte list list"
  have ok: "list_all sendable ?ps" by (simp add: sendable_def)
  have "12 \<le> length (written_bytes (snd (write_packets fresh_handle ?ps)))"
    using write_packets_frames [OF ok, of "[]"] by (simp del: write_packets.simps)
  from packets_arrive [OF ok this, of 4] obtain n where n: "n \<le> length ?ps"
      "length (concat (map frame (take n ?ps))) \<le> 12" "n = length ?ps \<or> 12 < length (concat (map frame (take (Suc n) ?ps)))"
      "read_packets 4 (stream_of (take 12 (written_bytes (snd (write_packets fresh_handle ?ps))))) =
        (take n ?ps, Some (if 12 = length (concat (map frame (take n ?ps))) then End_of_stream
                           else Read_error CSPacketErrorCodeUnexpectedEOF))"
    by fastforce
  then consider "n = 0" | "n = 1" | "n = 2" | "n = 3" by fastforce
  then have "n = 2" using n(2,3) by cases (simp_all add: numeral_eq_Suc)
  then show ?thesis using n(4) by (simp add: numeral_eq_Suc del: write_packets.simps)
qed

lemma reads_packet_iff:
  "PacketReader_readPacket (stream_of bs) = (Packet p, stream_of r) \<longleftrightarrow> sendable p \<and> bs = frame p @ r"
proof
  assume "PacketReader_readPacket (stream_of bs) = (Packet p, stream_of r)"
  then show "sendable p \<and> bs = frame p @ r"
    by (cases rule: readPacket_cases [of bs]) simp_all
qed (simp add: read_frame)

lemma reads_end_iff: "fst (PacketReader_readPacket (stream_of bs)) = End_of_stream \<longleftrightarrow> bs = []"
  by (cases rule: readPacket_cases [of bs]) simp_all

lemma reads_too_large_iff:
  "PacketReader_readPacket (stream_of bs) = (Read_error CSPacketErrorCodePacketTooLarge, stream_of r) \<longleftrightarrow>
    (\<exists>len. CSPacketMaxSize < len \<and> bs = packet_header len @ r)"
proof
  assume "PacketReader_readPacket (stream_of bs) = (Read_error CSPacketErrorCodePacketTooLarge, stream_of r)"
  then show "\<exists>len. CSPacketMaxSize < len \<and> bs = packet_header len @ r"
    by (cases rule: readPacket_cases [of bs]) auto
qed (auto simp: read_behind_header)

lemma reads_unexpected_iff:
  "fst (PacketReader_readPacket (stream_of bs)) = Read_error CSPacketErrorCodeUnexpectedEOF \<longleftrightarrow>
    bs \<noteq> [] \<and> (length bs < 4 \<or>
      (\<exists>len r. len \<le> CSPacketMaxSize \<and> bs = packet_header len @ r \<and> length r < unat len))"
proof
  assume "fst (PacketReader_readPacket (stream_of bs)) = Read_error CSPacketErrorCodeUnexpectedEOF"
  then show "bs \<noteq> [] \<and> (length bs < 4 \<or>
      (\<exists>len r. len \<le> CSPacketMaxSize \<and> bs = packet_header len @ r \<and> length r < unat len))"
    by (cases rule: readPacket_cases [of bs]) auto
next
  assume "bs \<noteq> [] \<and> (length bs < 4 \<or>
      (\<exists>len r. len \<le> CSPacketMaxSize \<and> bs = packet_header len @ r \<and> length r < unat len))"
  then consider "bs \<noteq> []" "length bs < 4"
    | len r where "len \<le> CSPacketMaxSize" "bs = packet_header len @ r" "length r < unat len" by blast
  then show "fst (PacketReader_readPacket (stream_of bs)) = Read_error CSPacketErrorCodeUnexpectedEOF"
    by cases (auto simp: read_behind_header, simp add: PacketReader_readPacket_def readDataOfLength_def)
qed

text \<open>The reader takes exactly what the writer makes.  Whatever bytes are there, a packet is read
  from them if and only if they begin with its frame and it is within the limit, and then exactly the
  frame is consumed; the end of the stream is reported only where nothing is left; a packet is refused as
  too large exactly when its header says so, before anything of it is read; every other stream ends
  inside a header or a payload and is an unexpected end.\<close>

theorem readPacket_exact:
  "(PacketReader_readPacket (stream_of bs) = (Packet p, stream_of r) \<longleftrightarrow> sendable p \<and> bs = frame p @ r) \<and>
   (fst (PacketReader_readPacket (stream_of bs)) = End_of_stream \<longleftrightarrow> bs = []) \<and>
   (PacketReader_readPacket (stream_of bs) = (Read_error CSPacketErrorCodePacketTooLarge, stream_of r) \<longleftrightarrow>
      (\<exists>len. CSPacketMaxSize < len \<and> bs = packet_header len @ r)) \<and>
   (fst (PacketReader_readPacket (stream_of bs)) = Read_error CSPacketErrorCodeUnexpectedEOF \<longleftrightarrow>
      bs \<noteq> [] \<and> (length bs < 4 \<or>
        (\<exists>len r. len \<le> CSPacketMaxSize \<and> bs = packet_header len @ r \<and> length r < unat len)))"
  by (intro conjI reads_packet_iff reads_end_iff reads_too_large_iff reads_unexpected_iff)

text \<open>C17: What the writer does on a handle that works.  The length it checks and announces is that of the
  payload cut to 32 bits: a payload whose cut length is over the limit is refused and nothing is written,
  every other one is written in full behind a header that announces the cut length.  So a payload of
  4294967296 bytes or a little more is not refused: it is written behind a header that announces the
  little more.\<close>

theorem writePacket_exact:
  "PacketWriter_writePacket \<lparr>written_bytes = bs, writes_left = None, sync_fails = False\<rparr> p =
    (if length p mod 2 ^ 32 \<le> 16777216
     then (Written, \<lparr>written_bytes = bs @ packet_header (word_of_nat (length p mod 2 ^ 32)) @ p,
       writes_left = None, sync_fails = False\<rparr>)
     else (Write_error CSPacketErrorCodePacketTooLarge,
       \<lparr>written_bytes = bs, writes_left = None, sync_fails = False\<rparr>))"
proof -
  have "unat (word_of_nat (length p) :: 32 word) = length p mod 2 ^ 32" by (simp add: unat_of_nat)
  moreover have "(word_of_nat (length p mod 2 ^ 32) :: 32 word) = word_of_nat (length p)"
    by (rule word_unat_eq_iff [THEN iffD2]) (simp add: unat_of_nat)
  ultimately show ?thesis
    by (auto simp: PacketWriter_writePacket_def writeData_def Let_def CSPacketMaxSize_def word_less_nat_alt)
qed

end
