(* ===== verification/TextJson.thy ===== *)
theory TextJson
  imports Foundation Numerals Json Packets
begin

text \<open>
  JSON texts, as far as the values without doubles go: what the classes that send JSON rely on of
  \<open>NSJSONSerialization\<close> is the locale \<open>json_text\<close>, and a printer without spaces, with the keys in order,
  and a reader that takes the longest number are shown to keep it.
\<close>

section \<open>What is relied on\<close>

text \<open>Values without doubles, whose integers fit in 64 bits: a double that happens to be integral is
  printed as an integer, so doubles are not read back as what they were.\<close>

primrec plain :: "json \<Rightarrow> bool" where
  "plain (JSON_string s) = True"
| "plain (JSON_bool b) = True"
| "plain (JSON_int i) = (- (2 ^ 63) \<le> i \<and> i < 2 ^ 64)"
| "plain (JSON_double d) = False"
| "plain JSON_null = True"
| "plain (JSON_array js) = list_all (\<lambda>b. b) (map plain js)"
| "plain (JSON_object d) = fmpred (\<lambda>_ b. b) (fmmap plain d)"

locale json_text =
  fixes encode :: "json \<Rightarrow> byte list option" and decode :: "byte list \<Rightarrow> json option"
  assumes encodes: "plain (JSON_object d) \<Longrightarrow> \<exists>bs. encode (JSON_object d) = Some bs"
    and decodes: "plain (JSON_object d) \<Longrightarrow> encode (JSON_object d) = Some bs \<Longrightarrow> decode bs = Some (JSON_object d)"

section \<open>Printing\<close>

definition quoted :: "string \<Rightarrow> string" where
  "quoted s = quote_char # escaped s @ [quote_char]"

fun elements_text :: "string list \<Rightarrow> string" where
  "elements_text [] = '']''"
| "elements_text (t # ts) = t @ (if ts = [] then '']'' else CHR '','' # elements_text ts)"

fun members_text :: "(string \<times> string) list \<Rightarrow> string" where
  "members_text [] = ''}''"
| "members_text (m # ms) =
     quoted (fst m) @ CHR '':'' # snd m @ (if ms = [] then ''}'' else CHR '','' # members_text ms)"

definition entries :: "(string, 'v) fmap \<Rightarrow> (string \<times> 'v) list" where
  "entries m = map (\<lambda>k. (k, the (fmlookup m k))) (sorted_list_of_fset (fmdom m))"

primrec json_to_text :: "json \<Rightarrow> string" where
  "json_to_text (JSON_string s) = quoted s"
| "json_to_text (JSON_bool b) = (if b then ''true'' else ''false'')"
| "json_to_text (JSON_int i) = string_of_int i"
| "json_to_text (JSON_double d) = ''null''"
| "json_to_text JSON_null = ''null''"
| "json_to_text (JSON_array js) = CHR ''['' # elements_text (map json_to_text js)"
| "json_to_text (JSON_object d) = CHR ''{'' # members_text (entries (fmmap json_to_text d))"

section \<open>Reading\<close>

definition is_digit :: "char \<Rightarrow> bool" where
  "is_digit c \<longleftrightarrow> 48 \<le> (of_char c :: nat) \<and> (of_char c :: nat) \<le> 57"

definition number_of_text :: "string \<Rightarrow> (json \<times> string) option" where
  "number_of_text s =
     (let negative = hasPrefix s ''-'';
          t = (if negative then tl s else s);
          ds = takeWhile is_digit t
      in if ds = [] then None
         else Some (JSON_int (if negative then - int (nat_of_string ds) else int (nat_of_string ds)),
                dropWhile is_digit t))"

fun json_of_text :: "nat \<Rightarrow> string \<Rightarrow> (json \<times> string) option"
  and elements_of_text :: "nat \<Rightarrow> string \<Rightarrow> (json list \<times> string) option"
  and members_of_text :: "nat \<Rightarrow> string \<Rightarrow> ((string \<times> json) list \<times> string) option" where
  "json_of_text 0 s = None"
| "json_of_text (Suc n) s =
     (if hasPrefix s ''true'' then Some (JSON_bool True, drop 4 s)
      else if hasPrefix s ''false'' then Some (JSON_bool False, drop 5 s)
      else if hasPrefix s ''null'' then Some (JSON_null, drop 4 s)
      else
        (case s of
           [] \<Rightarrow> None
         | c # r \<Rightarrow>
             (if c = quote_char then map_option (\<lambda>(v, q). (JSON_string v, q)) (unquoted r)
              else if c = CHR ''['' then map_option (\<lambda>(js, q). (JSON_array js, q)) (elements_of_text n r)
              else if c = CHR ''{'' then
                map_option (\<lambda>(ms, q). (JSON_object (fmap_of_list ms), q)) (members_of_text n r)
              else number_of_text s)))"
| "elements_of_text 0 s = None"
| "elements_of_text (Suc n) s =
     (if hasPrefix s '']'' then Some ([], tl s)
      else
        (case json_of_text n s of
           None \<Rightarrow> None
         | Some (j, c # r) \<Rightarrow>
             (if c = CHR '']'' then Some ([j], r)
              else if c = CHR '','' then map_option (\<lambda>(js, q). (j # js, q)) (elements_of_text n r)
              else None)
         | Some (j, []) \<Rightarrow> None))"
| "members_of_text 0 s = None"
| "members_of_text (Suc n) s =
     (if hasPrefix s ''}'' then Some ([], tl s)
      else if hasPrefix s [quote_char] then
        (case unquoted (tl s) of
           Some (k, c # r) \<Rightarrow>
             (if c = CHR '':'' then
                (case json_of_text n r of
                   Some (j, d # q) \<Rightarrow>
                     (if d = CHR ''}'' then Some ([(k, j)], q)
                      else if d = CHR '','' then map_option (\<lambda>(ms, q). ((k, j) # ms, q)) (members_of_text n q)
                      else None)
                 | _ \<Rightarrow> None)
              else None)
         | _ \<Rightarrow> None)
      else None)"

definition bytes_of_json :: "json \<Rightarrow> byte list option" where
  "bytes_of_json j = Some (map (\<lambda>c. word_of_nat (of_char c)) (json_to_text j))"

definition json_of_bytes :: "byte list \<Rightarrow> json option" where
  "json_of_bytes bs =
     (case json_of_text (Suc (length bs)) (map (\<lambda>b. char_of (unat b)) bs) of
        Some (j, []) \<Rightarrow> Some j
      | _ \<Rightarrow> None)"


section \<open>Reading what is printed\<close>

lemmas [simp del] = json_of_text.simps(2) elements_of_text.simps(2) members_of_text.simps(2)

lemma is_digit_digit [simp]: "d < 10 \<Longrightarrow> is_digit (digit_char d)"
  by (simp add: is_digit_def of_char_digit)

lemma nat_text_digits: "list_all is_digit (string_of_nat n)"
  using string_of_nat_digits by (fastforce simp: list_all_iff)

lemma digits_split:
  assumes "list_all is_digit ds" and "r = [] \<or> \<not> is_digit (hd r)"
  shows "takeWhile is_digit (ds @ r) = ds" and "dropWhile is_digit (ds @ r) = r"
  using assms by (induction ds) (cases r; auto)+

lemma number_of_int_text:
  assumes "r = [] \<or> \<not> is_digit (hd r)"
  shows "number_of_text (string_of_int i @ r) = Some (JSON_int i, r)"
proof -
  note split = digits_split [OF nat_text_digits assms]
  have "\<not> hasPrefix (string_of_nat n @ r) ''-''" for n
    using nat_text_digits [of n] string_of_nat_not_Nil [of n]
    by (cases "string_of_nat n") (auto simp: is_digit_def hasPrefix_def)
  moreover have "hasPrefix (CHR ''-'' # s) ''-''" for s by (simp add: hasPrefix_def)
  ultimately show ?thesis by (auto simp: number_of_text_def string_of_int_def split Let_def)
qed

definition reads :: "json \<Rightarrow> bool" where
  "reads j \<longleftrightarrow> (\<forall>n r. length (json_to_text j) \<le> n \<longrightarrow> (r = [] \<or> \<not> is_digit (hd r)) \<longrightarrow>
     json_of_text (Suc n) (json_to_text j @ r) = Some (j, r))"

lemma int_text_start: "\<exists>c s. string_of_int i = c # s \<and> (is_digit c \<or> c = CHR ''-'')"
  using nat_text_digits [of "nat i"] string_of_nat_not_Nil [of "nat i"]
  by (cases "string_of_nat (nat i)"; cases "i < 0") (auto simp: string_of_int_def)

lemma text_start: "plain j \<Longrightarrow> \<exists>c s. json_to_text j = c # s \<and> c \<noteq> CHR '']'' \<and> c \<noteq> CHR ''}''"
proof (cases j)
  case (JSON_int i)
  then show ?thesis using int_text_start [of i] by (auto simp: is_digit_def)
qed (auto simp: quoted_def quote_char_def)

lemma int_reads: "reads (JSON_int i)"
proof -
  have "json_of_text (Suc n) (string_of_int i @ r) = number_of_text (string_of_int i @ r)" for n r
  proof -
    obtain c s where c: "string_of_int i = c # s" "is_digit c \<or> c = CHR ''-''"
      using int_text_start by blast
    then have "c \<notin> {CHR ''t'', CHR ''f'', CHR ''n'', quote_char, CHR ''['', CHR ''{''}"
      by (auto simp: is_digit_def quote_char_def)
    then show ?thesis by (simp add: json_of_text.simps(2) c(1) hasPrefix_def)
  qed
  then show ?thesis by (simp add: reads_def number_of_int_text)
qed

lemma elements_read:
  assumes "list_all (\<lambda>j. plain j \<and> reads j) js" and "length (elements_text (map json_to_text js)) \<le> n"
  shows "elements_of_text (Suc n) (elements_text (map json_to_text js) @ r) = Some (js, r)"
  using assms
proof (induction js arbitrary: n)
  case Nil
  then show ?case by (simp add: elements_of_text.simps(2) hasPrefix_def)
next
  case (Cons j js)
  obtain c s where start: "json_to_text j = c # s" "c \<noteq> CHR '']''" using text_start [of j] Cons.prems by auto
  obtain m where n: "n = Suc m" "length (json_to_text j) \<le> m"
    using Cons.prems(2) by (cases n) (auto split: if_splits)
  have head: "json_of_text n (json_to_text j @ d # t) = Some (j, d # t)" if "\<not> is_digit d" for d t
    using Cons.prems(1) that n by (auto simp: reads_def)
  show ?case
  proof (cases "js = []")
    case True
    then show ?thesis
      using head [of "CHR '']''" r] start by (simp add: elements_of_text.simps(2) hasPrefix_def is_digit_def)
  next
    case False
    then have "length (elements_text (map json_to_text js)) \<le> m" using Cons.prems(2) n(1) start by simp
    then have "elements_of_text n (elements_text (map json_to_text js) @ r) = Some (js, r)"
      using Cons.IH Cons.prems(1) n(1) by simp
    then show ?thesis
      using head [of "CHR '',''" "elements_text (map json_to_text js) @ r"] start False
      by (simp add: elements_of_text.simps(2) hasPrefix_def is_digit_def)
  qed
qed

lemma members_read:
  assumes "list_all (\<lambda>(k, j). plain j \<and> reads j) kvs"
    and "length (members_text (map (apsnd json_to_text) kvs)) \<le> n"
  shows "members_of_text (Suc n) (members_text (map (apsnd json_to_text) kvs) @ r) = Some (kvs, r)"
  using assms
proof (induction kvs arbitrary: n)
  case Nil
  then show ?case by (simp add: members_of_text.simps(2) hasPrefix_def)
next
  case (Cons kv kvs)
  obtain k j where kv: "kv = (k, j)" by (cases kv)
  obtain m where n: "n = Suc m" "length (json_to_text j) \<le> m"
    using Cons.prems(2) kv by (cases n) (auto simp: quoted_def split: if_splits)
  have head: "json_of_text n (json_to_text j @ d # t) = Some (j, d # t)" if "\<not> is_digit d" for d t
    using Cons.prems(1) that n kv by (auto simp: reads_def)
  have key: "unquoted (escaped k @ quote_char # CHR '':'' # t) = Some (k, CHR '':'' # t)" for t
    by (rule unquoted_escaped)
  show ?case
  proof (cases "kvs = []")
    case True
    then show ?thesis
      using head [of "CHR ''}''" r] kv key
      by (simp add: members_of_text.simps(2) hasPrefix_def is_digit_def quoted_def quote_char_def)
  next
    case False
    then have "length (members_text (map (apsnd json_to_text) kvs)) \<le> m"
      using Cons.prems(2) n(1) kv by (simp add: quoted_def)
    then have "members_of_text n (members_text (map (apsnd json_to_text) kvs) @ r) = Some (kvs, r)"
      using Cons.IH Cons.prems(1) n(1) by simp
    then show ?thesis
      using head [of "CHR '',''" "members_text (map (apsnd json_to_text) kvs) @ r"] kv key False
      by (simp add: members_of_text.simps(2) hasPrefix_def is_digit_def quoted_def quote_char_def)
  qed
qed

lemma entries_of_list: "fmap_of_list (entries m) = m"
proof (rule fmap_ext)
  fix k
  have "map_of (map (\<lambda>k. (k, f k)) ks) k = (if k \<in> set ks then Some (f k) else None)" for f :: "string \<Rightarrow> 'a" and ks
    by (induction ks) auto
  then show "fmlookup (fmap_of_list (entries m)) k = fmlookup m k"
    by (cases "fmlookup m k") (simp_all add: fmlookup_of_list entries_def fmlookup_dom_iff sorted_list_of_fset_simps)
qed

lemma entries_sorted:
  assumes "sorted_wrt (<) (map fst kvs)"
  shows "entries (fmap_of_list kvs) = kvs"
proof -
  have "set (sorted_list_of_fset (fmdom (fmap_of_list kvs))) = set (map fst kvs)"
    by (simp add: sorted_list_of_fset_simps fset_of_list.rep_eq)
  moreover have "sorted_wrt (<) (sorted_list_of_fset (fmdom (fmap_of_list kvs)))"
    by (simp add: sorted_list_of_fset.rep_eq)
  ultimately have keys: "sorted_list_of_fset (fmdom (fmap_of_list kvs)) = map fst kvs"
    using assms by (metis strict_sorted_equal)
  have "distinct (map fst kvs)" using assms by (simp add: strict_sorted_iff)
  then have "map (\<lambda>k. (k, the (fmlookup (fmap_of_list kvs) k))) (map fst kvs) = kvs"
    by (auto simp: fmlookup_of_list comp_def intro!: map_idI)
  with keys show ?thesis by (simp add: entries_def)
qed

lemma entries_empty [simp]: "entries fmempty = []"
  by (simp add: entries_def sorted_list_of_fset.rep_eq)

lemma entries_map: "entries (fmmap f m) = map (apsnd f) (entries m)"
proof -
  have "the (map_option f (fmlookup m k)) = f (the (fmlookup m k))"
    if "k \<in> set (sorted_list_of_fset (fmdom m))" for k
    using that by (simp add: sorted_list_of_fset_simps fmlookup_dom_iff option.map_sel)
  then show ?thesis by (simp add: entries_def)
qed

lemma entries_values: "(k, v) \<in> set (entries m) \<Longrightarrow> v \<in> fmran' m"
  by (auto simp: entries_def fmlookup_dom_iff fmran'I)

lemma plain_reads: "plain j \<Longrightarrow> reads j"
proof (induction j)
  case (JSON_array js)
  then have js: "list_all (\<lambda>j. plain j \<and> reads j) js" by (auto simp: list_all_iff)
  have "json_of_text (Suc n) (json_to_text (JSON_array js) @ r) = Some (JSON_array js, r)"
    if n: "length (json_to_text (JSON_array js)) \<le> n" for n r
  proof -
    obtain m where "n = Suc m" "length (elements_text (map json_to_text js)) \<le> m"
      using n by (cases n) auto
    then show ?thesis
      using elements_read [OF js, of m r] by (simp add: json_of_text.simps(2) hasPrefix_def quote_char_def)
  qed
  then show ?case unfolding reads_def by blast
next
  case (JSON_object d)
  have "plain v \<and> reads v" if v: "v \<in> fmran' d" for v
  proof -
    have "plain v" using JSON_object.prems v by (auto simp: fmpred_iff elim!: fmran'E)
    then show ?thesis using JSON_object.IH v by blast
  qed
  then have kvs: "list_all (\<lambda>(k, j). plain j \<and> reads j) (entries d)"
    by (auto simp: list_all_iff dest!: entries_values)
  have "json_of_text (Suc n) (json_to_text (JSON_object d) @ r) = Some (JSON_object d, r)"
    if n: "length (json_to_text (JSON_object d)) \<le> n" for n r
  proof -
    obtain m where "n = Suc m" "length (members_text (map (apsnd json_to_text) (entries d))) \<le> m"
      using n by (cases n) (auto simp: entries_map)
    then show ?thesis
      using members_read [OF kvs, of m r]
      by (simp add: json_of_text.simps(2) hasPrefix_def quote_char_def entries_map entries_of_list)
  qed
  then show ?case unfolding reads_def by blast
qed (auto simp: int_reads, auto simp: reads_def json_of_text.simps(2) hasPrefix_def quoted_def quote_char_def
    unquoted_escaped [unfolded quote_char_def])

lemma bytes_char: "char_of (unat (word_of_nat (of_char c) :: byte)) = c"
proof -
  have "(of_char c :: nat) < 256" by (simp add: of_char_def)
  then show ?thesis by (simp add: unat_of_nat)
qed

interpretation texts: json_text bytes_of_json json_of_bytes
proof
  show "json_of_bytes bs = Some (JSON_object d)"
    if "plain (JSON_object d)" "bytes_of_json (JSON_object d) = Some bs" for d bs
  proof -
    have "map (\<lambda>b. char_of (unat b)) bs = json_to_text (JSON_object d)"
      and "length bs = length (json_to_text (JSON_object d))"
      using that(2) by (auto simp: bytes_of_json_def comp_def bytes_char simp del: json_to_text.simps)
    then show ?thesis
      using plain_reads [OF that(1)] by (simp add: json_of_bytes_def reads_def del: json_to_text.simps)
  qed
qed (simp add: bytes_of_json_def)

end
