(* ===== verification/Messages.thy ===== *)
theory Messages
  imports TextJson
begin

text \<open>
  The messages cartridges exchange (\<open>CSMessage.m\<close>): an identifier, a type, the cap it asks for and a
  payload, written as a JSON object and read back from one.  \<open>NSJSONSerialization\<close> is not the program's:
  it is a pair of functions, one that makes bytes of a JSON value and one that reads them
  (\<open>None\<close>: an error), and what it is relied on for is the locale \<open>json_text\<close>.
\<close>

section \<open>Messages\<close>

datatype CSMessageType =
    CSMessageTypeCapRequest
  | CSMessageTypeAck
  | CSMessageTypeProgress
  | CSMessageTypeCapResponse
  | CSMessageTypeStreamChunk
  | CSMessageTypeStreamEnd
  | CSMessageTypeIdle
  | CSMessageTypeError

record CSMessage =
  messageId :: string
  messageType :: CSMessageType
  message_cap :: "string option"
  message_payload :: dictionary

definition Message_initWithId ::
    "string \<Rightarrow> CSMessageType \<Rightarrow> string option \<Rightarrow> dictionary option \<Rightarrow> CSMessage" where
  "Message_initWithId i ty cap payload =
     \<lparr>messageId = i, messageType = ty, message_cap = cap,
      message_payload = (case payload of None \<Rightarrow> fmempty | Some p \<Rightarrow> p)\<rparr>"

text \<open>The identifier of a request that is given none is a fresh UUID, an argument here.\<close>

definition Message_capRequestWithUrn :: "string \<Rightarrow> string \<Rightarrow> dictionary option \<Rightarrow> CSMessage" where
  "Message_capRequestWithUrn uuid capUrn payload =
     Message_initWithId uuid CSMessageTypeCapRequest (Some capUrn) payload"

definition Message_capRequestWithId :: "string \<Rightarrow> string \<Rightarrow> dictionary option \<Rightarrow> CSMessage" where
  "Message_capRequestWithId i capUrn payload =
     Message_initWithId i CSMessageTypeCapRequest (Some capUrn) payload"

definition Message_capResponse :: "string \<Rightarrow> dictionary option \<Rightarrow> CSMessage" where
  "Message_capResponse requestId payload =
     Message_initWithId requestId CSMessageTypeCapResponse None payload"

definition Message_streamChunk :: "string \<Rightarrow> dictionary option \<Rightarrow> CSMessage" where
  "Message_streamChunk requestId payload =
     Message_initWithId requestId CSMessageTypeStreamChunk None payload"

definition Message_streamEnd :: "string \<Rightarrow> dictionary option \<Rightarrow> CSMessage" where
  "Message_streamEnd requestId payload =
     Message_initWithId requestId CSMessageTypeStreamEnd None payload"

definition Message_error :: "string \<Rightarrow> string option \<Rightarrow> string option \<Rightarrow> CSMessage" where
  "Message_error requestId code message =
     Message_initWithId requestId CSMessageTypeError None
       (Some (fmupd ''code'' (JSON_string (case code of None \<Rightarrow> ''UNKNOWN'' | Some c \<Rightarrow> c))
         (fmupd ''message'' (JSON_string (case message of None \<Rightarrow> ''Unknown error'' | Some s \<Rightarrow> s)) fmempty)))"

definition Message_ack :: "string \<Rightarrow> CSMessage" where
  "Message_ack requestId = Message_initWithId requestId CSMessageTypeAck None (Some fmempty)"

definition Message_progress ::
    "string \<Rightarrow> string option \<Rightarrow> json option \<Rightarrow> string option \<Rightarrow> CSMessage" where
  "Message_progress requestId stage percent message =
     Message_initWithId requestId CSMessageTypeProgress None
       (Some (entry_if ''message'' (map_option JSON_string message)
         (entry_if ''percent'' percent
           (fmupd ''stage'' (JSON_string (case stage of None \<Rightarrow> ''processing'' | Some s \<Rightarrow> s)) fmempty))))"

definition Message_idle :: CSMessage where
  "Message_idle = Message_initWithId '''' CSMessageTypeIdle None (Some fmempty)"

section \<open>Types\<close>

definition Message_isRequest :: "CSMessage \<Rightarrow> bool" where
  "Message_isRequest m \<longleftrightarrow> messageType m = CSMessageTypeCapRequest"

definition Message_isResponse :: "CSMessage \<Rightarrow> bool" where
  "Message_isResponse m \<longleftrightarrow>
     messageType m = CSMessageTypeAck \<or> messageType m = CSMessageTypeProgress \<or>
     messageType m = CSMessageTypeCapResponse \<or> messageType m = CSMessageTypeStreamChunk \<or>
     messageType m = CSMessageTypeStreamEnd \<or> messageType m = CSMessageTypeIdle"

definition Message_isError :: "CSMessage \<Rightarrow> bool" where
  "Message_isError m \<longleftrightarrow> messageType m = CSMessageTypeError"

definition Message_isStreaming :: "CSMessage \<Rightarrow> bool" where
  "Message_isStreaming m \<longleftrightarrow>
     messageType m = CSMessageTypeStreamChunk \<or> messageType m = CSMessageTypeStreamEnd"

definition Message_isStreamEnd :: "CSMessage \<Rightarrow> bool" where
  "Message_isStreamEnd m \<longleftrightarrow> messageType m = CSMessageTypeStreamEnd"

definition Message_isAck :: "CSMessage \<Rightarrow> bool" where
  "Message_isAck m \<longleftrightarrow> messageType m = CSMessageTypeAck"

definition Message_isProgress :: "CSMessage \<Rightarrow> bool" where
  "Message_isProgress m \<longleftrightarrow> messageType m = CSMessageTypeProgress"

definition Message_isIdle :: "CSMessage \<Rightarrow> bool" where
  "Message_isIdle m \<longleftrightarrow> messageType m = CSMessageTypeIdle"

definition Message_messageTypeString :: "CSMessageType \<Rightarrow> string" where
  "Message_messageTypeString ty =
     (case ty of
        CSMessageTypeCapRequest \<Rightarrow> ''cap_request''
      | CSMessageTypeAck \<Rightarrow> ''ack''
      | CSMessageTypeProgress \<Rightarrow> ''progress''
      | CSMessageTypeCapResponse \<Rightarrow> ''cap_response''
      | CSMessageTypeStreamChunk \<Rightarrow> ''stream_chunk''
      | CSMessageTypeStreamEnd \<Rightarrow> ''stream_end''
      | CSMessageTypeIdle \<Rightarrow> ''idle''
      | CSMessageTypeError \<Rightarrow> ''error'')"

definition Message_messageTypeFromString :: "string \<Rightarrow> CSMessageType" where
  "Message_messageTypeFromString s =
     (case map_of
        [(''cap_request'', CSMessageTypeCapRequest), (''ack'', CSMessageTypeAck),
         (''progress'', CSMessageTypeProgress), (''cap_response'', CSMessageTypeCapResponse),
         (''stream_chunk'', CSMessageTypeStreamChunk), (''stream_end'', CSMessageTypeStreamEnd),
         (''idle'', CSMessageTypeIdle), (''error'', CSMessageTypeError)] s of
        Some ty \<Rightarrow> ty
      | None \<Rightarrow> CSMessageTypeError)"

section \<open>Dictionaries and data\<close>

definition Message_toDictionary :: "CSMessage \<Rightarrow> dictionary" where
  "Message_toDictionary m =
     fmupd ''payload'' (JSON_object (message_payload m))
     (entry_if ''cap'' (map_option JSON_string (message_cap m))
     (fmupd ''type'' (JSON_string (Message_messageTypeString (messageType m)))
     (fmupd ''id'' (JSON_string (messageId m)) fmempty)))"

text \<open>Reading fails with an error of the class, with the error of \<open>NSJSONSerialization\<close>, or with an
  exception: what is not an object but an array knows no keys.\<close>

datatype message_error = Missing_field | JSON_unreadable | Unrecognized_selector

definition Message_messageFromDictionary :: "dictionary \<Rightarrow> message_error + CSMessage" where
  "Message_messageFromDictionary d =
     (case string_field d ''id'' of
        None \<Rightarrow> Inl Missing_field
      | Some i \<Rightarrow>
          (case string_field d ''type'' of
             None \<Rightarrow> Inl Missing_field
           | Some ty \<Rightarrow>
               Inr (Message_initWithId i (Message_messageTypeFromString ty) (string_field d ''cap'')
                 (case dictionary_field d ''payload'' of None \<Rightarrow> Some fmempty | Some p \<Rightarrow> Some p))))"

definition message_of_json :: "json \<Rightarrow> message_error + CSMessage" where
  "message_of_json j =
     (case j of JSON_object d \<Rightarrow> Message_messageFromDictionary d | _ \<Rightarrow> Inl Unrecognized_selector)"

definition Message_toData :: "(json \<Rightarrow> byte list option) \<Rightarrow> CSMessage \<Rightarrow> byte list option" where
  "Message_toData encode m = encode (JSON_object (Message_toDictionary m))"

definition Message_messageFromData ::
    "(byte list \<Rightarrow> json option) \<Rightarrow> byte list \<Rightarrow> message_error + CSMessage" where
  "Message_messageFromData decode bytes =
     (case decode bytes of None \<Rightarrow> Inl JSON_unreadable | Some j \<Rightarrow> message_of_json j)"

definition Message_copy :: "CSMessage \<Rightarrow> CSMessage" where
  "Message_copy m =
     Message_initWithId (messageId m) (messageType m) (message_cap m) (Some (message_payload m))"

section \<open>Error payloads\<close>

record CSErrorPayload =
  payload_code :: string
  payload_message :: string
  payload_details :: "dictionary option"

definition ErrorPayload_errorWithCode :: "string \<Rightarrow> string \<Rightarrow> dictionary option \<Rightarrow> CSErrorPayload" where
  "ErrorPayload_errorWithCode code message details =
     \<lparr>payload_code = code, payload_message = message, payload_details = details\<rparr>"

definition ErrorPayload_toDictionary :: "CSErrorPayload \<Rightarrow> dictionary" where
  "ErrorPayload_toDictionary p =
     entry_if ''details'' (map_option JSON_object (payload_details p))
     (fmupd ''message'' (JSON_string (payload_message p))
     (fmupd ''code'' (JSON_string (payload_code p)) fmempty))"

section \<open>Reading back\<close>

lemma message_types [simp]:
  "Message_messageTypeFromString (Message_messageTypeString ty) = ty"
  by (cases ty) (simp_all add: Message_messageTypeFromString_def Message_messageTypeString_def)

lemma message_copy [simp]: "Message_copy m = m"
  by (simp add: Message_copy_def Message_initWithId_def)

interpretation messages: json_form "\<lambda>m. JSON_object (Message_toDictionary m)" message_of_json "\<lambda>_. True"
proof
  show "message_of_json (JSON_object (Message_toDictionary m)) = Inr m" for m
    by (cases m) (auto simp: message_of_json_def Message_messageFromDictionary_def Message_toDictionary_def
        Message_initWithId_def entry_if_def string_field_def dictionary_field_def split: option.splits)
qed simp


text \<open>Messages keep what they say.  A message is read back from its dictionary, with its identifier,
  type, cap and payload; a dictionary is read exactly when its identifier and its type are strings, an
  unknown type being an error message, a cap that is no string none and a payload that is no dictionary
  an empty one; and every message is of exactly one of the kinds request, response and error.\<close>

theorem message_reads_back:
  "Message_messageFromDictionary (Message_toDictionary m) = Inr m \<and>
   (Message_messageFromDictionary d = Inr m' \<longleftrightarrow>
     (\<exists>ty. fmlookup d ''id'' = Some (JSON_string (messageId m')) \<and> fmlookup d ''type'' = Some (JSON_string ty) \<and>
       messageType m' = Message_messageTypeFromString ty \<and>
       message_cap m' = string_field d ''cap'' \<and>
       message_payload m' = (case dictionary_field d ''payload'' of None \<Rightarrow> fmempty | Some p \<Rightarrow> p))) \<and>
   (Message_messageTypeFromString s = CSMessageTypeError \<longleftrightarrow>
     s \<notin> Message_messageTypeString ` (UNIV - {CSMessageTypeError})) \<and>
   length (filter (\<lambda>b. b) [Message_isRequest m, Message_isResponse m, Message_isError m]) = 1"
proof (intro conjI)
  show "Message_messageFromDictionary (Message_toDictionary m) = Inr m"
    using messages.reads_back [of m] by (simp add: message_of_json_def)
  show "Message_messageFromDictionary d = Inr m' \<longleftrightarrow>
     (\<exists>ty. fmlookup d ''id'' = Some (JSON_string (messageId m')) \<and> fmlookup d ''type'' = Some (JSON_string ty) \<and>
       messageType m' = Message_messageTypeFromString ty \<and>
       message_cap m' = string_field d ''cap'' \<and>
       message_payload m' = (case dictionary_field d ''payload'' of None \<Rightarrow> fmempty | Some p \<Rightarrow> p))"
    by (cases m') (auto simp: Message_messageFromDictionary_def Message_initWithId_def
        string_field_Some [symmetric] split: option.splits)
  show "Message_messageTypeFromString s = CSMessageTypeError \<longleftrightarrow>
     s \<notin> Message_messageTypeString ` (UNIV - {CSMessageTypeError})"
  proof
    assume "Message_messageTypeFromString s = CSMessageTypeError"
    then show "s \<notin> Message_messageTypeString ` (UNIV - {CSMessageTypeError})" by auto
  next
    assume s: "s \<notin> Message_messageTypeString ` (UNIV - {CSMessageTypeError})"
    have "s \<noteq> Message_messageTypeString ty" if "ty \<noteq> CSMessageTypeError" for ty using s that by blast
    from this [of CSMessageTypeCapRequest] this [of CSMessageTypeAck] this [of CSMessageTypeProgress]
      this [of CSMessageTypeCapResponse] this [of CSMessageTypeStreamChunk] this [of CSMessageTypeStreamEnd]
      this [of CSMessageTypeIdle]
    show "Message_messageTypeFromString s = CSMessageTypeError"
      by (simp add: Message_messageTypeFromString_def Message_messageTypeString_def)
  qed
  show "length (filter (\<lambda>b. b) [Message_isRequest m, Message_isResponse m, Message_isError m]) = 1"
    by (cases "messageType m") (simp_all add: Message_isRequest_def Message_isResponse_def Message_isError_def)
qed

section \<open>Messages in packets\<close>

definition sendable_message :: "(json \<Rightarrow> byte list option) \<Rightarrow> CSMessage \<Rightarrow> bool" where
  "sendable_message encode m \<longleftrightarrow>
     plain (JSON_object (Message_toDictionary m)) \<and>
     (case Message_toData encode m of None \<Rightarrow> False | Some bs \<Rightarrow> sendable bs)"

lemma plain_message:
  "plain (JSON_object (Message_toDictionary m)) \<longleftrightarrow> plain (JSON_object (message_payload m))"
  by (auto simp: Message_toDictionary_def entry_if_def fmpred_iff split: option.splits if_splits)

context json_text
begin

lemma message_data:
  assumes "sendable_message encode m"
  obtains bs where "Message_toData encode m = Some bs" "sendable bs" "Message_messageFromData decode bs = Inr m"
proof -
  from assms obtain bs where bs: "Message_toData encode m = Some bs" "sendable bs"
    by (auto simp: sendable_message_def split: option.splits)
  have "decode bs = Some (JSON_object (Message_toDictionary m))"
    using assms bs(1) decodes by (simp add: sendable_message_def Message_toData_def)
  then show thesis using that bs messages.reads_back [of m] by (simp add: Message_messageFromData_def)
qed

lemma messages_data:
  "list_all (sendable_message encode) ms \<Longrightarrow>
    \<exists>ps. map (Message_toData encode) ms = map Some ps \<and> list_all sendable ps \<and>
      list_all2 (\<lambda>p m. Message_messageFromData decode p = Inr m) ps ms"
proof (induction ms)
  case (Cons m ms)
  then obtain ps where "map (Message_toData encode) ms = map Some ps" "list_all sendable ps"
      "list_all2 (\<lambda>p m. Message_messageFromData decode p = Inr m) ps ms" by auto
  moreover obtain bs where "Message_toData encode m = Some bs" "sendable bs"
      "Message_messageFromData decode bs = Inr m" using Cons.prems message_data [of m] by auto
  ultimately show ?case by (intro exI [of _ "bs # ps"]) simp
qed simp

end



end
