(* ===== verification/CapValidator.thy ===== *)
theory CapValidator
  imports CapDef
begin

text \<open>
  The rules a cap definition has to keep (\<open>CSCapValidator\<close> in \<open>Cap/CSCapValidator.m\<close>): what is checked of
  the arguments and of the outputs, in the order of the code, and the first rule that is broken.  A \<open>nil\<close>
  put into an array raises an exception (\<open>Nil_inserted\<close>); that the void media URN cannot be read is a
  fault of the package (\<open>Void_unreadable\<close>).
\<close>

section \<open>Faults\<close>

datatype definition_fault =
    Rule1 string
  | Rule2 string
  | Rule3 string string
  | Rule4 string CSArgSourceType
  | Rule5 "64 word" string
  | Rule6 nat "64 word"
  | Rule7 string
  | Rule9 string string
  | Rule10 string string
  | Rule14 string
  | Rule15_unreadable
  | Rule15_void nat
  | Rule15_missing
  | Rule17_no_name string
  | Rule17_bad_name string
  | Rule17_shared string string string
  | Rule18 string
  | Rule19_no_name string
  | Rule19_bad_name string
  | Rule19_shared string string string
  | Rule20_unreadable string
  | Rule20_duplicate string
  | Rule21_unreadable
  | Rule21_void nat
  | Rule21_main nat
  | Rule22_unreadable
  | Rule22_main string
  | Rule22_void string
  | Nil_inserted
  | Void_unreadable

text \<open>The next check is made when the one before finds nothing.\<close>

definition and_then :: "'e option \<Rightarrow> 'e option \<Rightarrow> 'e option" where
  "and_then r s = (case r of Some e \<Rightarrow> Some e | None \<Rightarrow> s)"

section \<open>Names\<close>

definition name_start :: "char \<Rightarrow> bool" where
  "name_start c \<longleftrightarrow>
     65 \<le> (of_char c :: nat) \<and> (of_char c :: nat) \<le> 90 \<or> 97 \<le> (of_char c :: nat) \<and> (of_char c :: nat) \<le> 122 \<or>
     c = CHR ''_''"

definition name_char :: "char \<Rightarrow> bool" where
  "name_char c \<longleftrightarrow> name_start c \<or> 48 \<le> (of_char c :: nat) \<and> (of_char c :: nat) \<le> 57 \<or> c = CHR ''-''"

text \<open>What \<open>$\<close> of a regular expression allows behind the match at the end of a text: nothing, or one line
  terminator.\<close>

definition at_line_end :: "string \<Rightarrow> bool" where
  "at_line_end s \<longleftrightarrow>
     (case s of
        [] \<Rightarrow> True
      | [c] \<Rightarrow> (of_char c :: nat) \<in> {10, 11, 12, 13, 133}
      | [c, d] \<Rightarrow> (of_char c :: nat) = 13 \<and> (of_char d :: nat) = 10
      | _ \<Rightarrow> False)"

definition CSIsValidDefinitionName :: "string \<Rightarrow> bool" where
  "CSIsValidDefinitionName s =
     (case s of
        [] \<Rightarrow> False
      | c # r \<Rightarrow>
          (if s = ''true'' \<or> s = ''false'' \<or> s = ''null'' then False
           else name_start c \<and> at_line_end (dropWhile name_char r)))"

definition CSReservedCliFlags :: "string list" where
  "CSReservedCliFlags = [''manifest'', ''--help'', ''--version'', ''-v'', ''-h'']"

section \<open>Arguments\<close>

fun check_media_urns :: "string set \<Rightarrow> CSCapArg list \<Rightarrow> definition_fault option" where
  "check_media_urns seen [] = None"
| "check_media_urns seen (a # as) =
     (if arg_mediaUrn a \<in> seen then Some (Rule1 (arg_mediaUrn a))
      else check_media_urns (insert (arg_mediaUrn a) seen) as)"

fun check_has_sources :: "CSCapArg list \<Rightarrow> definition_fault option" where
  "check_has_sources [] = None"
| "check_has_sources (a # as) =
     (if length (sources a) = 0 then Some (Rule2 (arg_mediaUrn a)) else check_has_sources as)"

text \<open>What the loop over the sources collects.\<close>

record collected =
  stdin_urns :: "string list"
  held_positions :: "(64 word \<times> string) list"
  held_flags :: "(string \<times> string) list"

fun source_loop ::
    "string \<Rightarrow> CSArgSourceType set \<Rightarrow> bool \<Rightarrow> bool \<Rightarrow> collected \<Rightarrow> CSArgSource list \<Rightarrow>
     definition_fault + bool \<times> bool \<times> collected" where
  "source_loop urn types hasPosition hasCliFlag acc [] = Inr (hasPosition, hasCliFlag, acc)"
| "source_loop urn types hasPosition hasCliFlag acc (s # ss) =
     (if source_type s \<in> types then Inl (Rule4 urn (source_type s))
      else
        (let types' = insert (source_type s) types
         in case source_type s of
              CSArgSourceTypeStdin \<Rightarrow>
                (case stdinMediaUrn s of
                   None \<Rightarrow> Inl Nil_inserted
                 | Some u \<Rightarrow>
                     source_loop urn types' hasPosition hasCliFlag (acc\<lparr>stdin_urns := stdin_urns acc @ [u]\<rparr>) ss)
            | CSArgSourceTypePosition \<Rightarrow>
                source_loop urn types' True hasCliFlag
                  (acc\<lparr>held_positions := held_positions acc @ [(source_position s, urn)]\<rparr>) ss
            | CSArgSourceTypeCliFlag \<Rightarrow>
                (case cliFlag s of
                   None \<Rightarrow> Inl Nil_inserted
                 | Some f \<Rightarrow>
                     (if f \<in> set CSReservedCliFlags then Inl (Rule10 urn f)
                      else source_loop urn types' hasPosition True
                        (acc\<lparr>held_flags := held_flags acc @ [(f, urn)]\<rparr>) ss))))"

fun collect_loop :: "collected \<Rightarrow> CSCapArg list \<Rightarrow> definition_fault + collected" where
  "collect_loop acc [] = Inr acc"
| "collect_loop acc (a # as) =
     on_ok (source_loop (arg_mediaUrn a) {} False False acc (sources a))
       (\<lambda>(hasPosition, hasCliFlag, acc').
         if hasPosition \<and> hasCliFlag then Inl (Rule7 (arg_mediaUrn a)) else collect_loop acc' as)"

definition check_one_stdin :: "CSCapArg list \<Rightarrow> definition_fault option" where
  "check_one_stdin as =
     (let stdin_args = map arg_mediaUrn (filter CapArg_hasStdinSource as)
      in if 1 < length stdin_args then Some (Rule3 (stdin_args ! 0) (stdin_args ! 1)) else None)"

fun check_arg_names :: "CSCapArg list \<Rightarrow> CSCapArg list \<Rightarrow> definition_fault option" where
  "check_arg_names named [] = None"
| "check_arg_names named (a # as) =
     (if length (arg_name a) = 0 then Some (Rule17_no_name (arg_mediaUrn a))
      else if \<not> CSIsValidDefinitionName (arg_name a) then Some (Rule17_bad_name (arg_name a))
      else
        (case List.find (\<lambda>seen. arg_name seen = arg_name a) named of
           Some seen \<Rightarrow> Some (Rule17_shared (arg_mediaUrn seen) (arg_mediaUrn a) (arg_name a))
         | None \<Rightarrow> check_arg_names (named @ [a]) as))"

fun check_accepts :: "CSCapArg list \<Rightarrow> definition_fault option" where
  "check_accepts [] = None"
| "check_accepts (a # as) =
     (if arg_accepts a \<noteq> None \<and> CapArg_hasStdinSource a then Some (Rule18 (arg_mediaUrn a))
      else check_accepts as)"

definition check_main_input ::
    "'t tagged_urn_api \<Rightarrow> 't CSMediaUrn \<Rightarrow> 't CSMediaUrn \<Rightarrow> string list \<Rightarrow> definition_fault option" where
  "check_main_input api in_media void stdins =
     (if MediaUrn_isEquivalentTo api in_media void
      then (if 0 < length stdins then Some (Rule15_void (length stdins)) else None)
      else if list_ex (\<lambda>s. case media_of api s of
             None \<Rightarrow> False | Some m \<Rightarrow> MediaUrn_isEquivalentTo api m in_media) stdins then None
      else Some Rule15_missing)"

fun check_streaming :: "'t tagged_urn_api \<Rightarrow> 't CSMediaUrn \<Rightarrow> CSCapArg list \<Rightarrow> definition_fault option" where
  "check_streaming api in_media [] = None"
| "check_streaming api in_media (a # as) =
     (if arg_streaming a \<and> \<not> CapArg_isMainInputForInSpec api a in_media then Some (Rule14 (arg_mediaUrn a))
      else check_streaming api in_media as)"

fun check_positions :: "64 word set \<Rightarrow> (64 word \<times> string) list \<Rightarrow> definition_fault option" where
  "check_positions seen [] = None"
| "check_positions seen ((p, urn) # ps) =
     (if p \<in> seen then Some (Rule5 p urn) else check_positions (insert p seen) ps)"

fun check_gaps :: "nat \<Rightarrow> (64 word \<times> string) list \<Rightarrow> definition_fault option" where
  "check_gaps i [] = None"
| "check_gaps i ((p, urn) # ps) =
     (if sint p \<noteq> int i then Some (Rule6 i p) else check_gaps (Suc i) ps)"

fun check_flags :: "string set \<Rightarrow> (string \<times> string) list \<Rightarrow> definition_fault option" where
  "check_flags seen [] = None"
| "check_flags seen ((f, urn) # fs) =
     (if f \<in> seen then Some (Rule9 f urn) else check_flags (insert f seen) fs)"

definition CapValidator_validateCapArgs :: "'t tagged_urn_api \<Rightarrow> CSCap \<Rightarrow> definition_fault option" where
  "CapValidator_validateCapArgs api c =
     and_then (check_media_urns {} (args c))
     (and_then (check_has_sources (args c))
     (case collect_loop \<lparr>stdin_urns = [], held_positions = [], held_flags = []\<rparr> (args c) of
        Inl e \<Rightarrow> Some e
      | Inr acc \<Rightarrow>
          and_then (check_one_stdin (args c))
          (and_then (check_arg_names [] (args c))
          (and_then (check_accepts (args c))
          (case media_of api (inSpec (capUrn c)) of
             None \<Rightarrow> Some Rule15_unreadable
           | Some in_media \<Rightarrow>
               (case media_of api ''media:void'' of
                  None \<Rightarrow> Some Void_unreadable
                | Some void \<Rightarrow>
                    and_then (check_main_input api in_media void (stdin_urns acc))
                    (and_then (check_streaming api in_media (args c))
                    (and_then (check_positions {} (held_positions acc))
                    (and_then
                      (check_gaps 0 (sort_by (\<lambda>a b. compare_linorder (sint (fst a)) (sint (fst b))) (held_positions acc)))
                      (check_flags {} (held_flags acc)))))))))))"

section \<open>Outputs\<close>

fun check_output_names :: "CSCapOutput list \<Rightarrow> CSCapOutput list \<Rightarrow> definition_fault option" where
  "check_output_names named [] = None"
| "check_output_names named (out # outs) =
     (if length (output_name out) = 0 then Some (Rule19_no_name (output_mediaUrn out))
      else if \<not> CSIsValidDefinitionName (output_name out) then Some (Rule19_bad_name (output_name out))
      else
        (case List.find (\<lambda>seen. output_name seen = output_name out) named of
           Some seen \<Rightarrow> Some (Rule19_shared (output_mediaUrn seen) (output_mediaUrn out) (output_name out))
         | None \<Rightarrow> check_output_names (named @ [out]) outs))"

fun identity_loop ::
    "'t tagged_urn_api \<Rightarrow> 't CSMediaUrn list \<Rightarrow> CSCapOutput list \<Rightarrow> definition_fault + 't CSMediaUrn list" where
  "identity_loop api seen [] = Inr seen"
| "identity_loop api seen (out # outs) =
     (case media_of api (output_mediaUrn out) of
        None \<Rightarrow> Inl (Rule20_unreadable (output_mediaUrn out))
      | Some m \<Rightarrow>
          (if list_ex (\<lambda>s. MediaUrn_isEquivalentTo api s m) seen
           then Inl (Rule20_duplicate (output_mediaUrn out))
           else identity_loop api (seen @ [m]) outs))"

fun check_carries :: "nat \<Rightarrow> bool \<Rightarrow> nat \<Rightarrow> CSCapOutput list \<Rightarrow> definition_fault option" where
  "check_carries main in_void i [] = None"
| "check_carries main in_void i (out # outs) =
     (if carries out = None then check_carries main in_void (Suc i) outs
      else if i = main then Some (Rule22_main (output_mediaUrn out))
      else if in_void then Some (Rule22_void (output_mediaUrn out))
      else check_carries main in_void (Suc i) outs)"

definition CapValidator_validateCapOutputs :: "'t tagged_urn_api \<Rightarrow> CSCap \<Rightarrow> definition_fault option" where
  "CapValidator_validateCapOutputs api c =
     (case media_of api (outSpec (capUrn c)) of
        None \<Rightarrow> Some Rule21_unreadable
      | Some out_media \<Rightarrow>
          (case media_of api (inSpec (capUrn c)) of
             None \<Rightarrow> Some Rule22_unreadable
           | Some in_media \<Rightarrow>
               (case media_of api ''media:void'' of
                  None \<Rightarrow> Some Void_unreadable
                | Some void \<Rightarrow>
                    and_then (check_output_names [] (outputs c))
                    (case identity_loop api [] (outputs c) of
                       Inl e \<Rightarrow> Some e
                     | Inr identities \<Rightarrow>
                         (if MediaUrn_isEquivalentTo api out_media void
                          then (if 0 < length (outputs c) then Some (Rule21_void (length (outputs c))) else None)
                          else
                            (let main = filter (\<lambda>i. MediaUrn_isEquivalentTo api (identities ! i) out_media)
                                   [0..<length identities]
                             in if length main \<noteq> 1 then Some (Rule21_main (length main))
                                else check_carries (main ! 0) (MediaUrn_isEquivalentTo api in_media void) 0
                                  (outputs c)))))))"

definition CapValidator_validateCapDefinition :: "'t tagged_urn_api \<Rightarrow> CSCap \<Rightarrow> definition_fault option" where
  "CapValidator_validateCapDefinition api c =
     and_then (CapValidator_validateCapArgs api c) (CapValidator_validateCapOutputs api c)"

end
