(* ===== verification/CapManifest.thy ===== *)
theory CapManifest
  imports CapValidator TextJson
begin

text \<open>
  Manifests (\<open>Cap/CSCapManifest.m\<close>): what a cartridge says of itself, with its caps in groups; how a
  manifest is read, written, checked, taken from the data another program advertised, and given the
  identity cap.  The caps of a cartridge as they are collected (\<open>Cap/CSCartridgeCaps.m\<close>).

  As for cap definitions, the model stops at a value of a class its property is not declared with
  (\<open>Outside_model\<close>).
\<close>

section \<open>Groups\<close>

datatype manifest_error = Manifest_error nat | Manifest_cap cap_def_error

record CSCapGroup =
  group_name :: string
  group_caps :: "CSCap list"
  group_adapterUrns :: "string list"

definition stored_as :: "(json \<Rightarrow> 'a option) \<Rightarrow> json \<Rightarrow> manifest_error + 'a" where
  "stored_as f j = (case f j of None \<Rightarrow> Inl (Manifest_cap Outside_model) | Some x \<Rightarrow> Inr x)"

definition group_cap :: "('t, 'd) tagged_urn_package \<Rightarrow> json \<Rightarrow> manifest_error + CSCap" where
  "group_cap pkg j =
     (case j of
        JSON_object d \<Rightarrow>
          (case Cap_capWithDictionary pkg (JSON_object d) of
             Inl e \<Rightarrow> Inl (Manifest_cap e)
           | Inr c \<Rightarrow> Inr c)
      | _ \<Rightarrow> Inl (Manifest_error 1021))"

definition CapGroup_groupWithDictionary ::
    "('t, 'd) tagged_urn_package \<Rightarrow> dictionary \<Rightarrow> manifest_error + CSCapGroup" where
  "CapGroup_groupWithDictionary pkg d =
     on_ok (case fmlookup d ''name'' of None \<Rightarrow> Inl (Manifest_error 1020) | Some j \<Rightarrow> Inr j)
       (\<lambda>name_field. on_ok
         (case fmlookup d ''caps'' of
            Some (JSON_array js) \<Rightarrow> read_all (group_cap pkg) js
          | _ \<Rightarrow> Inr [])
       (\<lambda>caps. on_ok
         (case fmlookup d ''adapter_urns'' of
            Some (JSON_array js) \<Rightarrow> stored_as json_strings (JSON_array js)
          | _ \<Rightarrow> Inr [])
       (\<lambda>urns. on_ok (stored_as json_string name_field)
       (\<lambda>name. Inr \<lparr>group_name = name, group_caps = caps, group_adapterUrns = urns\<rparr>))))"

definition CapGroup_toDictionary ::
    "('t, 'd) tagged_urn_package \<Rightarrow> CSCapGroup \<Rightarrow> urn_failure + dictionary" where
  "CapGroup_toDictionary pkg g =
     on_ok (read_all (Cap_toDictionary pkg) (group_caps g))
       (\<lambda>caps. Inr
         (fmupd ''adapter_urns'' (JSON_array (map JSON_string (group_adapterUrns g)))
         (fmupd ''caps'' (JSON_array (map JSON_object caps))
         (fmupd ''name'' (JSON_string (group_name g)) fmempty))))"

section \<open>Manifests\<close>

datatype CSCartridgeChannel = CSCartridgeChannelRelease | CSCartridgeChannelNightly

record CSCapManifest =
  manifest_name :: string
  manifest_version :: string
  manifest_channel :: CSCartridgeChannel
  registryURL :: "string option"
  manifestDescription :: string
  capGroups :: "CSCapGroup list"
  manifest_author :: "string option"
  pageUrl :: "string option"

definition CapManifest_manifestWithName ::
    "string \<Rightarrow> string \<Rightarrow> CSCartridgeChannel \<Rightarrow> string option \<Rightarrow> string \<Rightarrow> CSCapGroup list \<Rightarrow> CSCapManifest" where
  "CapManifest_manifestWithName name version channel registry description groups =
     \<lparr>manifest_name = name, manifest_version = version, manifest_channel = channel, registryURL = registry,
      manifestDescription = description, capGroups = groups, manifest_author = None, pageUrl = None\<rparr>"

definition read_registry :: "dictionary \<Rightarrow> manifest_error + string option" where
  "read_registry d =
     (case fmlookup d ''registry_url'' of
        None \<Rightarrow> Inl (Manifest_error 1024)
      | Some JSON_null \<Rightarrow> Inr None
      | Some (JSON_string s) \<Rightarrow> Inr (Some s)
      | Some _ \<Rightarrow> Inl (Manifest_error 1025))"

definition read_channel :: "json \<Rightarrow> manifest_error + CSCartridgeChannel" where
  "read_channel j =
     on_ok (stored_as json_string j)
       (\<lambda>s. if s = ''release'' then Inr CSCartridgeChannelRelease
            else if s = ''nightly'' then Inr CSCartridgeChannelNightly
            else Inl (Manifest_error 1023))"

definition read_group :: "('t, 'd) tagged_urn_package \<Rightarrow> json \<Rightarrow> manifest_error + CSCapGroup" where
  "read_group pkg j =
     (case j of
        JSON_object d \<Rightarrow> CapGroup_groupWithDictionary pkg d
      | _ \<Rightarrow> Inl (Manifest_error 1022))"

definition read_if_there :: "dictionary \<Rightarrow> string \<Rightarrow> manifest_error + string option" where
  "read_if_there d k =
     (case fmlookup d k of
        None \<Rightarrow> Inr None
      | Some j \<Rightarrow> on_ok (stored_as json_string j) (\<lambda>s. Inr (Some s)))"

definition CapManifest_manifestWithDictionary ::
    "('t, 'd) tagged_urn_package \<Rightarrow> dictionary \<Rightarrow> manifest_error + CSCapManifest" where
  "CapManifest_manifestWithDictionary pkg d =
     (case (fmlookup d ''name'', fmlookup d ''version'', fmlookup d ''channel'', fmlookup d ''description'',
            fmlookup d ''cap_groups'') of
        (Some name_field, Some version_json, Some channel_field, Some description_field, Some groups_field) \<Rightarrow>
          on_ok (read_registry d)
            (\<lambda>registry. on_ok (read_channel channel_field)
            (\<lambda>channel. on_ok
              (case groups_field of
                 JSON_array js \<Rightarrow> read_all (read_group pkg) js
               | _ \<Rightarrow> Inl (Manifest_cap Outside_model))
            (\<lambda>groups. on_ok (stored_as json_string name_field)
            (\<lambda>name. on_ok (stored_as json_string version_json)
            (\<lambda>version. on_ok (stored_as json_string description_field)
            (\<lambda>description. on_ok (read_if_there d ''author'')
            (\<lambda>author. on_ok (read_if_there d ''page_url'')
            (\<lambda>page. Inr ((CapManifest_manifestWithName name version channel registry description groups)
               \<lparr>manifest_author := author, pageUrl := page\<rparr>)))))))))
      | _ \<Rightarrow> Inl (Manifest_error 1007))"

definition channel_text :: "CSCartridgeChannel \<Rightarrow> string" where
  "channel_text ch = (if ch = CSCartridgeChannelRelease then ''release'' else ''nightly'')"

definition CapManifest_toDictionary ::
    "('t, 'd) tagged_urn_package \<Rightarrow> CSCapManifest \<Rightarrow> urn_failure + dictionary" where
  "CapManifest_toDictionary pkg m =
     on_ok (read_all (CapGroup_toDictionary pkg) (capGroups m))
       (\<lambda>groups. Inr
         (entry_if ''page_url'' (map_option JSON_string (pageUrl m))
         (entry_if ''author'' (map_option JSON_string (manifest_author m))
         (fmupd ''cap_groups'' (JSON_array (map JSON_object groups))
         (fmupd ''description'' (JSON_string (manifestDescription m))
         (fmupd ''registry_url'' (case registryURL m of None \<Rightarrow> JSON_null | Some s \<Rightarrow> JSON_string s)
         (fmupd ''channel'' (JSON_string (channel_text (manifest_channel m)))
         (fmupd ''version'' (JSON_string (manifest_version m))
         (fmupd ''name'' (JSON_string (manifest_name m)) fmempty)))))))))"

definition CapManifest_withAuthor :: "CSCapManifest \<Rightarrow> string \<Rightarrow> CSCapManifest" where
  "CapManifest_withAuthor m author = m\<lparr>manifest_author := Some author\<rparr>"

definition CapManifest_withPageUrl :: "CSCapManifest \<Rightarrow> string \<Rightarrow> CSCapManifest" where
  "CapManifest_withPageUrl m page = m\<lparr>pageUrl := Some page\<rparr>"

definition CapManifest_allCaps :: "CSCapManifest \<Rightarrow> CSCap list" where
  "CapManifest_allCaps m = concat (map group_caps (capGroups m))"

section \<open>Checking\<close>

fun validate_caps :: "'t tagged_urn_api \<Rightarrow> CSCap list \<Rightarrow> definition_fault option" where
  "validate_caps api [] = None"
| "validate_caps api (c # cs) = and_then (CapValidator_validateCapDefinition api c) (validate_caps api cs)"

definition CapManifest_validateDefinitions ::
    "'t tagged_urn_api \<Rightarrow> CSCapManifest \<Rightarrow> definition_fault option" where
  "CapManifest_validateDefinitions api m = validate_caps api (CapManifest_allCaps m)"

text \<open>A manifest another program advertised: the two refusals, and where the model stops.\<close>

datatype load_error =
    CSManifestLoadUnparseable
  | CSManifestLoadInvalidDefinition definition_fault
  | Load_outside_model

definition CapManifest_manifestFromAdvertisedData ::
    "('t, 'd) tagged_urn_package \<Rightarrow> (byte list \<Rightarrow> json option) \<Rightarrow> byte list \<Rightarrow> load_error + CSCapManifest" where
  "CapManifest_manifestFromAdvertisedData pkg decode bytes =
     (case decode bytes of
        Some (JSON_object d) \<Rightarrow>
          (case CapManifest_manifestWithDictionary pkg d of
             Inl (Manifest_cap Outside_model) \<Rightarrow> Inl Load_outside_model
           | Inl _ \<Rightarrow> Inl CSManifestLoadUnparseable
           | Inr m \<Rightarrow>
               (case CapManifest_validateDefinitions (urns pkg) m of
                  Some e \<Rightarrow> Inl (CSManifestLoadInvalidDefinition e)
                | None \<Rightarrow> Inr m))
      | _ \<Rightarrow> Inl CSManifestLoadUnparseable)"

definition CSCapIdentity :: string where
  "CSCapIdentity = ''cap:effect=none''"

definition has_identity :: "CSCapUrn \<Rightarrow> CSCapManifest \<Rightarrow> bool" where
  "has_identity identity m = list_ex (\<lambda>c. CapUrn_conformsTo identity (capUrn c)) (CapManifest_allCaps m)"

datatype manifest_fault =
    Identity_unreadable urn_failure
  | Identity_missing
  | Invalid_definition definition_fault

definition CapManifest_validate :: "('t, 'd) tagged_urn_package \<Rightarrow> CSCapManifest \<Rightarrow> manifest_fault option" where
  "CapManifest_validate pkg m =
     (case CapUrn_fromString pkg CSCapIdentity of
        Inl e \<Rightarrow> Some (Identity_unreadable e)
      | Inr identity \<Rightarrow>
          (if \<not> has_identity identity m then Some Identity_missing
           else map_option Invalid_definition (CapManifest_validateDefinitions (urns pkg) m)))"

text \<open>That the identity constant cannot be read is a failed assertion; inserting \<open>nil\<close> raises.\<close>

datatype manifest_exception = Identity_invalid urn_failure | Nil_cap_inserted

definition CapManifest_ensureIdentity ::
    "('t, 'd) tagged_urn_package \<Rightarrow> CSCapManifest \<Rightarrow> manifest_exception + CSCapManifest" where
  "CapManifest_ensureIdentity pkg m =
     (case CapUrn_fromString pkg CSCapIdentity of
        Inl e \<Rightarrow> Inl (Identity_invalid e)
      | Inr identity \<Rightarrow>
          (if has_identity identity m then Inr m
           else
             (case Cap_identityCap pkg of
                Inl e \<Rightarrow> Inl (Identity_invalid e)
              | Inr None \<Rightarrow> Inl Nil_cap_inserted
              | Inr (Some c) \<Rightarrow>
                  (let groups =
                     (case capGroups m of
                        g # gs \<Rightarrow> \<lparr>group_name = group_name g, group_caps = group_caps g @ [c],
                          group_adapterUrns = group_adapterUrns g\<rparr> # gs
                      | [] \<Rightarrow> [\<lparr>group_name = ''default'', group_caps = [c], group_adapterUrns = []\<rparr>])
                   in Inr (CapManifest_manifestWithName (manifest_name m) (manifest_version m)
                     (manifest_channel m) (registryURL m) (manifestDescription m) groups)))))"

section \<open>The caps of a cartridge\<close>

record CSCartridgeCaps = mutableCaps :: "CSCap list"

definition CartridgeCaps_init :: CSCartridgeCaps where
  "CartridgeCaps_init = \<lparr>mutableCaps = []\<rparr>"

definition CartridgeCaps_addCap :: "CSCartridgeCaps \<Rightarrow> CSCap option \<Rightarrow> CSCartridgeCaps" where
  "CartridgeCaps_addCap s c =
     (case c of None \<Rightarrow> s | Some cap \<Rightarrow> s\<lparr>mutableCaps := mutableCaps s @ [cap]\<rparr>)"

definition CartridgeCaps_capUrns ::
    "('t, 'd) tagged_urn_package \<Rightarrow> CSCartridgeCaps \<Rightarrow> urn_failure + string list" where
  "CartridgeCaps_capUrns pkg s = read_all (Cap_urnString pkg) (mutableCaps s)"

end
