(* ===== verification/CapDefRules.thy ===== *)
theory CapDefRules
  imports CapDef CapRules
begin

text \<open>
  Definitions survive being stored: sources, arguments, outputs and whole caps are read back from what is
  written for them, and what is read is a definition that can be.  The arguments a caller asks a cap for
  are the ones it declares, sorted as they are asked for.
\<close>

section \<open>Fields\<close>

lemma of_class_Inr: "of_class f j = Inr x \<longleftrightarrow> f j = Some x"
  by (auto simp: of_class_def split: option.splits)

lemma json_string_simps [simp]: "json_string (JSON_string s) = Some s"
  by (simp add: json_string_def)

lemma json_dictionary_simps [simp]: "json_dictionary (JSON_object d) = Some d"
  by (simp add: json_dictionary_def)

lemma json_strings_map [simp]: "json_strings (JSON_array (map JSON_string ss)) = Some ss"
  by (simp add: json_strings_def comp_def list_all_iff)

lemma json_bool_simps [simp]: "json_bool (JSON_bool b) = Some b"
  by (simp add: json_bool_def)

lemma json_int64_sint [simp]: "json_int64 (JSON_int (sint (w :: 64 word))) = Some w"
  using sint_ge [of w] sint_lt [of w] by (simp add: json_int64_def json_integer_def)

lemma json_uint32_uint [simp]: "json_uint32 (JSON_int (uint (w :: 32 word))) = Some w"
  using uint_lt2p [of w] by (simp add: json_uint32_def json_integer_def)

lemma of_class_Some [simp]: "f j = Some x \<Longrightarrow> of_class f j = Inr x"
  by (simp add: of_class_def)

lemmas cap_fields = optional_field_def required_field_def default_field_def refuse_unknown_def
  definition_name_def string_field_def

section \<open>Sources, arguments and outputs\<close>

definition sound_source :: "CSArgSource \<Rightarrow> bool" where
  "sound_source s \<longleftrightarrow>
     (case source_type s of
        CSArgSourceTypeStdin \<Rightarrow> stdinMediaUrn s \<noteq> None \<and> source_position s = -1 \<and> cliFlag s = None
      | CSArgSourceTypePosition \<Rightarrow> stdinMediaUrn s = None \<and> cliFlag s = None
      | CSArgSourceTypeCliFlag \<Rightarrow> stdinMediaUrn s = None \<and> source_position s = -1 \<and> cliFlag s \<noteq> None)"

definition sound_arg :: "CSCapArg \<Rightarrow> bool" where
  "sound_arg a \<longleftrightarrow> list_all sound_source (sources a)"

definition sound_output :: "CSCapOutput \<Rightarrow> bool" where
  "sound_output out \<longleftrightarrow> carries out = None \<or> carries out = Some ''input''"

interpretation arg_sources: json_form "\<lambda>s. JSON_object (ArgSource_toDictionary s)"
    ArgSource_sourceWithDictionary sound_source
proof
  show "ArgSource_sourceWithDictionary (JSON_object (ArgSource_toDictionary s)) = Inr s" if "sound_source s" for s
    using that by (cases s) (auto simp: sound_source_def ArgSource_sourceWithDictionary_def
        ArgSource_toDictionary_def entry_if_def ArgSource_stdinSource_def ArgSource_positionSource_def
        ArgSource_cliFlagSource_def split: CSArgSourceType.splits)
  show "sound_source s" if "ArgSource_sourceWithDictionary j = Inr s" for j s
    using that by (auto simp: sound_source_def ArgSource_sourceWithDictionary_def on_ok_Inr
        ArgSource_stdinSource_def ArgSource_positionSource_def ArgSource_cliFlagSource_def
        split: json.splits option.splits)
qed

interpretation cap_args: json_form "\<lambda>a. JSON_object (CapArg_toDictionary a)" CapArg_argWithDictionary sound_arg
proof
  show "CapArg_argWithDictionary (JSON_object (CapArg_toDictionary a)) = Inr a" if "sound_arg a" for a
    using that arg_sources.list_reads_back [of "sources a"]
    by (cases a) (auto simp: sound_arg_def CapArg_argWithDictionary_def CapArg_toDictionary_def cap_fields
        comp_def entry_if_def split: option.splits)
  show "sound_arg a" if "CapArg_argWithDictionary j = Inr a" for j a
    using that
    by (auto simp: sound_arg_def CapArg_argWithDictionary_def on_ok_Inr dest: arg_sources.list_reads_good
        split: json.splits option.splits)
qed

interpretation cap_outputs: json_form "\<lambda>out. JSON_object (CapOutput_toDictionary out)"
    CapOutput_outputWithDictionary sound_output
proof
  show "CapOutput_outputWithDictionary (JSON_object (CapOutput_toDictionary out)) = Inr out"
    if "sound_output out" for out
    using that
    by (cases out) (auto simp: sound_output_def CapOutput_outputWithDictionary_def CapOutput_toDictionary_def
        cap_fields entry_if_def split: option.splits)
  show "sound_output out" if "CapOutput_outputWithDictionary j = Inr out" for j out
    using that by (auto simp: sound_output_def CapOutput_outputWithDictionary_def on_ok_Inr
        split: json.splits option.splits if_splits)
qed

interpretation registrations: json_form "\<lambda>r. JSON_object (RegisteredBy_toDictionary r)"
    RegisteredBy_registeredByWithDictionary "\<lambda>_. True"
  by unfold_locales
    (auto simp: RegisteredBy_registeredByWithDictionary_def RegisteredBy_toDictionary_def string_field_def)


section \<open>Caps\<close>

definition sound_cap :: "('t, 'd) tagged_urn_package \<Rightarrow> CSCap \<Rightarrow> bool" where
  "sound_cap pkg c \<longleftrightarrow>
     declared_cap pkg (capUrn c) \<and> aliases c \<noteq> [] \<and> cap_documentation c \<noteq> Some '''' \<and>
     CSCheckDimRefs (cap_dims c) = None \<and> list_all sound_arg (args c) \<and> list_all sound_output (outputs c)"

text \<open>The entries of a cap that is written.\<close>

lemma cap_entries:
  assumes "Cap_toDictionary pkg c = Inr d"
  shows "CapUrn_toString pkg (capUrn c) = Inr s \<Longrightarrow> fmlookup d ''urn'' = Some (JSON_string s)"
    and "fmlookup d ''version'' = (if cap_version c = 0 then None else Some (JSON_int (uint (cap_version c))))"
    and "fmlookup d ''title'' = Some (JSON_string (cap_title c))"
    and "fmlookup d ''aliases'' = Some (JSON_array (map JSON_string (aliases c)))"
    and "fmlookup d ''abstract'' = (if isAbstract c then Some (JSON_bool True) else None)"
    and "fmlookup d ''cap_description'' = map_option JSON_string (cap_description c)"
    and "fmlookup d ''documentation'' = map_option JSON_string (cap_documentation c)"
    and "fmlookup d ''dims'' = (if cap_dims c = [] then None else Some (DimRef_dictionariesFromRefs (cap_dims c)))"
    and "fmlookup d ''metadata'' = Some (JSON_object (cap_metadata c))"
    and "fmlookup d ''metadata_json'' = map_option JSON_object (metadataJSON c)"
    and "fmlookup d ''args'' = (if args c = [] then None
      else Some (JSON_array (map (\<lambda>a. JSON_object (CapArg_toDictionary a)) (args c))))"
    and "fmlookup d ''outputs'' = Some (JSON_array (map (\<lambda>out. JSON_object (CapOutput_toDictionary out)) (outputs c)))"
    and "fmlookup d ''registered_by'' = map_option (\<lambda>r. JSON_object (RegisteredBy_toDictionary r)) (registeredBy c)"
    and "fmlookup d ''supported_model_types'' = (if supportedModelTypes c = [] then None
      else Some (JSON_array (map JSON_string (supportedModelTypes c))))"
    and "fmlookup d ''default_model_spec'' = map_option JSON_string (defaultModelSpec c)"
  using assms by (auto simp: Cap_toDictionary_def on_ok_Inr)

context urn_package
begin

lemma cap_written:
  assumes "declared_cap pkg (capUrn c)"
  shows "\<exists>d. Cap_toDictionary pkg c = Inr d"
  using print_read [OF assms] by (auto simp: Cap_toDictionary_def)

lemma cap_reads_back:
  assumes "sound_cap pkg c" and "Cap_toDictionary pkg c = Inr d"
  shows "Cap_capWithDictionary pkg (JSON_object d) = Inr c"
proof -
  obtain s where s: "CapUrn_toString pkg (capUrn c) = Inr s" "CapUrn_fromString pkg s = Inr (capUrn c)"
    using print_read assms(1) by (auto simp: sound_cap_def)
  note entries = cap_entries(1) [OF assms(2) s(1)] cap_entries(2-) [OF assms(2)]
  have names: "aliases c \<noteq> []" using assms(1) by (simp add: sound_cap_def)
  have abstract: "default_field False json_bool d ''abstract'' = Inr (isAbstract c)"
    and ttl: "required_field (Cap_error 1003) json_string d ''title'' = Inr (cap_title c)"
    and description: "optional_field json_string d ''cap_description'' = Inr (cap_description c)"
    and metadata: "default_field fmempty json_dictionary d ''metadata'' = Inr (cap_metadata c)"
    and metadata_json: "optional_field json_dictionary d ''metadata_json'' = Inr (metadataJSON c)"
    and spec: "string_field d ''default_model_spec'' = defaultModelSpec c"
    by (auto simp: cap_fields entries split: option.splits)
  have doc: "read_documentation d = cap_documentation c"
    using assms(1) by (auto simp: read_documentation_def sound_cap_def string_field_def entries split: option.splits)
  have version: "(case fmlookup d ''version'' of
       None \<Rightarrow> Inr 0
     | Some v \<Rightarrow> (if json_integer v = None then Inr 0 else of_class json_uint32 v)) =
      (Inr (cap_version c) :: cap_def_error + 32 word)"
    by (simp add: entries json_integer_def)
  have dims: "DimRef_refsFromField (fmlookup d ''dims'') = Inr (cap_dims c)"
    using assms(1) ref_lists.reads_back [of "cap_dims c"]
    by (simp add: entries sound_cap_def) (simp add: DimRef_refsFromField_def)
  have arguments: "(case fmlookup d ''args'' of
       Some (JSON_array js) \<Rightarrow> read_all CapArg_argWithDictionary js
     | _ \<Rightarrow> Inr []) = Inr (args c)"
    using assms(1) cap_args.list_reads_back [of "args c"] by (simp add: entries sound_cap_def)
  have outs: "read_all CapOutput_outputWithDictionary
      (map (\<lambda>out. JSON_object (CapOutput_toDictionary out)) (outputs c)) = Inr (outputs c)"
    using assms(1) cap_outputs.list_reads_back [of "outputs c"] by (simp add: sound_cap_def)
  have registered: "(case fmlookup d ''registered_by'' of
       None \<Rightarrow> Inr None
     | Some v \<Rightarrow> on_ok (RegisteredBy_registeredByWithDictionary v) (\<lambda>r. Inr (Some r))) = Inr (registeredBy c)"
    using registrations.reads_back by (cases "registeredBy c") (simp_all add: entries)
  have model_types: "(case fmlookup d ''supported_model_types'' of
       Some (JSON_array js) \<Rightarrow> of_class json_strings (JSON_array js)
     | _ \<Rightarrow> Inr []) = Inr (supportedModelTypes c)"
    by (simp add: entries)
  show ?thesis
    using names
    by (simp add: Cap_capWithDictionary_def abstract ttl description metadata metadata_json spec doc version
        dims arguments outs registered model_types entries(1,4,12) s(2) Cap_capWithUrn_def)
qed

lemma cap_reads_sound:
  assumes "Cap_capWithDictionary pkg j = Inr c"
  shows "sound_cap pkg c"
proof -
  obtain d where j: "j = JSON_object d" using assms by (cases j) (auto simp: Cap_capWithDictionary_def)
  from assms obtain urn_text urn names refs arguments outs ttl description metadata metadata_json abstract
      version registered model_types where parts:
      "(case CapUrn_fromString pkg urn_text of Inl e \<Rightarrow> Inl (Urn_error e) | Inr u \<Rightarrow> Inr u) = Inr urn"
      "(case DimRef_refsFromField (fmlookup d ''dims'') of Inl e \<Rightarrow> Inl (Dims_error e) | Inr rs \<Rightarrow> Inr rs) = Inr refs"
      "(case fmlookup d ''args'' of
         Some (JSON_array js) \<Rightarrow> read_all CapArg_argWithDictionary js
       | _ \<Rightarrow> Inr []) = Inr arguments"
      "(case fmlookup d ''outputs'' of
         None \<Rightarrow> Inr []
       | Some (JSON_array js) \<Rightarrow> read_all CapOutput_outputWithDictionary js
       | _ \<Rightarrow> Inl (Cap_error 1005)) = Inr outs"
      "(case Cap_capWithUrn urn ttl names description (read_documentation d) metadata arguments outs
            metadata_json of
         None \<Rightarrow> Inl Outside_model
       | Some k \<Rightarrow> Inr (k\<lparr>isAbstract := abstract, registeredBy := registered,
           supportedModelTypes := model_types, defaultModelSpec := string_field d ''default_model_spec'',
           cap_version := version, cap_dims := refs\<rparr>)) = Inr c"
    unfolding j Cap_capWithDictionary_def json.case on_ok_Inr by blast
  have "declared_cap pkg urn" using parts(1) fromString_declared by (auto split: sum.splits)
  moreover have "CSCheckDimRefs refs = None"
    using parts(2) ref_lists.reads_good
    by (cases "fmlookup d ''dims''")
      (auto simp: DimRef_refsFromField_def CSCheckDimRefs_def split: sum.splits)
  moreover have "list_all sound_arg arguments"
    using parts(3) cap_args.list_reads_good by (auto split: option.splits json.splits)
  moreover have "list_all sound_output outs"
    using parts(4) cap_outputs.list_reads_good by (auto split: option.splits json.splits)
  moreover have "read_documentation d \<noteq> Some ''''"
    by (auto simp: read_documentation_def split: option.splits if_splits)
  ultimately show ?thesis
    using parts(5) by (auto simp: sound_cap_def Cap_capWithUrn_def split: if_splits)
qed

end


section \<open>The definitions a caller can have\<close>

text \<open>What the constructors of sources make; definitions that are read, made with a title, an alias and
  documentation that says something, edited and copied.\<close>

lemma sources_sound [simp]:
  "sound_source (ArgSource_stdinSource urn)" "sound_source (ArgSource_positionSource i)"
  "sound_source (ArgSource_cliFlagSource flg)"
  by (simp_all add: sound_source_def ArgSource_stdinSource_def ArgSource_positionSource_def
      ArgSource_cliFlagSource_def)

inductive defined :: "('t, 'd) tagged_urn_package \<Rightarrow> CSCap \<Rightarrow> bool" for pkg where
  read: "Cap_capWithDictionary pkg j = Inr c \<Longrightarrow> defined pkg c"
| made: "obtained pkg urn \<Longrightarrow> doc \<noteq> Some '''' \<Longrightarrow> list_all sound_arg arguments \<Longrightarrow> list_all sound_output outs \<Longrightarrow>
    Cap_capWithUrn urn ttl names description doc metadata arguments outs metadata_json = Some c \<Longrightarrow> defined pkg c"
| identity: "Cap_identityCap pkg = Inr (Some c) \<Longrightarrow> defined pkg c"
| with_outputs: "defined pkg c \<Longrightarrow> list_all sound_output outs \<Longrightarrow> defined pkg (Cap_setOutputs c outs)"
| with_output: "defined pkg c \<Longrightarrow> sound_output out \<Longrightarrow> defined pkg (Cap_addOutput c out)"
| with_arg: "defined pkg c \<Longrightarrow> sound_arg a \<Longrightarrow> defined pkg (Cap_addArg c a)"
| with_metadata: "defined pkg c \<Longrightarrow> defined pkg (Cap_setMetadataJSON c metadata)"
| without_metadata: "defined pkg c \<Longrightarrow> defined pkg (Cap_clearMetadataJSON c)"
| copied: "defined pkg c \<Longrightarrow> Cap_copy pkg c = Inr (Some c') \<Longrightarrow> defined pkg c'"

lemma made_sound:
  assumes "declared_cap pkg urn" and "doc \<noteq> Some ''''" and "list_all sound_arg arguments"
    and "list_all sound_output outs"
    and "Cap_capWithUrn urn ttl names description doc metadata arguments outs metadata_json = Some c"
  shows "sound_cap pkg c"
  using assms by (auto simp: Cap_capWithUrn_def sound_cap_def CSCheckDimRefs_def split: if_splits)

lemma copy_sound:
  assumes "sound_cap pkg c" and "CapUrn_copy pkg (capUrn c) = Inr (capUrn c)"
  shows "Cap_copy pkg c = Inr (Some c)"
  using assms by (cases c) (simp add: Cap_copy_def Cap_capWithUrn_def sound_cap_def)

context urn_package
begin

lemma defined_sound: "defined pkg c \<Longrightarrow> sound_cap pkg c"
proof (induction rule: defined.induct)
  case (read j c)
  then show ?case by (rule cap_reads_sound)
next
  case (made urn doc arguments outs ttl names description metadata metadata_json c)
  then show ?case using made_sound obtained_declared by blast
next
  case (identity c)
  then obtain urn where urn: "CapUrn_fromString pkg ''cap:effect=none'' = Inr urn"
    by (auto simp: Cap_identityCap_def on_ok_Inr)
  then have "declared_cap pkg urn" by (rule fromString_declared)
  with identity urn show ?case
    by (auto simp: Cap_identityCap_def CapArg_argWithMediaUrn_def CapOutput_outputWithMediaUrn_def
        sound_arg_def sound_output_def elim!: made_sound)
next
  case (copied c c')
  then have "declared_cap pkg (capUrn c)" by (simp add: sound_cap_def)
  from copy_sound [OF copied.IH declared_copy [OF this]] show ?case using copied by simp
qed (auto simp: sound_cap_def Cap_setOutputs_def Cap_addOutput_def Cap_addArg_def Cap_setMetadataJSON_def
    Cap_clearMetadataJSON_def)

end


definition extract_definition :: CSCap where
  "extract_definition =
     the (Cap_capWithUrn extract_cap ''Extract'' [''extract''] None (Some ''Takes the text out.'') fmempty
       [CapArg_argWithMediaUrn ''media:pdf'' ''document'' True [ArgSource_stdinSource ''media:pdf''] None None]
       [CapOutput_outputWithMediaUrn ''media:text'' ''text'' ''The text''] None)"

lemma extract_defined: "defined text_urns extract_definition"
  by (rule defined.made [OF extract_obtained, where doc = "Some ''Takes the text out.''"])
    (auto simp: extract_definition_def Cap_capWithUrn_def sound_arg_def sound_output_def
      CapArg_argWithMediaUrn_def CapOutput_outputWithMediaUrn_def)


section \<open>Arguments by position\<close>

lemma sort_by_cong:
  assumes "\<And>x y. x \<in> set xs \<Longrightarrow> y \<in> set xs \<Longrightarrow> cmp x y = cmp' x y"
  shows "sort_by cmp xs = sort_by cmp' xs \<and> set (sort_by cmp xs) = set xs"
proof -
  have insert: "(\<And>y. y \<in> set ys \<Longrightarrow> cmp x y = cmp' x y) \<Longrightarrow> insert_by cmp x ys = insert_by cmp' x ys" for x ys
    by (induction ys) auto
  have members: "set (insert_by cmp x ys) = insert x (set ys)" for x ys
    by (induction ys) auto
  show ?thesis using assms by (induction xs) (auto simp: members intro!: insert)
qed

text \<open>The positional arguments are those with a position, in the order of their positions, and those of
  one position in the order they are declared.\<close>

lemma positional_args_sorted:
  "Cap_getPositionalArgs c =
    sort_key (\<lambda>a. sint (the (CapArg_getPosition a))) (filter CapArg_hasPositionSource (args c))"
proof -
  have placed: "CapArg_getPosition a \<noteq> None" if "CapArg_hasPositionSource a" for a
    using that by (auto simp: CapArg_hasPositionSource_def CapArg_getPosition_def find_None_iff list_ex_iff)
  have "compare_positions a b = compare_linorder (sint (the (CapArg_getPosition a))) (sint (the (CapArg_getPosition b)))"
    if "a \<in> set (filter CapArg_hasPositionSource (args c))" "b \<in> set (filter CapArg_hasPositionSource (args c))" for a b
    using placed [of a] placed [of b] that by (auto simp: compare_positions_def)
  from sort_by_cong [OF this, of "filter CapArg_hasPositionSource (args c)"]
  show ?thesis by (simp add: Cap_getPositionalArgs_def sort_by_key)
qed

lemma args_partition: "mset (Cap_getRequiredArgs c) + mset (Cap_getOptionalArgs c) = mset (args c)"
  by (simp add: Cap_getRequiredArgs_def Cap_getOptionalArgs_def)

lemma stdin_is_first:
  "Cap_getStdinMediaUrn c =
    Option.bind (List.find (\<lambda>a. CapArg_getStdinMediaUrn a \<noteq> None) (args c)) CapArg_getStdinMediaUrn"
proof -
  have "stdin_loop xs = Option.bind (List.find (\<lambda>a. CapArg_getStdinMediaUrn a \<noteq> None) xs) CapArg_getStdinMediaUrn" for xs
    by (induction xs) (auto split: option.splits)
  then show ?thesis by (simp add: Cap_getStdinMediaUrn_def)
qed

end
