(* ===== verification/CapValidRules.thy ===== *)
theory CapValidRules
  imports CapValidator CapDefRules Fab
begin

text \<open>
  What a definition without a fault is: the rules of the validator as one specification of the whole
  definition, without the order of the checks and what the loops collect, and that the validator finds no
  fault exactly when they are kept.  A cap that keeps them never stops the program: its main input and its
  main output are there when they are asked for, and it can be added to the graph of caps.
\<close>

section \<open>The rules\<close>

text \<open>An argument says where it comes from: at least one source, at most one of a kind, not by position and
  flag at once, and no flag every cartridge already understands.\<close>

definition sources_rule :: "CSCapArg \<Rightarrow> bool" where
  "sources_rule a \<longleftrightarrow>
     sources a \<noteq> [] \<and> distinct (map source_type (sources a)) \<and>
     (\<forall>s\<in>set (sources a).
       (ArgSource_isStdin s \<longrightarrow> stdinMediaUrn s \<noteq> None) \<and>
       (ArgSource_isCliFlag s \<longrightarrow> (\<exists>f. cliFlag s = Some f \<and> f \<notin> set CSReservedCliFlags))) \<and>
     \<not> (CapArg_hasPositionSource a \<and> CapArg_hasCliFlagSource a)"

text \<open>The positions and the flags the arguments of a cap are given by, in the order they are declared.\<close>

definition declared_positions :: "CSCapArg list \<Rightarrow> int list" where
  "declared_positions as =
     map (\<lambda>s. sint (source_position s)) (filter ArgSource_isPosition (concat (map sources as)))"

definition declared_flags :: "CSCapArg list \<Rightarrow> string option list" where
  "declared_flags as = map cliFlag (filter ArgSource_isCliFlag (concat (map sources as)))"

definition names_rule :: "string list \<Rightarrow> bool" where
  "names_rule names \<longleftrightarrow> list_all CSIsValidDefinitionName names \<and> distinct names"

definition main_input_rule :: "'t tagged_urn_api \<Rightarrow> CSCap \<Rightarrow> bool" where
  "main_input_rule api c \<longleftrightarrow>
     (\<exists>in_media void.
       media_of api (inSpec (capUrn c)) = Some in_media \<and> media_of api ''media:void'' = Some void \<and>
       (if MediaUrn_isEquivalentTo api in_media void then \<forall>a\<in>set (args c). \<not> CapArg_hasStdinSource a
        else \<exists>a\<in>set (args c). CapArg_isMainInputForInSpec api a in_media) \<and>
       (\<forall>a\<in>set (args c). arg_streaming a \<longrightarrow> CapArg_isMainInputForInSpec api a in_media))"

definition args_rules :: "'t tagged_urn_api \<Rightarrow> CSCap \<Rightarrow> bool" where
  "args_rules api c \<longleftrightarrow>
     distinct (map arg_mediaUrn (args c)) \<and> list_all sources_rule (args c) \<and>
     length (filter CapArg_hasStdinSource (args c)) \<le> 1 \<and> names_rule (map arg_name (args c)) \<and>
     (\<forall>a\<in>set (args c). arg_accepts a = None \<or> \<not> CapArg_hasStdinSource a) \<and>
     main_input_rule api c \<and>
     set (declared_positions (args c)) = {0..<int (length (declared_positions (args c)))} \<and>
     distinct (declared_flags (args c))"

text \<open>The outputs: their names, that no two are the same medium, that exactly one is what the cap is
  declared to give, unless it gives nothing, and that only the others carry the input.\<close>

definition outputs_rules :: "'t tagged_urn_api \<Rightarrow> CSCap \<Rightarrow> bool" where
  "outputs_rules api c \<longleftrightarrow>
     names_rule (map output_name (outputs c)) \<and>
     (\<exists>out_media in_media void media.
       media_of api (outSpec (capUrn c)) = Some out_media \<and> media_of api (inSpec (capUrn c)) = Some in_media \<and>
       media_of api ''media:void'' = Some void \<and>
       map (\<lambda>out. media_of api (output_mediaUrn out)) (outputs c) = map Some media \<and>
       sorted_wrt (\<lambda>m n. \<not> MediaUrn_isEquivalentTo api m n) media \<and>
       (if MediaUrn_isEquivalentTo api out_media void then outputs c = []
        else \<exists>i<length (outputs c).
          (\<forall>j<length (outputs c). MediaUrn_isEquivalentTo api (media ! j) out_media \<longleftrightarrow> j = i) \<and>
          carries (outputs c ! i) = None \<and>
          (MediaUrn_isEquivalentTo api in_media void \<longrightarrow> (\<forall>out\<in>set (outputs c). carries out = None))))"

section \<open>The checks of the arguments\<close>

lemma and_then_None [simp]: "and_then r s = None \<longleftrightarrow> r = None \<and> s = None"
  by (cases r) (simp_all add: and_then_def)

lemma check_media_urns_None:
  "check_media_urns seen as = None \<longleftrightarrow> distinct (map arg_mediaUrn as) \<and> arg_mediaUrn ` set as \<inter> seen = {}"
  by (induction seen as rule: check_media_urns.induct) auto

lemma check_has_sources_None: "check_has_sources as = None \<longleftrightarrow> (\<forall>a\<in>set as. sources a \<noteq> [])"
  by (induction as) auto

lemma check_accepts_None:
  "check_accepts as = None \<longleftrightarrow> (\<forall>a\<in>set as. arg_accepts a = None \<or> \<not> CapArg_hasStdinSource a)"
  by (induction as) auto

lemma check_streaming_None:
  "check_streaming api m as = None \<longleftrightarrow> (\<forall>a\<in>set as. arg_streaming a \<longrightarrow> CapArg_isMainInputForInSpec api a m)"
  by (induction as) auto

lemma check_one_stdin_None: "check_one_stdin as = None \<longleftrightarrow> length (filter CapArg_hasStdinSource as) \<le> 1"
  by (simp add: check_one_stdin_def Let_def not_less)

lemma valid_name_nonempty [simp]: "\<not> CSIsValidDefinitionName []"
  by (simp add: CSIsValidDefinitionName_def)

lemma find_taken: "List.find (\<lambda>seen. f seen = x) named = None \<longleftrightarrow> x \<notin> f ` set named"
  by (auto simp: find_None_iff)

lemma names_rule_Nil [simp]: "names_rule []"
  by (simp add: names_rule_def)

lemma names_rule_Cons [simp]: "names_rule (n # ns) \<longleftrightarrow> CSIsValidDefinitionName n \<and> n \<notin> set ns \<and> names_rule ns"
  by (auto simp: names_rule_def)

lemma check_arg_names_None:
  "check_arg_names named as = None \<longleftrightarrow>
    names_rule (map arg_name as) \<and> arg_name ` set as \<inter> arg_name ` set named = {}"
proof (induction named as rule: check_arg_names.induct)
  case (2 named a as)
  then show ?case
    using find_taken [of arg_name "arg_name a" named]
    by (cases "arg_name a = []"; cases "CSIsValidDefinitionName (arg_name a)";
        cases "List.find (\<lambda>seen. arg_name seen = arg_name a) named") auto
qed simp

lemma check_output_names_None:
  "check_output_names named outs = None \<longleftrightarrow>
    names_rule (map output_name outs) \<and> output_name ` set outs \<inter> output_name ` set named = {}"
proof (induction named outs rule: check_output_names.induct)
  case (2 named out outs)
  then show ?case
    using find_taken [of output_name "output_name out" named]
    by (cases "output_name out = []"; cases "CSIsValidDefinitionName (output_name out)";
        cases "List.find (\<lambda>seen. output_name seen = output_name out) named") auto
qed simp

text \<open>What the loop over the sources does to what is collected.\<close>

definition source_ok :: "CSArgSource \<Rightarrow> bool" where
  "source_ok s \<longleftrightarrow>
     (ArgSource_isStdin s \<longrightarrow> stdinMediaUrn s \<noteq> None) \<and>
     (ArgSource_isCliFlag s \<longrightarrow> (\<exists>f. cliFlag s = Some f \<and> f \<notin> set CSReservedCliFlags))"

definition collected_of :: "(CSArgSource \<times> string) list \<Rightarrow> collected \<Rightarrow> collected" where
  "collected_of ss acc =
     \<lparr>stdin_urns = stdin_urns acc @ map (\<lambda>(s, urn). the (stdinMediaUrn s)) (filter (ArgSource_isStdin \<circ> fst) ss),
      held_positions = held_positions acc @ map (\<lambda>(s, urn). (source_position s, urn)) (filter (ArgSource_isPosition \<circ> fst) ss),
      held_flags = held_flags acc @ map (\<lambda>(s, urn). (the (cliFlag s), urn)) (filter (ArgSource_isCliFlag \<circ> fst) ss)\<rparr>"

lemma collected_of_Nil [simp]: "collected_of [] acc = acc"
  by (simp add: collected_of_def)

lemma collected_of_append: "collected_of (xs @ ys) acc = collected_of ys (collected_of xs acc)"
  by (simp add: collected_of_def)

lemmas source_kinds = ArgSource_isStdin_def ArgSource_isPosition_def ArgSource_isCliFlag_def

lemma source_loop_Inr:
  "source_loop urn types p f acc ss = Inr r \<longleftrightarrow>
    distinct (map source_type ss) \<and> source_type ` set ss \<inter> types = {} \<and> (\<forall>s\<in>set ss. source_ok s) \<and>
    r = (p \<or> list_ex ArgSource_isPosition ss, f \<or> list_ex ArgSource_isCliFlag ss,
         collected_of (map (\<lambda>s. (s, urn)) ss) acc)"
proof (induction urn types p f acc ss rule: source_loop.induct)
  case (1 urn types p f acc)
  show ?case by auto
next
  case (2 urn types p f acc s ss)
  show ?case
  proof (cases "source_type s \<in> types")
    case False
    then show ?thesis
    proof (cases "source_type s")
      case CSArgSourceTypeStdin
      with False 2(1) show ?thesis
        by (cases "stdinMediaUrn s") (auto simp: source_kinds source_ok_def collected_of_def)
    next
      case CSArgSourceTypePosition
      with False 2(2) show ?thesis
        by (auto simp: source_kinds source_ok_def collected_of_def)
    next
      case CSArgSourceTypeCliFlag
      with False 2(3) show ?thesis
        by (cases "cliFlag s") (auto simp: source_kinds source_ok_def collected_of_def)
    qed
  qed auto
qed

definition given_sources :: "CSCapArg list \<Rightarrow> (CSArgSource \<times> string) list" where
  "given_sources as = concat (map (\<lambda>a. map (\<lambda>s. (s, arg_mediaUrn a)) (sources a)) as)"

definition sources_checked :: "CSCapArg \<Rightarrow> bool" where
  "sources_checked a \<longleftrightarrow>
     distinct (map source_type (sources a)) \<and> (\<forall>s\<in>set (sources a). source_ok s) \<and>
     \<not> (CapArg_hasPositionSource a \<and> CapArg_hasCliFlagSource a)"

lemma sources_rule_checked: "sources_rule a \<longleftrightarrow> sources a \<noteq> [] \<and> sources_checked a"
  by (auto simp: sources_rule_def sources_checked_def source_ok_def)

lemma collect_loop_Inr:
  "collect_loop acc as = Inr r \<longleftrightarrow> list_all sources_checked as \<and> r = collected_of (given_sources as) acc"
proof (induction acc as arbitrary: r rule: collect_loop.induct)
  case (1 acc)
  show ?case by (auto simp: given_sources_def)
next
  case (2 acc a as)
  show ?case
    by (auto simp: on_ok_Inr source_loop_Inr 2 sources_checked_def CapArg_hasPositionSource_def
        CapArg_hasCliFlagSource_def given_sources_def collected_of_append)
qed

lemma given_sources_fst [simp]: "map fst (given_sources as) = concat (map sources as)"
  by (induction as) (simp_all add: given_sources_def comp_def)

lemma given_sources_map:
  "map (\<lambda>(s, urn). f s) (filter (P \<circ> fst) (given_sources as)) = map f (filter P (concat (map sources as)))"
proof -
  have "map (\<lambda>(s, urn). f s) (filter (P \<circ> fst) xs) = map f (filter P (map fst xs))" for xs :: "(CSArgSource \<times> string) list"
    by (induction xs) auto
  then show ?thesis by simp
qed

lemma check_positions_None:
  "check_positions seen ps = None \<longleftrightarrow> distinct (map fst ps) \<and> fst ` set ps \<inter> seen = {}"
  by (induction seen ps rule: check_positions.induct) auto

lemma check_flags_None: "check_flags seen fs = None \<longleftrightarrow> distinct (map fst fs) \<and> fst ` set fs \<inter> seen = {}"
  by (induction seen fs rule: check_flags.induct) auto

lemma check_gaps_None:
  "check_gaps i ps = None \<longleftrightarrow> map (\<lambda>p. sint (fst p)) ps = map int [i..<i + length ps]"
  by (induction i ps rule: check_gaps.induct) (auto simp: upt_rec)

text \<open>Distinct positions without a gap are the numbers from 0 on, and the other way round.\<close>

lemma positions_without_gaps:
  fixes f :: "'a \<Rightarrow> int"
  shows "distinct (map f xs) \<and> map f (sort_key f xs) = map int [0..<length xs] \<longleftrightarrow>
    f ` set xs = {0..<int (length xs)}"
proof
  assume "distinct (map f xs) \<and> map f (sort_key f xs) = map int [0..<length xs]"
  then have "set (map f (sort_key f xs)) = int ` {0..<length xs}" by simp
  then show "f ` set xs = {0..<int (length xs)}" by (simp add: image_int_atLeastLessThan)
next
  assume all: "f ` set xs = {0..<int (length xs)}"
  then have dist: "distinct (map f xs)" by (intro card_distinct) simp
  have "sorted (map f (sort_key f xs))" by simp
  moreover have "sorted (map int [0..<length xs])" by (simp add: sorted_map)
  moreover have "distinct (map f (sort_key f xs))" using dist by (metis distinct_map distinct_sort set_sort)
  moreover have "distinct (map int [0..<length xs])" by (simp add: distinct_map)
  moreover have "set (map f (sort_key f xs)) = set (map int [0..<length xs])"
    using all by (simp add: image_int_atLeastLessThan)
  ultimately have "map f (sort_key f xs) = map int [0..<length xs]"
    using sorted_distinct_set_unique by blast
  with dist show "distinct (map f xs) \<and> map f (sort_key f xs) = map int [0..<length xs]" by simp
qed

lemma positions_checked:
  fixes ps :: "(64 word \<times> string) list"
  shows "check_positions {} ps = None \<and>
     check_gaps 0 (sort_by (\<lambda>a b. compare_linorder (sint (fst a)) (sint (fst b))) ps) = None \<longleftrightarrow>
     (\<lambda>p. sint (fst p)) ` set ps = {0..<int (length ps)}"
proof -
  have "sint v = sint w \<longleftrightarrow> v = w" for v w :: "64 word"
    by (auto intro: signed_word_eqI)
  then have "distinct (map fst ps) \<longleftrightarrow> distinct (map (\<lambda>p. sint (fst p)) ps)"
    by (simp add: distinct_map inj_on_def)
  then show ?thesis
    using positions_without_gaps [of "\<lambda>p. sint (fst p)" ps]
    by (simp add: check_positions_None check_gaps_None sort_by_key)
qed

lemma isMainInput_ex:
  "isMainInput_loop api srcs m \<longleftrightarrow>
    (\<exists>s\<in>set srcs. ArgSource_isStdin s \<and>
      (\<exists>n. Option.bind (stdinMediaUrn s) (media_of api) = Some n \<and> MediaUrn_isEquivalentTo api n m))"
  by (induction api srcs m rule: isMainInput_loop.induct) (auto split: option.splits)

lemma list_all_sources: "list_all P (concat (map sources as)) \<longleftrightarrow> (\<forall>a\<in>set as. \<forall>s\<in>set (sources a). P s)"
  by (auto simp: list_all_iff)

text \<open>What is collected when no source is refused.\<close>

lemma collected_arguments:
  assumes "list_all sources_checked as"
    and "acc = collected_of (given_sources as) \<lparr>stdin_urns = [], held_positions = [], held_flags = []\<rparr>"
  shows "map (\<lambda>p. sint (fst p)) (held_positions acc) = declared_positions as"
    and "map (Some \<circ> fst) (held_flags acc) = declared_flags as"
    and "map Some (stdin_urns acc) = map stdinMediaUrn (filter ArgSource_isStdin (concat (map sources as)))"
proof -
  show "map (\<lambda>p. sint (fst p)) (held_positions acc) = declared_positions as"
    using given_sources_map [of "\<lambda>s. sint (source_position s)" ArgSource_isPosition as]
    by (simp add: assms(2) collected_of_def declared_positions_def case_prod_unfold comp_def)
  have ok: "\<forall>a\<in>set as. \<forall>s\<in>set (sources a). source_ok s"
    using assms(1) by (auto simp: list_all_iff sources_checked_def)
  have "map (\<lambda>s. Some (the (cliFlag s))) (filter ArgSource_isCliFlag (concat (map sources as))) = declared_flags as"
    unfolding declared_flags_def by (rule map_cong) (use ok in \<open>fastforce simp: source_ok_def\<close>)+
  with given_sources_map [of "\<lambda>s. Some (the (cliFlag s))" ArgSource_isCliFlag as]
  show "map (Some \<circ> fst) (held_flags acc) = declared_flags as"
    by (simp add: assms(2) collected_of_def case_prod_unfold comp_def)
  have "map (\<lambda>s. Some (the (stdinMediaUrn s))) (filter ArgSource_isStdin (concat (map sources as))) =
      map stdinMediaUrn (filter ArgSource_isStdin (concat (map sources as)))"
    by (rule map_cong) (use ok in \<open>fastforce simp: source_ok_def\<close>)+
  with given_sources_map [of "\<lambda>s. Some (the (stdinMediaUrn s))" ArgSource_isStdin as]
  show "map Some (stdin_urns acc) = map stdinMediaUrn (filter ArgSource_isStdin (concat (map sources as)))"
    by (simp add: assms(2) collected_of_def case_prod_unfold comp_def)
qed

lemma main_input_checked:
  assumes "list_all sources_checked as"
    and "acc = collected_of (given_sources as) \<lparr>stdin_urns = [], held_positions = [], held_flags = []\<rparr>"
  shows "check_main_input api m void (stdin_urns acc) = None \<longleftrightarrow>
    (if MediaUrn_isEquivalentTo api m void then \<forall>a\<in>set as. \<not> CapArg_hasStdinSource a
     else \<exists>a\<in>set as. CapArg_isMainInputForInSpec api a m)"
proof -
  have urns: "Some ` set (stdin_urns acc) = stdinMediaUrn ` {s. \<exists>a\<in>set as. s \<in> set (sources a) \<and> ArgSource_isStdin s}"
    using arg_cong [OF collected_arguments(3) [OF assms], of set] by auto
  have "stdin_urns acc = [] \<longleftrightarrow> filter ArgSource_isStdin (concat (map sources as)) = []"
    using collected_arguments(3) [OF assms] by (metis map_is_Nil_conv)
  then have empty: "stdin_urns acc = [] \<longleftrightarrow> (\<forall>a\<in>set as. \<not> CapArg_hasStdinSource a)"
    by (auto simp: CapArg_hasStdinSource_def list_ex_iff filter_empty_conv)
  have member: "u \<in> set (stdin_urns acc) \<longleftrightarrow>
      (\<exists>a\<in>set as. \<exists>s\<in>set (sources a). ArgSource_isStdin s \<and> stdinMediaUrn s = Some u)" for u
  proof -
    have "u \<in> set (stdin_urns acc) \<longleftrightarrow> Some u \<in> Some ` set (stdin_urns acc)" by auto
    then show ?thesis unfolding urns by (auto intro: sym)
  qed
  show ?thesis
    unfolding check_main_input_def CapArg_isMainInputForInSpec_def isMainInput_ex
    using empty member by (auto simp: list_ex_iff bind_eq_Some_conv split: option.splits) blast+
qed

lemma args_valid_iff: "CapValidator_validateCapArgs api c = None \<longleftrightarrow> args_rules api c"
proof (cases "list_all sources_checked (args c)")
  case True
  define acc where
    "acc = collected_of (given_sources (args c)) \<lparr>stdin_urns = [], held_positions = [], held_flags = []\<rparr>"
  have collect: "collect_loop \<lparr>stdin_urns = [], held_positions = [], held_flags = []\<rparr> (args c) = Inr acc"
    using True by (simp add: collect_loop_Inr acc_def)
  note parts = collected_arguments [OF True acc_def]
  have positions: "check_positions {} (held_positions acc) = None \<and>
      check_gaps 0 (sort_by (\<lambda>a b. compare_linorder (sint (fst a)) (sint (fst b))) (held_positions acc)) = None \<longleftrightarrow>
      set (declared_positions (args c)) = {0..<int (length (declared_positions (args c)))}"
    unfolding positions_checked by (simp flip: parts(1))
  have flags: "check_flags {} (held_flags acc) = None \<longleftrightarrow> distinct (declared_flags (args c))"
    by (simp add: check_flags_None distinct_map flip: parts(2) map_map)
  have main: "(case media_of api (inSpec (capUrn c)) of
       None \<Rightarrow> Some Rule15_unreadable
     | Some in_media \<Rightarrow>
         (case media_of api ''media:void'' of
            None \<Rightarrow> Some Void_unreadable
          | Some void \<Rightarrow>
              and_then (check_main_input api in_media void (stdin_urns acc))
              (and_then (check_streaming api in_media (args c)) rest))) = None \<longleftrightarrow>
      main_input_rule api c \<and> rest = None" for rest
    by (auto simp: main_input_rule_def main_input_checked [OF True acc_def] check_streaming_None
        split: option.splits)
  have rules: "list_all sources_rule (args c) \<longleftrightarrow> (\<forall>a\<in>set (args c). sources a \<noteq> [])"
    using True by (auto simp: list_all_iff sources_rule_checked)
  show ?thesis
    unfolding CapValidator_validateCapArgs_def collect sum.case and_then_None main
    by (simp add: check_media_urns_None check_has_sources_None check_one_stdin_None check_arg_names_None
        check_accepts_None args_rules_def rules flags flip: positions conj_assoc)
next
  case False
  then have "\<not> list_all sources_rule (args c)" by (auto simp: list_all_iff sources_rule_checked)
  moreover have "collect_loop acc (args c) \<noteq> Inr r" for acc r using False by (simp add: collect_loop_Inr)
  then obtain e where "collect_loop \<lparr>stdin_urns = [], held_positions = [], held_flags = []\<rparr> (args c) = Inl e"
    by (metis sum.exhaust)
  ultimately show ?thesis by (simp add: CapValidator_validateCapArgs_def args_rules_def)
qed

section \<open>The checks of the outputs\<close>

lemma identity_loop_Inr:
  "identity_loop api seen outs = Inr r \<longleftrightarrow>
    (\<exists>media. map (\<lambda>out. media_of api (output_mediaUrn out)) outs = map Some media \<and> r = seen @ media \<and>
      sorted_wrt (\<lambda>m n. \<not> MediaUrn_isEquivalentTo api m n) media \<and>
      (\<forall>s\<in>set seen. \<forall>m\<in>set media. \<not> MediaUrn_isEquivalentTo api s m))"
proof (induction api seen outs rule: identity_loop.induct)
  case (1 api seen)
  show ?case by auto
next
  case (2 api seen out outs)
  show ?case
  proof (cases "media_of api (output_mediaUrn out)")
    case None
    then show ?thesis by (auto simp: Cons_eq_map_conv)
  next
    case (Some m)
    then show ?thesis
    proof (cases "list_ex (\<lambda>s. MediaUrn_isEquivalentTo api s m) seen")
      case True
      with Some show ?thesis by (auto simp: list_ex_iff Cons_eq_map_conv)
    next
      case False
      with Some 2 [OF Some False] show ?thesis
        by (fastforce simp: list_ex_iff Cons_eq_map_conv)
    qed
  qed
qed

lemma check_carries_None:
  "check_carries main v i outs = None \<longleftrightarrow>
    (\<forall>j<length outs. carries (outs ! j) \<noteq> None \<longrightarrow> i + j \<noteq> main \<and> \<not> v)"
proof (induction main v i outs rule: check_carries.induct)
  case (2 main v i out outs)
  then show ?case by (auto simp: All_less_Suc2)
qed simp

lemma filter_single: "filter P [0..<n] = [i] \<longleftrightarrow> i < n \<and> (\<forall>j<n. P j \<longleftrightarrow> j = i)"
proof
  assume "filter P [0..<n] = [i]"
  then have "set (filter P [0..<n]) = {i}" by simp
  then show "i < n \<and> (\<forall>j<n. P j \<longleftrightarrow> j = i)" by auto
next
  assume i: "i < n \<and> (\<forall>j<n. P j \<longleftrightarrow> j = i)"
  then have "filter P [0..<n] = filter (\<lambda>j. j = i) [0..<n]" by (intro filter_cong) auto
  also have "... = [i]" using i by (induction n) auto
  finally show "filter P [0..<n] = [i]" .
qed

text \<open>That there is one main output, and what is carried, when the identities are known.\<close>

lemma main_output_checked:
  assumes "length media = length outs"
  shows "(let main = filter (\<lambda>i. MediaUrn_isEquivalentTo api (media ! i) out_media) [0..<length media]
       in if length main \<noteq> 1 then Some (Rule21_main (length main))
          else check_carries (main ! 0) v 0 outs) = None \<longleftrightarrow>
    (\<exists>i<length outs.
      (\<forall>j<length outs. MediaUrn_isEquivalentTo api (media ! j) out_media \<longleftrightarrow> j = i) \<and>
      carries (outs ! i) = None \<and> (v \<longrightarrow> (\<forall>out\<in>set outs. carries out = None)))"
proof -
  define main where "main = filter (\<lambda>i. MediaUrn_isEquivalentTo api (media ! i) out_media) [0..<length media]"
  have "main = [i] \<longleftrightarrow> i < length outs \<and>
      (\<forall>j<length outs. MediaUrn_isEquivalentTo api (media ! j) out_media \<longleftrightarrow> j = i)" for i
    unfolding main_def filter_single using assms by simp
  moreover have "length main = 1 \<longleftrightarrow> (\<exists>i. main = [i])" by (auto simp: length_Suc_conv)
  moreover have "check_carries i v 0 outs = None \<longleftrightarrow>
      carries (outs ! i) = None \<and> (v \<longrightarrow> (\<forall>out\<in>set outs. carries out = None))" if "i < length outs" for i
    using that by (auto simp: check_carries_None all_set_conv_all_nth)
  ultimately have single: "length main = 1 \<and> check_carries (main ! 0) v 0 outs = None \<longleftrightarrow>
    (\<exists>i<length outs.
      (\<forall>j<length outs. MediaUrn_isEquivalentTo api (media ! j) out_media \<longleftrightarrow> j = i) \<and>
      carries (outs ! i) = None \<and> (v \<longrightarrow> (\<forall>out\<in>set outs. carries out = None)))"
    by (metis nth_Cons_0)
  show ?thesis unfolding Let_def main_def [symmetric] single [symmetric] by simp
qed

lemma outputs_valid_iff: "CapValidator_validateCapOutputs api c = None \<longleftrightarrow> outputs_rules api c"
proof (cases "media_of api (outSpec (capUrn c)) = None \<or> media_of api (inSpec (capUrn c)) = None \<or>
    media_of api ''media:void'' = None")
  case True
  then show ?thesis
    by (auto simp: CapValidator_validateCapOutputs_def outputs_rules_def split: option.splits)
next
  case False
  then obtain out_media in_media void where specs: "media_of api (outSpec (capUrn c)) = Some out_media"
      "media_of api (inSpec (capUrn c)) = Some in_media" "media_of api ''media:void'' = Some void" by auto
  show ?thesis
  proof (cases "identity_loop api [] (outputs c)")
    case (Inl e)
    then have "\<not> (\<exists>media. map (\<lambda>out. media_of api (output_mediaUrn out)) (outputs c) = map Some media \<and>
        sorted_wrt (\<lambda>m n. \<not> MediaUrn_isEquivalentTo api m n) media)"
      using identity_loop_Inr [of api "[]" "outputs c"] by auto
    then show ?thesis
      by (auto simp: CapValidator_validateCapOutputs_def outputs_rules_def specs Inl)
  next
    case (Inr media)
    then have media: "map (\<lambda>out. media_of api (output_mediaUrn out)) (outputs c) = map Some media"
        "sorted_wrt (\<lambda>m n. \<not> MediaUrn_isEquivalentTo api m n) media"
      by (auto simp: identity_loop_Inr)
    then have len: "length media = length (outputs c)" by (metis length_map)
    have unique: "map (\<lambda>out. media_of api (output_mediaUrn out)) (outputs c) = map Some m \<longleftrightarrow> m = media" for m
      using media(1) by (auto dest: map_injective)
    show ?thesis
      using media(2)
      by (simp add: CapValidator_validateCapOutputs_def outputs_rules_def specs Inr unique
          check_output_names_None main_output_checked [OF len] del: One_nat_def)
  qed
qed

text \<open>C19: The validator finds no fault in a cap definition exactly when the definition keeps the rules:
  the arguments have distinct media, each has sources of different kinds and no reserved flag, at most one is
  piped in, the names are valid and distinct, the piped one is the declared input, or there is none when
  the input is void, only it may stream, the positions are the numbers from 0 on and the flags are
  distinct; the outputs have valid, distinct names, no two are the same medium, and exactly one is the
  declared output, unless it is void and there are none, and carries nothing.\<close>

theorem definition_valid_iff:
  "CapValidator_validateCapDefinition api c = None \<longleftrightarrow> args_rules api c \<and> outputs_rules api c"
  by (simp add: CapValidator_validateCapDefinition_def args_valid_iff outputs_valid_iff)

section \<open>What a cap that keeps the rules can be asked\<close>

lemma main_is_stdin: "CapArg_isMainInputForInSpec api a m \<Longrightarrow> CapArg_hasStdinSource a"
  by (auto simp: CapArg_isMainInputForInSpec_def isMainInput_ex CapArg_hasStdinSource_def list_ex_iff)

lemma filter_at_most_one:
  assumes "length (filter P xs) \<le> 1" and "x \<in> set xs" and "P x"
  shows "filter P xs = [x]"
proof -
  have "x \<in> set (filter P xs)" using assms by simp
  with assms(1) show ?thesis by (cases "filter P xs") auto
qed

text \<open>The main input is the one argument that is piped in.\<close>

lemma main_input_found:
  assumes "args_rules api c"
  shows "\<exists>m. Cap_mainInputArg api c = Inr m \<and>
    filter CapArg_hasStdinSource (args c) = (case m of None \<Rightarrow> [] | Some a \<Rightarrow> [a])"
proof -
  obtain in_media void where specs: "media_of api (inSpec (capUrn c)) = Some in_media"
      "media_of api ''media:void'' = Some void"
    and main: "if MediaUrn_isEquivalentTo api in_media void then \<forall>a\<in>set (args c). \<not> CapArg_hasStdinSource a
        else \<exists>a\<in>set (args c). CapArg_isMainInputForInSpec api a in_media"
    using assms by (auto simp: args_rules_def main_input_rule_def)
  show ?thesis
  proof (cases "MediaUrn_isEquivalentTo api in_media void")
    case True
    with main show ?thesis by (simp add: Cap_mainInputArg_def specs filter_empty_conv)
  next
    case False
    with main obtain a where found: "List.find (\<lambda>a. CapArg_isMainInputForInSpec api a in_media) (args c) = Some a"
      by (metis (no_types, lifting) find_None_iff not_None_eq)
    then have "a \<in> set (args c)" "CapArg_hasStdinSource a"
      by (auto simp: find_Some_iff dest: main_is_stdin)
    with assms have "filter CapArg_hasStdinSource (args c) = [a]"
      by (intro filter_at_most_one) (simp_all add: args_rules_def)
    with False found show ?thesis by (simp add: Cap_mainInputArg_def specs)
  qed
qed

lemma outputs_readable:
  assumes "outputs_rules api c" and "out \<in> set (outputs c)"
  shows "media_of api (output_mediaUrn out) \<noteq> None"
proof -
  obtain media where "map (\<lambda>out. media_of api (output_mediaUrn out)) (outputs c) = map Some media"
    using assms(1) by (auto simp: outputs_rules_def)
  then have "media_of api (output_mediaUrn out) \<in> Some ` set media"
    using assms(2) by (metis (no_types, lifting) image_eqI list.set_map)
  then show ?thesis by auto
qed

text \<open>The main output is there unless the cap gives nothing, and carries nothing.\<close>

lemma main_output_found:
  assumes "outputs_rules api c"
  shows "case Cap_mainOutput api c of None \<Rightarrow> outputs c = [] | Some out \<Rightarrow> out \<in> set (outputs c) \<and> carries out = None"
proof -
  obtain out_media media where parts: "media_of api (outSpec (capUrn c)) = Some out_media"
      "map (\<lambda>out. media_of api (output_mediaUrn out)) (outputs c) = map Some media"
    and main: "outputs c \<noteq> [] \<Longrightarrow> \<exists>i<length (outputs c).
          (\<forall>j<length (outputs c). MediaUrn_isEquivalentTo api (media ! j) out_media \<longleftrightarrow> j = i) \<and>
          carries (outputs c ! i) = None"
    using assms unfolding outputs_rules_def by (metis (no_types, lifting))
  show ?thesis
  proof (cases "outputs c = []")
    case True
    then show ?thesis by (simp add: Cap_mainOutput_def Cap_outputByUrn_def parts)
  next
    case False
    with main obtain i where i: "i < length (outputs c)" "carries (outputs c ! i) = None"
      and only: "\<forall>j<length (outputs c). MediaUrn_isEquivalentTo api (media ! j) out_media \<longleftrightarrow> j = i"
      by auto
    have read: "media_of api (output_mediaUrn (outputs c ! j)) = Some (media ! j)" if "j < length (outputs c)" for j
      using that arg_cong [OF parts(2), of "\<lambda>l. l ! j"] arg_cong [OF parts(2), of length] by simp
    have "Cap_mainOutput api c = Some (outputs c ! i)"
      using i(1) only
      by (auto simp: Cap_mainOutput_def Cap_outputByUrn_def parts(1) find_Some_iff read intro!: exI [of _ i])
    with i show ?thesis by simp
  qed
qed

lemma addCap_outputs_total:
  "(\<forall>out\<in>set outs. media_of api (output_mediaUrn out) \<noteq> None) \<Longrightarrow>
    \<exists>g'. addCap_outputs api cap_string cap from_m in_seq main g outs = Inr g'"
  by (induction outs arbitrary: g) auto

lemma valid_cap_added:
  assumes "args_rules api c" and "outputs_rules api c"
  shows "\<exists>g'. LiveCapFab_addCap api cap_string g c = Inr g'"
proof -
  obtain m where "Cap_mainInputArg api c = Inr m" using main_input_found [OF assms(1)] by auto
  then have "\<exists>b. Cap_primaryInputIsSequence api c = Inr b"
    by (cases m) (auto simp: Cap_primaryInputIsSequence_def)
  then obtain b where "Cap_primaryInputIsSequence api c = Inr b" ..
  moreover have "\<exists>g'. addCap_outputs api cap_string c m b main h (outputs c) = Inr g'" for m main h
    using outputs_readable [OF assms(2)] by (intro addCap_outputs_total) blast
  ultimately show ?thesis by (auto simp: LiveCapFab_addCap_def Let_def split: option.splits)
qed

text \<open>C20: Caps whose definitions the validator accepts never stop the program.  The main input of each is
  found, as the one argument that is piped in, or there is none because the cap takes nothing; its main
  output is found among its outputs, unless it has none; and the graph of caps is built from any list of
  them, whatever it held before.\<close>

theorem valid_caps_never_stop:
  assumes "\<forall>c\<in>set caps. CapValidator_validateCapDefinition api c = None"
  shows "(\<exists>g'. LiveCapFab_syncFromCaps api cap_string g caps = Inr g') \<and>
    (\<forall>c\<in>set caps.
      (\<exists>m. Cap_mainInputArg api c = Inr m \<and>
        filter CapArg_hasStdinSource (args c) = (case m of None \<Rightarrow> [] | Some a \<Rightarrow> [a])) \<and>
      (case Cap_mainOutput api c of
         None \<Rightarrow> outputs c = []
       | Some out \<Rightarrow> out \<in> set (outputs c) \<and> carries out = None))"
proof -
  have rules: "\<forall>c\<in>set caps. args_rules api c \<and> outputs_rules api c"
    using assms by (auto simp: CapValidator_validateCapDefinition_def args_valid_iff outputs_valid_iff)
  have "\<exists>g'. syncFromCaps_loop api cap_string h cs = Inr g'"
    if "\<forall>c\<in>set cs. args_rules api c \<and> outputs_rules api c" for h cs
    using that
  proof (induction cs arbitrary: h)
    case (Cons c cs)
    then obtain h' where "LiveCapFab_addCap api cap_string h c = Inr h'" using valid_cap_added by force
    with Cons show ?case by simp
  qed simp
  with rules have "\<exists>g'. LiveCapFab_syncFromCaps api cap_string g caps = Inr g'"
    by (simp add: LiveCapFab_syncFromCaps_def)
  with rules show ?thesis by (intro conjI ballI main_input_found main_output_found) blast+
qed

definition void_medium :: text_urn where
  "void_medium = \<lparr>text_prefix = ''media'', text_tags = [(''void'', ''*'')]\<rparr>"

lemma extract_media:
  "media_of (urns text_urns) ''media:pdf'' = Some (CSMediaUrn pdf_urn)"
  "media_of (urns text_urns) ''media:text'' = Some (CSMediaUrn text_medium)"
  "media_of (urns text_urns) ''media:void'' = Some (CSMediaUrn void_medium)"
  using sample_media text_read_marker [of "''void''"]
  by (simp_all add: media_of_def MediaUrn_fromString_def MediaUrn_fromTaggedUrn_def void_medium_def
      lowercase_def lowercase_char_def key_char_def)

lemma extract_not_void:
  "\<not> MediaUrn_isEquivalentTo (urns text_urns) (CSMediaUrn pdf_urn) (CSMediaUrn void_medium)"
  "\<not> MediaUrn_isEquivalentTo (urns text_urns) (CSMediaUrn text_medium) (CSMediaUrn void_medium)"
  by (simp_all add: MediaUrn_isEquivalentTo_def MediaUrn_accepts_def text_urns_def instDecidableRefines_def
      text_formal_def pdf_urn_def text_medium_def void_medium_def text_constraint_def hasPrefix_def Urn_keys_def
      Urn_tag_def tagMatch_def)

lemma text_same_medium: "MediaUrn_isEquivalentTo (urns text_urns) m m"
  by (simp add: MediaUrn_isEquivalentTo_def MediaUrn_accepts_def text_urns_def)

lemma extract_parts:
  "capUrn extract_definition = extract_cap"
  "args extract_definition =
    [CapArg_argWithMediaUrn ''media:pdf'' ''document'' True [ArgSource_stdinSource ''media:pdf''] None None]"
  "outputs extract_definition = [CapOutput_outputWithMediaUrn ''media:text'' ''text'' ''The text'']"
  by (simp_all add: extract_definition_def Cap_capWithUrn_def)

lemma sample_names: "CSIsValidDefinitionName ''document''" "CSIsValidDefinitionName ''text''"
  by code_simp+

lemma extract_valid: "CapValidator_validateCapDefinition (urns text_urns) extract_definition = None"
proof -
  have specs: "inSpec extract_cap = ''media:pdf''" "outSpec extract_cap = ''media:text''"
    by (simp_all add: extract_cap_def)
  have "CapValidator_validateCapArgs (urns text_urns) extract_definition = None"
    by (simp add: CapValidator_validateCapArgs_def extract_parts specs extract_media sample_names
        CapArg_argWithMediaUrn_def ArgSource_stdinSource_def check_one_stdin_def check_main_input_def
        extract_not_void text_same_medium)
  moreover have "CapValidator_validateCapOutputs (urns text_urns) extract_definition = None"
    by (simp add: CapValidator_validateCapOutputs_def extract_parts specs extract_media sample_names
        CapOutput_outputWithMediaUrn_def extract_not_void text_same_medium)
  ultimately show ?thesis by (simp add: CapValidator_validateCapDefinition_def)
qed

lemma valid_caps_never_stop_witness:
  "\<exists>g'. LiveCapFab_syncFromCaps (urns text_urns) (\<lambda>_. ''extract'') (LiveCapFab_graph None) [extract_definition] =
    Inr g'"
  using valid_caps_never_stop [of "[extract_definition]" "urns text_urns" "\<lambda>_. ''extract''"
      "LiveCapFab_graph None"] extract_valid
  by simp

end
