(* ===== verification/CapManifestRules.thy ===== *)
theory CapManifestRules
  imports CapManifest CapValidRules
begin

text \<open>
  Manifests survive being advertised, what is taken from an advertisement keeps the rules of its cap
  definitions, and a manifest is given the identity cap once, at the cost of its author and page.
\<close>

section \<open>Reading what is written\<close>

lemma stored_as_Some [simp]: "f j = Some x \<Longrightarrow> stored_as f j = Inr x"
  by (simp add: stored_as_def)

lemma read_all_pair:
  "read_all f xs = Inr ys \<Longrightarrow> (\<And>x y. x \<in> set xs \<Longrightarrow> f x = Inr y \<Longrightarrow> g (h y) = Inr x) \<Longrightarrow>
    read_all g (map h ys) = Inr xs"
proof (induction xs arbitrary: ys)
  case (Cons x xs)
  from Cons.prems(1) obtain y zs where "f x = Inr y" "read_all f xs = Inr zs" "ys = y # zs"
    by (auto split: sum.splits)
  moreover have "g (h y) = Inr x" by (rule Cons.prems(2)) (use calculation in simp_all)
  moreover have "read_all g (map h zs) = Inr xs" by (rule Cons.IH) (use calculation Cons.prems(2) in simp_all)
  ultimately show ?case by simp
qed simp

lemma read_all_total: "(\<And>x. x \<in> set xs \<Longrightarrow> \<exists>y. f x = Inr y) \<Longrightarrow> \<exists>ys. read_all f xs = Inr ys"
  by (induction xs) force+

definition sound_manifest :: "('t, 'd) tagged_urn_package \<Rightarrow> CSCapManifest \<Rightarrow> bool" where
  "sound_manifest pkg m \<longleftrightarrow> list_all (sound_cap pkg) (CapManifest_allCaps m)"

context urn_package
begin

lemma group_written:
  assumes "list_all (sound_cap pkg) (group_caps g)"
  shows "\<exists>d. CapGroup_toDictionary pkg g = Inr d"
proof -
  have "\<exists>ds. read_all (Cap_toDictionary pkg) (group_caps g) = Inr ds"
    using assms cap_written by (intro read_all_total) (auto simp: list_all_iff sound_cap_def)
  then show ?thesis by (auto simp: CapGroup_toDictionary_def)
qed

lemma group_reads_back:
  assumes "list_all (sound_cap pkg) (group_caps g)" and "CapGroup_toDictionary pkg g = Inr d"
  shows "read_group pkg (JSON_object d) = Inr g"
proof -
  obtain ds where ds: "read_all (Cap_toDictionary pkg) (group_caps g) = Inr ds"
    and d: "d = fmupd ''adapter_urns'' (JSON_array (map JSON_string (group_adapterUrns g)))
         (fmupd ''caps'' (JSON_array (map JSON_object ds)) (fmupd ''name'' (JSON_string (group_name g)) fmempty))"
    using assms(2) by (auto simp: CapGroup_toDictionary_def on_ok_Inr)
  have "read_all (group_cap pkg) (map JSON_object ds) = Inr (group_caps g)"
    using assms(1) cap_reads_back by (intro read_all_pair [OF ds]) (auto simp: group_cap_def list_all_iff)
  then show ?thesis by (simp add: d read_group_def CapGroup_groupWithDictionary_def)
qed

lemma manifest_written:
  assumes "sound_manifest pkg m"
  shows "\<exists>d. CapManifest_toDictionary pkg m = Inr d"
proof -
  have "\<exists>ds. read_all (CapGroup_toDictionary pkg) (capGroups m) = Inr ds"
    using assms group_written
    by (intro read_all_total) (auto simp: list_all_iff sound_manifest_def CapManifest_allCaps_def)
  then show ?thesis by (auto simp: CapManifest_toDictionary_def)
qed

lemma manifest_reads_back:
  assumes "sound_manifest pkg m" and "CapManifest_toDictionary pkg m = Inr d"
  shows "CapManifest_manifestWithDictionary pkg d = Inr m"
proof -
  obtain ds where ds: "read_all (CapGroup_toDictionary pkg) (capGroups m) = Inr ds"
    using assms(2) by (auto simp: CapManifest_toDictionary_def on_ok_Inr)
  have entries: "fmlookup d ''name'' = Some (JSON_string (manifest_name m))"
      "fmlookup d ''version'' = Some (JSON_string (manifest_version m))"
      "fmlookup d ''channel'' = Some (JSON_string (channel_text (manifest_channel m)))"
      "fmlookup d ''registry_url'' = Some (case registryURL m of None \<Rightarrow> JSON_null | Some s \<Rightarrow> JSON_string s)"
      "fmlookup d ''description'' = Some (JSON_string (manifestDescription m))"
      "fmlookup d ''cap_groups'' = Some (JSON_array (map JSON_object ds))"
      "fmlookup d ''author'' = map_option JSON_string (manifest_author m)"
      "fmlookup d ''page_url'' = map_option JSON_string (pageUrl m)"
    using assms(2) by (auto simp: CapManifest_toDictionary_def on_ok_Inr ds)
  have groups: "read_all (read_group pkg) (map JSON_object ds) = Inr (capGroups m)"
    using assms(1) group_reads_back
    by (intro read_all_pair [OF ds]) (auto simp: list_all_iff sound_manifest_def CapManifest_allCaps_def)
  have registry: "read_registry d = Inr (registryURL m)"
    and author: "read_if_there d ''author'' = Inr (manifest_author m)"
    and page: "read_if_there d ''page_url'' = Inr (pageUrl m)"
    by (auto simp: read_registry_def read_if_there_def entries split: option.splits)
  have channel: "read_channel (JSON_string (channel_text (manifest_channel m))) = Inr (manifest_channel m)"
    by (cases "manifest_channel m") (simp_all add: read_channel_def channel_text_def)
  show ?thesis
    by (simp add: CapManifest_manifestWithDictionary_def entries(1-3,5,6) groups registry author page channel
        CapManifest_manifestWithName_def)
qed

lemma group_reads_sound: "read_group pkg j = Inr g \<Longrightarrow> list_all (sound_cap pkg) (group_caps g)"
proof -
  have cap: "group_cap pkg j = Inr c \<Longrightarrow> sound_cap pkg c" for j c
    using cap_reads_sound by (auto simp: group_cap_def split: json.splits sum.splits)
  have caps: "read_all (group_cap pkg) js = Inr cs \<Longrightarrow> list_all (sound_cap pkg) cs" for js cs
    using cap by (auto simp: read_all_Inr list_all2_conv_all_nth list_all_length)
  assume "read_group pkg j = Inr g"
  then show ?thesis
    by (auto simp: read_group_def CapGroup_groupWithDictionary_def on_ok_Inr caps
        split: json.splits option.splits)
qed

lemma manifest_reads_sound:
  assumes "CapManifest_manifestWithDictionary pkg d = Inr m"
  shows "sound_manifest pkg m"
proof -
  obtain js groups where groups: "read_all (read_group pkg) js = Inr groups" "capGroups m = groups"
    using assms
    by (auto simp: CapManifest_manifestWithDictionary_def on_ok_Inr CapManifest_manifestWithName_def
        split: option.splits json.splits)
  then have "list_all2 (\<lambda>j g. read_group pkg j = Inr g) js groups" by (simp add: read_all_Inr)
  then have "\<forall>g\<in>set groups. \<exists>j. read_group pkg j = Inr g"
    by (auto simp: list_all2_conv_all_nth in_set_conv_nth) blast
  with groups(2) group_reads_sound show ?thesis
    by (auto simp: sound_manifest_def CapManifest_allCaps_def list_all_iff)
qed

end

lemma validate_caps_None: "validate_caps api cs = None \<longleftrightarrow> (\<forall>c\<in>set cs. CapValidator_validateCapDefinition api c = None)"
  by (induction cs) auto

lemma loaded_iff:
  "CapManifest_manifestFromAdvertisedData pkg decode bytes = Inr m \<longleftrightarrow>
    (\<exists>d. decode bytes = Some (JSON_object d) \<and> CapManifest_manifestWithDictionary pkg d = Inr m \<and>
      (\<forall>c\<in>set (CapManifest_allCaps m). CapValidator_validateCapDefinition (urns pkg) c = None))"
  unfolding validate_caps_None [symmetric] CapManifest_validateDefinitions_def [symmetric]
  by (auto simp: CapManifest_manifestFromAdvertisedData_def
      split: option.splits json.splits sum.splits manifest_error.splits cap_def_error.splits)

lemma valid_caps_sync:
  assumes "\<forall>c\<in>set caps. CapValidator_validateCapDefinition api c = None"
  shows "\<exists>g'. LiveCapFab_syncFromCaps api cap_string g caps = Inr g'"
proof -
  have "\<exists>g'. syncFromCaps_loop api cap_string h caps = Inr g'" for h
    using assms
  proof (induction caps arbitrary: h)
    case (Cons c cs)
    then have "args_rules api c" "outputs_rules api c"
      by (auto simp: CapValidator_validateCapDefinition_def args_valid_iff outputs_valid_iff)
    then obtain h' where "LiveCapFab_addCap api cap_string h c = Inr h'" using valid_cap_added by blast
    with Cons show ?case by simp
  qed simp
  then show ?thesis by (simp add: LiveCapFab_syncFromCaps_def)
qed


section \<open>The identity cap\<close>

context urn_package
begin

lemma accepts_itself:
  assumes "declared_cap pkg c"
  shows "CapUrn_conformsTo c c"
  using declared_ok [OF assms]
  by (simp add: CapUrn_conformsTo_def CapUrn_accepts_def Exec_accepts_def query_specs
      Fits_iff [unfolded instDecidableFits_def] Refines_RefinesClosed)

end

text \<open>C22: A manifest is given the identity cap once.  Where the identity constant can be read, the manifest that
  results has a cap the identity conforms to, and giving it the identity again changes nothing.  A manifest that has
  such a cap is answered as it is.  Any other keeps its name, version, channel, registry and description, its
  caps are those it had and the identity cap, and it passes validation if its definitions and the identity
  cap's do; but its author and its page are lost.\<close>

theorem identity_ensured:
  assumes "urn_package pkg valid" and "CapUrn_fromString pkg CSCapIdentity = Inr identity"
  shows "\<exists>m'. CapManifest_ensureIdentity pkg m = Inr m' \<and> has_identity identity m' \<and>
    CapManifest_ensureIdentity pkg m' = Inr m' \<and>
    (if has_identity identity m then m' = m
     else
       (\<exists>c. Cap_identityCap pkg = Inr (Some c) \<and> capUrn c = identity \<and>
         mset (CapManifest_allCaps m') = add_mset c (mset (CapManifest_allCaps m)) \<and>
         (CapManifest_validateDefinitions (urns pkg) m = None \<and>
          CapValidator_validateCapDefinition (urns pkg) c = None \<longrightarrow> CapManifest_validate pkg m' = None)) \<and>
       manifest_name m' = manifest_name m \<and> manifest_version m' = manifest_version m \<and>
       manifest_channel m' = manifest_channel m \<and> registryURL m' = registryURL m \<and>
       manifestDescription m' = manifestDescription m \<and> manifest_author m' = None \<and> pageUrl m' = None)"
proof (cases "has_identity identity m")
  case True
  then show ?thesis using assms(2) by (simp add: CapManifest_ensureIdentity_def)
next
  case False
  obtain c where c: "Cap_identityCap pkg = Inr (Some c)" "capUrn c = identity"
    using assms(2) by (simp add: Cap_identityCap_def CSCapIdentity_def Cap_capWithUrn_def)
  have itself: "CapUrn_conformsTo identity identity"
    using urn_package.accepts_itself [OF assms(1)] urn_package.fromString_declared [OF assms(1) assms(2)] by blast
  obtain m' where m': "CapManifest_ensureIdentity pkg m = Inr m'" by (simp add: CapManifest_ensureIdentity_def assms(2) False c(1) Let_def)
  then have fields: "manifest_name m' = manifest_name m" "manifest_version m' = manifest_version m"
      "manifest_channel m' = manifest_channel m" "registryURL m' = registryURL m"
      "manifestDescription m' = manifestDescription m" "manifest_author m' = None" "pageUrl m' = None"
    and caps: "mset (CapManifest_allCaps m') = add_mset c (mset (CapManifest_allCaps m))"
    by (auto simp: CapManifest_ensureIdentity_def assms(2) False c(1) Let_def CapManifest_manifestWithName_def
        CapManifest_allCaps_def split: list.splits)
  have members: "set (CapManifest_allCaps m') = insert c (set (CapManifest_allCaps m))"
    using caps by (metis set_mset_add_mset_insert set_mset_mset)
  then have has: "has_identity identity m'"
    using itself c(2) by (auto simp: has_identity_def list_ex_iff)
  have "CapManifest_validate pkg m' = None"
    if "CapManifest_validateDefinitions (urns pkg) m = None"
      "CapValidator_validateCapDefinition (urns pkg) c = None"
    using that has members
    by (simp add: CapManifest_validate_def assms(2) CapManifest_validateDefinitions_def validate_caps_None)
  with m' fields caps has c False show ?thesis
    by (auto simp: CapManifest_ensureIdentity_def [of pkg m'] assms(2))
qed

definition extract_manifest :: CSCapManifest where
  "extract_manifest =
     (CapManifest_manifestWithName ''extractor'' ''1.0'' CSCartridgeChannelRelease None ''Takes text out''
       [\<lparr>group_name = ''text'', group_caps = [extract_definition], group_adapterUrns = [''media:pdf'']\<rparr>])
     \<lparr>manifest_author := Some ''A''\<rparr>"

lemma extract_manifest_plain:
  "(case CapManifest_toDictionary text_urns extract_manifest of Inl e \<Rightarrow> False | Inr d \<Rightarrow> plain (JSON_object d))"
  by code_simp

lemma identity_readable: "\<not> isl (CapUrn_fromString text_urns CSCapIdentity)"
  by code_simp

lemma identity_valid:
  "(case Cap_identityCap text_urns of
     Inr (Some c) \<Rightarrow> CapValidator_validateCapDefinition (urns text_urns) c = None
   | _ \<Rightarrow> False)"
  by code_simp

lemma extract_manifest_caps: "CapManifest_allCaps extract_manifest = [extract_definition]"
  by (simp add: extract_manifest_def CapManifest_allCaps_def CapManifest_manifestWithName_def)


lemma extract_manifest_no_identity:
  "(case CapUrn_fromString text_urns CSCapIdentity of
     Inl e \<Rightarrow> False | Inr identity \<Rightarrow> \<not> has_identity identity extract_manifest)"
  by code_simp

lemma identity_ensured_witness:
  "\<exists>m'. CapManifest_ensureIdentity text_urns extract_manifest = Inr m' \<and>
    CapManifest_validate text_urns m' = None \<and> manifest_author extract_manifest \<noteq> manifest_author m'"
proof -
  obtain identity where identity: "CapUrn_fromString text_urns CSCapIdentity = Inr identity"
    using identity_readable by (cases "CapUrn_fromString text_urns CSCapIdentity") auto
  have "CapManifest_validateDefinitions (urns text_urns) extract_manifest = None"
    using extract_valid by (simp add: CapManifest_validateDefinitions_def extract_manifest_caps)
  moreover have "manifest_author extract_manifest = Some ''A''" by (simp add: extract_manifest_def)
  ultimately show ?thesis
    using identity_ensured [OF texts.urn_package_axioms identity, of extract_manifest]
      extract_manifest_no_identity identity_valid by (auto simp: identity split: if_splits)
qed

end
