(* ===== verification/LeanRuntime.thy ===== *)
theory LeanRuntime
  imports Printing "HOL-Library.Word"
begin

unbundle bit_operations_syntax

text \<open>
  What the program contains of Lean's support library beside lists and printing: errors of input and
  output with their texts (\<open>Init-System-IOError.c\<close>), messages of panics (\<open>Init-Util.c\<close>), writing to
  standard error (\<open>Init-System-IO.c\<close>), reading eight bytes as a number (\<open>Init-Data-ByteArray-Extra.c\<close>)
  and seeding the process-wide random generator when the module is initialised (\<open>Init-Data-Random.c\<close>).

  Where the C stops at an assertion of Lean it hands the message to the runtime, which prints it and
  goes on with a default value: such a function answers the messages beside its value.  What the
  system answers (random bytes, a stream) is an argument.  A string is the bytes of its UTF-8 encoding;
  a letter from A to Z is one byte in it, and no other character contains such a byte.
\<close>

section \<open>Errors of input and output\<close>

text \<open>The constructors in the order of their tags; the operating system's code is a 32-bit number.\<close>

datatype IO_Error =
    IO_alreadyExists "string option" "32 word" string
  | IO_otherError "32 word" string
  | IO_resourceBusy "32 word" string
  | IO_resourceVanished "32 word" string
  | IO_unsupportedOperation "32 word" string
  | IO_hardwareFault "32 word" string
  | IO_unsatisfiedConstraints "32 word" string
  | IO_illegalOperation "32 word" string
  | IO_protocolError "32 word" string
  | IO_timeExpired "32 word" string
  | IO_interrupted string "32 word" string
  | IO_noFileOrDirectory string "32 word" string
  | IO_invalidArgument "string option" "32 word" string
  | IO_permissionDenied "string option" "32 word" string
  | IO_resourceExhausted "string option" "32 word" string
  | IO_inappropriateType "string option" "32 word" string
  | IO_noSuchThing "string option" "32 word" string
  | IO_unexpectedEof
  | IO_userError string

definition mkAlreadyExists :: "32 word \<Rightarrow> string \<Rightarrow> IO_Error" where
  "mkAlreadyExists code details = IO_alreadyExists None code details"

definition mkAlreadyExistsFile :: "string \<Rightarrow> 32 word \<Rightarrow> string \<Rightarrow> IO_Error" where
  "mkAlreadyExistsFile file code details = IO_alreadyExists (Some file) code details"

definition mkEofError :: "unit \<Rightarrow> IO_Error" where
  "mkEofError u = IO_unexpectedEof"

definition mkHardwareFault :: "32 word \<Rightarrow> string \<Rightarrow> IO_Error" where
  "mkHardwareFault code details = IO_hardwareFault code details"

definition mkIllegalOperation :: "32 word \<Rightarrow> string \<Rightarrow> IO_Error" where
  "mkIllegalOperation code details = IO_illegalOperation code details"

definition mkInappropriateType :: "32 word \<Rightarrow> string \<Rightarrow> IO_Error" where
  "mkInappropriateType code details = IO_inappropriateType None code details"

definition mkInappropriateTypeFile :: "string \<Rightarrow> 32 word \<Rightarrow> string \<Rightarrow> IO_Error" where
  "mkInappropriateTypeFile file code details = IO_inappropriateType (Some file) code details"

definition mkInterrupted :: "string \<Rightarrow> 32 word \<Rightarrow> string \<Rightarrow> IO_Error" where
  "mkInterrupted file code details = IO_interrupted file code details"

definition mkInvalidArgument :: "32 word \<Rightarrow> string \<Rightarrow> IO_Error" where
  "mkInvalidArgument code details = IO_invalidArgument None code details"

definition mkInvalidArgumentFile :: "string \<Rightarrow> 32 word \<Rightarrow> string \<Rightarrow> IO_Error" where
  "mkInvalidArgumentFile file code details = IO_invalidArgument (Some file) code details"

definition mkNoFileOrDirectory :: "string \<Rightarrow> 32 word \<Rightarrow> string \<Rightarrow> IO_Error" where
  "mkNoFileOrDirectory file code details = IO_noFileOrDirectory file code details"

definition mkNoSuchThing :: "32 word \<Rightarrow> string \<Rightarrow> IO_Error" where
  "mkNoSuchThing code details = IO_noSuchThing None code details"

definition mkNoSuchThingFile :: "string \<Rightarrow> 32 word \<Rightarrow> string \<Rightarrow> IO_Error" where
  "mkNoSuchThingFile file code details = IO_noSuchThing (Some file) code details"

definition mkOtherError :: "32 word \<Rightarrow> string \<Rightarrow> IO_Error" where
  "mkOtherError code details = IO_otherError code details"

definition mkPermissionDenied :: "32 word \<Rightarrow> string \<Rightarrow> IO_Error" where
  "mkPermissionDenied code details = IO_permissionDenied None code details"

definition mkPermissionDeniedFile :: "string \<Rightarrow> 32 word \<Rightarrow> string \<Rightarrow> IO_Error" where
  "mkPermissionDeniedFile file code details = IO_permissionDenied (Some file) code details"

definition mkProtocolError :: "32 word \<Rightarrow> string \<Rightarrow> IO_Error" where
  "mkProtocolError code details = IO_protocolError code details"

definition mkResourceBusy :: "32 word \<Rightarrow> string \<Rightarrow> IO_Error" where
  "mkResourceBusy code details = IO_resourceBusy code details"

definition mkResourceExhausted :: "32 word \<Rightarrow> string \<Rightarrow> IO_Error" where
  "mkResourceExhausted code details = IO_resourceExhausted None code details"

definition mkResourceExhaustedFile :: "string \<Rightarrow> 32 word \<Rightarrow> string \<Rightarrow> IO_Error" where
  "mkResourceExhaustedFile file code details = IO_resourceExhausted (Some file) code details"

definition mkResourceVanished :: "32 word \<Rightarrow> string \<Rightarrow> IO_Error" where
  "mkResourceVanished code details = IO_resourceVanished code details"

definition mkTimeExpired :: "32 word \<Rightarrow> string \<Rightarrow> IO_Error" where
  "mkTimeExpired code details = IO_timeExpired code details"

definition mkUnsatisfiedConstraints :: "32 word \<Rightarrow> string \<Rightarrow> IO_Error" where
  "mkUnsatisfiedConstraints code details = IO_unsatisfiedConstraints code details"

definition mkUnsupportedOperation :: "32 word \<Rightarrow> string \<Rightarrow> IO_Error" where
  "mkUnsupportedOperation code details = IO_unsupportedOperation code details"

definition IO_mkUserError :: "string \<Rightarrow> IO_Error" where
  "IO_mkUserError s = IO_userError s"

text \<open>The first letter in lower case.  In the empty string there is no character to replace, whatever
  \<open>get\<close> answers for its start.\<close>

fun downCaseFirst :: "string \<Rightarrow> string" where
  "downCaseFirst [] = []"
| "downCaseFirst (c # s) =
     (if 65 \<le> (of_char c :: nat) then
        (if (of_char c :: nat) \<le> 90 then char_of ((of_char c :: nat) + 32) # s else c # s)
      else c # s)"

definition fopenErrorToString :: "string \<Rightarrow> string \<Rightarrow> 32 word \<Rightarrow> string option \<Rightarrow> string" where
  "fopenErrorToString gist fn code details =
     (case details of
        None \<Rightarrow>
          downCaseFirst gist @ '' (error code: '' @ Nat_reprFast (unat code) @ '')\<newline>  file: '' @ fn
      | Some d \<Rightarrow>
          downCaseFirst gist @ '' (error code: '' @ Nat_reprFast (unat code) @ '', '' @
          downCaseFirst d @ '')\<newline>  file: '' @ fn)"

definition otherErrorToString :: "string \<Rightarrow> 32 word \<Rightarrow> string option \<Rightarrow> string" where
  "otherErrorToString gist code details =
     (case details of
        None \<Rightarrow> downCaseFirst gist @ '' (error code: '' @ Nat_reprFast (unat code) @ '')''
      | Some d \<Rightarrow>
          downCaseFirst gist @ '' (error code: '' @ Nat_reprFast (unat code) @ '', '' @
          downCaseFirst d @ '')'')"

fun IO_Error_toString :: "IO_Error \<Rightarrow> string" where
  "IO_Error_toString (IO_alreadyExists None code details) =
     otherErrorToString ''already exists'' code (Some details)"
| "IO_Error_toString (IO_alreadyExists (Some fn) code details) =
     fopenErrorToString ''already exists'' fn code (Some details)"
| "IO_Error_toString (IO_otherError code details) = otherErrorToString details code None"
| "IO_Error_toString (IO_resourceBusy code details) =
     otherErrorToString ''resource busy'' code (Some details)"
| "IO_Error_toString (IO_resourceVanished code details) =
     otherErrorToString ''resource vanished'' code (Some details)"
| "IO_Error_toString (IO_unsupportedOperation code details) =
     otherErrorToString ''unsupported operation'' code (Some details)"
| "IO_Error_toString (IO_hardwareFault code details) =
     otherErrorToString ''hardware fault'' code None"
| "IO_Error_toString (IO_unsatisfiedConstraints code details) =
     otherErrorToString ''directory not empty'' code None"
| "IO_Error_toString (IO_illegalOperation code details) =
     otherErrorToString ''illegal operation'' code (Some details)"
| "IO_Error_toString (IO_protocolError code details) =
     otherErrorToString ''protocol error'' code (Some details)"
| "IO_Error_toString (IO_timeExpired code details) =
     otherErrorToString ''time expired'' code (Some details)"
| "IO_Error_toString (IO_interrupted fn code details) =
     fopenErrorToString ''interrupted system call'' fn code (Some details)"
| "IO_Error_toString (IO_noFileOrDirectory fn code details) =
     fopenErrorToString ''no such file or directory'' fn code None"
| "IO_Error_toString (IO_invalidArgument None code details) =
     otherErrorToString ''invalid argument'' code (Some details)"
| "IO_Error_toString (IO_invalidArgument (Some fn) code details) =
     fopenErrorToString ''invalid argument'' fn code (Some details)"
| "IO_Error_toString (IO_permissionDenied None code details) = otherErrorToString details code None"
| "IO_Error_toString (IO_permissionDenied (Some fn) code details) =
     fopenErrorToString details fn code None"
| "IO_Error_toString (IO_resourceExhausted None code details) =
     otherErrorToString ''resource exhausted'' code (Some details)"
| "IO_Error_toString (IO_resourceExhausted (Some fn) code details) =
     fopenErrorToString ''resource exhausted'' fn code (Some details)"
| "IO_Error_toString (IO_inappropriateType None code details) =
     otherErrorToString ''inappropriate type'' code (Some details)"
| "IO_Error_toString (IO_inappropriateType (Some fn) code details) =
     fopenErrorToString ''inappropriate type'' fn code (Some details)"
| "IO_Error_toString (IO_noSuchThing None code details) =
     otherErrorToString ''no such thing'' code (Some details)"
| "IO_Error_toString (IO_noSuchThing (Some fn) code details) =
     fopenErrorToString ''no such thing'' fn code (Some details)"
| "IO_Error_toString IO_unexpectedEof = ''end of file''"
| "IO_Error_toString (IO_userError s) = s"

section \<open>Panics and standard error\<close>

definition mkPanicMessageWithDecl :: "string \<Rightarrow> string \<Rightarrow> nat \<Rightarrow> nat \<Rightarrow> string \<Rightarrow> string" where
  "mkPanicMessageWithDecl modName declName line col msg =
     ''PANIC at '' @ declName @ '' '' @ modName @ '':'' @ Nat_reprFast line @ '':'' @
     Nat_reprFast col @ '': '' @ msg"

text \<open>\<open>panicCore\<close> is the runtime's: the message is told and the default is the value.\<close>

definition panic_UInt64 :: "string \<Rightarrow> string list \<times> 64 word" where
  "panic_UInt64 msg = ([msg], 0)"

text \<open>A stream is what the program does with a handle; the two functions use how a string is put.\<close>

definition IO_eprint :: "(string \<Rightarrow> 'r) \<Rightarrow> string \<Rightarrow> 'r" where
  "IO_eprint putStr s = putStr s"

definition IO_eprintln :: "(string \<Rightarrow> 'r) \<Rightarrow> string \<Rightarrow> 'r" where
  "IO_eprintln putStr s = IO_eprint putStr (s @ ''\<newline>'')"

definition IO_eprintlnAux :: "(string \<Rightarrow> 'r) \<Rightarrow> string \<Rightarrow> 'r" where
  "IO_eprintlnAux putStr s = IO_eprintln putStr s"

text \<open>A stream over a handle has the operations of the handle, in the order of the fields.\<close>

record ('h, 'e) handle_ops =
  h_flush :: "'h \<Rightarrow> 'e + unit"
  h_read :: "'h \<Rightarrow> nat \<Rightarrow> 'e + 8 word list"
  h_write :: "'h \<Rightarrow> 8 word list \<Rightarrow> 'e + unit"
  h_getLine :: "'h \<Rightarrow> 'e + string"
  h_putStr :: "'h \<Rightarrow> string \<Rightarrow> 'e + unit"
  h_isTty :: "'h \<Rightarrow> bool"

record 'e FS_Stream =
  stream_flush :: "'e + unit"
  stream_read :: "nat \<Rightarrow> 'e + 8 word list"
  stream_write :: "8 word list \<Rightarrow> 'e + unit"
  stream_getLine :: "'e + string"
  stream_putStr :: "string \<Rightarrow> 'e + unit"
  stream_isTty :: bool

definition Stream_ofHandle :: "('h, 'e) handle_ops \<Rightarrow> 'h \<Rightarrow> 'e FS_Stream" where
  "Stream_ofHandle ops h =
     \<lparr>stream_flush = h_flush ops h, stream_read = h_read ops h, stream_write = h_write ops h,
      stream_getLine = h_getLine ops h, stream_putStr = h_putStr ops h,
      stream_isTty = h_isTty ops h\<rparr>"

section \<open>Eight bytes as a number\<close>

text \<open>\<open>get!\<close> answers 0 out of range, which the length rules out here.\<close>

definition ByteArray_get :: "8 word list \<Rightarrow> nat \<Rightarrow> 8 word" where
  "ByteArray_get bs i = (if i < length bs then bs ! i else 0)"

definition UInt8_toUInt64 :: "8 word \<Rightarrow> 64 word" where
  "UInt8_toUInt64 b = ucast b"

text \<open>A shift of a 64-bit number is by its argument modulo 64.\<close>

definition UInt64_shiftLeft :: "64 word \<Rightarrow> 64 word \<Rightarrow> 64 word" where
  "UInt64_shiftLeft a b = push_bit (unat b mod 64) a"

definition toUInt64LE_message :: string where
  "toUInt64LE_message =
     mkPanicMessageWithDecl ''Init.Data.ByteArray.Extra'' ''ByteArray.toUInt64LE!'' 21 2
       ''assertion violation: bs.size == 8\<newline>  ''"

definition ByteArray_toUInt64LE :: "8 word list \<Rightarrow> string list \<times> 64 word" where
  "ByteArray_toUInt64LE bs =
     (if length bs = 8 then
        ([],
         UInt64_shiftLeft (UInt8_toUInt64 (ByteArray_get bs 7)) 56 OR
         UInt64_shiftLeft (UInt8_toUInt64 (ByteArray_get bs 6)) 48 OR
         UInt64_shiftLeft (UInt8_toUInt64 (ByteArray_get bs 5)) 40 OR
         UInt64_shiftLeft (UInt8_toUInt64 (ByteArray_get bs 4)) 32 OR
         UInt64_shiftLeft (UInt8_toUInt64 (ByteArray_get bs 3)) 24 OR
         UInt64_shiftLeft (UInt8_toUInt64 (ByteArray_get bs 2)) 16 OR
         UInt64_shiftLeft (UInt8_toUInt64 (ByteArray_get bs 1)) 8 OR
         UInt8_toUInt64 (ByteArray_get bs 0))
      else panic_UInt64 toUInt64LE_message)"

section \<open>The random generator\<close>

record StdGen =
  gen_s1 :: nat
  gen_s2 :: nat

definition mkStdGen :: "nat \<Rightarrow> StdGen" where
  "mkStdGen s =
     (let q = s div 2147483562; s1 = s mod 2147483562; s2 = q mod 2147483398
      in \<lparr>gen_s1 = s1 + 1, gen_s2 = s2 + 1\<rparr>)"

text \<open>What the initialiser of the module does: eight random bytes, their number, a generator made
  from it (which a new reference then holds), or the error the system gave.\<close>

definition Random_initFn ::
  "(nat \<Rightarrow> IO_Error + 8 word list) \<Rightarrow> string list \<times> (IO_Error + StdGen)" where
  "Random_initFn getRandomBytes =
     (case getRandomBytes 8 of
        Inr bs \<Rightarrow> (case ByteArray_toUInt64LE bs of (told, w) \<Rightarrow> (told, Inr (mkStdGen (unat w))))
      | Inl e \<Rightarrow> ([], Inl e))"

section \<open>What they do\<close>

text \<open>The file an error names and the code it carries.\<close>

fun error_file :: "IO_Error \<Rightarrow> string option" where
  "error_file (IO_alreadyExists f code d) = f"
| "error_file (IO_interrupted f code d) = Some f"
| "error_file (IO_noFileOrDirectory f code d) = Some f"
| "error_file (IO_invalidArgument f code d) = f"
| "error_file (IO_permissionDenied f code d) = f"
| "error_file (IO_resourceExhausted f code d) = f"
| "error_file (IO_inappropriateType f code d) = f"
| "error_file (IO_noSuchThing f code d) = f"
| "error_file e = None"

fun error_code :: "IO_Error \<Rightarrow> 32 word option" where
  "error_code (IO_alreadyExists f code d) = Some code"
| "error_code (IO_otherError code d) = Some code"
| "error_code (IO_resourceBusy code d) = Some code"
| "error_code (IO_resourceVanished code d) = Some code"
| "error_code (IO_unsupportedOperation code d) = Some code"
| "error_code (IO_hardwareFault code d) = Some code"
| "error_code (IO_unsatisfiedConstraints code d) = Some code"
| "error_code (IO_illegalOperation code d) = Some code"
| "error_code (IO_protocolError code d) = Some code"
| "error_code (IO_timeExpired code d) = Some code"
| "error_code (IO_interrupted f code d) = Some code"
| "error_code (IO_noFileOrDirectory f code d) = Some code"
| "error_code (IO_invalidArgument f code d) = Some code"
| "error_code (IO_permissionDenied f code d) = Some code"
| "error_code (IO_resourceExhausted f code d) = Some code"
| "error_code (IO_inappropriateType f code d) = Some code"
| "error_code (IO_noSuchThing f code d) = Some code"
| "error_code IO_unexpectedEof = None"
| "error_code (IO_userError s) = None"

lemma downCaseFirst_length [simp]: "length (downCaseFirst s) = length s"
  by (cases s) simp_all

lemma downCaseFirst_idem: "downCaseFirst (downCaseFirst s) = downCaseFirst s"
  by (cases s) (auto simp: of_char_of take_bit_eq_mod)

text \<open>Every error that carries a code tells it, after some words and before the details or the end; an
  error about a file ends with the name of the file, on a line of its own, and no other does so
  because of its kind.\<close>

definition tells_code :: "32 word \<Rightarrow> string \<Rightarrow> bool" where
  "tells_code code t \<longleftrightarrow>
     (\<exists>a b. t = a @ '' (error code: '' @ string_of_nat (unat code) @ b \<and> take 1 b \<in> {'','', '')''})"

lemma tells_codeI:
  "take 1 b \<in> {'','', '')''} \<Longrightarrow> tells_code code (a @ '' (error code: '' @ string_of_nat (unat code) @ b)"
  unfolding tells_code_def by blast

lemma otherErrorToString_tells: "tells_code code (otherErrorToString gist code details)"
  by (cases details) (simp_all only: otherErrorToString_def option.case Nat_reprFast_eq,
      (rule tells_codeI, simp)+)

lemma fopenErrorToString_tells: "tells_code code (fopenErrorToString gist fn code details)"
  by (cases details) (simp_all only: fopenErrorToString_def option.case Nat_reprFast_eq,
      (rule tells_codeI, simp)+)

lemma fopenErrorToString_names: "\<exists>a. fopenErrorToString gist fn code details = a @ '')\<newline>  file: '' @ fn"
  by (cases details) (simp_all only: fopenErrorToString_def option.case append_assoc [symmetric], blast+)

lemma error_text_tells_code:
  assumes "error_code e = Some code"
  shows "tells_code code (IO_Error_toString e)"
  using assms
  by (cases e rule: IO_Error_toString.cases)
    (simp_all add: otherErrorToString_tells fopenErrorToString_tells)

lemma error_text_names_file:
  assumes "error_file e = Some f"
  shows "\<exists>a. IO_Error_toString e = a @ '')\<newline>  file: '' @ f"
  using assms
  by (cases e rule: IO_Error_toString.cases)
    (simp_all only: IO_Error_toString.simps error_file.simps option.inject option.distinct
      fopenErrorToString_names)

text \<open>The bytes of a number, lowest first, and the number of eight bytes undo one another.\<close>

definition bytes_le :: "64 word \<Rightarrow> 8 word list" where
  "bytes_le w = map (\<lambda>i. ucast (drop_bit (8 * i) w)) [0..<8]"

lemma bit_byte_at:
  assumes "i < 8" and "q < 8" and "r < 8"
  shows "bit (push_bit (8 * i) (UInt8_toUInt64 b)) (8 * q + r) \<longleftrightarrow> q = i \<and> bit b r"
proof -
  have "8 * i \<le> 8 * q + r \<longleftrightarrow> i \<le> q" using assms(3) by linarith
  moreover have "bit b (8 * q + r - 8 * i) \<longleftrightarrow> q = i \<and> bit b r" if "i \<le> q"
  proof (cases "q = i")
    case False
    then have "8 \<le> 8 * q + r - 8 * i" using that by linarith
    then show ?thesis using False by (auto dest: bit_imp_le_length)
  qed simp
  ultimately show ?thesis using assms
    by (auto simp: UInt8_toUInt64_def bit_simps)
qed

lemma ByteArray_toUInt64LE_eq:
  assumes "length bs = 8"
  shows "ByteArray_toUInt64LE bs =
    ([], push_bit (8 * 7) (UInt8_toUInt64 (bs ! 7)) OR push_bit (8 * 6) (UInt8_toUInt64 (bs ! 6)) OR
      push_bit (8 * 5) (UInt8_toUInt64 (bs ! 5)) OR push_bit (8 * 4) (UInt8_toUInt64 (bs ! 4)) OR
      push_bit (8 * 3) (UInt8_toUInt64 (bs ! 3)) OR push_bit (8 * 2) (UInt8_toUInt64 (bs ! 2)) OR
      push_bit (8 * 1) (UInt8_toUInt64 (bs ! 1)) OR push_bit (8 * 0) (UInt8_toUInt64 (bs ! 0)))"
  using assms by (simp add: ByteArray_toUInt64LE_def ByteArray_get_def UInt64_shiftLeft_def)

lemma toUInt64LE_bits:
  assumes "length bs = 8" and "q < 8" and "r < 8"
  shows "bit (snd (ByteArray_toUInt64LE bs)) (8 * q + r) \<longleftrightarrow> bit (bs ! q) r"
proof -
  have "q \<in> {0,1,2,3,4,5,6,7}" using assms(2) by auto
  with assms show ?thesis
    by (simp only: ByteArray_toUInt64LE_eq snd_conv bit_or_iff bit_byte_at [where q = q]) auto
qed

lemma bytes_le_length [simp]: "length (bytes_le w) = 8"
  by (simp add: bytes_le_def)

lemma bit_bytes_le: "q < 8 \<Longrightarrow> r < 8 \<Longrightarrow> bit (bytes_le w ! q) r \<longleftrightarrow> bit w (8 * q + r)"
  by (simp add: bytes_le_def bit_simps)

lemma toUInt64LE_of_bytes: "ByteArray_toUInt64LE (bytes_le w) = ([], w)"
proof -
  have "snd (ByteArray_toUInt64LE (bytes_le w)) = w"
  proof (rule bit_word_eqI)
    fix n assume "n < LENGTH(64)"
    then have "n div 8 < 8" by simp
    with toUInt64LE_bits [of "bytes_le w" "n div 8" "n mod 8"]
    show "bit (snd (ByteArray_toUInt64LE (bytes_le w))) n = bit w n"
      by (simp add: bit_bytes_le)
  qed
  then show ?thesis by (simp add: ByteArray_toUInt64LE_eq)
qed

lemma bytes_of_toUInt64LE:
  assumes "length bs = 8"
  shows "bytes_le (snd (ByteArray_toUInt64LE bs)) = bs"
proof (rule nth_equalityI)
  fix q assume q: "q < length (bytes_le (snd (ByteArray_toUInt64LE bs)))"
  show "bytes_le (snd (ByteArray_toUInt64LE bs)) ! q = bs ! q"
    by (rule bit_word_eqI) (use q assms in \<open>simp add: bit_bytes_le toUInt64LE_bits\<close>)
qed (simp add: assms)

text \<open>Both numbers of a generator are within their ranges, and a seed below their product can be told
  from it; above, a seed makes the generator its remainder makes.\<close>

lemma mkStdGen_bounds:
  "1 \<le> gen_s1 (mkStdGen s)" "gen_s1 (mkStdGen s) \<le> 2147483562"
  "1 \<le> gen_s2 (mkStdGen s)" "gen_s2 (mkStdGen s) \<le> 2147483398"
  by (simp_all add: mkStdGen_def Let_def Suc_le_eq)

lemma mkStdGen_seed:
  "(gen_s1 (mkStdGen s) - 1) + 2147483562 * (gen_s2 (mkStdGen s) - 1) = s mod (2147483562 * 2147483398)"
  unfolding mkStdGen_def Let_def by (simp add: mod_mult2_eq [of s 2147483562 2147483398, simplified])

lemma mod_product:
  fixes s t a b :: nat
  assumes "0 < a"
  shows "s mod (a * b) = t mod (a * b) \<longleftrightarrow> s mod a = t mod a \<and> s div a mod b = t div a mod b"
proof
  assume eq: "s mod (a * b) = t mod (a * b)"
  have "x mod (a * b) mod a = x mod a" "x mod (a * b) div a = x div a mod b" for x
    using assms by (simp_all add: mod_mult2_eq)
  from this [of s] this [of t] eq show "s mod a = t mod a \<and> s div a mod b = t div a mod b" by simp
qed (simp add: mod_mult2_eq)

lemma mkStdGen_eq_iff:
  "mkStdGen s = mkStdGen t \<longleftrightarrow> s mod (2147483562 * 2147483398) = t mod (2147483562 * 2147483398)"
  by (subst mod_product) (auto simp: mkStdGen_def Let_def)

text \<open>The initialiser fails exactly when the system gives no bytes, and then with its error; from the
  eight bytes it asked for it makes the generator of their number and tells nothing.\<close>

lemma Random_initFn_error: "snd (Random_initFn get) = Inl e \<longleftrightarrow> get 8 = Inl e"
  by (auto simp: Random_initFn_def split: sum.splits prod.splits)

lemma Random_initFn_seeded:
  "get 8 = Inr (bytes_le w) \<Longrightarrow> Random_initFn get = ([], Inr (mkStdGen (unat w)))"
  by (simp add: Random_initFn_def toUInt64LE_of_bytes)

lemma Random_initFn_silent:
  assumes "\<And>n bs. get n = Inr bs \<Longrightarrow> length bs = n"
  shows "fst (Random_initFn get) = []"
  using assms by (auto simp: Random_initFn_def ByteArray_toUInt64LE_eq split: sum.splits)

end
