(* ===== verification/Paths.thy ===== *)
theory Paths
  imports Foundation
begin

text \<open>
  What the Objective-C classes do with file paths, as Foundation documents it: the last component of a
  path, its extension, a component appended; and looking for a text in a string.  Strings are compared
  character by character (no composed characters are looked for).
\<close>

section \<open>Paths\<close>

definition slash :: char where "slash = CHR ''/''"

definition strip_slashes :: "string \<Rightarrow> string" where
  "strip_slashes s = rev (dropWhile (\<lambda>c. c = slash) (rev s))"

definition lastPathComponent :: "string \<Rightarrow> string" where
  "lastPathComponent s =
     (if s \<noteq> [] \<and> strip_slashes s = [] then [slash]
      else rev (takeWhile (\<lambda>c. c \<noteq> slash) (rev (strip_slashes s))))"

definition stringByAppendingPathComponent :: "string \<Rightarrow> string \<Rightarrow> string" where
  "stringByAppendingPathComponent p n =
     (if p = [] then n else strip_slashes p @ slash # n)"

text \<open>The part after the last dot of the last component, unless that dot starts it.\<close>

definition pathExtension :: "string \<Rightarrow> string" where
  "pathExtension s =
     (let r = rev (lastPathComponent s) in
      case dropWhile (\<lambda>c. c \<noteq> CHR ''.'') r of
        [] \<Rightarrow> []
      | _ # before \<Rightarrow> (if before = [] then [] else rev (takeWhile (\<lambda>c. c \<noteq> CHR ''.'') r)))"

definition component :: "string \<Rightarrow> bool" where
  "component n \<longleftrightarrow> n \<noteq> [] \<and> slash \<notin> set n"

lemma strip_slashes_component: "component n \<Longrightarrow> strip_slashes (p @ n) = p @ n"
  by (cases n rule: rev_cases) (auto simp: strip_slashes_def component_def)

lemma lastPathComponent_append [simp]:
  assumes "component n"
  shows "lastPathComponent (stringByAppendingPathComponent p n) = n"
proof -
  have none: "takeWhile (\<lambda>c. c \<noteq> slash) (rev n) = rev n" "\<And>ys. takeWhile (\<lambda>c. c \<noteq> slash) (rev n @ slash # ys) = rev n"
    using assms by (auto simp: takeWhile_eq_all_conv takeWhile_append component_def)
  have "strip_slashes (q @ n) = q @ n" for q using assms by (rule strip_slashes_component)
  from this [of "[]"] this [of "strip_slashes p @ [slash]"] show ?thesis
    using assms by (simp add: none lastPathComponent_def stringByAppendingPathComponent_def component_def)
qed

lemma append_component_inject:
  assumes "component m" and "component n"
  shows "stringByAppendingPathComponent p m = stringByAppendingPathComponent p n \<longleftrightarrow> m = n"
  using lastPathComponent_append [OF assms(1), of p] lastPathComponent_append [OF assms(2), of p] by metis

section \<open>Looking for a text\<close>

definition hasSuffix :: "string \<Rightarrow> string \<Rightarrow> bool" where
  "hasSuffix s t \<longleftrightarrow> hasPrefix (rev s) (rev t)"

text \<open>What is before and after the first place a text is found at.\<close>

fun split_at :: "string \<Rightarrow> string \<Rightarrow> (string \<times> string) option" where
  "split_at t [] = (if t = [] then Some ([], []) else None)"
| "split_at t (c # s) =
     (if hasPrefix (c # s) t then Some ([], drop (length t) (c # s))
      else map_option (\<lambda>(a, b). (c # a, b)) (split_at t s))"

lemma hasPrefix_iff: "hasPrefix s t \<longleftrightarrow> (\<exists>r. s = t @ r)"
  by (auto simp: hasPrefix_def) (metis append_take_drop_id)

lemma hasSuffix_iff: "hasSuffix s t \<longleftrightarrow> (\<exists>r. s = r @ t)"
  unfolding hasSuffix_def hasPrefix_iff by (metis rev_append rev_rev_ident)

lemma split_at_Some: "split_at t s = Some (a, b) \<Longrightarrow> s = a @ t @ b"
  by (induction s arbitrary: a) (auto simp: hasPrefix_iff split: if_splits)

text \<open>\<open>stringByReplacingOccurrencesOfString:withString:\<close>, from left to right.\<close>

function replace_all :: "string \<Rightarrow> string \<Rightarrow> string \<Rightarrow> string" where
  "replace_all t v [] = []"
| "replace_all t v (c # s) =
     (if t \<noteq> [] \<and> hasPrefix (c # s) t then v @ replace_all t v (drop (length t) (c # s))
      else c # replace_all t v s)"
  by pat_completeness auto
termination
  by (relation "measure (\<lambda>(t, v, s). length s)") (auto simp: Suc_le_eq)

end
