(* ===== verification/Charter.thy ===== *)
theory Charter
  imports Paths TextJson
begin

text \<open>
  Registry charters (\<open>CSCharter.m\<close>): the document that makes a URL a registry, how it is read and held
  to its shape, how the locations it declares are filled in, and how it is fetched, stored in a folder
  and found again.  The part of the fabric registry that resolves a charter and fills in its templates
  (\<open>Cap/CSFabricRegistry.m\<close>) is here as well.

  Every refusal carries its reason; the first argument of \<open>Not_https\<close> and \<open>Query_or_fragment\<close> says which
  field it is about.  Where the code goes through a dictionary in its own order to name an offending
  key, the reason does not name it.  A number beyond 64 bits has no defined conversion
  (\<open>Number_outside\<close>).  The disk and the network are arguments.
\<close>

section \<open>Refusals\<close>

datatype charter_fault =
    Not_an_object | Unknown_field string | Missing_field string | Not_a_string string
  | Unknown_kind string | Not_templates | Not_a_time string
  | No_format | Other_format json | Format_differs string
  | Not_https string string | Query_or_fragment string string | Ends_in_slash string
  | Bad_slug | Bad_environment | Bad_experiment
  | Unexpected_location | Missing_location string
  | Unmatched_brace | Unclosed_brace | Bad_placeholder string
  | Unexpected_placeholder string string | Missing_placeholder string string
  | No_fabric | Unexpected_fabric string | Not_after_issue
  | No_location string | Value_not_taken | Value_needed string

datatype charter_error =
    CSCharterErrorMalformed charter_fault
  | CSCharterErrorRefused
  | CSCharterErrorUnreadable
  | CSCharterErrorUnchartered
  | CSCharterErrorHTTP nat
  | CSCharterErrorUnreachable
  | Write_failed
  | Number_outside

abbreviation malformed :: "charter_fault \<Rightarrow> charter_error + 'a" where
  "malformed f \<equiv> Inl (CSCharterErrorMalformed f)"

section \<open>Kinds of registries\<close>

datatype CSRegistryKind = CSRegistryKindCartridges | CSRegistryKindFabric | CSRegistryKindReleases

fun CSRegistryKindName :: "CSRegistryKind \<Rightarrow> string" where
  "CSRegistryKindName CSRegistryKindCartridges = ''cartridges''"
| "CSRegistryKindName CSRegistryKindFabric = ''fabric''"
| "CSRegistryKindName CSRegistryKindReleases = ''releases''"

definition CSRegistryKindFromName :: "string \<Rightarrow> CSRegistryKind option" where
  "CSRegistryKindFromName name =
     find (\<lambda>k. CSRegistryKindName k = name)
       [CSRegistryKindCartridges, CSRegistryKindFabric, CSRegistryKindReleases]"

text \<open>The locations a charter of each kind declares, with the placeholders their templates use, by name.\<close>

fun CSRegistryLocations :: "CSRegistryKind \<Rightarrow> (string \<times> string list) list" where
  "CSRegistryLocations CSRegistryKindCartridges = [(''manifest'', [''registry_version''])]"
| "CSRegistryLocations CSRegistryKindFabric =
     [(''definition'', [''kind'', ''urn_hash'', ''version'']), (''latest'', []),
      (''manifest'', [''manifest_version''])]"
| "CSRegistryLocations CSRegistryKindReleases = [(''manifest'', [''app_id''])]"

definition CSCharterFormat :: string where
  "CSCharterFormat = ''machinefabric-registry-charter/1''"

definition CSCharterFile :: string where "CSCharterFile = ''charter.json''"

definition CSCharterSigFile :: string where "CSCharterSigFile = ''charter.json.sig''"

definition CSCharterDevSlug :: string where "CSCharterDevSlug = ''dev''"

section \<open>Names and addresses\<close>

definition lower_letter :: "char \<Rightarrow> bool" where
  "lower_letter c \<longleftrightarrow> 97 \<le> (of_char c :: nat) \<and> (of_char c :: nat) \<le> 122"

definition lower_or_digit :: "char \<Rightarrow> bool" where
  "lower_or_digit c \<longleftrightarrow> lower_letter c \<or> is_digit c"

text \<open>The patterns, each of which is matched against the whole string.\<close>

definition placeholder_name :: "string \<Rightarrow> bool" where
  "placeholder_name s \<longleftrightarrow> s \<noteq> [] \<and> list_all (\<lambda>c. lower_letter c \<or> c = CHR ''_'') s"

definition environment_label :: "string \<Rightarrow> bool" where
  "environment_label s \<longleftrightarrow> s \<noteq> [] \<and> list_all (\<lambda>c. lower_or_digit c \<or> c = CHR ''-'') s"

definition Charter_isSlug :: "string \<Rightarrow> bool" where
  "Charter_isSlug s \<longleftrightarrow>
     s \<noteq> CSCharterDevSlug \<and>
     (case s of
        [] \<Rightarrow> False
      | c # r \<Rightarrow>
          lower_or_digit c \<and> length r \<le> 62 \<and>
          list_all (\<lambda>c. lower_or_digit c \<or> c = CHR ''.'' \<or> c = CHR ''-'') r)"

definition Charter_isExperimentID :: "string \<Rightarrow> bool" where
  "Charter_isExperimentID s \<longleftrightarrow>
     (case s of
        [] \<Rightarrow> False
      | c # r \<Rightarrow>
          lower_or_digit c \<and> length r \<le> 39 \<and> list_all (\<lambda>c. lower_or_digit c \<or> c = CHR ''-'') r)"

definition CSCheckHTTPS :: "string \<Rightarrow> string \<Rightarrow> charter_error + unit" where
  "CSCheckHTTPS what url =
     (case split_at ''://'' url of
        None \<Rightarrow> malformed (Not_https what url)
      | Some (before, rest) \<Rightarrow>
          if before \<noteq> ''https'' \<or> rest = [] \<or> hasPrefix rest [slash] then malformed (Not_https what url)
          else if list_ex (\<lambda>c. c = CHR ''?'' \<or> c = CHR ''#'') url then
            malformed (Query_or_fragment what url)
          else Inr ())"

section \<open>Templates\<close>

definition brace :: "char \<Rightarrow> bool" where
  "brace c \<longleftrightarrow> c = CHR ''{'' \<or> c = CHR ''}''"

text \<open>The placeholders of a template in order of first use.\<close>

function placeholders_from :: "string list \<Rightarrow> string \<Rightarrow> charter_error + string list" where
  "placeholders_from out rest =
     (case dropWhile (\<lambda>c. \<not> brace c) rest of
        [] \<Rightarrow> Inr out
      | c # after \<Rightarrow>
          if c = CHR ''}'' then malformed Unmatched_brace
          else
            (case dropWhile (\<lambda>c. c \<noteq> CHR ''}'') after of
               [] \<Rightarrow> malformed Unclosed_brace
             | _ # rest' \<Rightarrow>
                 (let name = takeWhile (\<lambda>c. c \<noteq> CHR ''}'') after in
                  if \<not> placeholder_name name then malformed (Bad_placeholder name)
                  else placeholders_from (if name \<in> set out then out else out @ [name]) rest')))"
  by pat_completeness auto
termination
proof (relation "measure (\<lambda>(out, rest). length rest)", simp)
  fix out rest c after d rest' name
  assume "dropWhile (\<lambda>c. \<not> brace c) rest = c # after" "dropWhile (\<lambda>c. c \<noteq> CHR ''}'') after = d # rest'"
  then have "length (c # after) \<le> length rest" "length (d # rest') \<le> length after"
    by (metis length_dropWhile_le)+
  then show "((if name \<in> set out then out else out @ [name], rest'), out, rest)
      \<in> measure (\<lambda>(out, rest). length rest)" by simp
qed

declare placeholders_from.simps [simp del]

definition CSPlaceholdersIn :: "string \<Rightarrow> charter_error + string list" where
  "CSPlaceholdersIn template = placeholders_from [] template"

section \<open>Charters\<close>

record CSCharter =
  charter_format :: string
  charter_anchor :: string
  charter_kind :: CSRegistryKind
  charter_slug :: string
  charter_environment :: string
  charter_experiment :: "string option"
  charter_locations :: "(string, string) fmap"
  charter_fabric :: "string option"
  issuedAt :: "64 word"
  notAfter :: "json option"

definition charter_fields :: "string list" where
  "charter_fields =
     [''format'', ''anchor'', ''kind'', ''slug'', ''environment'', ''experiment'', ''locations'',
      ''fabric'', ''issued_at'', ''not_after'']"

definition charter_required :: "string list" where
  "charter_required =
     [''format'', ''anchor'', ''kind'', ''slug'', ''environment'', ''locations'', ''issued_at'',
      ''not_after'']"

definition infinite_double :: "64 word" where "infinite_double = 0x7FF0000000000000"

text \<open>A time is a whole number that is not negative; a boolean is none.\<close>

definition is_time :: "json \<Rightarrow> bool" where
  "is_time j =
     (case j of
        JSON_int i \<Rightarrow> 0 \<le> i
      | JSON_double d \<Rightarrow>
          (case double_value d of
             Some r \<Rightarrow> 0 \<le> r \<and> r = of_int \<lfloor>r\<rfloor>
           | None \<Rightarrow> d = infinite_double)
      | _ \<Rightarrow> False)"

definition unsignedLongLongValue :: "json \<Rightarrow> 64 word option" where
  "unsignedLongLongValue j =
     (case j of
        JSON_int i \<Rightarrow> if - (2 ^ 63) \<le> i \<and> i < 2 ^ 64 then Some (word_of_int i) else None
      | JSON_double d \<Rightarrow>
          (case double_value d of
             Some r \<Rightarrow> if 0 \<le> r \<and> r < 2 ^ 64 then Some (word_of_int \<lfloor>r\<rfloor>) else None
           | None \<Rightarrow> None)
      | _ \<Rightarrow> None)"

definition templates_by_name :: "json \<Rightarrow> (string, string) fmap option" where
  "templates_by_name j =
     (case j of
        JSON_object d \<Rightarrow>
          if fmpred (\<lambda>k v. case v of JSON_string s \<Rightarrow> True | _ \<Rightarrow> False) d
          then Some (fmmap (\<lambda>v. case v of JSON_string s \<Rightarrow> s | _ \<Rightarrow> []) d)
          else None
      | _ \<Rightarrow> None)"

definition required_string :: "dictionary \<Rightarrow> string \<Rightarrow> charter_error + string" where
  "required_string d k =
     (case string_field d k of Some s \<Rightarrow> Inr s | None \<Rightarrow> malformed (Not_a_string k))"

definition optional_string :: "dictionary \<Rightarrow> string \<Rightarrow> charter_error + string option" where
  "optional_string d k =
     (case fmlookup d k of
        None \<Rightarrow> Inr None
      | Some JSON_null \<Rightarrow> Inr None
      | Some (JSON_string s) \<Rightarrow> Inr (Some s)
      | Some _ \<Rightarrow> malformed (Not_a_string k))"

definition given :: "charter_fault \<Rightarrow> 'a option \<Rightarrow> charter_error + 'a" where
  "given f x = (case x of None \<Rightarrow> malformed f | Some y \<Rightarrow> Inr y)"

text \<open>The time a charter was issued is converted, the time it ends is kept as the number it is.\<close>

definition check_time :: "json \<Rightarrow> charter_error + unit" where
  "check_time j = (if is_time j then Inr () else malformed (Not_a_time ''issued_at''))"

definition convert_time :: "json \<Rightarrow> charter_error + 64 word" where
  "convert_time j = (case unsignedLongLongValue j of None \<Rightarrow> Inl Number_outside | Some t \<Rightarrow> Inr t)"

definition read_end :: "json \<Rightarrow> charter_error + json option" where
  "read_end j =
     (if j = JSON_null then Inr None
      else if \<not> is_time j then malformed (Not_a_time ''not_after'')
      else Inr (Some j))"

definition Charter_charterWithDictionary :: "dictionary \<Rightarrow> charter_error + CSCharter" where
  "Charter_charterWithDictionary d =
     (case find (\<lambda>k. k \<notin> set charter_fields) (sorted_list_of_fset (fmdom d)) of
        Some k \<Rightarrow> malformed (Unknown_field k)
      | None \<Rightarrow>
     (case find (\<lambda>k. fmlookup d k = None) charter_required of
        Some k \<Rightarrow> malformed (Missing_field k)
      | None \<Rightarrow>
     on_ok (required_string d ''format'') (\<lambda>format.
     on_ok (required_string d ''anchor'') (\<lambda>anchor.
     on_ok (required_string d ''kind'') (\<lambda>kind_name.
     on_ok (required_string d ''slug'') (\<lambda>slug.
     on_ok (required_string d ''environment'') (\<lambda>environment.
     on_ok (optional_string d ''experiment'') (\<lambda>experiment.
     on_ok (optional_string d ''fabric'') (\<lambda>fabric.
     on_ok (given (Unknown_kind kind_name) (CSRegistryKindFromName kind_name)) (\<lambda>kind.
     on_ok (given Not_templates (templates_by_name (the (fmlookup d ''locations'')))) (\<lambda>locations.
     on_ok (check_time (the (fmlookup d ''issued_at''))) (\<lambda>_.
     on_ok (read_end (the (fmlookup d ''not_after''))) (\<lambda>after.
     on_ok (convert_time (the (fmlookup d ''issued_at''))) (\<lambda>issued.
       Inr \<lparr>charter_format = format, charter_anchor = anchor, charter_kind = kind,
            charter_slug = slug, charter_environment = environment,
            charter_experiment = experiment, charter_locations = locations,
            charter_fabric = fabric, issuedAt = issued, notAfter = after\<rparr>))))))))))))))"

definition Charter_dictionaryRepresentation :: "CSCharter \<Rightarrow> dictionary" where
  "Charter_dictionaryRepresentation c =
     entry_if ''fabric'' (map_option JSON_string (charter_fabric c))
     (entry_if ''experiment'' (map_option JSON_string (charter_experiment c))
     (fmupd ''not_after'' (case notAfter c of None \<Rightarrow> JSON_null | Some j \<Rightarrow> j)
     (fmupd ''issued_at'' (JSON_int (uint (issuedAt c)))
     (fmupd ''locations'' (JSON_object (fmmap JSON_string (charter_locations c)))
     (fmupd ''environment'' (JSON_string (charter_environment c))
     (fmupd ''slug'' (JSON_string (charter_slug c))
     (fmupd ''kind'' (JSON_string (CSRegistryKindName (charter_kind c)))
     (fmupd ''anchor'' (JSON_string (charter_anchor c))
     (fmupd ''format'' (JSON_string (charter_format c)) fmempty)))))))))"

section \<open>The shape of a charter\<close>

definition check_placeholders :: "string \<Rightarrow> string list \<Rightarrow> string list \<Rightarrow> charter_error + unit" where
  "check_placeholders name needed used =
     (case find (\<lambda>p. p \<notin> set needed) used of
        Some p \<Rightarrow> malformed (Unexpected_placeholder name p)
      | None \<Rightarrow>
          (case find (\<lambda>p. p \<notin> set used) needed of
             Some p \<Rightarrow> malformed (Missing_placeholder name p)
           | None \<Rightarrow> Inr ()))"

fun check_locations :: "(string, string) fmap \<Rightarrow> (string \<times> string list) list \<Rightarrow> charter_error + unit" where
  "check_locations locations [] = Inr ()"
| "check_locations locations ((name, needed) # rest) =
     (case fmlookup locations name of
        None \<Rightarrow> malformed (Missing_location name)
      | Some template \<Rightarrow>
          on_ok (CSCheckHTTPS (''location '' @ name) template) (\<lambda>_.
          on_ok (CSPlaceholdersIn template) (\<lambda>used.
          on_ok (check_placeholders name needed used) (\<lambda>_. check_locations locations rest))))"

definition check_fabric :: "CSCharter \<Rightarrow> charter_error + unit" where
  "check_fabric c =
     (if charter_kind c = CSRegistryKindCartridges then
        (case charter_fabric c of
           None \<Rightarrow> malformed No_fabric
         | Some f \<Rightarrow>
             on_ok (CSCheckHTTPS ''fabric'' f) (\<lambda>_.
               if hasSuffix f [slash] then malformed (Ends_in_slash ''fabric'') else Inr ()))
      else
        (case charter_fabric c of
           None \<Rightarrow> Inr ()
         | Some f \<Rightarrow> malformed (Unexpected_fabric f)))"

definition check_times :: "CSCharter \<Rightarrow> charter_error + unit" where
  "check_times c =
     (case notAfter c of
        None \<Rightarrow> Inr ()
      | Some j \<Rightarrow>
          (case unsignedLongLongValue j of
             None \<Rightarrow> Inl Number_outside
           | Some t \<Rightarrow> if t \<le> issuedAt c then malformed Not_after_issue else Inr ()))"

definition Charter_validate :: "CSCharter \<Rightarrow> charter_error + unit" where
  "Charter_validate c =
     (if charter_format c \<noteq> CSCharterFormat then malformed (Format_differs (charter_format c))
      else on_ok (CSCheckHTTPS ''anchor'' (charter_anchor c)) (\<lambda>_.
        if hasSuffix (charter_anchor c) [slash] then malformed (Ends_in_slash ''anchor'')
        else if \<not> Charter_isSlug (charter_slug c) then malformed Bad_slug
        else if \<not> environment_label (charter_environment c) then malformed Bad_environment
        else if (case charter_experiment c of None \<Rightarrow> False | Some x \<Rightarrow> \<not> Charter_isExperimentID x)
          then malformed Bad_experiment
        else
          (let needed = CSRegistryLocations (charter_kind c) in
           if \<not> fmdom (charter_locations c) |\<subseteq>| fset_of_list (map fst needed)
             then malformed Unexpected_location
           else on_ok (check_locations (charter_locations c) needed) (\<lambda>_.
             on_ok (check_fabric c) (\<lambda>_. check_times c)))))"

text \<open>Reading a charter from data; the JSON reader is an argument.\<close>

definition Charter_charterWithData ::
    "(byte list \<Rightarrow> json option) \<Rightarrow> byte list \<Rightarrow> charter_error + CSCharter" where
  "Charter_charterWithData decode bs =
     (case decode bs of
        Some (JSON_object d) \<Rightarrow>
          (case fmlookup d ''format'' of
             None \<Rightarrow> malformed No_format
           | Some f \<Rightarrow>
               if f \<noteq> JSON_string CSCharterFormat then malformed (Other_format f)
               else on_ok (Charter_charterWithDictionary d)
                 (\<lambda>c. on_ok (Charter_validate c) (\<lambda>_. Inr c)))
      | _ \<Rightarrow> malformed No_format)"

section \<open>Filling in a location\<close>

fun fill_in :: "(string, string) fmap \<Rightarrow> string list \<Rightarrow> string \<Rightarrow> charter_error + string" where
  "fill_in values [] out = Inr out"
| "fill_in values (p # ps) out =
     (case fmlookup values p of
        None \<Rightarrow> malformed (Value_needed p)
      | Some v \<Rightarrow> fill_in values ps (replace_all (CHR ''{'' # p @ ''}'') v out))"

definition Charter_locationNamed ::
    "CSCharter \<Rightarrow> string \<Rightarrow> (string, string) fmap \<Rightarrow> charter_error + string" where
  "Charter_locationNamed c name values =
     (case fmlookup (charter_locations c) name of
        None \<Rightarrow> malformed (No_location name)
      | Some template \<Rightarrow>
          on_ok (CSPlaceholdersIn template) (\<lambda>used.
            if \<not> fmdom values |\<subseteq>| fset_of_list used then malformed Value_not_taken
            else fill_in values used template))"

section \<open>Stored charters\<close>

text \<open>A disk is the files that can be read with what they hold; what is refused is for the disk to say.\<close>

record disk =
  disk_files :: "string \<rightharpoonup> byte list"
  disk_names :: "string \<Rightarrow> string list"
  may_create :: "string \<Rightarrow> bool"
  may_write :: "string \<Rightarrow> bool"

definition file_exists :: "disk \<Rightarrow> string \<Rightarrow> bool" where
  "file_exists k path \<longleftrightarrow> disk_files k path \<noteq> None"

definition CSWriteAtomic :: "string \<Rightarrow> byte list \<Rightarrow> disk \<Rightarrow> disk \<times> bool" where
  "CSWriteAtomic path bs k =
     (if may_write k path then (k\<lparr>disk_files := (disk_files k)(path \<mapsto> bs)\<rparr>, True) else (k, False))"

definition Charter_storedInFolder ::
    "(byte list \<Rightarrow> json option) \<Rightarrow> disk \<Rightarrow> string \<Rightarrow> CSRegistryKind \<Rightarrow> charter_error + CSCharter" where
  "Charter_storedInFolder decode k folder kind =
     (case disk_files k (stringByAppendingPathComponent folder CSCharterFile) of
        None \<Rightarrow> Inl CSCharterErrorUnreadable
      | Some body \<Rightarrow>
          if \<not> file_exists k (stringByAppendingPathComponent folder CSCharterSigFile)
            then Inl CSCharterErrorUnreadable
          else on_ok (Charter_charterWithData decode body) (\<lambda>c.
            if charter_kind c \<noteq> kind then Inl CSCharterErrorRefused
            else if lastPathComponent folder \<noteq> charter_slug c then Inl CSCharterErrorRefused
            else Inr c))"

fun stored_among ::
    "(byte list \<Rightarrow> json option) \<Rightarrow> disk \<Rightarrow> string \<Rightarrow> string \<Rightarrow> CSRegistryKind \<Rightarrow> string list \<Rightarrow>
     (CSCharter \<times> string) option" where
  "stored_among decode k dir anchor kind [] = None"
| "stored_among decode k dir anchor kind (name # names) =
     (let folder = stringByAppendingPathComponent dir name in
      if \<not> file_exists k (stringByAppendingPathComponent folder CSCharterFile)
        then stored_among decode k dir anchor kind names
      else
        (case Charter_storedInFolder decode k folder kind of
           Inl e \<Rightarrow> stored_among decode k dir anchor kind names
         | Inr c \<Rightarrow>
             if charter_anchor c = anchor then Some (c, folder)
             else stored_among decode k dir anchor kind names))"

definition Charter_storedUnder ::
    "(byte list \<Rightarrow> json option) \<Rightarrow> disk \<Rightarrow> string \<Rightarrow> string \<Rightarrow> CSRegistryKind \<Rightarrow>
     (CSCharter \<times> string) option" where
  "Charter_storedUnder decode k dir anchor kind =
     stored_among decode k dir anchor kind (sort_by compare_linorder (disk_names k dir))"

section \<open>Fetched charters\<close>

datatype web_answer = Not_a_URL | No_answer | Answered nat "byte list"

record CSFetchedCharter =
  fetched_charter :: CSCharter
  fetched_body :: "byte list"
  fetched_signature :: "byte list"

definition FetchedCharter_fetch ::
    "(string \<Rightarrow> web_answer) \<Rightarrow> int \<Rightarrow> string \<Rightarrow> charter_error + byte list" where
  "FetchedCharter_fetch web cacheBust url =
     (case web (url @ ''?cb='' @ string_of_int cacheBust) of
        Not_a_URL \<Rightarrow> Inl CSCharterErrorUnreachable
      | No_answer \<Rightarrow> Inl CSCharterErrorUnreachable
      | Answered status bs \<Rightarrow>
          if status = 404 then Inl CSCharterErrorUnchartered
          else if status < 200 \<or> 299 < status then Inl (CSCharterErrorHTTP status)
          else Inr bs)"

definition FetchedCharter_fetchFromAnchor ::
    "(byte list \<Rightarrow> json option) \<Rightarrow> (string \<Rightarrow> web_answer) \<Rightarrow> int \<Rightarrow> string \<Rightarrow> CSRegistryKind \<Rightarrow>
     charter_error + CSFetchedCharter" where
  "FetchedCharter_fetchFromAnchor decode web cacheBust anchor kind =
     on_ok (FetchedCharter_fetch web cacheBust (anchor @ slash # CSCharterFile)) (\<lambda>body.
     on_ok (FetchedCharter_fetch web cacheBust (anchor @ slash # CSCharterSigFile)) (\<lambda>signature.
       (case Charter_charterWithData decode body of
          Inl e \<Rightarrow> Inl CSCharterErrorRefused
        | Inr c \<Rightarrow>
            if charter_anchor c \<noteq> anchor then Inl CSCharterErrorRefused
            else if charter_kind c \<noteq> kind then Inl CSCharterErrorRefused
            else Inr \<lparr>fetched_charter = c, fetched_body = body, fetched_signature = signature\<rparr>)))"

definition FetchedCharter_storeInFolder ::
    "CSFetchedCharter \<Rightarrow> string \<Rightarrow> disk \<Rightarrow> disk \<times> (charter_error + unit)" where
  "FetchedCharter_storeInFolder f folder k =
     (if lastPathComponent folder \<noteq> charter_slug (fetched_charter f) then (k, Inl CSCharterErrorRefused)
      else if \<not> may_create k folder then (k, Inl Write_failed)
      else
        (case CSWriteAtomic (stringByAppendingPathComponent folder CSCharterFile) (fetched_body f) k of
           (k1, False) \<Rightarrow> (k1, Inl Write_failed)
         | (k1, True) \<Rightarrow>
             (case CSWriteAtomic (stringByAppendingPathComponent folder CSCharterSigFile)
                     (fetched_signature f) k1 of
                (k2, False) \<Rightarrow> (k2, Inl Write_failed)
              | (k2, True) \<Rightarrow> (k2, Inr ()))))"

section \<open>The charter of a fabric registry\<close>

definition FabricRegistry_resolveCharter ::
    "(byte list \<Rightarrow> json option) \<Rightarrow> (string \<Rightarrow> web_answer) \<Rightarrow> int \<Rightarrow> string \<Rightarrow> string \<Rightarrow> disk \<Rightarrow>
     disk \<times> (charter_error + CSCharter)" where
  "FabricRegistry_resolveCharter decode web cacheBust anchor cacheRoot k =
     (case Charter_storedUnder decode k cacheRoot anchor CSRegistryKindFabric of
        Some (c, folder) \<Rightarrow> (k, Inr c)
      | None \<Rightarrow>
          (case FetchedCharter_fetchFromAnchor decode web cacheBust anchor CSRegistryKindFabric of
             Inl e \<Rightarrow> (k, Inl e)
           | Inr f \<Rightarrow>
               (case FetchedCharter_storeInFolder f
                       (stringByAppendingPathComponent cacheRoot (charter_slug (fetched_charter f))) k of
                  (k', Inl e) \<Rightarrow> (k', Inl Write_failed)
                | (k', Inr _) \<Rightarrow> (k', Inr (fetched_charter f)))))"

definition publisherLayoutCharter :: "string \<Rightarrow> string \<Rightarrow> charter_error + CSCharter" where
  "publisherLayoutCharter anchor slug =
     Charter_charterWithDictionary
       (fmap_of_list
         [(''format'', JSON_string CSCharterFormat),
          (''anchor'', JSON_string anchor),
          (''kind'', JSON_string (CSRegistryKindName CSRegistryKindFabric)),
          (''slug'', JSON_string slug),
          (''environment'', JSON_string ''prod''),
          (''locations'', JSON_object
            (fmap_of_list
              [(''manifest'', JSON_string (anchor @ ''/manifest/{manifest_version}.json'')),
               (''latest'', JSON_string (anchor @ ''/manifest/latest.json'')),
               (''definition'', JSON_string (anchor @ ''/{kind}/{urn_hash}/{version}.json''))])),
          (''issued_at'', JSON_int 0),
          (''not_after'', JSON_null)])"

text \<open>The address of a definition, from the template of the charter.\<close>

definition FabricRegistry_objectURL :: "string \<Rightarrow> string \<Rightarrow> string \<Rightarrow> 32 word \<Rightarrow> string" where
  "FabricRegistry_objectURL definitionTemplate kind digest defver =
     replace_all ''{version}'' (string_of_nat (unat defver))
       (replace_all ''{urn_hash}'' digest (replace_all ''{kind}'' kind definitionTemplate))"

end
