(* ===== verification/FabricRegistry.thy ===== *)
theory FabricRegistry
  imports CapValidator Charter
begin

text \<open>
  The client of a fabric registry (\<open>Cap/CSFabricRegistry.m\<close>): the manifest it is pinned to, what it holds
  in memory of caps, media definitions, aliases and dims, and how a definition is looked up, fetched with
  everything it names, and kept.

  The network answers an address; the digest of a name, the JSON reader, what the cache files hold and
  whether one can be written are arguments (\<open>fabric_env\<close>).  Callbacks are the steps of one request, in
  their order; requests that are on their way at the same time are taken to be answered in the order they
  were made.  A value of a class its field is not read as stops the model (\<open>Registry_stops\<close>), as an
  exception of the URN classes does.  Errors are told by their codes; the error of a session is
  \<open>Network_error\<close>.
\<close>

datatype registry_error = Registry_error nat | Network_error | Registry_stops

abbreviation registry_fails :: "nat \<Rightarrow> registry_error + 'a" where
  "registry_fails n \<equiv> Inl (Registry_error n)"

record ('t, 'd) fabric_env =
  fabric_pkg :: "('t, 'd) tagged_urn_package"
  fabric_decode :: "byte list \<Rightarrow> json option"
  fabric_web :: "string \<Rightarrow> web_answer"
  fabric_digest :: "string \<Rightarrow> string"
  dim_file_written :: "string \<Rightarrow> 32 word \<Rightarrow> bool"

record CSFabricRegistry =
  manifestVersion :: "32 word"
  manifestTemplate :: string
  definitionTemplate :: string
  cachedCaps :: "(string, CSCap) fmap"
  cachedSpecs :: "(string, dictionary) fmap"
  cachedAliases :: "(string, dictionary) fmap"
  cachedDims :: "(string, CSStoredDim) fmap"
  extensionIndex :: "(string, string list) fmap"
  manifestCaps :: "(string, json) fmap"
  manifestMedia :: "(string, json) fmap"
  manifestAliases :: "(string, json) fmap"
  manifestDims :: "(string, json) fmap"

section \<open>Aliases by name\<close>

definition CSTokenIsURN :: "string \<Rightarrow> bool" where
  "CSTokenIsURN token \<longleftrightarrow> CHR '':'' \<in> set token"

definition CSIsAliasToken :: "string \<Rightarrow> bool" where
  "CSIsAliasToken token \<longleftrightarrow> \<not> CSTokenIsURN token"

text \<open>White space among the characters of one byte; the others are refused by the next check.\<close>

definition white_space :: "char \<Rightarrow> bool" where
  "white_space c \<longleftrightarrow> (of_char c :: nat) \<in> {9, 10, 11, 12, 13, 32, 133, 160}"

definition CSNormalizeAliasName :: "string \<Rightarrow> registry_error + string" where
  "CSNormalizeAliasName name =
     (if length name = 0 then registry_fails 1020
      else if CHR '':'' \<in> set name then registry_fails 1020
      else if list_ex white_space name then registry_fails 1020
      else
        (let lowered = lowercase name in
         if list_ex (\<lambda>c. \<not> (lower_or_digit c \<or> c = CHR ''.'' \<or> c = CHR ''_'' \<or> c = CHR ''-'')) lowered
         then registry_fails 1020
         else Inr lowered))"

datatype CSAliasTargetKind = CSAliasTargetKindCap | CSAliasTargetKindMedia

definition CSClassifyAliasTarget ::
    "('t, 'd) tagged_urn_package \<Rightarrow> string \<Rightarrow> registry_error + CSAliasTargetKind option" where
  "CSClassifyAliasTarget pkg target =
     (case CapUrn_fromString pkg target of
        Inr c \<Rightarrow> Inr (Some CSAliasTargetKindCap)
      | Inl (Raises e) \<Rightarrow> Inl Registry_stops
      | Inl (Returns_nil e) \<Rightarrow>
          (case media_of (urns pkg) target of
             Some m \<Rightarrow> Inr (Some CSAliasTargetKindMedia)
           | None \<Rightarrow> Inr None))"

section \<open>Names of definitions\<close>

definition normalizeCapUrn :: "('t, 'd) tagged_urn_package \<Rightarrow> string \<Rightarrow> registry_error + string" where
  "normalizeCapUrn pkg urn =
     (case CapUrn_fromString pkg urn of
        Inl (Returns_nil e) \<Rightarrow> registry_fails 1030
      | Inl (Raises e) \<Rightarrow> Inl Registry_stops
      | Inr c \<Rightarrow> (case CapUrn_toString pkg c of Inl e \<Rightarrow> Inl Registry_stops | Inr s \<Rightarrow> Inr s))"

definition normalizeMediaUrn :: "('t, 'd) tagged_urn_package \<Rightarrow> string \<Rightarrow> registry_error + string" where
  "normalizeMediaUrn pkg urn =
     (case media_of (urns pkg) urn of
        None \<Rightarrow> registry_fails 1031
      | Some m \<Rightarrow> Inr (MediaUrn_toString (urns pkg) m))"

text \<open>The URN of a cap that is held already.\<close>

definition cap_key :: "('t, 'd) tagged_urn_package \<Rightarrow> CSCap \<Rightarrow> registry_error + string" where
  "cap_key pkg c =
     (case CapUrn_toString pkg (capUrn c) of
        Inl e \<Rightarrow> Inl Registry_stops
      | Inr s \<Rightarrow> normalizeCapUrn pkg s)"

definition normalizeExtension :: "string \<Rightarrow> string" where
  "normalizeExtension extension =
     (let ext = lowercase extension in if hasPrefix ext ''.'' then tl ext else ext)"

section \<open>The manifest\<close>

text \<open>\<open>unsignedIntValue\<close> of what a map has for a key: 0 where it has nothing.\<close>

definition unsigned_of :: "json option \<Rightarrow> 32 word option" where
  "unsigned_of j = (case j of None \<Rightarrow> Some 0 | Some v \<Rightarrow> json_uint32 v)"

definition number_json :: "json \<Rightarrow> bool" where
  "number_json j \<longleftrightarrow> (case j of JSON_bool b \<Rightarrow> True | JSON_int i \<Rightarrow> True | JSON_double d \<Rightarrow> True | _ \<Rightarrow> False)"

definition map_or_empty :: "dictionary \<Rightarrow> string \<Rightarrow> (string, json) fmap" where
  "map_or_empty d k = (case fmlookup d k of Some (JSON_object m) \<Rightarrow> m | _ \<Rightarrow> fmempty)"

definition ingestManifestDictionary :: "dictionary \<Rightarrow> CSFabricRegistry \<Rightarrow> registry_error + CSFabricRegistry" where
  "ingestManifestDictionary manifest r =
     (case fmlookup manifest ''dims'' of
        Some (JSON_object dims) \<Rightarrow>
          if fmpred (\<lambda>name defver. number_json defver) dims then
            Inr (r\<lparr>manifestDims := dims,
              manifestCaps := map_or_empty manifest ''caps'',
              manifestMedia := map_or_empty manifest ''media'',
              manifestAliases := map_or_empty manifest ''aliases''\<rparr>)
          else registry_fails 1059
      | _ \<Rightarrow> registry_fails 1059)"

text \<open>The manifest that is used: the one in the cache if it is of the version that is asked for and can
  be read, otherwise the one the network gives, and no other.\<close>

definition cached_manifest ::
    "('t, 'd) fabric_env \<Rightarrow> byte list option \<Rightarrow> CSFabricRegistry \<Rightarrow> registry_error + CSFabricRegistry option" where
  "cached_manifest env cached r =
     (case cached of
        None \<Rightarrow> Inr None
      | Some bs \<Rightarrow>
          (case fabric_decode env bs of
             Some (JSON_object d) \<Rightarrow>
               (case unsigned_of (fmlookup d ''version'') of
                  None \<Rightarrow> Inl Registry_stops
                | Some v \<Rightarrow>
                    if v = manifestVersion r then
                      (case ingestManifestDictionary d r of Inl e \<Rightarrow> Inr None | Inr r' \<Rightarrow> Inr (Some r'))
                    else Inr None)
           | _ \<Rightarrow> Inr None))"

definition fetch_manifest :: "('t, 'd) fabric_env \<Rightarrow> CSFabricRegistry \<Rightarrow> registry_error + CSFabricRegistry" where
  "fetch_manifest env r =
     (case fabric_web env
         (replace_all ''{manifest_version}'' (string_of_nat (unat (manifestVersion r))) (manifestTemplate r)) of
        Answered status bs \<Rightarrow>
          if status \<noteq> 200 then Inl Registry_stops
          else
            (case fabric_decode env bs of
               Some (JSON_object d) \<Rightarrow>
                 (case unsigned_of (fmlookup d ''version'') of
                    None \<Rightarrow> Inl Registry_stops
                  | Some v \<Rightarrow>
                      if v \<noteq> manifestVersion r then Inl Registry_stops
                      else
                        (case ingestManifestDictionary d r of
                           Inl e \<Rightarrow> Inl Registry_stops
                         | Inr r' \<Rightarrow> Inr r'))
             | _ \<Rightarrow> Inl Registry_stops)
      | _ \<Rightarrow> Inl Registry_stops)"

definition bootstrapManifest ::
    "('t, 'd) fabric_env \<Rightarrow> byte list option \<Rightarrow> CSFabricRegistry \<Rightarrow> registry_error + CSFabricRegistry" where
  "bootstrapManifest env cached r =
     on_ok (cached_manifest env cached r)
       (\<lambda>found. case found of Some r' \<Rightarrow> Inr r' | None \<Rightarrow> fetch_manifest env r)"

definition defver_in ::
    "nat \<Rightarrow> (string, json) fmap \<Rightarrow> string \<Rightarrow> registry_error + 32 word" where
  "defver_in code m k =
     (case fmlookup m k of
        None \<Rightarrow> registry_fails code
      | Some j \<Rightarrow> (case json_uint32 j of None \<Rightarrow> Inl Registry_stops | Some v \<Rightarrow> Inr v))"

definition capDefver :: "CSFabricRegistry \<Rightarrow> string \<Rightarrow> registry_error + 32 word" where
  "capDefver r normalized =
     (if manifestVersion r = 0 then Inr 0 else defver_in 1040 (manifestCaps r) normalized)"

definition mediaDefver :: "CSFabricRegistry \<Rightarrow> string \<Rightarrow> registry_error + 32 word" where
  "mediaDefver r normalized =
     (if manifestVersion r = 0 then Inr 0
      else if normalized = ''media:'' then Inr 0
      else defver_in 1041 (manifestMedia r) normalized)"

definition capDefverFor :: "('t, 'd) fabric_env \<Rightarrow> CSFabricRegistry \<Rightarrow> string \<Rightarrow> registry_error + 32 word" where
  "capDefverFor env r urn = on_ok (normalizeCapUrn (fabric_pkg env) urn) (capDefver r)"

definition mediaDefverFor :: "('t, 'd) fabric_env \<Rightarrow> CSFabricRegistry \<Rightarrow> string \<Rightarrow> registry_error + 32 word" where
  "mediaDefverFor env r urn = on_ok (normalizeMediaUrn (fabric_pkg env) urn) (mediaDefver r)"

definition aliasDefverFor :: "CSFabricRegistry \<Rightarrow> string \<Rightarrow> registry_error + 32 word" where
  "aliasDefverFor r name =
     on_ok (CSNormalizeAliasName name) (\<lambda>normalized.
       if manifestVersion r = 0 then registry_fails 1021
       else defver_in 1022 (manifestAliases r) normalized)"

definition dimDefverFor :: "CSFabricRegistry \<Rightarrow> string \<Rightarrow> registry_error + 32 word" where
  "dimDefverFor r name =
     (if manifestVersion r = 0 then registry_fails 1051
      else defver_in 1052 (manifestDims r) name)"

section \<open>Extensions\<close>

fun index_extensions :: "string \<Rightarrow> json list \<Rightarrow> (string, string list) fmap \<Rightarrow> (string, string list) fmap" where
  "index_extensions urn [] idx = idx"
| "index_extensions urn (j # js) idx =
     (case j of
        JSON_string e \<Rightarrow>
          (let ext = normalizeExtension e;
               listed = (case fmlookup idx ext of None \<Rightarrow> [] | Some us \<Rightarrow> us)
           in index_extensions urn js
                (fmupd ext (if urn \<in> set listed then listed else listed @ [urn]) idx))
      | _ \<Rightarrow> index_extensions urn js idx)"

definition indexExtensionsForSpec :: "dictionary \<Rightarrow> json option \<Rightarrow> CSFabricRegistry \<Rightarrow> CSFabricRegistry" where
  "indexExtensionsForSpec spec rawUrn r =
     (case rawUrn of
        Some (JSON_string urn) \<Rightarrow>
          (case fmlookup spec ''extensions'' of
             Some (JSON_array js) \<Rightarrow>
               r\<lparr>extensionIndex := index_extensions urn js (extensionIndex r)\<rparr>
           | _ \<Rightarrow> r)
      | _ \<Rightarrow> r)"

definition mediaUrnsForExtension :: "CSFabricRegistry \<Rightarrow> string \<Rightarrow> string list" where
  "mediaUrnsForExtension r extension =
     (case fmlookup (extensionIndex r) (normalizeExtension extension) of None \<Rightarrow> [] | Some us \<Rightarrow> us)"

definition primaryMediaUrnForExtension :: "CSFabricRegistry \<Rightarrow> string \<Rightarrow> string option" where
  "primaryMediaUrnForExtension r extension =
     (case mediaUrnsForExtension r extension of [] \<Rightarrow> None | u # us \<Rightarrow> Some u)"

definition hasExtension :: "CSFabricRegistry \<Rightarrow> string \<Rightarrow> bool" where
  "hasExtension r extension \<longleftrightarrow> fmlookup (extensionIndex r) (normalizeExtension extension) \<noteq> None"

section \<open>Media definitions in memory\<close>

definition insertMediaDefInMemory ::
    "('t, 'd) tagged_urn_package \<Rightarrow> dictionary \<Rightarrow> CSFabricRegistry \<Rightarrow> CSFabricRegistry" where
  "insertMediaDefInMemory pkg spec r =
     (case fmlookup spec ''urn'' of
        Some (JSON_string rawUrn) \<Rightarrow>
          if length rawUrn = 0 then r
          else
            (case normalizeMediaUrn pkg rawUrn of
               Inl e \<Rightarrow> r
             | Inr normalized \<Rightarrow>
                 indexExtensionsForSpec spec (Some (JSON_string rawUrn))
                   (r\<lparr>cachedSpecs := fmupd normalized spec (cachedSpecs r)\<rparr>))
      | _ \<Rightarrow> r)"

text \<open>The version a definition is registered at: its own, or the manifest's where it has none.\<close>

definition declared_version :: "dictionary \<Rightarrow> 32 word option" where
  "declared_version spec =
     (case fmlookup spec ''version'' of
        Some j \<Rightarrow> (if number_json j then json_uint32 j else Some 0)
      | None \<Rightarrow> Some 0)"

definition addMediaDef ::
    "('t, 'd) tagged_urn_package \<Rightarrow> dictionary \<Rightarrow> CSFabricRegistry \<Rightarrow> registry_error + CSFabricRegistry" where
  "addMediaDef pkg spec r =
     (case fmlookup spec ''urn'' of
        Some (JSON_string rawUrn) \<Rightarrow>
          if length rawUrn = 0 then Inr r
          else
            (case normalizeMediaUrn pkg rawUrn of
               Inl e \<Rightarrow> Inr r
             | Inr normalized \<Rightarrow>
                 (case declared_version spec of
                    None \<Rightarrow> Inl Registry_stops
                  | Some v \<Rightarrow>
                      (let stamp = (v = 0 \<and> 1 \<le> manifestVersion r);
                           version = (if stamp then manifestVersion r else v);
                           spec' = (if stamp then fmupd ''version'' (JSON_int (uint version)) spec else spec);
                           r' = insertMediaDefInMemory pkg spec' r
                       in Inr (if 1 \<le> manifestVersion r
                               then r'\<lparr>manifestMedia :=
                                 fmupd normalized (JSON_int (uint version)) (manifestMedia r')\<rparr>
                               else r'))))
      | _ \<Rightarrow> Inr r)"

definition getCachedMediaDef ::
    "('t, 'd) fabric_env \<Rightarrow> CSFabricRegistry \<Rightarrow> string \<Rightarrow> dictionary option" where
  "getCachedMediaDef env r urn =
     (case normalizeMediaUrn (fabric_pkg env) urn of
        Inl e \<Rightarrow> None
      | Inr normalized \<Rightarrow> fmlookup (cachedSpecs r) normalized)"

section \<open>Dims\<close>

text \<open>Whether every dim that is named is held, with the value that is named.\<close>

definition dims_resolve :: "(string, CSStoredDim) fmap \<Rightarrow> CSDimRef list \<Rightarrow> bool" where
  "dims_resolve cached refs \<longleftrightarrow>
     list_all (\<lambda>ref. case fmlookup cached (ref_dim ref) of
        None \<Rightarrow> False
      | Some d \<Rightarrow> StoredDim_valueNamed d (ref_value ref) \<noteq> None) refs"

definition checkedDim ::
    "('t, 'd) fabric_env \<Rightarrow> byte list \<Rightarrow> string \<Rightarrow> 32 word \<Rightarrow> registry_error + CSStoredDim" where
  "checkedDim env bs name defver =
     (case fabric_decode env bs of
        Some (JSON_object o1) \<Rightarrow>
          (case StoredDim_dimWithDictionary (JSON_object o1) of
             Inl e \<Rightarrow> registry_fails 1053
           | Inr d \<Rightarrow>
               if dim_name d \<noteq> name then registry_fails 1053
               else if dim_version d \<noteq> defver then registry_fails 1053
               else if StoredDim_validate d \<noteq> None then registry_fails 1054
               else Inr d)
      | _ \<Rightarrow> registry_fails 1053)"

text \<open>What a request gives: nothing, a status that is not 200, or data.\<close>

datatype reply = No_reply | Reply_status nat | Reply_data "byte list"

definition ask_for :: "('t, 'd) fabric_env \<Rightarrow> string \<Rightarrow> reply" where
  "ask_for env url =
     (case fabric_web env url of
        Answered status bs \<Rightarrow> (if status \<noteq> 200 then Reply_status status else Reply_data bs)
      | _ \<Rightarrow> No_reply)"

definition definition_url ::
    "('t, 'd) fabric_env \<Rightarrow> CSFabricRegistry \<Rightarrow> string \<Rightarrow> string \<Rightarrow> 32 word \<Rightarrow> string" where
  "definition_url env r kind name defver =
     FabricRegistry_objectURL (definitionTemplate r) kind (fabric_digest env name) defver"

definition fetchDimFromRegistry ::
    "('t, 'd) fabric_env \<Rightarrow> CSFabricRegistry \<Rightarrow> string \<Rightarrow> 32 word \<Rightarrow>
     CSFabricRegistry \<times> (registry_error + CSStoredDim)" where
  "fetchDimFromRegistry env r name defver =
     (if defver < 1 then (r, registry_fails 1052)
      else
        (case ask_for env (definition_url env r ''dims'' name defver) of
           No_reply \<Rightarrow> (r, registry_fails 1057)
         | Reply_status n \<Rightarrow> (r, registry_fails 1058)
         | Reply_data bs \<Rightarrow>
             (case checkedDim env bs name defver of
                Inl e \<Rightarrow> (r, Inl e)
              | Inr d \<Rightarrow>
                  if \<not> dim_file_written env name defver then (r, registry_fails 1057)
                  else (r\<lparr>cachedDims := fmupd (dim_name d) d (cachedDims r)\<rparr>, Inr d))))"

definition getDim ::
    "('t, 'd) fabric_env \<Rightarrow> CSFabricRegistry \<Rightarrow> string \<Rightarrow>
     CSFabricRegistry \<times> (registry_error + CSStoredDim)" where
  "getDim env r name =
     (if \<not> CSIsDimName name then (r, registry_fails 1050)
      else
        (case fmlookup (cachedDims r) name of
           Some d \<Rightarrow> (r, Inr d)
         | None \<Rightarrow>
             (case dimDefverFor r name of
                Inl e \<Rightarrow> (r, Inl e)
              | Inr v \<Rightarrow> fetchDimFromRegistry env r name v)))"

fun ensure_dims ::
    "('t, 'd) fabric_env \<Rightarrow> CSFabricRegistry \<Rightarrow> CSDimRef list \<Rightarrow>
     CSFabricRegistry \<times> (registry_error + unit)" where
  "ensure_dims env r [] = (r, Inr ())"
| "ensure_dims env r (ref # refs) =
     (case fmlookup (cachedDims r) (ref_dim ref) of
        Some d \<Rightarrow>
          if StoredDim_valueNamed d (ref_value ref) = None then (r, registry_fails 1055)
          else ensure_dims env r refs
      | None \<Rightarrow>
          if manifestVersion r = 0 then (r, registry_fails 1051)
          else
            (case defver_in 1052 (manifestDims r) (ref_dim ref) of
               Inl e \<Rightarrow> (r, Inl e)
             | Inr v \<Rightarrow>
                 (case fetchDimFromRegistry env r (ref_dim ref) v of
                    (r', Inl e) \<Rightarrow> (r', registry_fails 1057)
                  | (r', Inr d) \<Rightarrow>
                      if StoredDim_valueNamed d (ref_value ref) = None then (r', registry_fails 1055)
                      else ensure_dims env r' refs)))"

definition ensureDimsCached ::
    "('t, 'd) fabric_env \<Rightarrow> CSFabricRegistry \<Rightarrow> CSDimRef list \<Rightarrow>
     CSFabricRegistry \<times> (registry_error + unit)" where
  "ensureDimsCached env r refs =
     (if CSCheckDimRefs refs \<noteq> None then (r, registry_fails 1056) else ensure_dims env r refs)"

section \<open>Fetching a media definition\<close>

text \<open>What is found out before a request is made: the name and the version that is pinned.\<close>

definition media_request ::
    "('t, 'd) fabric_env \<Rightarrow> CSFabricRegistry \<Rightarrow> string \<Rightarrow> registry_error + string \<times> 32 word" where
  "media_request env r urn =
     on_ok (normalizeMediaUrn (fabric_pkg env) urn) (\<lambda>normalized.
     on_ok (mediaDefver r normalized) (\<lambda>defver. Inr (normalized, defver)))"

definition fetchMediaDefFromRegistry ::
    "('t, 'd) fabric_env \<Rightarrow> CSFabricRegistry \<Rightarrow> string \<Rightarrow> registry_error + dictionary" where
  "fetchMediaDefFromRegistry env r urn =
     on_ok (media_request env r urn) (\<lambda>(normalized, defver).
       case ask_for env (definition_url env r ''media'' normalized defver) of
         No_reply \<Rightarrow> Inl Network_error
       | Reply_status n \<Rightarrow> registry_fails n
       | Reply_data bs \<Rightarrow>
           (case fabric_decode env bs of
              Some (JSON_object spec) \<Rightarrow> Inr spec
            | _ \<Rightarrow> registry_fails 1001))"

definition fetchMediaDefAtomic ::
    "('t, 'd) fabric_env \<Rightarrow> CSFabricRegistry \<Rightarrow> string \<Rightarrow>
     CSFabricRegistry \<times> (registry_error + dictionary)" where
  "fetchMediaDefAtomic env r urn =
     (case fetchMediaDefFromRegistry env r urn of
        Inl e \<Rightarrow> (r, Inl e)
      | Inr spec \<Rightarrow>
          (case DimRef_refsFromField (fmlookup spec ''dims'') of
             Inl e \<Rightarrow> (r, registry_fails 1001)
           | Inr refs \<Rightarrow>
               (case ensureDimsCached env r refs of
                  (r', Inl e) \<Rightarrow> (r', Inl e)
                | (r', Inr _) \<Rightarrow> (insertMediaDefInMemory (fabric_pkg env) spec r', Inr spec))))"

text \<open>All that are missing are fetched; the first error is kept.  It is reported as the abortion of the
  cap's fetch by the callback of a fetch, and as it is where the last one needs no fetch and none is on
  its way.\<close>

fun fetch_each ::
    "('t, 'd) fabric_env \<Rightarrow> CSFabricRegistry \<Rightarrow> string list \<Rightarrow> CSFabricRegistry \<times> registry_error list" where
  "fetch_each env r [] = (r, [])"
| "fetch_each env r (u # us) =
     (case fetchMediaDefAtomic env r u of
        (r', Inl e) \<Rightarrow> (case fetch_each env r' us of (r'', es) \<Rightarrow> (r'', e # es))
      | (r', Inr spec) \<Rightarrow> fetch_each env r' us)"

definition ensureMediaDefsCached ::
    "('t, 'd) fabric_env \<Rightarrow> CSFabricRegistry \<Rightarrow> string list \<Rightarrow>
     CSFabricRegistry \<times> (registry_error + unit)" where
  "ensureMediaDefsCached env r wanted =
     (let missing = filter (\<lambda>u. fmlookup (cachedSpecs r) u = None) wanted;
          refused = concat (map (\<lambda>u. case media_request env r u of Inl e \<Rightarrow> [e] | Inr x \<Rightarrow> []) missing);
          pending = filter (\<lambda>u. \<not> isl (media_request env r u)) missing
      in case fetch_each env r pending of
           (r', failed) \<Rightarrow>
             (r',
              (case refused @ failed of
                 [] \<Rightarrow> Inr ()
               | e # es \<Rightarrow>
                   if Registry_stops \<in> set (refused @ failed) then Inl Registry_stops
                   else if pending = [] \<and> fmlookup (cachedSpecs r) (last wanted) \<noteq> None then Inl e
                   else registry_fails 1010)))"

definition getMediaDef_urn ::
    "('t, 'd) fabric_env \<Rightarrow> CSFabricRegistry \<Rightarrow> string \<Rightarrow>
     CSFabricRegistry \<times> (registry_error + dictionary)" where
  "getMediaDef_urn env r urn =
     (case normalizeMediaUrn (fabric_pkg env) urn of
        Inl e \<Rightarrow> (r, Inl e)
      | Inr normalized \<Rightarrow>
          (case fmlookup (cachedSpecs r) normalized of
             Some spec \<Rightarrow> (r, Inr spec)
           | None \<Rightarrow> fetchMediaDefAtomic env r urn))"

section \<open>Aliases\<close>

definition getAlias :: "CSFabricRegistry \<Rightarrow> string \<Rightarrow> registry_error + dictionary" where
  "getAlias r name =
     on_ok (CSNormalizeAliasName name) (\<lambda>normalized.
       case fmlookup (cachedAliases r) normalized of
         Some a \<Rightarrow> Inr a
       | None \<Rightarrow> on_ok (aliasDefverFor r normalized) (\<lambda>_. registry_fails 1023))"

definition alias_target :: "dictionary \<Rightarrow> registry_error + string" where
  "alias_target a = (case string_field a ''target'' of None \<Rightarrow> Inl Registry_stops | Some t \<Rightarrow> Inr t)"

definition resolveAlias :: "CSFabricRegistry \<Rightarrow> string \<Rightarrow> registry_error + string" where
  "resolveAlias r name = on_ok (getAlias r name) alias_target"

definition resolveAliasCached :: "CSFabricRegistry \<Rightarrow> string \<Rightarrow> registry_error + string option" where
  "resolveAliasCached r name =
     (case CSNormalizeAliasName name of
        Inl e \<Rightarrow> Inr None
      | Inr normalized \<Rightarrow>
          (case fmlookup (cachedAliases r) normalized of
             None \<Rightarrow> Inr None
           | Some a \<Rightarrow>
               (case fmlookup a ''target'' of
                  None \<Rightarrow> Inr None
                | Some (JSON_string t) \<Rightarrow> Inr (Some t)
                | _ \<Rightarrow> Inl Registry_stops)))"

definition resolveAliasTyped ::
    "('t, 'd) fabric_env \<Rightarrow> CSFabricRegistry \<Rightarrow> string \<Rightarrow> CSAliasTargetKind option \<Rightarrow>
     registry_error + string" where
  "resolveAliasTyped env r name expected =
     on_ok (getAlias r name) (\<lambda>a.
     on_ok (alias_target a) (\<lambda>target.
     on_ok (CSClassifyAliasTarget (fabric_pkg env) target) (\<lambda>kind.
       case kind of
         None \<Rightarrow> registry_fails 1024
       | Some actual \<Rightarrow>
           (case expected of
              None \<Rightarrow> Inr target
            | Some k \<Rightarrow> if actual \<noteq> k then registry_fails 1025 else Inr target))))"

definition getMediaDef ::
    "('t, 'd) fabric_env \<Rightarrow> CSFabricRegistry \<Rightarrow> string \<Rightarrow>
     CSFabricRegistry \<times> (registry_error + dictionary)" where
  "getMediaDef env r urn =
     (if CSIsAliasToken urn then
        (case resolveAliasTyped env r urn (Some CSAliasTargetKindMedia) of
           Inl e \<Rightarrow> (r, Inl e)
         | Inr target \<Rightarrow> getMediaDef_urn env r target)
      else getMediaDef_urn env r urn)"

section \<open>Fetching a cap\<close>

definition fetchCapFromRegistry ::
    "('t, 'd) fabric_env \<Rightarrow> CSFabricRegistry \<Rightarrow> string \<Rightarrow> registry_error + CSCap" where
  "fetchCapFromRegistry env r urn =
     on_ok (normalizeCapUrn (fabric_pkg env) urn) (\<lambda>normalized.
     on_ok (capDefver r normalized) (\<lambda>defver.
       case ask_for env (definition_url env r ''caps'' normalized defver) of
         No_reply \<Rightarrow> Inl Network_error
       | Reply_status n \<Rightarrow> registry_fails n
       | Reply_data bs \<Rightarrow>
           (case fabric_decode env bs of
              Some (JSON_object d) \<Rightarrow>
                (case Cap_capWithDictionary (fabric_pkg env) (JSON_object d) of
                   Inl (Urn_error (Raises e)) \<Rightarrow> Inl Registry_stops
                 | Inl Outside_model \<Rightarrow> Inl Registry_stops
                 | Inl e \<Rightarrow> registry_fails 1001
                 | Inr c \<Rightarrow>
                     if CapValidator_validateCapDefinition (urns (fabric_pkg env)) c \<noteq> None
                     then registry_fails 1006 else Inr c)
            | _ \<Rightarrow> registry_fails 1001)))"

fun push_media :: "('t, 'd) tagged_urn_package \<Rightarrow> string list \<Rightarrow> string list \<Rightarrow> string list" where
  "push_media pkg seen [] = seen"
| "push_media pkg seen (u # us) =
     (if length u = 0 then push_media pkg seen us
      else
        (case media_of (urns pkg) u of
           None \<Rightarrow> push_media pkg seen us
         | Some m \<Rightarrow>
             if MediaUrn_isTop (urns pkg) m then push_media pkg seen us
             else
               (let normalized = MediaUrn_toString (urns pkg) m
                in push_media pkg (if normalized \<in> set seen then seen else seen @ [normalized]) us)))"

definition collectReferencedMediaUrns :: "('t, 'd) tagged_urn_package \<Rightarrow> CSCap \<Rightarrow> string list" where
  "collectReferencedMediaUrns pkg c =
     push_media pkg []
       ([inSpec (capUrn c), outSpec (capUrn c)] @
        concat (map (\<lambda>a. [arg_mediaUrn a, CapArg_acceptedUrn a]) (args c)) @
        map output_mediaUrn (outputs c))"

definition fetchCapAtomic ::
    "('t, 'd) fabric_env \<Rightarrow> CSFabricRegistry \<Rightarrow> string \<Rightarrow>
     CSFabricRegistry \<times> (registry_error + CSCap)" where
  "fetchCapAtomic env r urn =
     (case fetchCapFromRegistry env r urn of
        Inl e \<Rightarrow> (r, Inl e)
      | Inr c \<Rightarrow>
          (case ensureMediaDefsCached env r (collectReferencedMediaUrns (fabric_pkg env) c) of
             (r1, Inl e) \<Rightarrow> (r1, Inl e)
           | (r1, Inr _) \<Rightarrow>
               (case cap_key (fabric_pkg env) c of
                  Inl e \<Rightarrow> (r1, Inl e)
                | Inr normalized \<Rightarrow>
                    (case ensureDimsCached env r1 (cap_dims c) of
                       (r2, Inl e) \<Rightarrow> (r2, Inl e)
                     | (r2, Inr _) \<Rightarrow>
                         (r2\<lparr>cachedCaps := fmupd normalized c (cachedCaps r2)\<rparr>, Inr c)))))"

definition getCap_urn ::
    "('t, 'd) fabric_env \<Rightarrow> CSFabricRegistry \<Rightarrow> string \<Rightarrow>
     CSFabricRegistry \<times> (registry_error + CSCap)" where
  "getCap_urn env r urn =
     (case normalizeCapUrn (fabric_pkg env) urn of
        Inl e \<Rightarrow> (r, Inl e)
      | Inr normalized \<Rightarrow>
          (case fmlookup (cachedCaps r) normalized of
             Some c \<Rightarrow> (r, Inr c)
           | None \<Rightarrow> fetchCapAtomic env r urn))"

definition getCapWithUrn ::
    "('t, 'd) fabric_env \<Rightarrow> CSFabricRegistry \<Rightarrow> string \<Rightarrow>
     CSFabricRegistry \<times> (registry_error + CSCap)" where
  "getCapWithUrn env r urn =
     (if CSIsAliasToken urn then
        (case resolveAliasTyped env r urn (Some CSAliasTargetKindCap) of
           Inl e \<Rightarrow> (r, Inl e)
         | Inr target \<Rightarrow> getCap_urn env r target)
      else getCap_urn env r urn)"

text \<open>Several caps: all are asked for; the first error is what is answered, if there is one.\<close>

fun getCaps_loop ::
    "('t, 'd) fabric_env \<Rightarrow> CSFabricRegistry \<Rightarrow> string list \<Rightarrow> CSCap list \<Rightarrow> registry_error option \<Rightarrow>
     CSFabricRegistry \<times> CSCap list \<times> registry_error option" where
  "getCaps_loop env r [] caps firstError = (r, caps, firstError)"
| "getCaps_loop env r (u # us) caps firstError =
     (case getCapWithUrn env r u of
        (r', Inl e) \<Rightarrow> getCaps_loop env r' us caps (if firstError = None then Some e else firstError)
      | (r', Inr c) \<Rightarrow> getCaps_loop env r' us (caps @ [c]) firstError)"

definition getCapsWithUrns ::
    "('t, 'd) fabric_env \<Rightarrow> CSFabricRegistry \<Rightarrow> string list \<Rightarrow>
     CSFabricRegistry \<times> (registry_error + CSCap list)" where
  "getCapsWithUrns env r us =
     (case getCaps_loop env r us [] None of
        (r', caps, Some e) \<Rightarrow> (r', Inl e)
      | (r', caps, None) \<Rightarrow> (r', Inr caps))"

text \<open>A local definition against the registry's.\<close>

definition validateCap ::
    "('t, 'd) fabric_env \<Rightarrow> CSFabricRegistry \<Rightarrow> CSCap \<Rightarrow> CSFabricRegistry \<times> (registry_error + unit)" where
  "validateCap env r c =
     (case CapUrn_toString (fabric_pkg env) (capUrn c) of
        Inl e \<Rightarrow> (r, Inl Registry_stops)
      | Inr urn \<Rightarrow>
          (case getCapWithUrn env r urn of
             (r', Inl e) \<Rightarrow> (r', Inl e)
           | (r', Inr canonical) \<Rightarrow>
               (r',
                if \<not> set (aliases c) \<subseteq> set (aliases canonical) then registry_fails 1003
                else if isAbstract c \<noteq> isAbstract canonical then registry_fails 1003
                else if Cap_getStdinMediaUrn c \<noteq> Cap_getStdinMediaUrn canonical then registry_fails 1004
                else Inr ())))"

definition capExists :: "('t, 'd) fabric_env \<Rightarrow> CSFabricRegistry \<Rightarrow> string \<Rightarrow> registry_error + bool" where
  "capExists env r urn =
     (case normalizeCapUrn (fabric_pkg env) urn of
        Inl Registry_stops \<Rightarrow> Inl Registry_stops
      | Inl e \<Rightarrow> Inr False
      | Inr normalized \<Rightarrow> Inr (fmlookup (cachedCaps r) normalized \<noteq> None))"

section \<open>What the cache files hold, and what is kept of it\<close>

definition clearCache :: "CSFabricRegistry \<Rightarrow> CSFabricRegistry" where
  "clearCache r = r\<lparr>cachedCaps := fmempty, cachedSpecs := fmempty, cachedAliases := fmempty,
     cachedDims := fmempty, extensionIndex := fmempty\<rparr>"

text \<open>Whether an entry has expired is for the clock to say, from the two fields of the entry.\<close>

type_synonym expiry = "json option \<Rightarrow> json option \<Rightarrow> bool"

definition load_cap ::
    "('t, 'd) fabric_env \<Rightarrow> expiry \<Rightarrow> byte list \<Rightarrow> CSFabricRegistry \<Rightarrow> registry_error + CSFabricRegistry" where
  "load_cap env expired bs r =
     (case fabric_decode env bs of
        Some (JSON_object d) \<Rightarrow>
          (case fmlookup d ''definition'' of
             Some (JSON_object cap) \<Rightarrow>
               (case Cap_capWithDictionary (fabric_pkg env) (JSON_object cap) of
                  Inl (Urn_error (Raises e)) \<Rightarrow> Inl Registry_stops
                | Inl Outside_model \<Rightarrow> Inl Registry_stops
                | Inl e \<Rightarrow> Inr r
                | Inr c \<Rightarrow>
                    if cap_version c = 0 \<and> expired (fmlookup d ''cached_at'') (fmlookup d ''ttl_hours'')
                    then Inr r
                    else
                      (case cap_key (fabric_pkg env) c of
                         Inl Registry_stops \<Rightarrow> Inl Registry_stops
                       | Inl e \<Rightarrow> Inr r
                       | Inr normalized \<Rightarrow> Inr (r\<lparr>cachedCaps := fmupd normalized c (cachedCaps r)\<rparr>)))
           | None \<Rightarrow> Inr r
           | _ \<Rightarrow> Inl Registry_stops)
      | _ \<Rightarrow> Inr r)"

definition load_media ::
    "('t, 'd) fabric_env \<Rightarrow> expiry \<Rightarrow> byte list \<Rightarrow> CSFabricRegistry \<Rightarrow> registry_error + CSFabricRegistry" where
  "load_media env expired bs r =
     (case fabric_decode env bs of
        Some (JSON_object d) \<Rightarrow>
          (case fmlookup d ''spec'' of
             Some (JSON_object spec) \<Rightarrow>
               (case unsigned_of (fmlookup spec ''version'') of
                  None \<Rightarrow> Inl Registry_stops
                | Some v \<Rightarrow>
                    if v = 0 \<and> expired (fmlookup d ''cached_at'') (fmlookup d ''ttl_hours'') then Inr r
                    else Inr (insertMediaDefInMemory (fabric_pkg env) spec r))
           | _ \<Rightarrow> Inr r)
      | _ \<Rightarrow> Inr r)"

definition load_alias ::
    "('t, 'd) fabric_env \<Rightarrow> byte list \<Rightarrow> CSFabricRegistry \<Rightarrow> registry_error + CSFabricRegistry" where
  "load_alias env bs r =
     (case fabric_decode env bs of
        Some (JSON_object d) \<Rightarrow>
          (case fmlookup d ''alias'' of
             Some (JSON_object a) \<Rightarrow>
               (case fmlookup a ''name'' of
                  Some (JSON_string name) \<Rightarrow>
                    Inr (r\<lparr>cachedAliases := fmupd name a (cachedAliases r)\<rparr>)
                | _ \<Rightarrow> Inr r)
           | _ \<Rightarrow> Inr r)
      | _ \<Rightarrow> Inr r)"

text \<open>Of two versions of a dim the one the manifest pins is kept.\<close>

definition load_dim ::
    "('t, 'd) fabric_env \<Rightarrow> byte list \<Rightarrow> CSFabricRegistry \<Rightarrow> registry_error + CSFabricRegistry" where
  "load_dim env bs r =
     (case fabric_decode env bs of
        Some (JSON_object e) \<Rightarrow>
          (case fmlookup e ''dim'' of
             Some (JSON_object body) \<Rightarrow>
               (case StoredDim_dimWithDictionary (JSON_object body) of
                  Inl e \<Rightarrow> Inr r
                | Inr d \<Rightarrow>
                    if StoredDim_validate d \<noteq> None then Inr r
                    else
                      (case unsigned_of (fmlookup (manifestDims r) (dim_name d)) of
                         None \<Rightarrow> Inl Registry_stops
                       | Some pinned \<Rightarrow>
                           (case fmlookup (cachedDims r) (dim_name d) of
                              Some held \<Rightarrow>
                                if dim_version held = pinned then Inr r
                                else Inr (r\<lparr>cachedDims := fmupd (dim_name d) d (cachedDims r)\<rparr>)
                            | None \<Rightarrow> Inr (r\<lparr>cachedDims := fmupd (dim_name d) d (cachedDims r)\<rparr>))))
           | _ \<Rightarrow> Inr r)
      | _ \<Rightarrow> Inr r)"

fun load_all :: "('b \<Rightarrow> 'r \<Rightarrow> 'e + 'r) \<Rightarrow> 'b list \<Rightarrow> 'r \<Rightarrow> 'e + 'r" where
  "load_all f [] r = Inr r"
| "load_all f (b # bs) r = on_ok (f b r) (load_all f bs)"

text \<open>What is kept is of the version the manifest pins; a number is read from each entry that is held, 0
  where there is none.\<close>

definition at_pin :: "(string, json) fmap \<Rightarrow> ('v \<Rightarrow> 32 word option) \<Rightarrow> (string, 'v) fmap \<Rightarrow> (string, 'v) fmap" where
  "at_pin manifest version cache =
     fmfilter (\<lambda>k. case fmlookup cache k of
        None \<Rightarrow> False
      | Some x \<Rightarrow> unsigned_of (fmlookup manifest k) = version x) cache"

definition pins_readable :: "(string, json) fmap \<Rightarrow> ('v \<Rightarrow> 32 word option) \<Rightarrow> (string, 'v) fmap \<Rightarrow> bool" where
  "pins_readable manifest version cache \<longleftrightarrow>
     fmpred (\<lambda>k x. unsigned_of (fmlookup manifest k) \<noteq> None \<and> version x \<noteq> None) cache"

definition entry_version :: "dictionary \<Rightarrow> 32 word option" where
  "entry_version d = unsigned_of (fmlookup d ''version'')"

definition spec_resolves :: "(string, CSStoredDim) fmap \<Rightarrow> dictionary \<Rightarrow> bool" where
  "spec_resolves dims spec \<longleftrightarrow>
     (case DimRef_refsFromField (fmlookup spec ''dims'') of
        Inl e \<Rightarrow> False
      | Inr refs \<Rightarrow> dims_resolve dims refs)"

fun index_all :: "dictionary list \<Rightarrow> CSFabricRegistry \<Rightarrow> CSFabricRegistry" where
  "index_all [] r = r"
| "index_all (s # ss) r = index_all ss (indexExtensionsForSpec s (fmlookup s ''urn'') r)"

text \<open>The index is made anew, in the order the values of a map are gone through.  Which order that is is
  not documented; that every key comes is.\<close>

type_synonym key_order = "string fset \<Rightarrow> string list"

definition filterCachesToManifest ::
    "key_order \<Rightarrow> CSFabricRegistry \<Rightarrow> registry_error + CSFabricRegistry" where
  "filterCachesToManifest order r =
     (let pin = 1 \<le> manifestVersion r;
          readable =
            pins_readable (manifestCaps r) (\<lambda>c. Some (cap_version c)) (cachedCaps r) \<and>
            pins_readable (manifestMedia r) entry_version (cachedSpecs r) \<and>
            pins_readable (manifestAliases r) entry_version (cachedAliases r) \<and>
            pins_readable (manifestDims r) (\<lambda>d. Some (dim_version d)) (cachedDims r);
          caps = (if pin then at_pin (manifestCaps r) (\<lambda>c. Some (cap_version c)) (cachedCaps r) else cachedCaps r);
          specs = (if pin then at_pin (manifestMedia r) entry_version (cachedSpecs r) else cachedSpecs r);
          names = (if pin then at_pin (manifestAliases r) entry_version (cachedAliases r) else fmempty);
          dims = (if pin then at_pin (manifestDims r) (\<lambda>d. Some (dim_version d)) (cachedDims r) else fmempty);
          caps' = fmfilter (\<lambda>k. case fmlookup caps k of
             None \<Rightarrow> False | Some c \<Rightarrow> dims_resolve dims (cap_dims c)) caps;
          specs' = fmfilter (\<lambda>k. case fmlookup specs k of
             None \<Rightarrow> False | Some s \<Rightarrow> spec_resolves dims s) specs
      in if pin \<and> \<not> readable then Inl Registry_stops
         else Inr (index_all (List.map_filter (fmlookup specs') (order (fmdom specs')))
           (r\<lparr>cachedCaps := caps', cachedSpecs := specs', cachedAliases := names, cachedDims := dims,
              extensionIndex := fmempty\<rparr>)))"

section \<open>Starting\<close>

record cache_files =
  cap_files :: "byte list list"
  media_files :: "byte list list"
  alias_files :: "byte list list"
  dim_files :: "byte list list"
  manifest_file :: "byte list option"

definition load_files ::
    "('t, 'd) fabric_env \<Rightarrow> expiry \<Rightarrow> cache_files \<Rightarrow> key_order \<Rightarrow> CSFabricRegistry \<Rightarrow>
     registry_error + CSFabricRegistry" where
  "load_files env expired files order r =
     on_ok (load_all (load_cap env expired) (cap_files files) r)
     (\<lambda>r1. on_ok (load_all (load_media env expired) (media_files files) r1)
     (\<lambda>r2. on_ok (load_all (load_alias env) (alias_files files) r2)
     (\<lambda>r3. on_ok (load_all (load_dim env) (dim_files files) r3)
     (filterCachesToManifest order))))"

definition FabricRegistry_initWithCharter ::
    "('t, 'd) fabric_env \<Rightarrow> expiry \<Rightarrow> cache_files \<Rightarrow> key_order \<Rightarrow> CSCharter \<Rightarrow> 32 word \<Rightarrow> bool \<Rightarrow>
     registry_error + CSFabricRegistry" where
  "FabricRegistry_initWithCharter env expired files order charter version bootstrap =
     (if charter_kind charter \<noteq> CSRegistryKindFabric then Inl Registry_stops
      else
        (case (fmlookup (charter_locations charter) ''manifest'', fmlookup (charter_locations charter) ''definition'') of
           (Some m, Some d) \<Rightarrow>
             (let empty = \<lparr>manifestVersion = version, manifestTemplate = m, definitionTemplate = d,
                cachedCaps = fmempty, cachedSpecs = fmempty, cachedAliases = fmempty, cachedDims = fmempty,
                extensionIndex = fmempty, manifestCaps = fmempty, manifestMedia = fmempty,
                manifestAliases = fmempty, manifestDims = fmempty\<rparr>
              in on_ok (if bootstrap then bootstrapManifest env (manifest_file files) empty else Inr empty)
                (load_files env expired files order))
         | _ \<Rightarrow> Inl Registry_stops))"

end
