(* ===== verification/FabricRules.thy ===== *)
theory FabricRules
  imports FabricRegistry
begin

text \<open>
  What the registry client keeps: every definition it holds has the dims it names, with the values it
  names; every media definition is found under its extensions; dims are held under their own names and
  are valid.  This is so from the start and after every call.  A cap that is asked for either changes
  nothing about the caps that are held, or is one that keeps the rules and is then held with its dims.
\<close>

section \<open>Invariant\<close>

definition dims_cached :: "CSFabricRegistry \<Rightarrow> bool" where
  "dims_cached r \<longleftrightarrow>
     (\<forall>k c. fmlookup (cachedCaps r) k = Some c \<longrightarrow> dims_resolve (cachedDims r) (cap_dims c)) \<and>
     (\<forall>k s. fmlookup (cachedSpecs r) k = Some s \<longrightarrow> spec_resolves (cachedDims r) s)"

definition listed_under :: "(string, string list) fmap \<Rightarrow> string \<Rightarrow> string \<Rightarrow> bool" where
  "listed_under idx ext u \<longleftrightarrow> (\<exists>us. fmlookup idx ext = Some us \<and> u \<in> set us)"

definition spec_listed :: "(string, string list) fmap \<Rightarrow> dictionary \<Rightarrow> bool" where
  "spec_listed idx s \<longleftrightarrow>
     (\<forall>u js e. fmlookup s ''urn'' = Some (JSON_string u) \<longrightarrow>
        fmlookup s ''extensions'' = Some (JSON_array js) \<longrightarrow> JSON_string e \<in> set js \<longrightarrow>
        listed_under idx (normalizeExtension e) u)"

definition index_ok :: "CSFabricRegistry \<Rightarrow> bool" where
  "index_ok r \<longleftrightarrow>
     (\<forall>k s. fmlookup (cachedSpecs r) k = Some s \<longrightarrow> spec_listed (extensionIndex r) s) \<and>
     (\<forall>ext us. fmlookup (extensionIndex r) ext = Some us \<longrightarrow> distinct us)"

definition dims_valid :: "CSFabricRegistry \<Rightarrow> bool" where
  "dims_valid r \<longleftrightarrow>
     (\<forall>k d. fmlookup (cachedDims r) k = Some d \<longrightarrow> dim_name d = k \<and> StoredDim_validate d = None)"

definition registry_ok :: "CSFabricRegistry \<Rightarrow> bool" where
  "registry_ok r \<longleftrightarrow> dims_cached r \<and> index_ok r \<and> dims_valid r"

text \<open>What no call changes, and what is only added to.\<close>

definition map_within :: "('k, 'v) fmap \<Rightarrow> ('k, 'v) fmap \<Rightarrow> bool" where
  "map_within m n \<longleftrightarrow> (\<forall>k v. fmlookup m k = Some v \<longrightarrow> fmlookup n k = Some v)"

definition extends :: "CSFabricRegistry \<Rightarrow> CSFabricRegistry \<Rightarrow> bool" where
  "extends r r' \<longleftrightarrow>
     manifestVersion r' = manifestVersion r \<and> manifestCaps r' = manifestCaps r \<and>
     manifestMedia r' = manifestMedia r \<and> manifestAliases r' = manifestAliases r \<and>
     manifestDims r' = manifestDims r \<and> cachedAliases r' = cachedAliases r \<and>
     map_within (cachedDims r) (cachedDims r') \<and> fmdom (cachedSpecs r) |\<subseteq>| fmdom (cachedSpecs r')"

lemma extends_refl [simp]: "extends r r"
  by (simp add: extends_def map_within_def)

lemma extends_trans: "extends r s \<Longrightarrow> extends s t \<Longrightarrow> extends r t"
  by (auto simp: extends_def map_within_def)

lemma dims_resolve_mono: "map_within m n \<Longrightarrow> dims_resolve m refs \<Longrightarrow> dims_resolve n refs"
  by (fastforce simp: dims_resolve_def list_all_iff map_within_def split: option.splits)

lemma spec_resolves_mono: "map_within m n \<Longrightarrow> spec_resolves m s \<Longrightarrow> spec_resolves n s"
  by (auto simp: spec_resolves_def dims_resolve_mono split: sum.splits)

section \<open>Extensions\<close>

lemma index_extensions_keeps:
  "listed_under idx ext u \<Longrightarrow> listed_under (index_extensions v js idx) ext u"
proof (induction v js idx rule: index_extensions.induct)
  case (2 v j js idx)
  show ?case
  proof (cases j)
    case (JSON_string e)
    let ?listed = "case fmlookup idx (normalizeExtension e) of None \<Rightarrow> [] | Some us \<Rightarrow> us"
    have "listed_under (fmupd (normalizeExtension e) (if v \<in> set ?listed then ?listed else ?listed @ [v]) idx) ext u"
      using "2.prems" by (auto simp: listed_under_def)
    then show ?thesis using "2.IH"(1) [OF JSON_string refl refl] JSON_string by (simp add: Let_def)
  qed (use 2 in simp_all)
qed simp

lemma index_extensions_adds:
  "JSON_string e \<in> set js \<Longrightarrow> listed_under (index_extensions u js idx) (normalizeExtension e) u"
proof (induction u js idx rule: index_extensions.induct)
  case (2 u j js idx)
  show ?case
  proof (cases "j = JSON_string e")
    case True
    have "listed_under (index_extensions u js (fmupd (normalizeExtension e) us idx)) (normalizeExtension e) u"
      if "u \<in> set us" for us
      using that by (intro index_extensions_keeps) (simp add: listed_under_def)
    then show ?thesis using True by (simp add: Let_def)
  next
    case False
    then show ?thesis using 2 by (cases j) (auto simp: Let_def)
  qed
qed simp

lemma index_extensions_distinct:
  "(\<forall>ext us. fmlookup idx ext = Some us \<longrightarrow> distinct us) \<Longrightarrow>
     fmlookup (index_extensions u js idx) ext = Some us \<Longrightarrow> distinct us"
proof (induction u js idx rule: index_extensions.induct)
  case (2 u j js idx)
  then show ?case by (cases j) (auto simp: Let_def split: option.splits if_splits)
qed simp

lemma index_spec:
  "indexExtensionsForSpec s (fmlookup s ''urn'') r =
     r\<lparr>extensionIndex := (case (fmlookup s ''urn'', fmlookup s ''extensions'') of
       (Some (JSON_string u), Some (JSON_array js)) \<Rightarrow> index_extensions u js (extensionIndex r)
     | _ \<Rightarrow> extensionIndex r)\<rparr>"
  by (simp add: indexExtensionsForSpec_def split: option.splits json.splits)

lemma index_spec_listed:
  "spec_listed (extensionIndex (indexExtensionsForSpec s (fmlookup s ''urn'') r)) s"
  by (auto simp: spec_listed_def index_spec intro: index_extensions_adds)

lemma index_spec_keeps:
  "spec_listed (extensionIndex r) t \<Longrightarrow>
     spec_listed (extensionIndex (indexExtensionsForSpec s (fmlookup s ''urn'') r)) t"
  by (auto simp: spec_listed_def index_spec split: option.splits json.splits intro: index_extensions_keeps)

lemma index_spec_distinct:
  "\<forall>ext us. fmlookup (extensionIndex r) ext = Some us \<longrightarrow> distinct us \<Longrightarrow>
     fmlookup (extensionIndex (indexExtensionsForSpec s (fmlookup s ''urn'') r)) ext = Some us \<Longrightarrow> distinct us"
  by (auto simp: index_spec split: option.splits json.splits dest: index_extensions_distinct)

lemma index_spec_others [simp]:
  "cachedCaps (indexExtensionsForSpec s u r) = cachedCaps r"
  "cachedSpecs (indexExtensionsForSpec s u r) = cachedSpecs r"
  "cachedDims (indexExtensionsForSpec s u r) = cachedDims r"
  "cachedAliases (indexExtensionsForSpec s u r) = cachedAliases r"
  "manifestVersion (indexExtensionsForSpec s u r) = manifestVersion r"
  "manifestCaps (indexExtensionsForSpec s u r) = manifestCaps r"
  "manifestMedia (indexExtensionsForSpec s u r) = manifestMedia r"
  "manifestAliases (indexExtensionsForSpec s u r) = manifestAliases r"
  "manifestDims (indexExtensionsForSpec s u r) = manifestDims r"
  by (simp_all add: indexExtensionsForSpec_def split: option.splits json.splits)

lemma insertMediaDef_ok:
  assumes "registry_ok r" and "spec_resolves (cachedDims r) s"
  shows "registry_ok (insertMediaDefInMemory pkg s r)" and "extends r (insertMediaDefInMemory pkg s r)"
    and "cachedCaps (insertMediaDefInMemory pkg s r) = cachedCaps r"
    and "cachedDims (insertMediaDefInMemory pkg s r) = cachedDims r"
proof -
  let ?r = "insertMediaDefInMemory pkg s r"
  consider "?r = r"
    | u k where "fmlookup s ''urn'' = Some (JSON_string u)"
      "?r = indexExtensionsForSpec s (fmlookup s ''urn'') (r\<lparr>cachedSpecs := fmupd k s (cachedSpecs r)\<rparr>)"
  proof -
    assume same: "?r = r \<Longrightarrow> thesis" and step: "\<And>u k. fmlookup s ''urn'' = Some (JSON_string u) \<Longrightarrow>
        ?r = indexExtensionsForSpec s (fmlookup s ''urn'') (r\<lparr>cachedSpecs := fmupd k s (cachedSpecs r)\<rparr>) \<Longrightarrow> thesis"
    show thesis
    proof (cases "\<exists>u k. fmlookup s ''urn'' = Some (JSON_string u) \<and> u \<noteq> [] \<and> normalizeMediaUrn pkg u = Inr k")
      case True
      then show thesis using step by (auto simp: insertMediaDefInMemory_def)
    next
      case False
      then have "?r = r" by (auto simp: insertMediaDefInMemory_def split: option.splits json.splits sum.splits)
      then show thesis by (rule same)
    qed
  qed
  then have "registry_ok ?r \<and> extends r ?r \<and> cachedCaps ?r = cachedCaps r \<and> cachedDims ?r = cachedDims r"
  proof cases
    case 1
    then show ?thesis using assms(1) by simp
  next
    case (2 u k)
    let ?r' = "r\<lparr>cachedSpecs := fmupd k s (cachedSpecs r)\<rparr>"
    have "index_ok ?r"
      using assms(1) index_spec_listed [of s ?r'] index_spec_keeps [of ?r' _ s] index_spec_distinct [of ?r' s]
      unfolding 2(2) index_ok_def registry_ok_def by auto
    moreover have "dims_cached ?r" "dims_valid ?r"
      using assms unfolding 2(2) by (auto simp: registry_ok_def dims_cached_def dims_valid_def)
    ultimately show ?thesis unfolding registry_ok_def by (auto simp: 2(2) extends_def map_within_def)
  qed
  then show "registry_ok ?r" "extends r ?r" "cachedCaps ?r = cachedCaps r" "cachedDims ?r = cachedDims r"
    by auto
qed

section \<open>Dims are fetched\<close>

lemma checkedDim_ok:
  "checkedDim env bs name v = Inr d \<Longrightarrow> dim_name d = name \<and> dim_version d = v \<and> StoredDim_validate d = None"
  by (auto simp: checkedDim_def split: option.splits json.splits sum.splits if_splits)

lemma hold_dim_ok:
  assumes "registry_ok r" and "fmlookup (cachedDims r) name = None"
    and "dim_name d = name" and "StoredDim_validate d = None"
  shows "registry_ok (r\<lparr>cachedDims := fmupd name d (cachedDims r)\<rparr>)"
    and "extends r (r\<lparr>cachedDims := fmupd name d (cachedDims r)\<rparr>)"
proof -
  have within: "map_within (cachedDims r) (fmupd name d (cachedDims r))"
    using assms(2) by (auto simp: map_within_def)
  then show "extends r (r\<lparr>cachedDims := fmupd name d (cachedDims r)\<rparr>)" by (simp add: extends_def)
  show "registry_ok (r\<lparr>cachedDims := fmupd name d (cachedDims r)\<rparr>)"
    using assms within
    by (auto simp: registry_ok_def dims_cached_def index_ok_def dims_valid_def
        intro: dims_resolve_mono spec_resolves_mono)
qed

text \<open>What a call that only adds dims or media definitions keeps.\<close>

definition keeps :: "CSFabricRegistry \<Rightarrow> CSFabricRegistry \<Rightarrow> bool" where
  "keeps r r' \<longleftrightarrow> registry_ok r' \<and> extends r r' \<and> cachedCaps r' = cachedCaps r"

lemma keeps_refl [simp]: "keeps r r \<longleftrightarrow> registry_ok r"
  by (simp add: keeps_def)

lemma keeps_trans: "keeps r s \<Longrightarrow> keeps s t \<Longrightarrow> keeps r t"
  by (auto simp: keeps_def intro: extends_trans)

lemma keeps_ok: "keeps r r' \<Longrightarrow> registry_ok r'"
  by (simp add: keeps_def)

lemma fetchDim_keeps:
  assumes "registry_ok r" and "fmlookup (cachedDims r) name = None"
    and "fetchDimFromRegistry env r name v = (r', res)"
  shows "keeps r r'" and "res = Inr d \<Longrightarrow> fmlookup (cachedDims r') name = Some d"
proof -
  consider e where "r' = r" "res = Inl e"
    | d' where "r' = r\<lparr>cachedDims := fmupd name d' (cachedDims r)\<rparr>" "res = Inr d'"
        "dim_name d' = name" "StoredDim_validate d' = None"
  proof -
    assume same: "\<And>e. r' = r \<Longrightarrow> res = Inl e \<Longrightarrow> thesis"
      and step: "\<And>d'. r' = r\<lparr>cachedDims := fmupd name d' (cachedDims r)\<rparr> \<Longrightarrow> res = Inr d' \<Longrightarrow>
        dim_name d' = name \<Longrightarrow> StoredDim_validate d' = None \<Longrightarrow> thesis"
    show thesis
    proof (cases res)
      case (Inl e)
      then show ?thesis using assms(3) same
        by (auto simp: fetchDimFromRegistry_def split: if_splits reply.splits sum.splits)
    next
      case (Inr d')
      then show ?thesis using assms(3) step checkedDim_ok [of env _ name v d']
        by (auto simp: fetchDimFromRegistry_def split: if_splits reply.splits sum.splits)
    qed
  qed
  then have "keeps r r' \<and> (res = Inr d \<longrightarrow> fmlookup (cachedDims r') name = Some d)"
  proof cases
    case (2 d')
    then show ?thesis using hold_dim_ok [OF assms(1,2)] by (auto simp: keeps_def)
  qed (use assms(1) in auto)
  then show "keeps r r'" "res = Inr d \<Longrightarrow> fmlookup (cachedDims r') name = Some d" by auto
qed

lemma getDim_keeps:
  "registry_ok r \<Longrightarrow> getDim env r name = (r', res) \<Longrightarrow> keeps r r'"
  by (auto simp: getDim_def split: if_splits option.splits sum.splits dest: fetchDim_keeps(1))

lemma ensure_dims_keeps:
  assumes "registry_ok r" and "ensure_dims env r refs = (r', res)"
  shows "keeps r r' \<and> (res = Inr () \<longrightarrow> dims_resolve (cachedDims r') refs)"
  using assms
proof (induction env r refs arbitrary: r' res rule: ensure_dims.induct)
  case (1 env r)
  then show ?case by (auto simp: dims_resolve_def)
next
  case (2 env r ref refs)
  have held: "dims_resolve (cachedDims s) (ref # refs)"
    if "keeps q s" "fmlookup (cachedDims q) (ref_dim ref) = Some d" "StoredDim_valueNamed d (ref_value ref) \<noteq> None"
      "dims_resolve (cachedDims s) refs" for q s d
    using that by (auto simp: dims_resolve_def keeps_def extends_def map_within_def split: option.splits)
  show ?case
  proof (cases "fmlookup (cachedDims r) (ref_dim ref)")
    case (Some d)
    then show ?thesis
      using "2.prems" "2.IH"(2) [OF Some] held [of r _ d] by (auto split: if_splits)
  next
    case None
    show ?thesis
    proof (cases "\<exists>v q d. manifestVersion r \<noteq> 0 \<and> defver_in 1052 (manifestDims r) (ref_dim ref) = Inr v \<and>
        fetchDimFromRegistry env r (ref_dim ref) v = (q, Inr d) \<and> StoredDim_valueNamed d (ref_value ref) \<noteq> None")
      case True
      then obtain v q d where f: "manifestVersion r \<noteq> 0" "defver_in 1052 (manifestDims r) (ref_dim ref) = Inr v"
          "fetchDimFromRegistry env r (ref_dim ref) v = (q, Inr d)"
          "StoredDim_valueNamed d (ref_value ref) \<noteq> None" by blast
      note got = fetchDim_keeps [OF "2.prems"(1) None f(3)]
      have rest: "ensure_dims env q refs = (r', res)" using "2.prems"(2) None f by auto
      have "keeps q r' \<and> (res = Inr () \<longrightarrow> dims_resolve (cachedDims r') refs)"
        using "2.IH"(1) [OF None f(1,2) f(3) [symmetric] refl _ keeps_ok [OF got(1)] rest] f(4) by auto
      then show ?thesis using got held [of q r' d] f(4) keeps_trans by blast
    next
      case False
      then have "res \<noteq> Inr ()" and "keeps r r'"
        using "2.prems" None fetchDim_keeps(1) [OF "2.prems"(1) None]
        by (auto split: if_splits sum.splits prod.splits)
      then show ?thesis by simp
    qed
  qed
qed

lemma ensureDims_keeps:
  "registry_ok r \<Longrightarrow> ensureDimsCached env r refs = (r', res) \<Longrightarrow>
     keeps r r' \<and> (res = Inr () \<longrightarrow> dims_resolve (cachedDims r') refs)"
  by (auto simp: ensureDimsCached_def split: if_splits dest: ensure_dims_keeps)

section \<open>Media definitions are fetched with their dims\<close>

lemma fetchMediaDef_keeps:
  assumes "registry_ok r" and "fetchMediaDefAtomic env r urn = (r', res)"
  shows "keeps r r'"
proof (cases "\<exists>spec refs. fetchMediaDefFromRegistry env r urn = Inr spec \<and>
    DimRef_refsFromField (fmlookup spec ''dims'') = Inr refs")
  case True
  then obtain spec refs where s: "fetchMediaDefFromRegistry env r urn = Inr spec"
      "DimRef_refsFromField (fmlookup spec ''dims'') = Inr refs" by blast
  obtain q res1 where q: "ensureDimsCached env r refs = (q, res1)" by fastforce
  note kept = ensureDims_keeps [OF assms(1) q]
  show ?thesis
  proof (cases res1)
    case (Inl e)
    then show ?thesis using assms(2) s q kept by (simp add: fetchMediaDefAtomic_def)
  next
    case (Inr x)
    then have "spec_resolves (cachedDims q) spec" using kept s(2) by (simp add: spec_resolves_def)
    moreover have "r' = insertMediaDefInMemory (fabric_pkg env) spec q"
      using assms(2) s q Inr by (simp add: fetchMediaDefAtomic_def)
    ultimately have "keeps q r'"
      using insertMediaDef_ok [of q spec] kept by (auto simp: keeps_def)
    then show ?thesis using kept keeps_trans by blast
  qed
next
  case False
  then show ?thesis
    using assms by (cases "fetchMediaDefFromRegistry env r urn")
      (auto simp: fetchMediaDefAtomic_def split: sum.splits)
qed

lemma fetch_each_keeps: "registry_ok r \<Longrightarrow> fetch_each env r us = (r', es) \<Longrightarrow> keeps r r'"
proof (induction env r us arbitrary: r' es rule: fetch_each.induct)
  case (2 env r u us)
  obtain q res where q: "fetchMediaDefAtomic env r u = (q, res)" by fastforce
  have kept: "keeps r q" using fetchMediaDef_keeps [OF "2.prems"(1) q] .
  obtain es' where "fetch_each env q us = (r', es')"
    using "2.prems"(2) q by (auto split: sum.splits prod.splits)
  then have "keeps q r'"
    using "2.IH" q keeps_ok [OF kept] by (cases res) auto
  then show ?case using kept keeps_trans by blast
qed simp

lemma ensureMediaDefs_keeps:
  "registry_ok r \<Longrightarrow> ensureMediaDefsCached env r wanted = (r', res) \<Longrightarrow> keeps r r'"
  by (auto simp: ensureMediaDefsCached_def Let_def split: prod.splits dest: fetch_each_keeps)

lemma getMediaDef_keeps:
  "registry_ok r \<Longrightarrow> getMediaDef env r urn = (r', res) \<Longrightarrow> keeps r r'"
  by (auto simp: getMediaDef_def getMediaDef_urn_def split: if_splits sum.splits option.splits
      dest: fetchMediaDef_keeps)


section \<open>A cap is fetched whole\<close>

lemma fetchCap_validated:
  "fetchCapFromRegistry env r urn = Inr c \<Longrightarrow> CapValidator_validateCapDefinition (urns (fabric_pkg env)) c = None"
  by (auto simp: fetchCapFromRegistry_def on_ok_def split: sum.splits reply.splits option.splits json.splits
      if_splits cap_def_error.splits urn_failure.splits)

lemma hold_cap_ok:
  assumes "registry_ok r" and "dims_resolve (cachedDims r) (cap_dims c)"
  shows "registry_ok (r\<lparr>cachedCaps := fmupd k c (cachedCaps r)\<rparr>)"
  using assms by (auto simp: registry_ok_def dims_cached_def index_ok_def dims_valid_def)

text \<open>What a call for a cap has done: nothing to the caps that are held, with an error or with one of
  them; or one that is valid was put among them, under its own name and with its dims.\<close>

definition cap_held ::
    "('t, 'd) fabric_env \<Rightarrow> CSFabricRegistry \<Rightarrow> CSFabricRegistry \<Rightarrow> CSCap \<Rightarrow> bool" where
  "cap_held env r r' c \<longleftrightarrow>
     (cachedCaps r' = cachedCaps r \<and> (\<exists>k. fmlookup (cachedCaps r) k = Some c)) \<or>
     (\<exists>k. cap_key (fabric_pkg env) c = Inr k \<and> cachedCaps r' = fmupd k c (cachedCaps r) \<and>
        CapValidator_validateCapDefinition (urns (fabric_pkg env)) c = None)"

definition cap_outcome ::
    "('t, 'd) fabric_env \<Rightarrow> CSFabricRegistry \<Rightarrow> CSFabricRegistry \<Rightarrow> registry_error + CSCap \<Rightarrow> bool" where
  "cap_outcome env r r' res \<longleftrightarrow> registry_ok r' \<and> extends r r' \<and>
     (case res of
        Inl e \<Rightarrow> cachedCaps r' = cachedCaps r
      | Inr c \<Rightarrow> cap_held env r r' c \<and> dims_resolve (cachedDims r') (cap_dims c))"

lemma cap_unchanged [simp]: "cap_outcome env r r (Inl e) \<longleftrightarrow> registry_ok r"
  by (simp add: cap_outcome_def)

lemma keeps_cap_error: "keeps r r' \<Longrightarrow> cap_outcome env r r' (Inl e)"
  by (simp add: keeps_def cap_outcome_def)

lemma fetchCapAtomic_outcome:
  assumes "registry_ok r" and "fetchCapAtomic env r urn = (r', res)"
  shows "cap_outcome env r r' res"
proof (cases "fetchCapFromRegistry env r urn")
  case (Inl e)
  with assms(2) have "r' = r" "res = Inl e" by (simp_all add: fetchCapAtomic_def)
  then show ?thesis using assms(1) by simp
next
  case (Inr c)
  obtain r1 res1 where m: "ensureMediaDefsCached env r (collectReferencedMediaUrns (fabric_pkg env) c) = (r1, res1)"
    by fastforce
  note kept = ensureMediaDefs_keeps [OF assms(1) m]
  obtain r2 res2 where d: "ensureDimsCached env r1 (cap_dims c) = (r2, res2)" by fastforce
  note dims = ensureDims_keeps [OF keeps_ok [OF kept] d]
  have kept2: "keeps r r2" using kept dims keeps_trans by blast
  show ?thesis
  proof (cases "res1 = Inr () \<and> \<not> isl (cap_key (fabric_pkg env) c) \<and> res2 = Inr ()")
    case True
    then obtain k where k: "cap_key (fabric_pkg env) c = Inr k"
      by (cases "cap_key (fabric_pkg env) c") auto
    have res: "r' = r2\<lparr>cachedCaps := fmupd k c (cachedCaps r2)\<rparr>" "res = Inr c"
      using assms(2) Inr m d k True by (simp_all add: fetchCapAtomic_def)
    have "registry_ok r'" using hold_cap_ok [of r2 c k] kept2 dims True res by (simp add: keeps_def)
    moreover have "extends r r'" using kept2 res by (simp add: keeps_def extends_def)
    moreover have "cap_held env r r' c" using fetchCap_validated [OF Inr] kept2 k res
      by (simp add: cap_held_def keeps_def)
    ultimately show ?thesis using dims True res by (simp add: cap_outcome_def)
  next
    case False
    then have "\<exists>e. (r', res) = (r1, Inl e) \<or> (r', res) = (r2, Inl e)"
      using assms(2) Inr m d
      by (auto simp: fetchCapAtomic_def split: sum.splits prod.splits)
    then show ?thesis using kept kept2 keeps_cap_error by blast
  qed
qed

lemma getCap_urn_outcome:
  assumes "registry_ok r" and "getCap_urn env r urn = (r', res)"
  shows "cap_outcome env r r' res"
proof (cases "normalizeCapUrn (fabric_pkg env) urn")
  case (Inl e)
  then show ?thesis using assms by (auto simp: getCap_urn_def)
next
  case (Inr k)
  show ?thesis
  proof (cases "fmlookup (cachedCaps r) k")
    case None
    then show ?thesis using assms Inr fetchCapAtomic_outcome by (simp add: getCap_urn_def)
  next
    case (Some c)
    then have "r' = r" "res = Inr c" using assms(2) Inr by (simp_all add: getCap_urn_def)
    then show ?thesis using assms(1) Some
      by (auto simp: cap_outcome_def cap_held_def registry_ok_def dims_cached_def)
  qed
qed

lemma getCap_outcome:
  assumes "registry_ok r" and "getCapWithUrn env r urn = (r', res)"
  shows "cap_outcome env r r' res"
  using assms getCap_urn_outcome [of r env _ r' res]
  by (auto simp: getCapWithUrn_def split: if_splits sum.splits)

lemma cap_outcome_ok: "cap_outcome env r r' res \<Longrightarrow> registry_ok r'"
  by (simp add: cap_outcome_def)

lemma getCaps_loop_ok:
  "registry_ok r \<Longrightarrow> getCaps_loop env r us caps e = (r', res) \<Longrightarrow> registry_ok r'"
proof (induction us arbitrary: r caps e)
  case (Cons u us)
  obtain q given where q: "getCapWithUrn env r u = (q, given)" by fastforce
  have "registry_ok q" using cap_outcome_ok [OF getCap_outcome [OF Cons.prems(1) q]] .
  then show ?case using Cons.IH Cons.prems(2) q by (cases given) auto
qed simp

lemma getCaps_ok: "registry_ok r \<Longrightarrow> getCapsWithUrns env r us = (r', res) \<Longrightarrow> registry_ok r'"
  by (auto simp: getCapsWithUrns_def split: prod.splits option.splits dest: getCaps_loop_ok)

lemma validateCap_ok:
  "registry_ok r \<Longrightarrow> validateCap env r c = (r', res) \<Longrightarrow> registry_ok r'"
  by (auto simp: validateCap_def split: sum.splits prod.splits dest: getCap_outcome intro: cap_outcome_ok)

section \<open>What is kept of the cache files\<close>

lemma index_all_others [simp]:
  "cachedCaps (index_all ss r) = cachedCaps r"
  "cachedSpecs (index_all ss r) = cachedSpecs r"
  "cachedDims (index_all ss r) = cachedDims r"
  "cachedAliases (index_all ss r) = cachedAliases r"
  "manifestVersion (index_all ss r) = manifestVersion r"
  "manifestCaps (index_all ss r) = manifestCaps r"
  "manifestMedia (index_all ss r) = manifestMedia r"
  "manifestAliases (index_all ss r) = manifestAliases r"
  "manifestDims (index_all ss r) = manifestDims r"
  by (induction ss r rule: index_all.induct) simp_all

lemma index_all_keeps:
  "spec_listed (extensionIndex r) t \<Longrightarrow> spec_listed (extensionIndex (index_all ss r)) t"
  by (induction ss r rule: index_all.induct) (simp_all add: index_spec_keeps)

lemma index_all_lists:
  "s \<in> set ss \<Longrightarrow> spec_listed (extensionIndex (index_all ss r)) s"
  by (induction ss r rule: index_all.induct) (auto intro: index_all_keeps index_spec_listed)

lemma index_all_distinct:
  "\<forall>ext us. fmlookup (extensionIndex r) ext = Some us \<longrightarrow> distinct us \<Longrightarrow>
     fmlookup (extensionIndex (index_all ss r)) ext = Some us \<Longrightarrow> distinct us"
proof (induction ss r rule: index_all.induct)
  case (2 s ss r)
  then show ?case using index_spec_distinct [of r s] by auto
qed simp

text \<open>An enumeration of the keys of a map brings every one.\<close>

definition brings_all_keys :: "key_order \<Rightarrow> bool" where
  "brings_all_keys order \<longleftrightarrow> (\<forall>ks. fset ks \<subseteq> set (order ks))"

definition held_at_pins :: "CSFabricRegistry \<Rightarrow> bool" where
  "held_at_pins r \<longleftrightarrow>
     (\<forall>k c. fmlookup (cachedCaps r) k = Some c \<longrightarrow>
        unsigned_of (fmlookup (manifestCaps r) k) = Some (cap_version c)) \<and>
     (\<forall>k s. fmlookup (cachedSpecs r) k = Some s \<longrightarrow>
        unsigned_of (fmlookup (manifestMedia r) k) = entry_version s) \<and>
     (\<forall>k a. fmlookup (cachedAliases r) k = Some a \<longrightarrow>
        unsigned_of (fmlookup (manifestAliases r) k) = entry_version a) \<and>
     (\<forall>k d. fmlookup (cachedDims r) k = Some d \<longrightarrow>
        unsigned_of (fmlookup (manifestDims r) k) = Some (dim_version d))"

lemma at_pin_lookup:
  "fmlookup (at_pin m version cache) k = Some x \<longleftrightarrow>
     fmlookup cache k = Some x \<and> unsigned_of (fmlookup m k) = version x"
  by (auto simp: at_pin_def split: option.splits)

text \<open>An entry of version 0 that the manifest does not list is kept, since what the manifest has for it reads
  as 0.\<close>

lemma unlisted_version_0_kept:
  "fmlookup (manifestCaps r) k = None \<Longrightarrow> fmlookup (cachedCaps r) k = Some c \<Longrightarrow> cap_version c = 0 \<Longrightarrow>
     fmlookup (at_pin (manifestCaps r) (\<lambda>c. Some (cap_version c)) (cachedCaps r)) k = Some c"
  by (simp add: at_pin_lookup unsigned_of_def)


lemma fm_order_all:
  assumes "brings_all_keys order" and "fmlookup m k = Some x"
  shows "x \<in> set (List.map_filter (fmlookup m) (order (fmdom m)))"
proof -
  have "k |\<in>| fmdom m" using assms(2) by (rule fmdomI)
  then have "k \<in> set (order (fmdom m))" using assms(1) by (auto simp: brings_all_keys_def)
  then show ?thesis using assms(2) by (force simp: List.map_filter_def)
qed

lemma filter_result:
  assumes "filterCachesToManifest order r = Inr r'"
  obtains ss where
    "extensionIndex r' = extensionIndex (index_all (List.map_filter (fmlookup (cachedSpecs r')) (order (fmdom (cachedSpecs r'))))
       (ss\<lparr>extensionIndex := fmempty\<rparr>))"
    and "\<And>k c. fmlookup (cachedCaps r') k = Some c \<longleftrightarrow> fmlookup (cachedCaps r) k = Some c \<and>
      (manifestVersion r = 0 \<or> unsigned_of (fmlookup (manifestCaps r) k) = Some (cap_version c)) \<and>
      dims_resolve (cachedDims r') (cap_dims c)"
    and "\<And>k s. fmlookup (cachedSpecs r') k = Some s \<longleftrightarrow> fmlookup (cachedSpecs r) k = Some s \<and>
      (manifestVersion r = 0 \<or> unsigned_of (fmlookup (manifestMedia r) k) = entry_version s) \<and>
      spec_resolves (cachedDims r') s"
    and "\<And>k a. fmlookup (cachedAliases r') k = Some a \<longleftrightarrow> fmlookup (cachedAliases r) k = Some a \<and>
      manifestVersion r \<noteq> 0 \<and> unsigned_of (fmlookup (manifestAliases r) k) = entry_version a"
    and "\<And>k d. fmlookup (cachedDims r') k = Some d \<longleftrightarrow> fmlookup (cachedDims r) k = Some d \<and>
      manifestVersion r \<noteq> 0 \<and> unsigned_of (fmlookup (manifestDims r) k) = Some (dim_version d)"
    and "manifestVersion r' = manifestVersion r" "manifestCaps r' = manifestCaps r"
      "manifestMedia r' = manifestMedia r" "manifestAliases r' = manifestAliases r"
      "manifestDims r' = manifestDims r"
proof (cases "manifestVersion r = 0")
  case True
  then have pin: "(1 \<le> manifestVersion r) = False" by simp
  note shape = assms [unfolded filterCachesToManifest_def Let_def pin if_False simp_thms]
  then show thesis
    using True by (intro that) (auto split: option.splits if_splits)
next
  case False
  then have pin: "(1 \<le> manifestVersion r) = True" by (simp add: word_le_nat_alt unat_gt_0 Suc_le_eq)
  note shape = assms [unfolded filterCachesToManifest_def Let_def pin if_True simp_thms]
  then show thesis
    using False by (intro that) (auto simp: at_pin_lookup split: option.splits if_splits)
qed

lemma filter_ok:
  assumes "filterCachesToManifest order r = Inr r'" and "brings_all_keys order" and "dims_valid r"
  shows "registry_ok r'" and "1 \<le> manifestVersion r' \<Longrightarrow> held_at_pins r'"
proof -
  show "registry_ok r'" using assms(1)
  proof (rule filter_result)
    fix ss
    assume idx: "extensionIndex r' = extensionIndex (index_all (List.map_filter (fmlookup (cachedSpecs r'))
        (order (fmdom (cachedSpecs r')))) (ss\<lparr>extensionIndex := fmempty\<rparr>))"
      and held: "\<And>k c. fmlookup (cachedCaps r') k = Some c \<longleftrightarrow> fmlookup (cachedCaps r) k = Some c \<and>
        (manifestVersion r = 0 \<or> unsigned_of (fmlookup (manifestCaps r) k) = Some (cap_version c)) \<and>
        dims_resolve (cachedDims r') (cap_dims c)"
      "\<And>k s. fmlookup (cachedSpecs r') k = Some s \<longleftrightarrow> fmlookup (cachedSpecs r) k = Some s \<and>
        (manifestVersion r = 0 \<or> unsigned_of (fmlookup (manifestMedia r) k) = entry_version s) \<and>
        spec_resolves (cachedDims r') s"
      "\<And>k d. fmlookup (cachedDims r') k = Some d \<longleftrightarrow> fmlookup (cachedDims r) k = Some d \<and>
        manifestVersion r \<noteq> 0 \<and> unsigned_of (fmlookup (manifestDims r) k) = Some (dim_version d)"
    have "index_ok r'" unfolding index_ok_def idx
      using index_all_lists [OF fm_order_all [OF assms(2)]] index_all_distinct [of "ss\<lparr>extensionIndex := fmempty\<rparr>"]
      by auto
    moreover have "dims_cached r'" using held by (simp add: dims_cached_def)
    moreover have "dims_valid r'" using held(3) assms(3) by (auto simp: dims_valid_def)
    ultimately show ?thesis by (simp add: registry_ok_def)
  qed
  assume "1 \<le> manifestVersion r'"
  then have "manifestVersion r' \<noteq> 0" by auto
  with assms(1) show "held_at_pins r'"
    by (elim filter_result) (simp add: held_at_pins_def)
qed

lemma load_dim_valid: "dims_valid r \<Longrightarrow> load_dim env bs r = Inr r' \<Longrightarrow> dims_valid r'"
  by (auto simp: load_dim_def dims_valid_def split: option.splits json.splits sum.splits if_splits)

lemma load_all_keeps:
  assumes "\<And>b s s'. P s \<Longrightarrow> f b s = Inr s' \<Longrightarrow> P s'"
  shows "P s \<Longrightarrow> load_all f bs s = Inr s' \<Longrightarrow> P s'"
proof (induction bs arbitrary: s)
  case (Cons b bs)
  then obtain t where t: "f b s = Inr t" "load_all f bs t = Inr s'"
    by (auto simp: on_ok_def split: sum.splits)
  then show ?case using Cons.IH [of t] Cons.prems(1) assms [of s b t] by simp
qed simp


lemma ingest_empty:
  "ingestManifestDictionary d r = Inr r' \<Longrightarrow> cachedDims r' = cachedDims r \<and> manifestVersion r' = manifestVersion r"
  by (auto simp: ingestManifestDictionary_def split: option.splits json.splits if_splits)

lemma bootstrap_keeps_dims:
  "bootstrapManifest env cached r = Inr r' \<Longrightarrow> cachedDims r' = cachedDims r \<and> manifestVersion r' = manifestVersion r"
  by (auto simp: bootstrapManifest_def cached_manifest_def fetch_manifest_def on_ok_def dest!: ingest_empty
      split: option.splits sum.splits json.splits if_splits web_answer.splits)

lemma insertMediaDef_dims [simp]:
  "cachedDims (insertMediaDefInMemory pkg s r) = cachedDims r"
  by (simp add: insertMediaDefInMemory_def split: option.splits json.splits sum.splits)

lemma load_cap_dims: "load_cap env expired bs r = Inr r' \<Longrightarrow> cachedDims r' = cachedDims r"
  by (auto simp: load_cap_def Let_def split: option.splits json.splits sum.splits cap_def_error.splits
      urn_failure.splits registry_error.splits if_splits)

lemma load_media_dims: "load_media env expired bs r = Inr r' \<Longrightarrow> cachedDims r' = cachedDims r"
  by (auto simp: load_media_def split: option.splits json.splits if_splits)

lemma load_alias_dims: "load_alias env bs r = Inr r' \<Longrightarrow> cachedDims r' = cachedDims r"
  by (auto simp: load_alias_def split: option.splits json.splits if_splits)

lemma dims_valid_same: "cachedDims r' = cachedDims r \<Longrightarrow> dims_valid r' = dims_valid r"
  by (simp add: dims_valid_def)

lemma init_filtered:
  assumes "FabricRegistry_initWithCharter env expired files order charter version bootstrap = Inr r'"
  obtains r where "dims_valid r" and "filterCachesToManifest order r = Inr r'"
proof -
  obtain r0 where empty: "cachedDims r0 = fmempty" and start: "load_files env expired files order r0 = Inr r'"
  proof (cases bootstrap)
    case True
    then show thesis using assms that
      by (auto simp: FabricRegistry_initWithCharter_def Let_def on_ok_def dest!: bootstrap_keeps_dims
          split: if_splits option.splits sum.splits)
  next
    case False
    then show thesis using assms
      by (auto simp: FabricRegistry_initWithCharter_def Let_def on_ok_def intro!: that
          split: if_splits option.splits)
  qed
  obtain r1 r2 r3 r4 where
      load: "load_all (load_cap env expired) (cap_files files) r0 = Inr r1"
      "load_all (load_media env expired) (media_files files) r1 = Inr r2"
      "load_all (load_alias env) (alias_files files) r2 = Inr r3"
      "load_all (load_dim env) (dim_files files) r3 = Inr r4"
    and last: "filterCachesToManifest order r4 = Inr r'"
    using start by (auto simp: load_files_def on_ok_def split: sum.splits)
  have "dims_valid r0" using empty by (simp add: dims_valid_def)
  then have "dims_valid r1"
    using load_all_keeps [of dims_valid, OF _ _ load(1)] load_cap_dims dims_valid_same by blast
  then have "dims_valid r2"
    using load_all_keeps [of dims_valid, OF _ _ load(2)] load_media_dims dims_valid_same by blast
  then have "dims_valid r3"
    using load_all_keeps [of dims_valid, OF _ _ load(3)] load_alias_dims dims_valid_same by blast
  then have "dims_valid r4"
    using load_all_keeps [of dims_valid, OF _ _ load(4)] load_dim_valid by blast
  then show thesis using last that by blast
qed

end
