(* ===== verification/CharterRules.thy ===== *)
theory CharterRules
  imports Charter
begin

text \<open>
  What charters are relied on for: a charter is what its dictionary says; the shape that is checked,
  told by a grammar of templates; a location of a valid charter can always be filled in, the result is
  its template with the values in place of the placeholders, and is an \<open>https\<close> address; and a charter
  that was resolved once is found again without the network.
\<close>

section \<open>A charter is what its dictionary says\<close>

definition sound_charter :: "CSCharter \<Rightarrow> bool" where
  "sound_charter c \<longleftrightarrow> (case notAfter c of None \<Rightarrow> True | Some j \<Rightarrow> is_time j)"

definition charter_json :: "CSCharter \<Rightarrow> json" where
  "charter_json c = JSON_object (Charter_dictionaryRepresentation c)"

definition charter_of_json :: "json \<Rightarrow> charter_error + CSCharter" where
  "charter_of_json j =
     (case j of JSON_object d \<Rightarrow> Charter_charterWithDictionary d | _ \<Rightarrow> malformed Not_an_object)"

lemma kind_from_name [simp]: "CSRegistryKindFromName (CSRegistryKindName k) = Some k"
  by (cases k) (simp_all add: CSRegistryKindFromName_def)

lemma kind_of_name: "CSRegistryKindFromName s = Some k \<Longrightarrow> CSRegistryKindName k = s"
  by (auto simp: CSRegistryKindFromName_def split: if_splits)

lemma templates_printed [simp]: "templates_by_name (JSON_object (fmmap JSON_string m)) = Some m"
proof -
  have "fmpred (\<lambda>k v. case v of JSON_string s \<Rightarrow> True | _ \<Rightarrow> False) (fmmap JSON_string m)"
    by (auto simp: fmpred_iff)
  moreover have "fmmap (\<lambda>v. case v of JSON_string s \<Rightarrow> s | _ \<Rightarrow> []) (fmmap JSON_string m) = m"
    by (rule fmap_ext) (simp add: option.map_comp comp_def option.map_ident)
  ultimately show ?thesis by (simp add: templates_by_name_def)
qed

lemma time_kept [simp]: "is_time (JSON_int (uint t))"
  "unsignedLongLongValue (JSON_int (uint (t :: 64 word))) = Some t"
proof -
  have "- (2 ^ 63) \<le> uint t" by (rule order_trans [of _ 0]) simp_all
  then show "unsignedLongLongValue (JSON_int (uint t)) = Some t"
    using uint_lt2p [of t] by (simp add: unsignedLongLongValue_def)
qed (simp add: is_time_def)

lemma null_no_time [simp]: "\<not> is_time JSON_null"
  by (simp add: is_time_def)

lemma representation_fields:
  "find (\<lambda>k. k \<notin> set charter_fields) (sorted_list_of_fset (fmdom (Charter_dictionaryRepresentation c))) = None"
  by (auto simp: find_None_iff sorted_list_of_fset_simps fmlookup_dom_iff
      Charter_dictionaryRepresentation_def charter_fields_def split: if_splits)

lemma representation_required:
  "find (\<lambda>k. fmlookup (Charter_dictionaryRepresentation c) k = None) charter_required = None"
  by (simp add: charter_required_def Charter_dictionaryRepresentation_def)

lemma charter_reads_back:
  assumes "sound_charter c"
  shows "Charter_charterWithDictionary (Charter_dictionaryRepresentation c) = Inr c"
proof -
  have strings: "string_field (Charter_dictionaryRepresentation c) ''format'' = Some (charter_format c)"
    "string_field (Charter_dictionaryRepresentation c) ''anchor'' = Some (charter_anchor c)"
    "string_field (Charter_dictionaryRepresentation c) ''kind'' = Some (CSRegistryKindName (charter_kind c))"
    "string_field (Charter_dictionaryRepresentation c) ''slug'' = Some (charter_slug c)"
    "string_field (Charter_dictionaryRepresentation c) ''environment'' = Some (charter_environment c)"
    by (simp_all add: string_field_Some Charter_dictionaryRepresentation_def)
  have optional: "optional_string (Charter_dictionaryRepresentation c) ''experiment'' = Inr (charter_experiment c)"
    "optional_string (Charter_dictionaryRepresentation c) ''fabric'' = Inr (charter_fabric c)"
    by (cases "charter_experiment c"; cases "charter_fabric c";
        simp add: optional_string_def Charter_dictionaryRepresentation_def)+
  have others: "fmlookup (Charter_dictionaryRepresentation c) ''locations'' =
      Some (JSON_object (fmmap JSON_string (charter_locations c)))"
    "fmlookup (Charter_dictionaryRepresentation c) ''issued_at'' = Some (JSON_int (uint (issuedAt c)))"
    "fmlookup (Charter_dictionaryRepresentation c) ''not_after'' =
      Some (case notAfter c of None \<Rightarrow> JSON_null | Some j \<Rightarrow> j)"
    by (simp_all add: Charter_dictionaryRepresentation_def)
  show ?thesis
    using assms
    by (simp add: Charter_charterWithDictionary_def representation_fields representation_required
        required_string_def strings optional others sound_charter_def given_def check_time_def convert_time_def read_end_def)
      (auto split: option.splits)
qed

lemma charter_read_sound: "Charter_charterWithDictionary d = Inr c \<Longrightarrow> sound_charter c"
  by (auto simp: Charter_charterWithDictionary_def on_ok_Inr sound_charter_def read_end_def
      split: option.splits if_splits)

interpretation charters: json_form charter_json charter_of_json sound_charter
  by unfold_locales
    (auto simp: charter_json_def charter_of_json_def charter_reads_back dest: charter_read_sound
      split: json.splits)

section \<open>Templates\<close>

text \<open>A template is text without braces and placeholders in braces.\<close>

datatype piece = Piece_text string | Hole string

fun piece_ok :: "piece \<Rightarrow> bool" where
  "piece_ok (Piece_text s) \<longleftrightarrow> list_all (\<lambda>c. \<not> brace c) s"
| "piece_ok (Hole p) \<longleftrightarrow> placeholder_name p"

fun filled :: "(string \<Rightarrow> string option) \<Rightarrow> piece list \<Rightarrow> string" where
  "filled \<sigma> [] = []"
| "filled \<sigma> (Piece_text s # ps) = s @ filled \<sigma> ps"
| "filled \<sigma> (Hole p # ps) =
     (case \<sigma> p of None \<Rightarrow> CHR ''{'' # p @ CHR ''}'' # filled \<sigma> ps | Some v \<Rightarrow> v @ filled \<sigma> ps)"

definition template_text :: "piece list \<Rightarrow> string" where
  "template_text ps = filled (\<lambda>_. None) ps"

fun holes :: "piece list \<Rightarrow> string list" where
  "holes [] = []"
| "holes (Piece_text s # ps) = holes ps"
| "holes (Hole p # ps) = p # holes ps"

fun first_uses :: "string list \<Rightarrow> string list \<Rightarrow> string list" where
  "first_uses out [] = out"
| "first_uses out (p # ps) = first_uses (if p \<in> set out then out else out @ [p]) ps"

lemma set_first_uses [simp]: "set (first_uses out ps) = set out \<union> set ps"
  by (induction ps arbitrary: out) auto

lemma distinct_first_uses: "distinct out \<Longrightarrow> distinct (first_uses out ps)"
  by (induction ps arbitrary: out) auto

lemma name_no_brace: "placeholder_name p \<Longrightarrow> c \<in> set p \<Longrightarrow> \<not> brace c"
  by (auto simp: placeholder_name_def list_all_iff lower_letter_def brace_def)

lemma name_closes:
  assumes "placeholder_name p"
  shows "takeWhile (\<lambda>c. c \<noteq> CHR ''}'') (p @ CHR ''}'' # r) = p"
    and "dropWhile (\<lambda>c. c \<noteq> CHR ''}'') (p @ CHR ''}'' # r) = CHR ''}'' # r"
proof -
  have "\<forall>c \<in> set p. c \<noteq> CHR ''}''" using name_no_brace [OF assms] by (auto simp: brace_def)
  then show "takeWhile (\<lambda>c. c \<noteq> CHR ''}'') (p @ CHR ''}'' # r) = p"
    and "dropWhile (\<lambda>c. c \<noteq> CHR ''}'') (p @ CHR ''}'' # r) = CHR ''}'' # r"
    by (simp_all add: takeWhile_append dropWhile_append)
qed

lemma placeholders_text:
  "list_all (\<lambda>c. \<not> brace c) s \<Longrightarrow> placeholders_from out (s @ r) = placeholders_from out r"
  by (subst (1 2) placeholders_from.simps) (simp add: dropWhile_append list_all_iff)

lemma placeholders_hole:
  "placeholder_name p \<Longrightarrow>
     placeholders_from out (CHR ''{'' # p @ CHR ''}'' # r) =
     placeholders_from (if p \<in> set out then out else out @ [p]) r"
  by (subst placeholders_from.simps) (simp add: brace_def name_closes)

lemma placeholders_pieces:
  assumes "list_all piece_ok ps"
  shows "placeholders_from out (template_text ps) = Inr (first_uses out (holes ps))"
  using assms
proof (induction ps arbitrary: out)
  case Nil
  then show ?case by (simp add: template_text_def placeholders_from.simps)
next
  case (Cons p ps)
  then show ?case
    by (cases p) (simp_all add: template_text_def placeholders_text placeholders_hole)
qed

lemma pieces_of_placeholders:
  "placeholders_from out t = Inr used \<Longrightarrow>
     \<exists>ps. list_all piece_ok ps \<and> template_text ps = t \<and> used = first_uses out (holes ps)"
proof (induction out t rule: placeholders_from.induct)
  case (1 out t)
  let ?s = "takeWhile (\<lambda>c. \<not> brace c) t"
  have s: "list_all (\<lambda>c. \<not> brace c) ?s" by (auto simp: list_all_iff dest: set_takeWhileD)
  show ?case
  proof (cases "dropWhile (\<lambda>c. \<not> brace c) t")
    case Nil
    then have s_eq: "?s = t" and out: "used = out"
      using 1(2) takeWhile_dropWhile_id [of "\<lambda>c. \<not> brace c" t]
      by (auto simp: placeholders_from.simps [of out t] Nil)
    show ?thesis
      by (rule exI [of _ "[Piece_text t]"]) (use s in \<open>simp add: template_text_def out s_eq del: takeWhile_eq_all_conv\<close>)
  next
    case (Cons c after)
    have c: "c = CHR ''{''"
      using 1(2) Cons hd_dropWhile [of "\<lambda>c. \<not> brace c" t]
      by (auto simp: placeholders_from.simps [of out t] brace_def split: if_splits)
    obtain d rest where d: "dropWhile (\<lambda>c. c \<noteq> CHR ''}'') after = d # rest"
      using 1(2) Cons c
      by (cases "dropWhile (\<lambda>c. c \<noteq> CHR ''}'') after") (auto simp: placeholders_from.simps [of out t])
    let ?p = "takeWhile (\<lambda>c. c \<noteq> CHR ''}'') after"
    have p: "placeholder_name ?p"
      and more: "placeholders_from (if ?p \<in> set out then out else out @ [?p]) rest = Inr used"
      using 1(2) Cons c d by (auto simp: placeholders_from.simps [of out t] Let_def split: if_splits)
    have "d = CHR ''}''" using hd_dropWhile [of "\<lambda>c. c \<noteq> CHR ''}''" after] d by simp
    then have after: "after = ?p @ CHR ''}'' # rest"
      using takeWhile_dropWhile_id [of "\<lambda>c. c \<noteq> CHR ''}''" after] d by simp
    have t: "t = ?s @ CHR ''{'' # ?p @ CHR ''}'' # rest"
      using takeWhile_dropWhile_id [of "\<lambda>c. \<not> brace c" t] Cons c after by metis
    obtain ps where "list_all piece_ok ps" "template_text ps = rest"
      "used = first_uses (if ?p \<in> set out then out else out @ [?p]) (holes ps)"
      using 1(1) [OF Cons _ d refl _ ] c p more by auto
    then show ?thesis
      using s p t by (intro exI [of _ "Piece_text ?s # Hole ?p # ps"]) (simp add: template_text_def)
  qed
qed

lemma CSPlaceholdersIn_iff:
  "CSPlaceholdersIn t = Inr used \<longleftrightarrow>
     (\<exists>ps. list_all piece_ok ps \<and> template_text ps = t \<and> used = first_uses [] (holes ps))"
  unfolding CSPlaceholdersIn_def using placeholders_pieces pieces_of_placeholders by blast

section \<open>The shape that is checked\<close>

definition https_address :: "string \<Rightarrow> bool" where
  "https_address url \<longleftrightarrow>
     (\<exists>rest. url = ''https://'' @ rest \<and> rest \<noteq> [] \<and> hd rest \<noteq> slash) \<and>
     CHR ''?'' \<notin> set url \<and> CHR ''#'' \<notin> set url"

definition template_for :: "string list \<Rightarrow> string \<Rightarrow> bool" where
  "template_for needed t \<longleftrightarrow>
     (\<exists>ps. list_all piece_ok ps \<and> template_text ps = t \<and> set (holes ps) = set needed)"

definition fabric_ok :: "CSCharter \<Rightarrow> bool" where
  "fabric_ok c \<longleftrightarrow>
     (if charter_kind c = CSRegistryKindCartridges
      then (\<exists>f. charter_fabric c = Some f \<and> https_address f \<and> \<not> hasSuffix f [slash])
      else charter_fabric c = None)"

definition times_ok :: "CSCharter \<Rightarrow> bool" where
  "times_ok c \<longleftrightarrow>
     (case notAfter c of
        None \<Rightarrow> True
      | Some j \<Rightarrow> (\<exists>t. unsignedLongLongValue j = Some t \<and> issuedAt c < t))"

definition charter_ok :: "CSCharter \<Rightarrow> bool" where
  "charter_ok c \<longleftrightarrow>
     charter_format c = CSCharterFormat \<and>
     https_address (charter_anchor c) \<and> \<not> hasSuffix (charter_anchor c) [slash] \<and>
     Charter_isSlug (charter_slug c) \<and> environment_label (charter_environment c) \<and>
     (\<forall>x. charter_experiment c = Some x \<longrightarrow> Charter_isExperimentID x) \<and>
     fmdom' (charter_locations c) = set (map fst (CSRegistryLocations (charter_kind c))) \<and>
     (\<forall>(name, needed) \<in> set (CSRegistryLocations (charter_kind c)).
        \<exists>t. fmlookup (charter_locations c) name = Some t \<and> https_address t \<and> template_for needed t) \<and>
     fabric_ok c \<and> times_ok c"

lemma split_https: "split_at ''://'' (''https://'' @ rest) = Some (''https'', rest)"
  by (simp add: hasPrefix_def)

lemma CSCheckHTTPS_iff: "CSCheckHTTPS what url = Inr () \<longleftrightarrow> https_address url"
proof
  assume ok: "CSCheckHTTPS what url = Inr ()"
  then obtain rest where r: "split_at ''://'' url = Some (''https'', rest)" "rest \<noteq> []"
      "\<not> hasPrefix rest [slash]" "\<not> list_ex (\<lambda>c. c = CHR ''?'' \<or> c = CHR ''#'') url"
    by (auto simp: CSCheckHTTPS_def split: option.splits if_splits)
  have "url = ''https'' @ ''://'' @ rest" by (rule split_at_Some [OF r(1)])
  moreover have "hd rest \<noteq> slash" using r(2,3) by (cases rest) (auto simp: hasPrefix_def)
  ultimately show "https_address url" using r(2,4) by (auto simp: https_address_def list_ex_iff)
next
  assume "https_address url"
  then obtain rest where r: "url = ''https://'' @ rest" "rest \<noteq> []" "hd rest \<noteq> slash"
      "CHR ''?'' \<notin> set url" "CHR ''#'' \<notin> set url"
    unfolding https_address_def by blast
  have "\<not> hasPrefix rest [slash]" using r(2,3) by (cases rest) (auto simp: hasPrefix_def)
  moreover have "\<not> list_ex (\<lambda>c. c = CHR ''?'' \<or> c = CHR ''#'') url" using r(4,5) by (auto simp: list_ex_iff)
  ultimately show "CSCheckHTTPS what url = Inr ()"
    using r(2) split_https [of rest] by (simp add: CSCheckHTTPS_def r(1) del: split_at.simps)
qed

lemma check_placeholders_iff:
  "check_placeholders name needed used = Inr () \<longleftrightarrow> set used = set needed"
  by (auto simp: check_placeholders_def find_None_iff find_Some_iff split: option.splits)

lemma template_checked:
  "(\<exists>used. CSPlaceholdersIn t = Inr used \<and> check_placeholders name needed used = Inr ()) \<longleftrightarrow>
     template_for needed t"
  by (auto simp: CSPlaceholdersIn_iff check_placeholders_iff template_for_def)

lemma check_locations_iff:
  "check_locations m ls = Inr () \<longleftrightarrow>
     (\<forall>(name, needed) \<in> set ls. \<exists>t. fmlookup m name = Some t \<and> https_address t \<and> template_for needed t)"
proof (induction m ls rule: check_locations.induct)
  case (2 m name needed rest)
  have "check_locations m ((name, needed) # rest) = Inr () \<longleftrightarrow>
      (\<exists>t. fmlookup m name = Some t \<and> https_address t \<and>
        (\<exists>used. CSPlaceholdersIn t = Inr used \<and> check_placeholders name needed used = Inr ())) \<and>
      check_locations m rest = Inr ()"
    by (auto simp: on_ok_Inr CSCheckHTTPS_iff split: option.splits)
  then show ?case
    using "2.IH" unfolding template_checked by (auto simp: CSPlaceholdersIn_iff CSCheckHTTPS_iff template_checked)
qed simp

lemma check_fabric_iff: "check_fabric c = Inr () \<longleftrightarrow> fabric_ok c"
  by (auto simp: check_fabric_def fabric_ok_def on_ok_Inr CSCheckHTTPS_iff split: option.splits if_splits)

lemma check_times_iff: "check_times c = Inr () \<longleftrightarrow> times_ok c"
  by (auto simp: check_times_def times_ok_def split: option.splits)

lemma locations_within:
  assumes "\<forall>(name, needed) \<in> set ls. \<exists>t. fmlookup m name = Some t \<and> P needed t"
  shows "fmdom m |\<subseteq>| fset_of_list (map fst ls) \<longleftrightarrow> fmdom' m = set (map fst ls)"
proof -
  have "set (map fst ls) \<subseteq> fmdom' m" using assms by (fastforce intro: fmdom'I)
  then show ?thesis
    by (auto simp: fmdom'_alt_def fsubset_iff fset_of_list.rep_eq less_eq_fset.rep_eq)
qed

lemma if_Inr: "(if b then Inl e else r) = Inr y \<longleftrightarrow> \<not> b \<and> r = Inr y"
  by simp

lemma on_unit_Inr: "on_ok r (\<lambda>_ :: unit. f) = Inr y \<longleftrightarrow> r = Inr () \<and> f = Inr y"
  by (cases r) simp_all

lemma Charter_validate_iff: "Charter_validate c = Inr () \<longleftrightarrow> charter_ok c"
proof -
  let ?ls = "CSRegistryLocations (charter_kind c)"
  have labs: "(case charter_experiment c of None \<Rightarrow> False | Some x \<Rightarrow> \<not> Charter_isExperimentID x) \<longleftrightarrow>
      \<not> (\<forall>x. charter_experiment c = Some x \<longrightarrow> Charter_isExperimentID x)"
    by (cases "charter_experiment c") simp_all
  show ?thesis
    unfolding Charter_validate_def Let_def if_Inr on_unit_Inr CSCheckHTTPS_iff check_fabric_iff
      check_times_iff labs not_not check_locations_iff charter_ok_def
    using locations_within [of ?ls "charter_locations c" "\<lambda>needed t. https_address t \<and> template_for needed t"]
    by argo
qed

section \<open>Filling in\<close>

definition no_braces :: "string \<Rightarrow> bool" where
  "no_braces s \<longleftrightarrow> list_all (\<lambda>c. \<not> brace c) s"

definition brace_free :: "(string \<Rightarrow> string option) \<Rightarrow> bool" where
  "brace_free \<sigma> \<longleftrightarrow> (\<forall>v \<in> ran \<sigma>. no_braces v)"

abbreviation hole_text :: "string \<Rightarrow> string" where
  "hole_text p \<equiv> CHR ''{'' # p @ ''}''"

lemma replace_text: "no_braces s \<Longrightarrow> replace_all (hole_text p) v (s @ r) = s @ replace_all (hole_text p) v r"
  by (induction s) (auto simp: no_braces_def brace_def hasPrefix_def)

lemma replace_this: "replace_all (hole_text p) v (CHR ''{'' # p @ CHR ''}'' # r) = v @ replace_all (hole_text p) v r"
proof -
  have "hasPrefix (CHR ''{'' # p @ CHR ''}'' # r) (hole_text p)" by (simp add: hasPrefix_def)
  then show ?thesis by simp
qed

lemma other_hole:
  assumes "placeholder_name p" and "placeholder_name q" and "p \<noteq> q"
  shows "\<not> hasPrefix (CHR ''{'' # q @ CHR ''}'' # r) (hole_text p)"
proof
  assume "hasPrefix (CHR ''{'' # q @ CHR ''}'' # r) (hole_text p)"
  then obtain t where t: "q @ CHR ''}'' # r = p @ CHR ''}'' # t" by (auto simp: hasPrefix_iff)
  show False using name_closes(1) [OF assms(1), of t] name_closes(1) [OF assms(2), of r] t assms(3) by simp
qed

lemma replace_other:
  assumes "placeholder_name p" and "placeholder_name q" and "p \<noteq> q"
  shows "replace_all (hole_text p) v (CHR ''{'' # q @ CHR ''}'' # r) =
    CHR ''{'' # q @ CHR ''}'' # replace_all (hole_text p) v r"
proof -
  have "no_braces q" using assms(2) name_no_brace by (auto simp: no_braces_def list_all_iff)
  then have "replace_all (hole_text p) v (q @ CHR ''}'' # r) =
      q @ replace_all (hole_text p) v (CHR ''}'' # r)" by (rule replace_text)
  moreover have "\<not> hasPrefix (CHR ''}'' # r) (hole_text p)" by (simp add: hasPrefix_def)
  ultimately show ?thesis using other_hole [OF assms] by simp
qed

lemma replace_filled:
  assumes "list_all piece_ok ps" and "placeholder_name p" and "brace_free \<sigma>" and "\<sigma> p = None"
  shows "replace_all (hole_text p) v (filled \<sigma> ps) = filled (\<sigma>(p \<mapsto> v)) ps"
  using assms(1)
proof (induction ps)
  case (Cons x ps)
  show ?case
  proof (cases x)
    case (Piece_text s)
    then show ?thesis using Cons by (simp add: replace_text no_braces_def del: replace_all.simps)
  next
    case (Hole q)
    show ?thesis
    proof (cases "\<sigma> q")
      case None
      then show ?thesis
        using Cons Hole assms(2) by (cases "q = p")
          (simp_all add: replace_this replace_other del: replace_all.simps)
    next
      case (Some w)
      then have "no_braces w" using assms(3) by (auto simp: brace_free_def ran_def)
      then show ?thesis
        using Cons Hole Some assms(4) by (auto simp: replace_text simp del: replace_all.simps)
    qed
  qed
qed simp

lemma fill_in_filled:
  assumes "list_all piece_ok ps" and "brace_free (fmlookup values)" and "set used \<subseteq> fmdom' values"
    and "list_all placeholder_name used" and "distinct used"
    and "\<sigma> = (fmlookup values |` filled_in)" and "set used \<inter> filled_in = {}"
  shows "fill_in values used (filled \<sigma> ps) = Inr (filled (fmlookup values |` (filled_in \<union> set used)) ps)"
  using assms
proof (induction used arbitrary: \<sigma> "filled_in")
  case (Cons p used)
  obtain v where v: "fmlookup values p = Some v" using Cons.prems(3) by (auto simp: fmlookup_dom'_iff)
  have free: "brace_free \<sigma>"
    using Cons.prems(2,6) by (auto simp: brace_free_def ran_def restrict_map_def split: if_splits)
  have "\<sigma>(p \<mapsto> v) = fmlookup values |` insert p filled_in"
    using v Cons.prems(6) by (auto simp: restrict_map_def)
  moreover have "replace_all (hole_text p) v (filled \<sigma> ps) = filled (\<sigma>(p \<mapsto> v)) ps"
    using Cons.prems free by (intro replace_filled) (auto simp: restrict_map_def)
  ultimately show ?case
    using Cons.IH [of "\<sigma>(p \<mapsto> v)" "insert p filled_in"] Cons.prems v by (simp add: insert_commute)
qed simp

lemma holes_names: "list_all piece_ok ps \<Longrightarrow> list_all placeholder_name (holes ps)"
  by (induction ps rule: holes.induct) auto

lemma filled_cong: "(\<And>p. p \<in> set (holes ps) \<Longrightarrow> \<sigma> p = \<tau> p) \<Longrightarrow> filled \<sigma> ps = filled \<tau> ps"
  by (induction ps rule: holes.induct) (auto split: option.splits)

lemma filled_start:
  "template_text ps = pre @ r \<Longrightarrow> no_braces pre \<Longrightarrow> list_all piece_ok ps \<Longrightarrow> \<exists>r'. filled \<sigma> ps = pre @ r'"
  unfolding template_text_def
proof (induction ps arbitrary: pre)
  case (Cons x ps)
  show ?case
  proof (cases x)
    case (Piece_text s)
    from Cons.prems(1) Piece_text consider u where "s = pre @ u" | u where "pre = s @ u" "filled (\<lambda>_. None) ps = u @ r"
      by (auto simp: append_eq_append_conv2)
    then show ?thesis
      using Cons Piece_text by cases (auto simp: no_braces_def)
  next
    case (Hole p)
    then have "pre = []" using Cons.prems(1,2) by (cases pre) (auto simp: no_braces_def brace_def)
    then show ?thesis by simp
  qed
qed simp

lemma filled_no_braces:
  assumes "list_all piece_ok ps" and "brace_free \<sigma>" and "set (holes ps) \<subseteq> dom \<sigma>"
  shows "no_braces (filled \<sigma> ps)"
  using assms(1,3)
  by (induction ps rule: holes.induct)
    (use assms(2) in \<open>auto simp: no_braces_def brace_free_def ran_def\<close>)

lemma locationNamed_filled:
  assumes "fmlookup (charter_locations c) name = Some t"
    and "list_all piece_ok ps" and "template_text ps = t"
    and "fmdom' values = set (holes ps)" and "brace_free (fmlookup values)"
  shows "Charter_locationNamed c name values = Inr (filled (fmlookup values) ps)"
proof -
  let ?used = "first_uses [] (holes ps)"
  have used: "CSPlaceholdersIn t = Inr ?used" using assms(2,3) CSPlaceholdersIn_iff by blast
  have within: "fmdom values |\<subseteq>| fset_of_list ?used"
    using assms(4) by (simp add: fmdom'_alt_def less_eq_fset.rep_eq fset_of_list.rep_eq)
  have "fill_in values ?used (filled Map.empty ps) = Inr (filled (fmlookup values |` ({} \<union> set ?used)) ps)"
    using assms(2,4,5) holes_names [OF assms(2)]
    by (intro fill_in_filled) (auto simp: list_all_iff distinct_first_uses)
  moreover have "filled (fmlookup values |` ({} \<union> set ?used)) ps = filled (fmlookup values) ps"
    by (rule filled_cong) simp
  ultimately show ?thesis
    using assms(1,3) used within by (simp add: Charter_locationNamed_def template_text_def)
qed

text \<open>C24: A location of a charter that keeps its shape can always be filled in.  Given a value without
  braces for each placeholder the kind of registry has for that location, and for nothing else, the
  answer is the template with the values in place of the placeholders, whatever the template is made
  of; it is an \<open>https\<close> address and no placeholder is left in it.\<close>

theorem location_filled_in:
  assumes "Charter_validate c = Inr ()"
    and "(name, needed) \<in> set (CSRegistryLocations (charter_kind c))"
    and "fmdom' values = set needed" and "brace_free (fmlookup values)"
  shows "\<exists>ps url rest. list_all piece_ok ps \<and>
    fmlookup (charter_locations c) name = Some (template_text ps) \<and> set (holes ps) = set needed \<and>
    Charter_locationNamed c name values = Inr url \<and> url = filled (fmlookup values) ps \<and>
    url = ''https://'' @ rest \<and> no_braces url"
proof -
  obtain t where t: "fmlookup (charter_locations c) name = Some t" "https_address t" "template_for needed t"
    using assms(1,2) by (fastforce simp: Charter_validate_iff charter_ok_def)
  obtain ps where ps: "list_all piece_ok ps" "template_text ps = t" "set (holes ps) = set needed"
    using t(3) by (auto simp: template_for_def)
  obtain r where "t = ''https://'' @ r" using t(2) by (auto simp: https_address_def)
  then obtain rest where "filled (fmlookup values) ps = ''https://'' @ rest"
    using filled_start [of ps "''https://''" r] ps by (auto simp: no_braces_def brace_def)
  moreover have "no_braces (filled (fmlookup values) ps)"
    using ps(1,3) assms(3,4) by (intro filled_no_braces) (auto simp: fmdom'_alt_def fmlookup_dom_iff fmdom'I)
  ultimately show ?thesis
    using locationNamed_filled [OF t(1) ps(1,2) _ assms(4)] assms(3) ps t(1) by auto
qed

definition release_charter :: CSCharter where
  "release_charter =
     \<lparr>charter_format = CSCharterFormat, charter_anchor = ''https://r.example'',
      charter_kind = CSRegistryKindReleases, charter_slug = ''apps'', charter_environment = ''prod'',
      charter_experiment = None,
      charter_locations = fmap_of_list [(''manifest'', ''https://r.example/{app_id}/manifest.json'')],
      charter_fabric = None, issuedAt = 0, notAfter = None\<rparr>"

definition release_values :: "(string, string) fmap" where
  "release_values = fmap_of_list [(''app_id'', ''viewer'')]"

lemma release_valid: "Charter_validate release_charter = Inr ()"
  by code_simp

theorem location_filled_in_witness:
  "Charter_locationNamed release_charter ''manifest'' release_values =
     Inr ''https://r.example/viewer/manifest.json'' \<and>
   (\<exists>url rest. Charter_locationNamed release_charter ''manifest'' release_values = Inr url \<and>
     url = ''https://'' @ rest \<and> no_braces url)"
proof
  have vs: "fmdom' release_values = set [''app_id'']" "brace_free (fmlookup release_values)"
    by (auto simp: release_values_def brace_free_def no_braces_def brace_def ran_def fmdom'_alt_def
        fset_of_list.rep_eq)
  have "(''manifest'', [''app_id'']) \<in> set (CSRegistryLocations (charter_kind release_charter))"
    by (simp add: release_charter_def)
  from location_filled_in [OF release_valid this vs]
  show "\<exists>url rest. Charter_locationNamed release_charter ''manifest'' release_values = Inr url \<and>
      url = ''https://'' @ rest \<and> no_braces url" by blast
qed code_simp

text \<open>A value with a placeholder in it is not kept as it is: the placeholder is filled in as well, when it
  comes later in the template.\<close>

definition fabric_charter :: CSCharter where
  "fabric_charter =
     (case publisherLayoutCharter ''https://f.example'' ''fab'' of Inr c \<Rightarrow> c | Inl _ \<Rightarrow> release_charter)"

lemma fabric_charter_valid:
  "publisherLayoutCharter ''https://f.example'' ''fab'' = Inr fabric_charter \<and>
   Charter_validate fabric_charter = Inr ()"
  by code_simp

lemma value_filled_again:
  "Charter_locationNamed fabric_charter ''definition''
     (fmap_of_list [(''kind'', ''{version}''), (''urn_hash'', ''ab''), (''version'', ''3'')]) =
   Inr ''https://f.example/3/ab/3.json''"
  by code_simp

text \<open>The address of a definition is the location of the charter, filled in.\<close>

lemma number_no_braces: "no_braces (string_of_nat n)"
  using nat_text_digits [of n] by (auto simp: no_braces_def brace_def list_all_iff is_digit_def)

lemma objectURL_filled:
  assumes "list_all piece_ok ps" and "no_braces kind" and "no_braces digest"
  shows "FabricRegistry_objectURL (template_text ps) kind digest defver =
    filled [''kind'' \<mapsto> kind, ''urn_hash'' \<mapsto> digest, ''version'' \<mapsto> string_of_nat (unat defver)] ps"
proof -
  have names: "placeholder_name ''kind''" "placeholder_name ''urn_hash''" "placeholder_name ''version''"
    by (simp_all add: placeholder_name_def lower_letter_def)
  have "replace_all (hole_text ''kind'') kind (filled Map.empty ps) = filled [''kind'' \<mapsto> kind] ps"
    by (rule replace_filled [OF assms(1) names(1)]) (simp_all add: brace_free_def)
  moreover have "replace_all (hole_text ''urn_hash'') digest (filled [''kind'' \<mapsto> kind] ps) =
      filled [''kind'' \<mapsto> kind, ''urn_hash'' \<mapsto> digest] ps"
    by (rule replace_filled [OF assms(1) names(2)]) (simp_all add: brace_free_def assms(2))
  moreover have "replace_all (hole_text ''version'') (string_of_nat (unat defver))
      (filled [''kind'' \<mapsto> kind, ''urn_hash'' \<mapsto> digest] ps) =
      filled [''kind'' \<mapsto> kind, ''urn_hash'' \<mapsto> digest, ''version'' \<mapsto> string_of_nat (unat defver)] ps"
    by (rule replace_filled [OF assms(1) names(3)]) (auto simp: brace_free_def ran_def assms(2,3))
  ultimately show ?thesis by (simp add: FabricRegistry_objectURL_def template_text_def)
qed

lemma objectURL_is_location:
  assumes "Charter_validate c = Inr ()" and "charter_kind c = CSRegistryKindFabric"
    and "fmlookup (charter_locations c) ''definition'' = Some t"
    and "no_braces kind" and "no_braces digest"
  shows "Charter_locationNamed c ''definition''
      (fmap_of_list [(''kind'', kind), (''urn_hash'', digest), (''version'', string_of_nat (unat defver))]) =
    Inr (FabricRegistry_objectURL t kind digest defver)"
    (is "Charter_locationNamed c _ ?vs = _")
proof -
  have "template_for [''kind'', ''urn_hash'', ''version''] t"
    using assms(1-3) by (auto simp: Charter_validate_iff charter_ok_def)
  then obtain ps where ps: "list_all piece_ok ps" "template_text ps = t"
      "set (holes ps) = {''kind'', ''urn_hash'', ''version''}" by (auto simp: template_for_def)
  have lookup: "fmlookup ?vs = [''kind'' \<mapsto> kind, ''urn_hash'' \<mapsto> digest, ''version'' \<mapsto> string_of_nat (unat defver)]"
    by (auto simp: fmlookup_of_list)
  have "brace_free (fmlookup ?vs)"
    unfolding lookup by (auto simp: brace_free_def ran_def assms(4,5) number_no_braces)
  moreover have "fmdom' ?vs = set (holes ps)"
    by (simp add: ps(3) fmdom'_alt_def fset_of_list.rep_eq)
  ultimately have "Charter_locationNamed c ''definition'' ?vs = Inr (filled (fmlookup ?vs) ps)"
    by (intro locationNamed_filled [OF assms(3) ps(1,2)])
  then show ?thesis using objectURL_filled [OF ps(1) assms(4,5)] ps(2) lookup by simp
qed

section \<open>Stored and found again\<close>

lemma read_valid: "Charter_charterWithData decode bs = Inr c \<Longrightarrow> Charter_validate c = Inr ()"
  by (auto simp: Charter_charterWithData_def on_ok_Inr split: option.splits json.splits if_splits)

lemma stored_valid:
  "Charter_storedInFolder decode k folder kind = Inr c \<Longrightarrow>
     Charter_validate c = Inr () \<and> charter_kind c = kind \<and> lastPathComponent folder = charter_slug c"
  by (auto simp: Charter_storedInFolder_def on_ok_Inr dest: read_valid split: option.splits if_splits)

lemma fetched_valid:
  assumes "FetchedCharter_fetchFromAnchor decode web cb anchor kind = Inr f"
  shows "Charter_charterWithData decode (fetched_body f) = Inr (fetched_charter f)"
    and "charter_anchor (fetched_charter f) = anchor" and "charter_kind (fetched_charter f) = kind"
proof -
  obtain body sg where given: "(case Charter_charterWithData decode body of
      Inl e \<Rightarrow> Inl CSCharterErrorRefused
    | Inr c \<Rightarrow>
        if charter_anchor c \<noteq> anchor then Inl CSCharterErrorRefused
        else if charter_kind c \<noteq> kind then Inl CSCharterErrorRefused
        else Inr \<lparr>fetched_charter = c, fetched_body = body, fetched_signature = sg\<rparr>) = Inr f"
    using assms unfolding FetchedCharter_fetchFromAnchor_def on_ok_Inr by blast
  then obtain c where "Charter_charterWithData decode body = Inr c"
    by (cases "Charter_charterWithData decode body") auto
  then show "Charter_charterWithData decode (fetched_body f) = Inr (fetched_charter f)"
    and "charter_anchor (fetched_charter f) = anchor" and "charter_kind (fetched_charter f) = kind"
    using given by (auto split: if_splits)
qed

lemma slug_component: "Charter_isSlug s \<Longrightarrow> component s"
  by (auto simp: Charter_isSlug_def component_def slash_def lower_or_digit_def lower_letter_def
      is_digit_def list_all_iff split: list.splits)

lemma charter_files [simp]: "component CSCharterFile" "component CSCharterSigFile"
  by (simp_all add: component_def slash_def CSCharterFile_def CSCharterSigFile_def)

abbreviation charter_path :: "string \<Rightarrow> string" where
  "charter_path folder \<equiv> stringByAppendingPathComponent folder CSCharterFile"

abbreviation signature_path :: "string \<Rightarrow> string" where
  "signature_path folder \<equiv> stringByAppendingPathComponent folder CSCharterSigFile"

lemma paths_differ: "charter_path d \<noteq> signature_path d'"
proof
  assume "charter_path d = signature_path d'"
  then have "lastPathComponent (charter_path d) = lastPathComponent (signature_path d')" by simp
  then have "CSCharterFile = CSCharterSigFile" by simp
  then show False by (simp add: CSCharterFile_def CSCharterSigFile_def)
qed

lemma stored_disk:
  assumes "FetchedCharter_storeInFolder f folder k = (k', Inr ())"
  shows "k' = k\<lparr>disk_files := (disk_files k)
      (charter_path folder \<mapsto> fetched_body f, signature_path folder \<mapsto> fetched_signature f)\<rparr>"
    and "lastPathComponent folder = charter_slug (fetched_charter f)"
  using assms by (auto simp: FetchedCharter_storeInFolder_def CSWriteAtomic_def split: if_splits prod.splits bool.splits)

lemma stored_read_back:
  assumes "FetchedCharter_storeInFolder f folder k = (k', Inr ())"
    and "Charter_charterWithData decode (fetched_body f) = Inr (fetched_charter f)"
  shows "Charter_storedInFolder decode k' folder (charter_kind (fetched_charter f)) = Inr (fetched_charter f)"
  using stored_disk [OF assms(1)] assms(2) paths_differ [of folder folder]
  by (simp add: Charter_storedInFolder_def file_exists_def)

text \<open>Files elsewhere do not matter to a folder.\<close>

lemma folder_of_path:
  assumes "component m" and "component n" and "component f" and "component g"
    and "stringByAppendingPathComponent (stringByAppendingPathComponent dir m) f =
      stringByAppendingPathComponent (stringByAppendingPathComponent dir n) g"
  shows "m = n"
proof -
  have strip: "strip_slashes (stringByAppendingPathComponent dir x) = stringByAppendingPathComponent dir x"
      if "component x" for x
    using strip_slashes_component [OF that, of "[]"] strip_slashes_component [OF that, of "strip_slashes dir @ [slash]"]
    by (simp add: stringByAppendingPathComponent_def)
  have nonempty: "stringByAppendingPathComponent dir x \<noteq> []" if "component x" for x
    using that by (auto simp: stringByAppendingPathComponent_def component_def)
  have "f = g"
    using lastPathComponent_append [OF assms(3)] lastPathComponent_append [OF assms(4)] assms(5) by metis
  then have "stringByAppendingPathComponent dir m = stringByAppendingPathComponent dir n"
    using assms strip nonempty by (simp add: stringByAppendingPathComponent_def [of "stringByAppendingPathComponent dir _"])
  then show ?thesis using append_component_inject [OF assms(1,2)] by simp
qed

lemma stored_among_Some:
  "stored_among decode k dir anchor kind names = Some (c, folder) \<Longrightarrow>
     charter_anchor c = anchor \<and> Charter_storedInFolder decode k folder kind = Inr c"
  by (induction names) (auto simp: Let_def split: if_splits sum.splits)

text \<open>A folder that is the only one to change is the one that is found.\<close>

lemma stored_among_new:
  assumes "stored_among decode k dir anchor kind names = None" and "n \<in> set names"
    and "\<And>m. m \<in> set names \<Longrightarrow> m \<noteq> n \<Longrightarrow>
      (file_exists k' (charter_path (stringByAppendingPathComponent dir m)) =
        file_exists k (charter_path (stringByAppendingPathComponent dir m))) \<and>
      Charter_storedInFolder decode k' (stringByAppendingPathComponent dir m) kind =
        Charter_storedInFolder decode k (stringByAppendingPathComponent dir m) kind"
    and "file_exists k' (charter_path (stringByAppendingPathComponent dir n))"
    and "Charter_storedInFolder decode k' (stringByAppendingPathComponent dir n) kind = Inr c"
    and "charter_anchor c = anchor"
  shows "stored_among decode k' dir anchor kind names = Some (c, stringByAppendingPathComponent dir n)"
  using assms(1-3)
proof (induction names)
  case (Cons m names)
  show ?case
  proof (cases "m = n")
    case True
    then show ?thesis using assms(4-6) by (simp add: Let_def)
  next
    case False
    have "stored_among decode k dir anchor kind names = None"
      using Cons.prems(1) by (auto simp: Let_def split: if_splits sum.splits)
    then have "stored_among decode k' dir anchor kind names = Some (c, stringByAppendingPathComponent dir n)"
      using Cons False by simp
    then show ?thesis
      using Cons.prems(1) Cons.prems(3) [of m] False by (auto simp: Let_def split: if_splits sum.splits)
  qed
qed simp

text \<open>C25: A fabric registry's charter is fetched once.  What is resolved is a charter of the anchor that
  was asked for, of a fabric registry, whose shape was checked.  Once it was resolved, resolving it again
  on the disk that results gives the same charter, whatever the network answers, and leaves the disk as
  it is, provided the system lists the folder it was stored in.\<close>

theorem charter_resolved_once:
  assumes "FabricRegistry_resolveCharter decode web cb anchor dir k = (k', Inr c)"
    and "list_all component (disk_names k dir)" and "charter_slug c \<in> set (disk_names k dir)"
  shows "charter_anchor c = anchor \<and> charter_kind c = CSRegistryKindFabric \<and> Charter_validate c = Inr () \<and>
    FabricRegistry_resolveCharter decode web' cb' anchor dir k' = (k', Inr c)"
proof (cases "Charter_storedUnder decode k dir anchor CSRegistryKindFabric")
  case (Some found)
  then obtain folder where f: "found = (c, folder)" and k: "k' = k"
    using assms(1) by (auto simp: FabricRegistry_resolveCharter_def split: prod.splits)
  have "charter_anchor c = anchor" "Charter_storedInFolder decode k folder CSRegistryKindFabric = Inr c"
    using Some f stored_among_Some [of decode k dir anchor CSRegistryKindFabric _ c folder]
    by (auto simp: Charter_storedUnder_def)
  then show ?thesis
    using Some f k stored_valid [of decode k folder CSRegistryKindFabric c]
    by (simp add: FabricRegistry_resolveCharter_def)
next
  case None
  let ?folder = "stringByAppendingPathComponent dir (charter_slug c)"
  obtain f where f: "FetchedCharter_fetchFromAnchor decode web cb anchor CSRegistryKindFabric = Inr f"
      "fetched_charter f = c" "FetchedCharter_storeInFolder f ?folder k = (k', Inr ())"
    using assms(1) None by (auto simp: FabricRegistry_resolveCharter_def split: sum.splits prod.splits)
  note fetched = fetched_valid [OF f(1), unfolded f(2)]
  have valid: "Charter_validate c = Inr ()" using read_valid fetched(1) by blast
  then have slug: "component (charter_slug c)"
    by (auto simp: Charter_validate_iff charter_ok_def intro: slug_component)
  have found_again: "Charter_storedInFolder decode k' ?folder CSRegistryKindFabric = Inr c"
    using stored_read_back [OF f(3)] fetched f(2) by simp
  have disk: "k' = k\<lparr>disk_files := (disk_files k)
      (charter_path ?folder \<mapsto> fetched_body f, signature_path ?folder \<mapsto> fetched_signature f)\<rparr>"
    by (rule stored_disk(1) [OF f(3)])
  let ?at = "stringByAppendingPathComponent dir"
  have same: "disk_files k' (stringByAppendingPathComponent (?at m) x) =
      disk_files k (stringByAppendingPathComponent (?at m) x)"
    if "m \<in> set (disk_names k dir)" "m \<noteq> charter_slug c" "component x" for m x
  proof -
    have "component m" using that(1) assms(2) by (simp add: list_all_iff)
    then have "stringByAppendingPathComponent (?at m) x \<noteq> charter_path ?folder"
      "stringByAppendingPathComponent (?at m) x \<noteq> signature_path ?folder"
      using that(2,3) slug folder_of_path [of m "charter_slug c" x] charter_files by blast+
    then show ?thesis by (simp add: disk)
  qed
  let ?names = "sort_by compare_linorder (disk_names k dir)"
  have other: "file_exists k' (charter_path (?at m)) = file_exists k (charter_path (?at m)) \<and>
      Charter_storedInFolder decode k' (?at m) CSRegistryKindFabric =
        Charter_storedInFolder decode k (?at m) CSRegistryKindFabric"
    if "m \<in> set ?names" "m \<noteq> charter_slug c" for m
    using same [of m CSCharterFile] same [of m CSCharterSigFile] that
    by (simp add: Charter_storedInFolder_def file_exists_def cong: option.case_cong)
  have there: "file_exists k' (charter_path ?folder)"
    by (simp add: file_exists_def disk)
  have "stored_among decode k' dir anchor CSRegistryKindFabric ?names = Some (c, ?folder)"
    by (rule stored_among_new [OF _ _ other there found_again fetched(2)])
      (use None assms(3) in \<open>simp_all add: Charter_storedUnder_def\<close>)
  then have "Charter_storedUnder decode k' dir anchor CSRegistryKindFabric = Some (c, ?folder)"
    by (simp add: Charter_storedUnder_def disk)
  then show ?thesis
    using fetched valid by (simp add: FabricRegistry_resolveCharter_def)
qed

definition fresh_disk :: disk where
  "fresh_disk = \<lparr>disk_files = Map.empty, disk_names = (\<lambda>_. [''fab'']), may_create = (\<lambda>_. True),
     may_write = (\<lambda>_. True)\<rparr>"

definition charter_web :: "string \<Rightarrow> web_answer" where
  "charter_web url = Answered 200 (the (bytes_of_json (charter_json fabric_charter)))"

definition cached_disk :: disk where
  "cached_disk =
     fst (FabricRegistry_resolveCharter json_of_bytes charter_web 0 ''https://f.example'' ''/cache'' fresh_disk)"

lemma fabric_charter_read:
  "Charter_charterWithData json_of_bytes (the (bytes_of_json (charter_json fabric_charter))) =
     Inr fabric_charter"
proof -
  have "plain (charter_json fabric_charter)"
    by code_simp
  then obtain bs where bs: "bytes_of_json (charter_json fabric_charter) = Some bs"
      "json_of_bytes bs = Some (charter_json fabric_charter)"
    unfolding charter_json_def using texts.encodes texts.decodes by blast
  have "sound_charter fabric_charter" by code_simp
  then have "Charter_charterWithDictionary (Charter_dictionaryRepresentation fabric_charter) = Inr fabric_charter"
    by (rule charter_reads_back)
  moreover have "fmlookup (Charter_dictionaryRepresentation fabric_charter) ''format'' =
      Some (JSON_string CSCharterFormat)" by code_simp
  ultimately show ?thesis
    using bs fabric_charter_valid by (simp add: Charter_charterWithData_def charter_json_def)
qed

theorem charter_resolved_once_witness:
  "FabricRegistry_resolveCharter json_of_bytes charter_web 0 ''https://f.example'' ''/cache'' fresh_disk =
     (cached_disk, Inr fabric_charter) \<and>
   FabricRegistry_resolveCharter json_of_bytes (\<lambda>_. No_answer) 7 ''https://f.example'' ''/cache'' cached_disk =
     (cached_disk, Inr fabric_charter)"
proof
  have parts: "charter_anchor fabric_charter = ''https://f.example''" "charter_slug fabric_charter = ''fab''"
    "charter_kind fabric_charter = CSRegistryKindFabric" by code_simp+
  have "FetchedCharter_fetchFromAnchor json_of_bytes charter_web 0 ''https://f.example'' CSRegistryKindFabric =
      Inr \<lparr>fetched_charter = fabric_charter,
        fetched_body = the (bytes_of_json (charter_json fabric_charter)),
        fetched_signature = the (bytes_of_json (charter_json fabric_charter))\<rparr>"
    by (simp add: FetchedCharter_fetchFromAnchor_def FetchedCharter_fetch_def charter_web_def
        fabric_charter_read parts)
  moreover have "component ''fab''" by (simp add: component_def slash_def)
  ultimately have "\<exists>k. FabricRegistry_resolveCharter json_of_bytes charter_web 0 ''https://f.example'' ''/cache''
      fresh_disk = (k, Inr fabric_charter)"
    by (simp add: FabricRegistry_resolveCharter_def Charter_storedUnder_def fresh_disk_def file_exists_def
        FetchedCharter_storeInFolder_def CSWriteAtomic_def parts)
  then show once: "FabricRegistry_resolveCharter json_of_bytes charter_web 0 ''https://f.example'' ''/cache''
      fresh_disk = (cached_disk, Inr fabric_charter)"
    by (auto simp: cached_disk_def)
  show "FabricRegistry_resolveCharter json_of_bytes (\<lambda>_. No_answer) 7 ''https://f.example'' ''/cache''
      cached_disk = (cached_disk, Inr fabric_charter)"
    using charter_resolved_once [OF once, of "\<lambda>_. No_answer" 7] parts
    by (simp add: fresh_disk_def component_def slash_def)
qed

text \<open>C23: What is accepted as a charter, and that it stays one.  Data is read as a charter exactly when it is
  a JSON object with the fields of a charter and the charter keeps the shape: its format is the one this
  build reads, its anchor is an \<open>https\<close> address without a query that does not end in a slash, slug,
  environment and experiment are well written, it declares exactly the locations its kind of registry
  has, each an \<open>https\<close> address and a template of exactly the placeholders of that location, only a
  cartridge registry names a fabric, and it does not end before it was issued.  What was accepted is
  accepted again from the dictionary it is written as, and is the same charter.\<close>

theorem charter_accepted_iff:
  "(Charter_charterWithData decode bs = Inr c \<longleftrightarrow>
      (\<exists>d. decode bs = Some (JSON_object d) \<and> Charter_charterWithDictionary d = Inr c \<and> charter_ok c)) \<and>
   (Charter_charterWithData decode bs = Inr c \<longrightarrow>
      decode bs' = Some (JSON_object (Charter_dictionaryRepresentation c)) \<longrightarrow>
      Charter_charterWithData decode bs' = Inr c)"
proof -
  have format: "fmlookup d ''format'' = Some (JSON_string CSCharterFormat)"
    if "Charter_charterWithDictionary d = Inr c" "charter_ok c" for d c
    using that by (auto simp: Charter_charterWithDictionary_def on_ok_Inr charter_ok_def required_string_def
        string_field_Some split: option.splits if_splits)
  have iff: "Charter_charterWithData decode bs = Inr c \<longleftrightarrow>
      (\<exists>d. decode bs = Some (JSON_object d) \<and> Charter_charterWithDictionary d = Inr c \<and> charter_ok c)" for bs
    using format
    by (auto simp: Charter_charterWithData_def on_ok_Inr Charter_validate_iff
        split: option.splits json.splits if_splits)
  show ?thesis
    unfolding iff using charter_reads_back charter_read_sound by blast
qed

theorem charter_accepted_iff_witness:
  "Charter_charterWithData json_of_bytes (the (bytes_of_json (charter_json fabric_charter))) =
     Inr fabric_charter \<and> charter_ok fabric_charter"
proof -
  let ?bs = "the (bytes_of_json (charter_json fabric_charter))"
  have "plain (charter_json fabric_charter)" by code_simp
  then have "json_of_bytes ?bs = Some (JSON_object (Charter_dictionaryRepresentation fabric_charter))"
    using texts.encodes texts.decodes unfolding charter_json_def by fastforce
  then show ?thesis
    using charter_accepted_iff [of json_of_bytes ?bs fabric_charter ?bs] fabric_charter_read by blast
qed

end
