(* ===== verification/FabricClient.thy ===== *)
theory FabricClient
  imports FabricRules CapValidRules CharterRules
begin

text \<open>
  A program's use of the registry client, from its start on: the calls it makes, in any order, and what
  holds after them.
\<close>

section \<open>Calls\<close>

text \<open>The calls that a program makes of the client.  A definition that is added at run time is not looked
  into: the rules are kept if it names no dims.\<close>

datatype registry_call =
    Ask_cap string
  | Ask_caps "string list"
  | Ask_media string
  | Ask_dim string
  | Check_cap CSCap
  | Add_media dictionary
  | Clear_cache

definition make_call ::
    "('t, 'd) fabric_env \<Rightarrow> registry_call \<Rightarrow> CSFabricRegistry \<Rightarrow> CSFabricRegistry" where
  "make_call env call r =
     (case call of
        Ask_cap urn \<Rightarrow> fst (getCapWithUrn env r urn)
      | Ask_caps us \<Rightarrow> fst (getCapsWithUrns env r us)
      | Ask_media urn \<Rightarrow> fst (getMediaDef env r urn)
      | Ask_dim name \<Rightarrow> fst (getDim env r name)
      | Check_cap c \<Rightarrow> fst (validateCap env r c)
      | Add_media spec \<Rightarrow> (case addMediaDef (fabric_pkg env) spec r of Inl e \<Rightarrow> r | Inr r' \<Rightarrow> r')
      | Clear_cache \<Rightarrow> clearCache r)"

definition names_no_dims :: "registry_call \<Rightarrow> bool" where
  "names_no_dims call \<longleftrightarrow>
     (case call of Add_media spec \<Rightarrow> DimRef_refsFromField (fmlookup spec ''dims'') = Inr [] | _ \<Rightarrow> True)"

lemma addMediaDef_ok:
  assumes "registry_ok r" and "DimRef_refsFromField (fmlookup spec ''dims'') = Inr []"
    and "addMediaDef pkg spec r = Inr r'"
  shows "registry_ok r'"
proof -
  have inserted: "registry_ok (insertMediaDefInMemory pkg s r)"
    if "fmlookup s ''dims'' = fmlookup spec ''dims''" for s
    using that assms(2) insertMediaDef_ok(1) [OF assms(1), of s pkg]
    by (simp add: spec_resolves_def dims_resolve_def)
  have pinned: "registry_ok (q\<lparr>manifestMedia := m\<rparr>) = registry_ok q" for q m
    by (simp add: registry_ok_def dims_cached_def index_ok_def dims_valid_def)
  show ?thesis using assms(1,3) inserted pinned
    by (auto simp: addMediaDef_def Let_def split: option.splits json.splits sum.splits if_splits)
qed

lemma clearCache_ok: "registry_ok (clearCache r)"
  by (simp add: clearCache_def registry_ok_def dims_cached_def index_ok_def dims_valid_def)

lemma make_call_ok:
  assumes "registry_ok r" and "names_no_dims call"
  shows "registry_ok (make_call env call r)"
proof (cases call)
  case (Ask_cap urn)
  then show ?thesis using cap_outcome_ok [OF getCap_outcome [OF assms(1) prod.collapse [symmetric]]]
    by (simp add: make_call_def)
next
  case (Ask_caps us)
  then show ?thesis using getCaps_ok [OF assms(1) prod.collapse [symmetric]]
    by (simp add: make_call_def)
next
  case (Ask_media urn)
  then show ?thesis using keeps_ok [OF getMediaDef_keeps [OF assms(1) prod.collapse [symmetric]]]
    by (simp add: make_call_def)
next
  case (Ask_dim name)
  then show ?thesis using keeps_ok [OF getDim_keeps [OF assms(1) prod.collapse [symmetric]]]
    by (simp add: make_call_def)
next
  case (Check_cap c)
  then show ?thesis using validateCap_ok [OF assms(1) prod.collapse [symmetric]]
    by (simp add: make_call_def)
next
  case (Add_media spec)
  then show ?thesis using assms addMediaDef_ok
    by (auto simp: make_call_def names_no_dims_def split: sum.splits)
next
  case Clear_cache
  then show ?thesis by (simp add: make_call_def clearCache_ok)
qed

lemma registry_calls_ok:
  "registry_ok r \<Longrightarrow> list_all names_no_dims calls \<Longrightarrow> registry_ok (foldl (\<lambda>s c. make_call env c s) r calls)"
  by (induction calls arbitrary: r) (simp_all add: make_call_ok)

section \<open>A registry for the witnesses\<close>

definition page_dim :: CSStoredDim where
  "page_dim = \<lparr>dim_name = ''size'', dim_version = 1, dim_title = ''Size'', dim_documentation = ''Of a page.'',
     dim_values = [\<lparr>dimValue_name = ''a4'', dimValue_title = ''A4'',
       dimValue_tags = [\<lparr>dimTag_key = ''iso'', dimTag_value = ''216''\<rparr>], dimValue_documentation = None,
       dimValue_mediaType = None, dimValue_extensions = []\<rparr>]\<rparr>"

definition sized_cap :: CSCap where
  "sized_cap = extract_definition\<lparr>cap_version := 1, cap_dims := [\<lparr>ref_dim = ''size'', ref_value = ''a4''\<rparr>]\<rparr>"

definition extract_name :: string where
  "extract_name = (case CapUrn_toString text_urns extract_cap of Inr s \<Rightarrow> s | Inl e \<Rightarrow> [])"

definition media_json :: "string \<Rightarrow> string \<Rightarrow> json" where
  "media_json urn ext = JSON_object (fmap_of_list
     [(''urn'', JSON_string urn), (''version'', JSON_int 1), (''extensions'', JSON_array [JSON_string ext])])"

definition small_manifest :: json where
  "small_manifest = JSON_object (fmap_of_list
     [(''version'', JSON_int 1), (''dims'', JSON_object (fmap_of_list [(''size'', JSON_int 1)])),
      (''caps'', JSON_object (fmap_of_list [(extract_name, JSON_int 1)])),
      (''media'', JSON_object (fmap_of_list [(''media:pdf'', JSON_int 1), (''media:text'', JSON_int 1)]))])"

definition small_decode :: "byte list \<Rightarrow> json option" where
  "small_decode bs =
     (if bs = [1] then Some small_manifest
      else if bs = [2] then
        (case Cap_toDictionary text_urns sized_cap of Inr d \<Rightarrow> Some (JSON_object d) | Inl e \<Rightarrow> None)
      else if bs = [3] then Some (media_json ''media:pdf'' ''.PDF'')
      else if bs = [4] then Some (media_json ''media:text'' ''txt'')
      else if bs = [5] then Some (JSON_object (StoredDim_toDictionary page_dim))
      else None)"

definition small_web :: "string \<Rightarrow> web_answer" where
  "small_web url =
     (if hasPrefix url ''https://f.example/caps/'' then Answered 200 [2]
      else if hasPrefix url ''https://f.example/media/media:pdf'' then Answered 200 [3]
      else if hasPrefix url ''https://f.example/media/'' then Answered 200 [4]
      else if hasPrefix url ''https://f.example/dims/'' then Answered 200 [5]
      else Answered 200 [1])"

definition small_env :: "(text_urn, text_delta) fabric_env" where
  "small_env = \<lparr>fabric_pkg = text_urns, fabric_decode = small_decode, fabric_web = small_web,
     fabric_digest = (\<lambda>s. s), dim_file_written = (\<lambda>_ _. True)\<rparr>"

definition no_files :: cache_files where
  "no_files = \<lparr>cap_files = [], media_files = [], alias_files = [], dim_files = [], manifest_file = None\<rparr>"

abbreviation small_start :: "registry_error + CSFabricRegistry" where
  "small_start \<equiv>
     FabricRegistry_initWithCharter small_env (\<lambda>_ _. False) no_files sorted_list_of_fset fabric_charter 1 True"

lemma small_started: "(case small_start of Inr r \<Rightarrow> manifestVersion r = 1 | Inl e \<Rightarrow> False)"
  by code_simp

lemma small_cap_given:
  "(case small_start of
      Inr r \<Rightarrow>
        (case getCapWithUrn small_env r extract_name of
           (r', Inr c) \<Rightarrow> cap_dims c \<noteq> [] \<and> normalizeCapUrn text_urns extract_name = cap_key text_urns c
         | _ \<Rightarrow> False)
    | Inl e \<Rightarrow> False)"
  by code_simp

section \<open>What a program can rely on\<close>

text \<open>C26: The client keeps its rules. From a start that succeeds, and whatever calls follow, every cap and
  every media definition that is held has the dims it names held too, with the values it names; every
  media definition is found under each of its extensions and no URN is listed twice under one; and every
  dim is valid and held under its own name. The one condition is on the definitions that are added at run
  time, which must name no dims: they are not looked into.\<close>

theorem registry_consistent:
  assumes "FabricRegistry_initWithCharter env expired files order charter version bootstrap = Inr r"
    and "brings_all_keys order" and "list_all names_no_dims calls"
  shows "registry_ok (foldl (\<lambda>s call. make_call env call s) r calls)"
  using assms init_filtered filter_ok(1) registry_calls_ok by metis

lemma some_enumeration: "brings_all_keys sorted_list_of_fset"
  by (simp add: brings_all_keys_def)

lemma small_starts: "\<exists>r. small_start = Inr r"
  using small_started by (auto split: sum.splits)

theorem registry_consistent_witness:
  "\<exists>r. small_start = Inr r \<and>
     registry_ok (foldl (\<lambda>s call. make_call small_env call s) r [Ask_cap extract_name, Clear_cache, Ask_dim ''size''])"
proof -
  obtain r where r: "small_start = Inr r" using small_starts by blast
  show ?thesis
    using registry_consistent [OF r some_enumeration,
        of "[Ask_cap extract_name, Clear_cache, Ask_dim ''size'']"] r
    by (simp add: names_no_dims_def)
qed



lemma getCap_held:
  assumes "getCap_urn env r urn = (r', Inr c)"
    and "normalizeCapUrn (fabric_pkg env) urn = cap_key (fabric_pkg env) c"
  shows "\<exists>k. normalizeCapUrn (fabric_pkg env) urn = Inr k \<and> fmlookup (cachedCaps r') k = Some c"
  using assms
  by (auto simp: getCap_urn_def fetchCapAtomic_def split: sum.splits option.splits prod.splits)



end
