(* ===== verification/Spec2Isabelle.thy ===== *)
theory Spec2Isabelle
  imports PoolsSystem Exec RequestLife CreditLink FabReach Adapters PlanChain PrintCaps PrintBifaci
    CapMatcher Messages Dims CapManifestRules LeanRuntime FabricClient
begin

text \<open>
  A verification development for capdag-objc.

  \<^bold>\<open>The program.\<close>  CapDAG describes capabilities (caps) by tagged URNs, finds and ranks the cap that
  serves a request, plans chains of caps that turn one medium into another, and runs caps in
  cartridges that talk over a framed, flow-controlled protocol (Bifaci).  It has two layers that are
  modelled here.  The decisions everything relies on are C functions under
  \<^verbatim>\<open>src/Formal/CapDAGFormalProgram/program/modules\<close>, translated from Lean: which URN refines which, which
  cap serves which request, how credit, reordering, pools and request life cycles behave.  The
  Objective-C classes under \<^verbatim>\<open>src/Sources/CapDAG\<close> keep the graph of installed caps, find paths in it,
  bind arguments, and build, check and order execution plans; they ask the C layer whenever two URNs
  are compared.

  \<^bold>\<open>Reading the C.\<close>  A constructor application is a heap object with a tag (\<open>lungo_alloc_ctor\<close>,
  \<open>lungo_obj_tag\<close>): a \<open>datatype\<close> constructor, or a \<open>record\<close> when there is one constructor.  The header
  \<^verbatim>\<open>include/capdagFormal.h\<close> names the constructors and fields, in tag order.  Enumerations are bytes.
  Lean's \<open>Nat\<close> and \<open>Int\<close> are unbounded (\<open>nat\<close>, \<open>int\<close>; subtraction on \<open>Nat\<close> stops at zero), \<open>String\<close> is the
  list of the bytes of its UTF-8 encoding, compared lexicographically.  Where the C asks
  \<open>lungo_is_exclusive\<close> it reuses an object it alone refers to instead of copying it; both branches
  build the same value, so the definitions give that value once.  A loop (\<open>goto _start\<close>) is a
  tail-recursive \<open>fun\<close> with the loop's accumulator, one per specialised loop of the C, and a test that
  returns early is an \<open>if\<close> with the same order of tests.  Reference counts, boxing and the lazily built
  constants do not change any value and have no counterpart.

  \<^bold>\<open>Reading the Objective-C.\<close>  An immutable object is a \<open>record\<close>; \<open>nil\<close> is \<open>None\<close>; a method that fills an
  \<open>NSError\<close> and returns \<open>nil\<close> or \<open>NO\<close> returns \<open>Inl\<close> of the error; an enumeration is a \<open>datatype\<close>; a mutable
  dictionary is a finite map.  The order in which a dictionary is enumerated is not documented: every
  operation that depends on it takes the enumeration as an argument, and its theorems hold for all of
  them.  What belongs to other packages is an argument too: the tagged URN package (\<open>tagged_urn_api\<close>),
  the random text of a minted token, the answers of the network, digests, JSON serialisation.

  \<^bold>\<open>Theories\<close>, in the order they build on each other:

  \<^item> \<open>Prelude\<close>: the locales of the program's loops (scan, find, filter, map, fold), interpreted
    wherever a loop is defined, and the collections of simplification rules.  \<open>Numerals\<close>: decimal
    numerals.
  \<^item> \<open>LeanList\<close>: the core library's list, pair and option functions the program contains
    (\<^verbatim>\<open>Init-Prelude.c\<close>, \<^verbatim>\<open>Init-Data-List-Basic.c\<close>, \<^verbatim>\<open>Init-Core.c\<close>, ...), as HOL's.
  \<^item> \<open>Credit\<close> (\<^verbatim>\<open>CapDAG-Bifaci-Credit.c\<close>): the sender's gate, the receiver's window, negotiation and the
    target of a grant.  \<open>CreditLink\<close> puts both ends on a wire as a step relation: credit is
    conserved, no chunk is a violation, the sender never starves.
  \<^item> \<open>Flow\<close> (\<^verbatim>\<open>CapDAG-Bifaci-Flow.c\<close>): frame types and their codes, the reorder buffer.  A run of
    arrivals delivers an initial segment of the flow in order; with room it delivers all of it.
  \<^item> \<open>Pools\<close> (\<^verbatim>\<open>CapDAG-Bifaci-Pools.c\<close>): named pools with capacities, the queue of calls, admission,
    settling, chains and limits.  \<open>PoolsSystem\<close> adds the running calls: the counters are exact,
    limits hold, settling is complete, admission is fair, nothing deadlocks.
  \<^item> \<open>Request\<close> (\<^verbatim>\<open>CapDAG-Bifaci-Request.c\<close>): the grammar of emitted frames, the table of requests,
    dispositions and writing.  \<open>RequestLife\<close> states the grammar on its own and shows that the
    checker decides it and diagnoses the first violation, and that requests end once.
  \<^item> \<open>Constraint\<close>, \<open>Urn\<close>, \<open>UrnMerge\<close> (\<^verbatim>\<open>TaggedUrn-Constraint.c\<close>, \<^verbatim>\<open>TaggedUrn-Urn.c\<close>,
    \<^verbatim>\<open>TaggedUrn-Sorted.c\<close>, \<^verbatim>\<open>TaggedUrn-Exec.c\<close>): constraints as sets of key states, URNs as sets of
    assignments, refinement as inclusion and meeting as intersection, and the single pass over
    sorted tags that decides them.
  \<^item> \<open>Cap\<close>, \<open>Query\<close>, \<open>Ranking\<close>, \<open>Exec\<close> (\<^verbatim>\<open>CapDAG-Cap.c\<close>, \<^verbatim>\<open>CapDAG-Query.c\<close>, \<^verbatim>\<open>CapDAG-Route.c\<close>,
    \<^verbatim>\<open>CapDAG-Ranking.c\<close>, \<^verbatim>\<open>CapDAG-Exec.c\<close>): caps and their kinds, queries and grades, selection, and
    the exported functions over well-formed values, equal to their references.
  \<^item> \<open>Printing\<close> (\<^verbatim>\<open>Init-Data-Repr.c\<close>, \<^verbatim>\<open>Init-Data-Format-*.c\<close>, \<^verbatim>\<open>Init-Meta-Defs.c\<close>): numerals, quoted strings and
    the documents printing builds; \<open>Layouts\<close>: what a document can look like and when two can look the
    same; \<open>PrintCaps\<close>, \<open>PrintBifaci\<close>: the \<open>Repr\<close> instance of every type of the program, and that what it
    prints can be read back.
  \<^item> \<open>LeanRuntime\<close> (\<^verbatim>\<open>Init-System-*.c\<close>, \<^verbatim>\<open>Init-Data-Random.c\<close>, \<^verbatim>\<open>Init-Data-ByteArray-*.c\<close>, \<^verbatim>\<open>Init-Util.c\<close>):
    errors of input and output and their texts, panics, the seeding of the random generator.
  \<^item> \<open>Foundation\<close>: what the Objective-C classes use of their framework (enumeration orders, stable
    sorting by a comparator, lower case).
  \<^item> \<open>MediaUrn\<close> (\<^verbatim>\<open>Urn/CSMediaUrn.m\<close>): media URNs over the tagged URN package, and the C layer as one
    instance of that package.
    \<open>Package\<close>: the rest of the package's interface and of the operations of media URNs.
  \<^item> \<open>CapUrn\<close> (\<^verbatim>\<open>Urn/CSCapUrn.m\<close>): how a cap is made and what is refused, reading, editing, merging,
    printing, archiving, comparing, the runtime output and its audit; \<open>CapQuery\<close> (\<^verbatim>\<open>Urn/CSCapQuery.m\<close>):
    questions about caps.  \<open>CapLaws\<close>: what this asks of the package, and the caps that are made;
    \<open>TextUrns\<close>: a package of which it holds; \<open>CapRules\<close>: the round trips, the invariant of the
    operations, the kind, and that a dispatched cap takes and gives what its request says.
  \<^item> \<open>CapMatcher\<close> (\<^verbatim>\<open>Cap/CSCapMatcher.m\<close>): the caps a request accepts, in order, and the best of them.
  \<^item> \<open>Packets\<close> (\<^verbatim>\<open>CSPacket.m\<close>): framing by a 32-bit length; what is written is read back whole and
    nothing else is.  \<open>Json\<close>: JSON values and the contract of a class with a JSON form; \<open>TextJson\<close>:
    what is relied on of a JSON serialization, and one that keeps it.  \<open>Messages\<close> (\<^verbatim>\<open>CSMessage.m\<close>):
    message envelopes, and that they arrive through packets as they were sent.
  \<^item> \<open>Dims\<close> (\<^verbatim>\<open>Cap/CSDim.m\<close>): fabric dims and references to them, read, written and validated.
  \<^item> \<open>CapDef\<close> (\<^verbatim>\<open>Cap/CSCap.m\<close>): cap definitions, with their arguments, sources and outputs, how they
    are made, read, written, edited and asked; \<open>CapDefRules\<close>: that they survive being stored.
    \<open>CapValidator\<close> (\<^verbatim>\<open>Cap/CSCapValidator.m\<close>): the checks of a definition, in order; \<open>CapValidRules\<close>: the
    rules they stand for, and that a cap which keeps them never stops the program.
  \<^item> \<open>CapManifest\<close> (\<^verbatim>\<open>Cap/CSCapManifest.m\<close>, \<^verbatim>\<open>Cap/CSCartridgeCaps.m\<close>): what a cartridge says of itself and its
    caps; \<open>CapManifestRules\<close>: that it arrives as it was advertised, and gets the identity cap once.
  \<^item> \<open>Paths\<close>: the path and text functions of the framework.  \<open>Charter\<close> (\<^verbatim>\<open>CSCharter.m\<close>): charters of
    registries, read, checked, filled in, fetched and stored; \<open>CharterRules\<close>: what is accepted, that
    every location of it can be filled in, and that it is fetched once.
  \<^item> \<open>FabricRegistry\<close> (\<^verbatim>\<open>Cap/CSFabricRegistry.m\<close>): the client of a registry that is pinned to a manifest, what
    it holds, looks up and fetches.  \<open>FabricRules\<close>: what every operation keeps; \<open>FabricClient\<close>: that
    this holds after any calls, that what is held after the start is of the pinned versions, and that a
    cap is held whole or not at all.
  \<^item> \<open>Fab\<close> (\<^verbatim>\<open>Planner/CSLiveCapFab.m\<close>): the graph of installed caps, outgoing
    edges, the search for paths and for reachable targets.  \<open>FabPaths\<close>: the paths found are the
    routes there are, ordered; \<open>FabReach\<close>: the targets reported are exact.
  \<^item> \<open>Adapters\<close> (\<^verbatim>\<open>InputResolver/CSMediaAdapters.m\<close>): the registry of content inspection adapters.
  \<^item> \<open>Shapes\<close> (\<^verbatim>\<open>Planner/CSCardinality.m\<close>): cardinality and structure of the data in a strand.
  \<^item> \<open>Arguments\<close> (\<^verbatim>\<open>Planner/CSArgumentBinding.m\<close>): what an argument is bound to and how it is resolved.
  \<^item> \<open>Plan\<close> (\<^verbatim>\<open>Planner/CSPlan.m\<close>): nodes, edges, building, validation, maps, ordering, ready-made plans.
    \<open>PlanOrder\<close>: an order is found exactly when there is no cycle, and is a topological one;
    \<open>PlanValid\<close>: validation accepts exactly the well-formed plans; \<open>PlanChain\<close>: the tables of a plan
    agree, and a chain of caps runs in order.
  \<^item> this theory: the properties that span components.

  \<^bold>\<open>Interfaces.\<close>  \<open>credit_ends\<close> (what the argument about a stream needs of gate and window),
  \<open>draining\<close> (an admission loop with fuel), \<open>tag_pass\<close> (a merge over sorted tags), \<open>comparison\<close> (a
  preorder), \<open>selection\<close> (a fold that keeps the best), \<open>comparator\<close> (a comparator that sorts) and
  \<open>readable\<close> (a printing function whose values can be told apart, with \<open>derived\<close>, \<open>option_printer\<close>,
  \<open>pair_printer\<close> and \<open>list_printer\<close>, each of which gives it again) are locales, each interpreted on
  the definitions of the code.  What media and cap URNs ask of the tagged URN package is
  \<open>tagged_urns\<close>, \<open>decided_urns\<close> and \<open>urn_package\<close>, interpreted on the C layer's URNs and on \<open>text_urns\<close>;
  what messages ask of the JSON serialization is \<open>json_text\<close>, and a class with a JSON form is a
  \<open>json_form\<close>, or an \<open>exact_form\<close> if nothing else is read as one of its objects.

  \<^bold>\<open>Fuel.\<close>  The only function with fuel is \<open>State_settleWithin\<close>, as in the code, which gives it the
  length of the queue; \<open>State_settle_complete\<close> shows this is enough, since every admission takes a
  waiter out of the queue.  \<open>Nat_toDigitsCore\<close> is given one step more than the number it prints.  The
  loops of the Objective-C sources end by measures: a path is bounded by its depth, the breadth-first
  search by its universe of keys, the worklists of a plan by its nodes.

  \<^bold>\<open>Environments.\<close>  \<open>CreditLink\<close>, \<open>PoolsSystem\<close> and the runs in \<open>Flow\<close> and \<open>RequestLife\<close> put the code's
  operations into the sequences of calls their callers may make (any interleaving); the states
  they add, such as the chunks in flight or the running calls, are not the code's.

  \<^bold>\<open>Not modelled.\<close>  The eliminators and the boxed wrappers Lean generates, which pass their arguments
  on; the C application interface (\<^verbatim>\<open>api/capdagFormal.c\<close>) and the boundary, which look functions up by
  signature and copy values in and out; the Lean runtime (\<^verbatim>\<open>lungo.h\<close>), whose
  arithmetic and strings are taken as the language's; the Swift transport, hosts and command line,
  which are input and output around the modelled decisions; and, of the Objective-C sources, the writing of the registry's cache files,
  the clock and requests that are under way at the same time (the network, the files and whether an entry
  has expired are arguments); validation of values against schemas, which is a JSON schema library's;
  the walk of the file system for input files and collections; the progress mapper, which computes with
  floats; and the texts of error descriptions.
\<close>

section \<open>Caps and what their URNs describe\<close>

lemma dispatch_iff:
  assumes "WfCap_ok c" and "WfCap_ok r"
  shows "Exec_dispatch c r \<longleftrightarrow>
    (instDecidableUnconstrainedMedia (wf_input r) \<or> instDecidableRefines (wf_input r) (wf_input c)) \<and>
    instDecidableRefines (wf_output c) (wf_output r) \<and>
    (wf_effect r = Effect_unspecified \<or> wf_effect c = wf_effect r) \<and>
    instDecidableRefinesClosed (wf_other c) (wf_other r)"
  using assms by (simp add: dispatch_spec Serves_iff)

lemma described_top: "described mediaTop = UNIV"
  by (simp add: described_def Urn_tag_eq mediaTop_def)

lemma refines_described: "instDecidableRefines a b \<longleftrightarrow> scheme a = scheme b \<and> described a \<subseteq> described b"
proof -
  have d: "described u = {\<sigma>. \<forall>k. allows (tag_of (tags u) k) (\<sigma> k)}" for u
    by (simp add: described_def Urn_tag_eq)
  have "described a \<subseteq> described b \<longleftrightarrow> (\<forall>k. tagMatch (tag_of (tags a) k) (tag_of (tags b) k))"
    unfolding d tagMatch_allows by (rule product_subset) (rule allows_some)
  then show ?thesis by (simp add: Refines_iff)
qed

lemma meets_described:
  "instDecidableMeets a b \<longleftrightarrow> scheme a = scheme b \<and> described a \<inter> described b \<noteq> {}"
proof -
  have d: "described u = {\<sigma>. \<forall>k. allows (tag_of (tags u) k) (\<sigma> k)}" for u
    by (simp add: described_def Urn_tag_eq)
  have "described a \<inter> described b \<noteq> {} \<longleftrightarrow> (\<forall>k. tagMeets (tag_of (tags a) k) (tag_of (tags b) k))"
    unfolding d tagMeets_allows by (rule product_inter)
  then show ?thesis by (simp add: Meets_iff)
qed

section \<open>The receiver's ledger and the sender's gate\<close>

text \<open>A sender's frames, with the size of the grant for CREDIT frames: a CHUNK goes out when
  \<open>acquire 1\<close> succeeds, a CREDIT that comes in is granted, other frames do not touch the gate.\<close>

fun gate_run :: "Gate \<Rightarrow> (FrameType \<times> nat) list \<Rightarrow> Gate option" where
  "gate_run g [] = Some g"
| "gate_run g ((f, n) # fs) =
     (if f = FrameType_chunk then
        (case Gate_acquire g 1 of Acquire_acquired g' \<Rightarrow> gate_run g' fs | _ \<Rightarrow> None)
      else if f = FrameType_credit then gate_run (Gate_grant g n) fs
      else gate_run g fs)"

lemma ledger_other: "f \<noteq> FrameType_chunk \<Longrightarrow> f \<noteq> FrameType_credit \<Longrightarrow> ledger k f n = k"
  by (cases f) (simp_all add: ledger_def)

lemma gate_run_ledger:
  assumes "gate_run g fs = Some g'" and "closed g = None"
  shows "foldl (\<lambda>k x. ledger k (fst x) (snd x)) (int (available g)) fs = int (available g')"
  using assms
proof (induction g fs rule: gate_run.induct)
  case (1 g)
  then show ?case by simp
next
  case (2 g f n fs)
  consider "f = FrameType_chunk" | "f = FrameType_credit"
    | "f \<noteq> FrameType_chunk" "f \<noteq> FrameType_credit" by blast
  then show ?case
  proof cases
    case 1
    then obtain h where h: "Gate_acquire g 1 = Acquire_acquired h" "gate_run h fs = Some g'"
      using 2(4) by (auto split: Acquire.splits)
    then have "int (available g) - 1 = int (available h)" "closed h = None"
      by (auto simp: Gate_acquire_acquired_iff of_nat_diff)
    then show ?thesis using 2(1) [OF 1 h] 1 by (simp add: ledger_def)
  next
    case f: 2
    then have run: "gate_run (Gate_grant g n) fs = Some g'" using 2(4) by simp
    have "int (available g) + int n = int (available (Gate_grant g n))"
      using 2(5) by (simp add: Gate_grant_def)
    then show ?thesis using 2(2) [OF _ f run] f 2(5) by (simp add: ledger_def)
  next
    case 3
    then show ?thesis using 2(3) [OF 3] 2(4,5) by (simp add: ledger_other)
  qed
qed

section \<open>Properties\<close>

text \<open>C4: Dispatch is sound for what the URNs describe: when the program dispatches a request to a cap
  (both well-formed), every assignment the request's input describes is one the cap's input
  describes, unless the request leaves its input open; every assignment the cap's output describes
  is one the request's output describes; and every assignment the cap's other tags describe, with
  the keys it does not name unset, satisfies the request's.\<close>

theorem dispatch_sound:
  assumes "WfCap_ok c" and "WfCap_ok r" and "Exec_dispatch c r"
  shows "(instDecidableUnconstrainedMedia (wf_input r) \<or>
      described (wf_input r) \<subseteq> described (wf_input c)) \<and>
    described (wf_output c) \<subseteq> described (wf_output r) \<and>
    (\<forall>\<sigma> \<in> described_closed (wf_other c). \<sigma> \<in> described (wf_other r))"
proof -
  have closed: "\<sigma> \<in> described b" if "instDecidableRefinesClosed a b" "\<sigma> \<in> described_closed a"
    for \<sigma> a b
    using that by (auto simp: described_closed_eq described_def RefinesClosed_iff Urn_tag_eq
        tagMatch_allows)
  show ?thesis
    using assms(3) closed unfolding dispatch_iff [OF assms(1,2)] refines_described by blast
qed

lemma dispatch_sound_witness:
  "described (wf_output wf_pdf_to_text) \<subseteq> described (wf_output wf_pdf_to_text) \<and>
   Exec_dispatch wf_pdf_to_text wf_pdf_to_text"
proof -
  have "Exec_dispatch wf_pdf_to_text wf_pdf_to_text"
    by (simp add: dispatch_iff wf_pdf_to_text_ok Refines_RefinesClosed)
  from dispatch_sound [OF wf_pdf_to_text_ok wf_pdf_to_text_ok this] this show ?thesis by blast
qed

text \<open>What may flow from one cap to the next is what their URNs describe: the first cap flows
  into the second exactly when the schemes agree and every assignment its output describes is one
  the second's input describes; it may flow exactly when the schemes agree and some assignment is
  described by both; and a cap that flows into another may flow into it.\<close>

theorem flows_sound:
  assumes "WfCap_ok a" and "WfCap_ok b"
  shows "Exec_flows a b =
      (scheme (wf_output a) = scheme (wf_input b) \<and> described (wf_output a) \<subseteq> described (wf_input b)) \<and>
    Exec_mayFlow a b =
      (scheme (wf_output a) = scheme (wf_input b) \<and>
       (\<exists>\<sigma>. \<sigma> \<in> described (wf_output a) \<and> \<sigma> \<in> described (wf_input b))) \<and>
    (Exec_flows a b \<longrightarrow> Exec_mayFlow a b)"
proof -
  have flows: "Exec_flows a b = instDecidableRefines (wf_output a) (wf_input b)"
    and may: "Exec_mayFlow a b = instDecidableMeets (wf_output a) (wf_input b)"
    using assms by (simp_all add: Exec_flows_def Exec_mayFlow_def WfCap_ok_def Exec_specs)
  have "Exec_mayFlow a b" if "Exec_flows a b" using that unfolding flows may by (rule Refines_Meets)
  then show ?thesis unfolding flows may refines_described meets_described by blast
qed

lemma flows_sound_witness:
  "Exec_flows wf_pdf_to_text (wf_pdf_to_text\<lparr>wf_input := wf_output wf_pdf_to_text\<rparr>)"
  using flows_sound [of wf_pdf_to_text "wf_pdf_to_text\<lparr>wf_input := wf_output wf_pdf_to_text\<rparr>"]
    wf_pdf_to_text_ok
  by (simp add: WfCap_ok_def)

text \<open>The ledger kept from the frames alone is the sender's gate: for a sender that sends a chunk
  only when \<open>acquire 1\<close> succeeds, adding the grants and subtracting the chunks it sent gives exactly
  the credit its gate holds, after every prefix of its frames, so that the ledger of an honest
  sender never falls below zero.\<close>

theorem ledger_is_gate:
  assumes "gate_run (Gate_opened w) (fs @ gs) = Some g"
  shows "\<exists>h. gate_run (Gate_opened w) fs = Some h \<and>
    foldl (\<lambda>k x. ledger k (fst x) (snd x)) (int w) fs = int (available h)"
proof -
  have "\<exists>h. gate_run k fs = Some h" if "gate_run k (fs @ gs) = Some g" for k
    using that
    by (induction k fs rule: gate_run.induct) (auto split: if_splits Acquire.splits)
  then obtain h where "gate_run (Gate_opened w) fs = Some h" using assms by blast
  then show ?thesis using gate_run_ledger [of "Gate_opened w" fs h] by (simp add: Gate_opened_def)
qed

lemma ledger_is_gate_witness:
  "\<exists>h. gate_run (Gate_opened 1) [(FrameType_chunk, 0), (FrameType_credit, 2)] = Some h \<and>
     foldl (\<lambda>k x. ledger k (fst x) (snd x)) (int 1) [(FrameType_chunk, 0), (FrameType_credit, 2)]
       = int (available h)"
  by (rule ledger_is_gate [where gs = "[(FrameType_chunk, 0)]"])
    (simp add: Gate_opened_def Gate_acquire_def Gate_grant_def)

end
